(* ===== verification/Prelude.thy ===== *)
theory Prelude
  imports Main
    "HOL-Library.AList"
    "HOL-Library.Char_ord"
    "HOL-Library.List_Lexorder"
    "HOL-Library.Sublist"
    "HOL-Library.Multiset"
begin

text \<open>
  What every component of the development shares: the parts of Go and of its standard
  library that the program uses (results with errors, \<^verbatim>\<open>strings\<close>, \<^verbatim>\<open>path\<close>, maps), the
  development's theorem collections, and generic lemmas about lists and association lists.

  A Go string is a \<open>string\<close> (a list of bytes).  Case mapping is the ASCII one: every string
  whose case the program folds (Azure resource ids, client ids, Kubernetes names, namespaces
  and labels) is ASCII by the validation of the platform it comes from.

  A Go \<^verbatim>\<open>map[K]V\<close> is an association list.  The order of the list stands for the order in which
  one \<^verbatim>\<open>range\<close> loop visits the entries, which Go leaves open; a lemma over all such lists is a
  lemma over all iteration orders.  \<open>wf_map\<close> says that the keys are distinct, which holds for
  every Go map.  Lookup is \<open>map_of\<close>, assignment is \<open>AList.update\<close>, \<^verbatim>\<open>delete\<close> is \<open>AList.delete\<close>.
\<close>

section \<open>Theorem collections\<close>

named_theorems go_map_simps \<open>lookup, domain and well-formedness of Go maps\<close>
named_theorems go_string_simps \<open>case folding, splitting and searching of Go strings\<close>

section \<open>Results and maps\<close>

type_synonym ('e, 'a) result = "'e + 'a"

type_synonym ('k, 'v) gomap = "('k \<times> 'v) list"

abbreviation wf_map :: "('k, 'v) gomap \<Rightarrow> bool" where
  "wf_map m \<equiv> distinct (map fst m)"

abbreviation mput :: "'k \<Rightarrow> 'v \<Rightarrow> ('k, 'v) gomap \<Rightarrow> ('k, 'v) gomap" where
  "mput \<equiv> AList.update"

abbreviation mdel :: "'k \<Rightarrow> ('k, 'v) gomap \<Rightarrow> ('k, 'v) gomap" where
  "mdel \<equiv> AList.delete"

text \<open>A map read of a missing key yields the zero value of the value type.\<close>

definition mget0 :: "'v \<Rightarrow> ('k, 'v) gomap \<Rightarrow> 'k \<Rightarrow> 'v" where
  "mget0 z m k = (case map_of m k of None \<Rightarrow> z | Some v \<Rightarrow> v)"

text \<open>Two association lists that are the same Go map.\<close>

definition same_map :: "('k, 'v) gomap \<Rightarrow> ('k, 'v) gomap \<Rightarrow> bool" where
  "same_map m m' \<longleftrightarrow> wf_map m \<and> wf_map m' \<and> map_of m = map_of m'"

section \<open>Strings\<close>

definition to_lower_char :: "char \<Rightarrow> char" where
  "to_lower_char c =
     (let n = (of_char c :: nat) in if 65 \<le> n \<and> n \<le> 90 then char_of (n + 32) else c)"

definition strings_ToLower :: "string \<Rightarrow> string" where
  "strings_ToLower s = map to_lower_char s"

definition strings_EqualFold :: "string \<Rightarrow> string \<Rightarrow> bool" where
  "strings_EqualFold s t \<longleftrightarrow> strings_ToLower s = strings_ToLower t"

fun strings_HasPrefix :: "string \<Rightarrow> string \<Rightarrow> bool" where
  "strings_HasPrefix s [] = True"
| "strings_HasPrefix [] (p # ps) = False"
| "strings_HasPrefix (c # cs) (p # ps) = (c = p \<and> strings_HasPrefix cs ps)"

fun strings_Contains :: "string \<Rightarrow> string \<Rightarrow> bool" where
  "strings_Contains [] sub = (sub = [])"
| "strings_Contains (c # cs) sub = (strings_HasPrefix (c # cs) sub \<or> strings_Contains cs sub)"

text \<open>\<^verbatim>\<open>strings.Split\<close> at a one-byte separator; \<^verbatim>\<open>Split("", sep)\<close> is the list of one empty string.\<close>

fun strings_Split :: "char \<Rightarrow> string \<Rightarrow> string list" where
  "strings_Split sep [] = [[]]"
| "strings_Split sep (c # cs) =
     (if c = sep then [] # strings_Split sep cs
      else (case strings_Split sep cs of [] \<Rightarrow> [[c]] | w # ws \<Rightarrow> (c # w) # ws))"

fun strings_Join :: "string list \<Rightarrow> string \<Rightarrow> string" where
  "strings_Join [] sep = []"
| "strings_Join [w] sep = w"
| "strings_Join (w # v # ws) sep = w @ sep @ strings_Join (v # ws) sep"

text \<open>\<^verbatim>\<open>strings.IndexByte\<close>: the position of the first occurrence, or -1.\<close>

fun index_byte_from :: "int \<Rightarrow> string \<Rightarrow> char \<Rightarrow> int" where
  "index_byte_from i [] c = -1"
| "index_byte_from i (x # xs) c = (if x = c then i else index_byte_from (i + 1) xs c)"

definition strings_IndexByte :: "string \<Rightarrow> char \<Rightarrow> int" where
  "strings_IndexByte s c = index_byte_from 0 s c"

section \<open>Lemmas on maps\<close>

lemma map_of_mput [simp, go_map_simps]: "map_of (mput k v m) = (map_of m)(k \<mapsto> v)"
  by (rule update_conv')

lemma map_of_mdel [simp, go_map_simps]: "map_of (mdel k m) = (map_of m)(k := None)"
  by (rule delete_conv')

lemma wf_map_mput [simp, intro, go_map_simps]: "wf_map m \<Longrightarrow> wf_map (mput k v m)"
  by (rule distinct_update)

lemma wf_map_mdel [simp, intro, go_map_simps]: "wf_map m \<Longrightarrow> wf_map (mdel k m)"
  by (rule distinct_delete)

lemma keys_mput [simp]: "fst ` set (mput k v m) = insert k (fst ` set m)"
  by (induction m) auto

lemma set_mput: "x \<in> set (mput k v m) \<Longrightarrow> x = (k, v) \<or> x \<in> set m"
  by (induction m) (auto split: if_splits)

lemma keys_mdel [simp]: "fst ` set (mdel k m) = fst ` set m - {k}"
  by (metis delete_keys list.set_map set_removeAll)

lemma mget0_mput [simp]: "mget0 z (mput k v m) k' = (if k' = k then v else mget0 z m k')"
  by (simp add: mget0_def)

lemma map_of_mem_iff: "wf_map m \<Longrightarrow> map_of m k = Some v \<longleftrightarrow> (k, v) \<in> set m"
  by (rule map_of_eq_Some_iff)

lemma map_of_None_iff: "map_of m k = None \<longleftrightarrow> k \<notin> fst ` set m"
  by (simp add: map_of_eq_None_iff)

lemma mput_append_fresh: "k \<notin> fst ` set m \<Longrightarrow> mput k v m = m @ [(k, v)]"
  by (induction m) auto

lemma same_map_set:
  assumes "same_map m m'"
  shows "set m = set m'"
proof -
  have "(k, v) \<in> set m \<longleftrightarrow> (k, v) \<in> set m'" for k v
    using assms map_of_mem_iff[of m k v] map_of_mem_iff[of m' k v]
    by (auto simp: same_map_def)
  then show ?thesis by auto
qed

lemma same_map_mset: "same_map m m' \<Longrightarrow> mset m = mset m'"
  using same_map_set[of m m'] set_eq_iff_mset_eq_distinct[of m m']
  by (auto simp: same_map_def distinct_map)

lemma same_map_perm: "wf_map m \<Longrightarrow> mset m' = mset m \<Longrightarrow> same_map m m'"
proof -
  assume wf: "wf_map m" and ms: "mset m' = mset m"
  from ms have "mset (map fst m') = mset (map fst m)" by simp
  with wf have wf': "wf_map m'" by (metis mset_eq_imp_distinct_iff)
  have "map_of m k = map_of m' k" for k
    using wf wf' ms by (metis map_of_eqI map_of_mem_iff mset_eq_setD option.exhaust)
  with wf wf' show ?thesis by (auto simp: same_map_def)
qed

text \<open>A \<^verbatim>\<open>range\<close> loop that writes, for an entry, at most the entry's own key of the result.\<close>

lemma fold_keyed:
  assumes "\<And>k v m. f (k, v) m = (case g k v of None \<Rightarrow> m | Some w \<Rightarrow> mput k w m)"
  shows "wf_map m \<Longrightarrow> wf_map (fold f xs m)"
    and "wf_map xs \<Longrightarrow> fst ` set xs \<inter> fst ` set m = {} \<Longrightarrow>
      map_of (fold f xs m) n = (case map_of m n of Some w \<Rightarrow> Some w | None \<Rightarrow> Option.bind (map_of xs n) (g n))"
proof -
  show "wf_map m \<Longrightarrow> wf_map (fold f xs m)"
  proof (induction xs arbitrary: m)
    case (Cons x xs)
    obtain k v where x: "x = (k, v)" by fastforce
    have "wf_map (f x m)" using Cons.prems by (auto simp: x assms split: option.splits)
    then show ?case using Cons.IH by simp
  qed simp
  show "wf_map xs \<Longrightarrow> fst ` set xs \<inter> fst ` set m = {} \<Longrightarrow>
      map_of (fold f xs m) n = (case map_of m n of Some w \<Rightarrow> Some w | None \<Rightarrow> Option.bind (map_of xs n) (g n))"
  proof (induction xs arbitrary: m)
    case Nil
    then show ?case by (cases "map_of m n") auto
  next
    case (Cons x xs)
    obtain k v where x: "x = (k, v)" by fastforce
    have dom: "fst ` set (f x m) \<subseteq> insert k (fst ` set m)"
      by (cases "g k v") (simp_all only: x assms option.case keys_mput, auto)
    have k: "k \<notin> fst ` set xs" "k \<notin> fst ` set m" using Cons.prems x by auto
    have "fst ` set xs \<inter> fst ` set (f x m) = {}"
      using dom k Cons.prems(2) unfolding list.set image_insert by blast
    from Cons.IH[OF _ this] Cons.prems(1)
    have IH: "map_of (fold f (x # xs) m) n = (case map_of (f x m) n of Some w \<Rightarrow> Some w | None \<Rightarrow> Option.bind (map_of xs n) (g n))"
      by simp
    have "map_of xs k = None" "map_of m k = None" using k by (simp_all add: map_of_None_iff)
    then show ?case unfolding IH by (cases "n = k") (auto simp: x assms split: option.splits)
  qed
qed

section \<open>Lemmas on strings\<close>

lemma to_lower_char_idem [simp, go_string_simps]: "to_lower_char (to_lower_char c) = to_lower_char c"
proof (cases "65 \<le> (of_char c :: nat) \<and> (of_char c :: nat) \<le> 90")
  case True
  then have "(of_char (char_of ((of_char c :: nat) + 32)) :: nat) = of_char c + 32"
    by (simp add: of_char_of)
  with True show ?thesis by (simp add: to_lower_char_def Let_def)
next
  case False
  then show ?thesis by (auto simp: to_lower_char_def Let_def)
qed

lemma strings_ToLower_idem [simp, go_string_simps]:
  "strings_ToLower (strings_ToLower s) = strings_ToLower s"
  by (simp add: strings_ToLower_def)

lemma strings_EqualFold_refl [simp, go_string_simps]: "strings_EqualFold s s"
  by (simp add: strings_EqualFold_def)

lemma strings_EqualFold_sym: "strings_EqualFold s t \<longleftrightarrow> strings_EqualFold t s"
  by (auto simp: strings_EqualFold_def)

lemma strings_HasPrefix_prefix [go_string_simps]: "strings_HasPrefix s p \<longleftrightarrow> prefix p s"
  by (induction s p rule: strings_HasPrefix.induct) auto

lemma strings_Contains_sublist [go_string_simps]: "strings_Contains s sub \<longleftrightarrow> sublist sub s"
  by (induction s) (auto simp: strings_HasPrefix_prefix sublist_Cons_right)

lemma strings_Split_not_Nil [simp]: "strings_Split sep s \<noteq> []"
  by (induction s) (auto split: list.splits)

lemma strings_Join_Cons: "ws \<noteq> [] \<Longrightarrow> strings_Join (w # ws) sep = w @ sep @ strings_Join ws sep"
  by (cases ws) auto

lemma strings_Join_Split [go_string_simps]: "strings_Join (strings_Split sep s) [sep] = s"
proof (induction s)
  case (Cons c cs)
  then show ?case
    by (cases "strings_Split sep cs"; cases "tl (strings_Split sep cs)")
      (auto simp: strings_Join_Cons)
qed simp

end
