(* ===== verification/AadTypes.thy ===== *)
theory AadTypes
  imports Prelude "HOL-Library.Word"
begin

text \<open>
  The data model: \<^verbatim>\<open>pkg/apis/aadpodidentity\<close> (the internal types the program computes with, their
  constants, \<^verbatim>\<open>IsNamespacedIdentity\<close> and the order of bindings) and \<^verbatim>\<open>pkg/apis/aadpodidentity/v1\<close>
  (the types stored in the cluster and the conversions between the two).

  The Kubernetes structs \<^verbatim>\<open>TypeMeta\<close>, \<^verbatim>\<open>ObjectMeta\<close>, \<^verbatim>\<open>SecretReference\<close>, \<^verbatim>\<open>Pod\<close> and \<^verbatim>\<open>Node\<close> carry the
  fields this program reads or writes.  The pointers \<^verbatim>\<open>AzureIdentityRef\<close> and \<^verbatim>\<open>AzureBindingRef\<close> of an
  internal \<^verbatim>\<open>AzureAssignedIdentity\<close> are plain values: the only two places that build one
  (\<^verbatim>\<open>makeAssignedIDs\<close> and \<^verbatim>\<open>ConvertV1AssignedIdentityToInternalAssignedIdentity\<close>) set both.  In the
  \<^verbatim>\<open>v1\<close> type they may be nil and are options.
\<close>

section \<open>Kubernetes data\<close>

record TypeMeta =
  tm_Kind :: string
  tm_APIVersion :: string

record OwnerReference =
  or_Kind :: string
  or_Name :: string

record ObjectMeta =
  om_Name :: string
  om_Namespace :: string
  om_Labels :: "(string, string) gomap"
  om_Annotations :: "(string, string) gomap"
  om_ResourceVersion :: string
  om_Finalizers :: "string list"
  om_OwnerReferences :: "OwnerReference list"

record SecretReference =
  sr_Name :: string
  sr_Namespace :: string

record Pod =
  pod_ObjectMeta :: ObjectMeta
  pod_NodeName :: string
  pod_PodIP :: string
  pod_Phase :: string

record Node =
  node_ProviderID :: string

abbreviation pod_Name :: "Pod \<Rightarrow> string" where
  "pod_Name p \<equiv> om_Name (pod_ObjectMeta p)"

abbreviation pod_Namespace :: "Pod \<Rightarrow> string" where
  "pod_Namespace p \<equiv> om_Namespace (pod_ObjectMeta p)"

abbreviation pod_Labels :: "Pod \<Rightarrow> (string, string) gomap" where
  "pod_Labels p \<equiv> om_Labels (pod_ObjectMeta p)"

definition zero_TypeMeta :: TypeMeta where
  "zero_TypeMeta = \<lparr>tm_Kind = [], tm_APIVersion = []\<rparr>"

definition zero_ObjectMeta :: ObjectMeta where
  "zero_ObjectMeta = \<lparr>om_Name = [], om_Namespace = [], om_Labels = [], om_Annotations = [],
     om_ResourceVersion = [], om_Finalizers = [], om_OwnerReferences = []\<rparr>"

section \<open>Internal types (\<^verbatim>\<open>pkg/apis/aadpodidentity/types.go\<close>)\<close>

datatype EventType =
    PodCreated | PodDeleted | PodUpdated
  | IdentityCreated | IdentityDeleted | IdentityUpdated
  | BindingCreated | BindingDeleted | BindingUpdated
  | Exit

definition CRDGroup :: string where "CRDGroup = ''aadpodidentity.k8s.io''"
definition CRDVersion :: string where "CRDVersion = ''v1''"
definition CRDLabelKey :: string where "CRDLabelKey = ''aadpodidbinding''"
definition BehaviorKey :: string where "BehaviorKey = ''aadpodidentity.k8s.io/Behavior''"
definition BehaviorNamespaced :: string where "BehaviorNamespaced = ''namespaced''"
definition AssignedIDCreated :: string where "AssignedIDCreated = ''Created''"
definition AssignedIDAssigned :: string where "AssignedIDAssigned = ''Assigned''"
definition AssignedIDUnAssigned :: string where "AssignedIDUnAssigned = ''Unassigned''"

lemmas status_defs = AssignedIDCreated_def AssignedIDAssigned_def AssignedIDUnAssigned_def

type_synonym IdentityType = int

definition UserAssignedMSI :: IdentityType where "UserAssignedMSI = 0"
definition ServicePrincipal :: IdentityType where "ServicePrincipal = 1"
definition ServicePrincipalCertificate :: IdentityType where "ServicePrincipalCertificate = 2"

lemmas identity_type_defs = UserAssignedMSI_def ServicePrincipal_def ServicePrincipalCertificate_def

record AzureIdentitySpec =
  ids_ObjectMeta :: ObjectMeta
  ids_Type :: IdentityType
  ids_ResourceID :: string
  ids_ClientID :: string
  ids_ClientPassword :: SecretReference
  ids_TenantID :: string
  ids_AuxiliaryTenantIDs :: "string list"
  ids_ADResourceID :: string
  ids_ADEndpoint :: string
  ids_Replicas :: "32 word option"

record AzureIdentityStatus =
  idst_ObjectMeta :: ObjectMeta
  idst_AvailableReplicas :: "32 word"

record AzureIdentity =
  id_TypeMeta :: TypeMeta
  id_ObjectMeta :: ObjectMeta
  id_Spec :: AzureIdentitySpec
  id_Status :: AzureIdentityStatus

record AzureIdentityBindingSpec =
  bs_ObjectMeta :: ObjectMeta
  bs_AzureIdentity :: string
  bs_Selector :: string
  bs_Weight :: int

record AzureIdentityBindingStatus =
  bst_ObjectMeta :: ObjectMeta
  bst_AvailableReplicas :: "32 word"

record AzureIdentityBinding =
  b_TypeMeta :: TypeMeta
  b_ObjectMeta :: ObjectMeta
  b_Spec :: AzureIdentityBindingSpec
  b_Status :: AzureIdentityBindingStatus

record AzureAssignedIdentitySpec =
  as_ObjectMeta :: ObjectMeta
  as_AzureIdentityRef :: AzureIdentity
  as_AzureBindingRef :: AzureIdentityBinding
  as_Pod :: string
  as_PodNamespace :: string
  as_NodeName :: string
  as_Replicas :: "32 word option"

record AzureAssignedIdentityStatus =
  ast_ObjectMeta :: ObjectMeta
  ast_Status :: string
  ast_AvailableReplicas :: "32 word"

record AzureAssignedIdentity =
  a_TypeMeta :: TypeMeta
  a_ObjectMeta :: ObjectMeta
  a_Spec :: AzureAssignedIdentitySpec
  a_Status :: AzureAssignedIdentityStatus

record AzurePodIdentityExceptionSpec =
  es_ObjectMeta :: ObjectMeta
  es_PodLabels :: "(string, string) gomap"

record AzurePodIdentityExceptionStatus =
  est_ObjectMeta :: ObjectMeta
  est_Status :: string

record AzurePodIdentityException =
  e_TypeMeta :: TypeMeta
  e_ObjectMeta :: ObjectMeta
  e_Spec :: AzurePodIdentityExceptionSpec
  e_Status :: AzurePodIdentityExceptionStatus

text \<open>Go's promoted fields and the paths the program reads.\<close>

abbreviation id_Name :: "AzureIdentity \<Rightarrow> string" where "id_Name i \<equiv> om_Name (id_ObjectMeta i)"
abbreviation id_Namespace :: "AzureIdentity \<Rightarrow> string" where "id_Namespace i \<equiv> om_Namespace (id_ObjectMeta i)"
abbreviation id_Type :: "AzureIdentity \<Rightarrow> IdentityType" where "id_Type i \<equiv> ids_Type (id_Spec i)"
abbreviation id_ResourceID :: "AzureIdentity \<Rightarrow> string" where "id_ResourceID i \<equiv> ids_ResourceID (id_Spec i)"
abbreviation id_ClientID :: "AzureIdentity \<Rightarrow> string" where "id_ClientID i \<equiv> ids_ClientID (id_Spec i)"
abbreviation b_Name :: "AzureIdentityBinding \<Rightarrow> string" where "b_Name b \<equiv> om_Name (b_ObjectMeta b)"
abbreviation b_Namespace :: "AzureIdentityBinding \<Rightarrow> string" where "b_Namespace b \<equiv> om_Namespace (b_ObjectMeta b)"
abbreviation b_AzureIdentity :: "AzureIdentityBinding \<Rightarrow> string" where "b_AzureIdentity b \<equiv> bs_AzureIdentity (b_Spec b)"
abbreviation b_Selector :: "AzureIdentityBinding \<Rightarrow> string" where "b_Selector b \<equiv> bs_Selector (b_Spec b)"
abbreviation a_Name :: "AzureAssignedIdentity \<Rightarrow> string" where "a_Name a \<equiv> om_Name (a_ObjectMeta a)"
abbreviation a_Namespace :: "AzureAssignedIdentity \<Rightarrow> string" where "a_Namespace a \<equiv> om_Namespace (a_ObjectMeta a)"
abbreviation a_Identity :: "AzureAssignedIdentity \<Rightarrow> AzureIdentity" where "a_Identity a \<equiv> as_AzureIdentityRef (a_Spec a)"
abbreviation a_Binding :: "AzureAssignedIdentity \<Rightarrow> AzureIdentityBinding" where "a_Binding a \<equiv> as_AzureBindingRef (a_Spec a)"
abbreviation a_Pod :: "AzureAssignedIdentity \<Rightarrow> string" where "a_Pod a \<equiv> as_Pod (a_Spec a)"
abbreviation a_PodNamespace :: "AzureAssignedIdentity \<Rightarrow> string" where "a_PodNamespace a \<equiv> as_PodNamespace (a_Spec a)"
abbreviation a_NodeName :: "AzureAssignedIdentity \<Rightarrow> string" where "a_NodeName a \<equiv> as_NodeName (a_Spec a)"
abbreviation a_StatusText :: "AzureAssignedIdentity \<Rightarrow> string" where "a_StatusText a \<equiv> ast_Status (a_Status a)"

text \<open>Zero values (\<^verbatim>\<open>var retIdentity aadpodid.AzureIdentity\<close>).\<close>

definition zero_AzureIdentity :: AzureIdentity where
  "zero_AzureIdentity = \<lparr>id_TypeMeta = zero_TypeMeta, id_ObjectMeta = zero_ObjectMeta,
     id_Spec = \<lparr>ids_ObjectMeta = zero_ObjectMeta, ids_Type = 0, ids_ResourceID = [], ids_ClientID = [],
       ids_ClientPassword = \<lparr>sr_Name = [], sr_Namespace = []\<rparr>, ids_TenantID = [],
       ids_AuxiliaryTenantIDs = [], ids_ADResourceID = [], ids_ADEndpoint = [], ids_Replicas = None\<rparr>,
     id_Status = \<lparr>idst_ObjectMeta = zero_ObjectMeta, idst_AvailableReplicas = 0\<rparr>\<rparr>"

definition zero_AzureIdentityBinding :: AzureIdentityBinding where
  "zero_AzureIdentityBinding = \<lparr>b_TypeMeta = zero_TypeMeta, b_ObjectMeta = zero_ObjectMeta,
     b_Spec = \<lparr>bs_ObjectMeta = zero_ObjectMeta, bs_AzureIdentity = [], bs_Selector = [], bs_Weight = 0\<rparr>,
     b_Status = \<lparr>bst_ObjectMeta = zero_ObjectMeta, bst_AvailableReplicas = 0\<rparr>\<rparr>"

section \<open>\<^verbatim>\<open>utils.go\<close> and \<^verbatim>\<open>sort.go\<close>\<close>

definition IsNamespacedIdentity :: "AzureIdentity \<Rightarrow> bool" where
  "IsNamespacedIdentity azureID =
     (case map_of (om_Annotations (id_ObjectMeta azureID)) BehaviorKey of
        Some val \<Rightarrow> val = BehaviorNamespaced
      | None \<Rightarrow> False)"

definition AzureIdentityBindings_Less :: "AzureIdentityBinding \<Rightarrow> AzureIdentityBinding \<Rightarrow> bool" where
  "AzureIdentityBindings_Less x y =
     (if b_Namespace x = b_Namespace y then b_Name x < b_Name y
      else b_Namespace x < b_Namespace y)"

text \<open>
  The order \<open>Less\<close> induces is the order of a key, the namespaced name.  As a type with this linear
  order it gives access to the library's sorting.
\<close>

datatype nsname = NsName (ns_of: string) (name_of: string)

instantiation nsname :: linorder
begin

definition less_nsname :: "nsname \<Rightarrow> nsname \<Rightarrow> bool" where
  "less_nsname x y =
     (if ns_of x = ns_of y then name_of x < name_of y else ns_of x < ns_of y)"

definition less_eq_nsname :: "nsname \<Rightarrow> nsname \<Rightarrow> bool" where
  "less_eq_nsname x y \<longleftrightarrow> x < y \<or> x = y"

instance
proof
  fix x y z :: nsname
  show "x < y \<longleftrightarrow> x \<le> y \<and> \<not> y \<le> x"
    by (auto simp: less_nsname_def less_eq_nsname_def split: if_splits)
  show "x \<le> x" by (simp add: less_eq_nsname_def)
  show "x \<le> y \<Longrightarrow> y \<le> z \<Longrightarrow> x \<le> z"
    by (auto simp: less_nsname_def less_eq_nsname_def split: if_splits)
  show "x \<le> y \<Longrightarrow> y \<le> x \<Longrightarrow> x = y"
    by (auto simp: less_nsname_def less_eq_nsname_def split: if_splits)
  show "x \<le> y \<or> y \<le> x"
    by (cases x; cases y) (auto simp: less_nsname_def less_eq_nsname_def split: if_splits)
qed

end

definition binding_key :: "AzureIdentityBinding \<Rightarrow> nsname" where
  "binding_key b = NsName (b_Namespace b) (b_Name b)"

text \<open>\<^verbatim>\<open>sort.Sort(aadpodid.AzureIdentityBindings(matchedBindings))\<close>.\<close>

definition sort_bindings :: "AzureIdentityBinding list \<Rightarrow> AzureIdentityBinding list" where
  "sort_bindings bs = sort_key binding_key bs"

section \<open>Cluster types and conversions (\<^verbatim>\<open>v1/types.go\<close>, \<^verbatim>\<open>v1/conversion.go\<close>)\<close>

record v1AzureIdentitySpec =
  v1ids_ObjectMeta :: ObjectMeta
  v1ids_Type :: int
  v1ids_ResourceID :: string
  v1ids_ClientID :: string
  v1ids_ClientPassword :: SecretReference
  v1ids_TenantID :: string
  v1ids_AuxiliaryTenantIDs :: "string list"
  v1ids_ADResourceID :: string
  v1ids_ADEndpoint :: string
  v1ids_Replicas :: "32 word option"

record v1AzureIdentity =
  v1id_TypeMeta :: TypeMeta
  v1id_ObjectMeta :: ObjectMeta
  v1id_Spec :: v1AzureIdentitySpec
  v1id_Status :: AzureIdentityStatus

record v1AzureIdentityBindingSpec =
  v1bs_ObjectMeta :: ObjectMeta
  v1bs_AzureIdentity :: string
  v1bs_Selector :: string
  v1bs_Weight :: int

record v1AzureIdentityBinding =
  v1b_TypeMeta :: TypeMeta
  v1b_ObjectMeta :: ObjectMeta
  v1b_Spec :: v1AzureIdentityBindingSpec
  v1b_Status :: AzureIdentityBindingStatus

record v1AzureAssignedIdentitySpec =
  v1as_ObjectMeta :: ObjectMeta
  v1as_AzureIdentityRef :: "v1AzureIdentity option"
  v1as_AzureBindingRef :: "v1AzureIdentityBinding option"
  v1as_Pod :: string
  v1as_PodNamespace :: string
  v1as_NodeName :: string
  v1as_Replicas :: "32 word option"

record v1AzureAssignedIdentity =
  v1a_TypeMeta :: TypeMeta
  v1a_ObjectMeta :: ObjectMeta
  v1a_Spec :: v1AzureAssignedIdentitySpec
  v1a_Status :: AzureAssignedIdentityStatus

record v1AzurePodIdentityExceptionSpec =
  v1es_ObjectMeta :: ObjectMeta
  v1es_PodLabels :: "(string, string) gomap"

record v1AzurePodIdentityException =
  v1e_TypeMeta :: TypeMeta
  v1e_ObjectMeta :: ObjectMeta
  v1e_Spec :: v1AzurePodIdentityExceptionSpec
  v1e_Status :: AzurePodIdentityExceptionStatus

text \<open>
  \<^verbatim>\<open>TypeMeta.SetGroupVersionKind\<close> belongs to apimachinery and is the parameter \<open>setGVK\<close> (group,
  version, kind, type meta) of the definitions that call it.
\<close>

type_synonym setGVK = "string \<Rightarrow> string \<Rightarrow> string \<Rightarrow> TypeMeta \<Rightarrow> TypeMeta"

definition ConvertV1BindingToInternalBinding :: "v1AzureIdentityBinding \<Rightarrow> AzureIdentityBinding" where
  "ConvertV1BindingToInternalBinding b =
     \<lparr>b_TypeMeta = v1b_TypeMeta b, b_ObjectMeta = v1b_ObjectMeta b,
      b_Spec = \<lparr>bs_ObjectMeta = v1bs_ObjectMeta (v1b_Spec b),
        bs_AzureIdentity = v1bs_AzureIdentity (v1b_Spec b),
        bs_Selector = v1bs_Selector (v1b_Spec b),
        bs_Weight = v1bs_Weight (v1b_Spec b)\<rparr>,
      b_Status = v1b_Status b\<rparr>"

definition ConvertV1IdentityToInternalIdentity :: "v1AzureIdentity \<Rightarrow> AzureIdentity" where
  "ConvertV1IdentityToInternalIdentity i =
     \<lparr>id_TypeMeta = v1id_TypeMeta i, id_ObjectMeta = v1id_ObjectMeta i,
      id_Spec = \<lparr>ids_ObjectMeta = v1ids_ObjectMeta (v1id_Spec i),
        ids_Type = v1ids_Type (v1id_Spec i),
        ids_ResourceID = v1ids_ResourceID (v1id_Spec i),
        ids_ClientID = v1ids_ClientID (v1id_Spec i),
        ids_ClientPassword = v1ids_ClientPassword (v1id_Spec i),
        ids_TenantID = v1ids_TenantID (v1id_Spec i),
        ids_AuxiliaryTenantIDs = v1ids_AuxiliaryTenantIDs (v1id_Spec i),
        ids_ADResourceID = v1ids_ADResourceID (v1id_Spec i),
        ids_ADEndpoint = v1ids_ADEndpoint (v1id_Spec i),
        ids_Replicas = v1ids_Replicas (v1id_Spec i)\<rparr>,
      id_Status = v1id_Status i\<rparr>"

definition ConvertV1AssignedIdentityToInternalAssignedIdentity ::
  "v1AzureAssignedIdentity \<Rightarrow> AzureAssignedIdentity" where
  "ConvertV1AssignedIdentityToInternalAssignedIdentity a =
     (let retIdentity = (case v1as_AzureIdentityRef (v1a_Spec a) of
            None \<Rightarrow> zero_AzureIdentity
          | Some i \<Rightarrow> ConvertV1IdentityToInternalIdentity i);
          retBinding = (case v1as_AzureBindingRef (v1a_Spec a) of
            None \<Rightarrow> zero_AzureIdentityBinding
          | Some b \<Rightarrow> ConvertV1BindingToInternalBinding b)
      in \<lparr>a_TypeMeta = v1a_TypeMeta a, a_ObjectMeta = v1a_ObjectMeta a,
          a_Spec = \<lparr>as_ObjectMeta = v1as_ObjectMeta (v1a_Spec a),
            as_AzureIdentityRef = retIdentity,
            as_AzureBindingRef = retBinding,
            as_Pod = v1as_Pod (v1a_Spec a),
            as_PodNamespace = v1as_PodNamespace (v1a_Spec a),
            as_NodeName = v1as_NodeName (v1a_Spec a),
            as_Replicas = v1as_Replicas (v1a_Spec a)\<rparr>,
          a_Status = v1a_Status a\<rparr>)"

definition ConvertV1PodIdentityExceptionToInternalPodIdentityException ::
  "v1AzurePodIdentityException \<Rightarrow> AzurePodIdentityException" where
  "ConvertV1PodIdentityExceptionToInternalPodIdentityException e =
     \<lparr>e_TypeMeta = v1e_TypeMeta e, e_ObjectMeta = v1e_ObjectMeta e,
      e_Spec = \<lparr>es_ObjectMeta = v1es_ObjectMeta (v1e_Spec e), es_PodLabels = v1es_PodLabels (v1e_Spec e)\<rparr>,
      e_Status = v1e_Status e\<rparr>"

definition ConvertInternalBindingToV1Binding ::
  "setGVK \<Rightarrow> AzureIdentityBinding \<Rightarrow> v1AzureIdentityBinding" where
  "ConvertInternalBindingToV1Binding setGVK b =
     (let out = \<lparr>v1b_TypeMeta = b_TypeMeta b, v1b_ObjectMeta = b_ObjectMeta b,
        v1b_Spec = \<lparr>v1bs_ObjectMeta = bs_ObjectMeta (b_Spec b),
          v1bs_AzureIdentity = bs_AzureIdentity (b_Spec b),
          v1bs_Selector = bs_Selector (b_Spec b),
          v1bs_Weight = bs_Weight (b_Spec b)\<rparr>,
        v1b_Status = b_Status b\<rparr>
      in out\<lparr>v1b_TypeMeta := setGVK CRDGroup CRDVersion ''AzureIdentityBinding'' (v1b_TypeMeta out)\<rparr>)"

definition ConvertInternalIdentityToV1Identity ::
  "setGVK \<Rightarrow> AzureIdentity \<Rightarrow> v1AzureIdentity" where
  "ConvertInternalIdentityToV1Identity setGVK i =
     (let out = \<lparr>v1id_TypeMeta = id_TypeMeta i, v1id_ObjectMeta = id_ObjectMeta i,
        v1id_Spec = \<lparr>v1ids_ObjectMeta = ids_ObjectMeta (id_Spec i),
          v1ids_Type = ids_Type (id_Spec i),
          v1ids_ResourceID = ids_ResourceID (id_Spec i),
          v1ids_ClientID = ids_ClientID (id_Spec i),
          v1ids_ClientPassword = ids_ClientPassword (id_Spec i),
          v1ids_TenantID = ids_TenantID (id_Spec i),
          v1ids_AuxiliaryTenantIDs = ids_AuxiliaryTenantIDs (id_Spec i),
          v1ids_ADResourceID = ids_ADResourceID (id_Spec i),
          v1ids_ADEndpoint = ids_ADEndpoint (id_Spec i),
          v1ids_Replicas = ids_Replicas (id_Spec i)\<rparr>,
        v1id_Status = id_Status i\<rparr>
      in out\<lparr>v1id_TypeMeta := setGVK CRDGroup CRDVersion ''AzureIdentity'' (v1id_TypeMeta out)\<rparr>)"

definition ConvertInternalAssignedIdentityToV1AssignedIdentity ::
  "setGVK \<Rightarrow> AzureAssignedIdentity \<Rightarrow> v1AzureAssignedIdentity" where
  "ConvertInternalAssignedIdentityToV1AssignedIdentity setGVK a =
     (let retIdentity = ConvertInternalIdentityToV1Identity setGVK (as_AzureIdentityRef (a_Spec a));
          retBinding = ConvertInternalBindingToV1Binding setGVK (as_AzureBindingRef (a_Spec a));
          out = \<lparr>v1a_TypeMeta = a_TypeMeta a, v1a_ObjectMeta = a_ObjectMeta a,
            v1a_Spec = \<lparr>v1as_ObjectMeta = as_ObjectMeta (a_Spec a),
              v1as_AzureIdentityRef = Some retIdentity,
              v1as_AzureBindingRef = Some retBinding,
              v1as_Pod = as_Pod (a_Spec a),
              v1as_PodNamespace = as_PodNamespace (a_Spec a),
              v1as_NodeName = as_NodeName (a_Spec a),
              v1as_Replicas = as_Replicas (a_Spec a)\<rparr>,
            v1a_Status = a_Status a\<rparr>
      in out\<lparr>v1a_TypeMeta := setGVK CRDGroup CRDVersion ''AzureAssignedIdentity'' (v1a_TypeMeta out)\<rparr>)"

lemmas conversion_defs =
  ConvertV1BindingToInternalBinding_def ConvertV1IdentityToInternalIdentity_def
  ConvertV1AssignedIdentityToInternalAssignedIdentity_def
  ConvertInternalBindingToV1Binding_def ConvertInternalIdentityToV1Identity_def
  ConvertInternalAssignedIdentityToV1AssignedIdentity_def

section \<open>The order of bindings\<close>

lemma Less_binding_key: "AzureIdentityBindings_Less x y \<longleftrightarrow> binding_key x < binding_key y"
  by (simp add: AzureIdentityBindings_Less_def binding_key_def less_nsname_def)

lemma set_sort_bindings [simp]: "set (sort_bindings bs) = set bs"
  by (simp add: sort_bindings_def)

lemma mset_sort_bindings [simp]: "mset (sort_bindings bs) = mset bs"
  by (simp add: sort_bindings_def)

text \<open>
  A list sorted by an injective key is determined by its elements: this is why sorting the matched
  bindings makes their order independent of the order in which the informer's cache lists them.
\<close>

lemma sort_bindings_unique:
  assumes "distinct (map binding_key bs)" "mset cs = mset bs"
  shows "sort_bindings cs = sort_bindings bs"
  unfolding sort_bindings_def
proof (rule sort_key_inj_key_eq)
  show "mset cs = mset (sort_key binding_key bs)" using assms(2) by simp
  show "inj_on binding_key (set cs)"
    using assms by (metis distinct_map mset_eq_setD)
  show "sorted (map binding_key (sort_key binding_key bs))" by simp
qed

section \<open>Properties\<close>

text \<open>
  Writing an assigned identity to the cluster and reading it back loses nothing: converting an
  internal \<^verbatim>\<open>AzureAssignedIdentity\<close> to \<^verbatim>\<open>v1\<close> and back gives the same object, identity reference, binding
  reference, pod, node and status included, with only the three type metas restamped.
\<close>

theorem assigned_identity_roundtrip:
  "ConvertV1AssignedIdentityToInternalAssignedIdentity
     (ConvertInternalAssignedIdentityToV1AssignedIdentity setGVK a) =
   a\<lparr>a_TypeMeta := setGVK CRDGroup CRDVersion ''AzureAssignedIdentity'' (a_TypeMeta a),
     a_Spec := (a_Spec a)\<lparr>
       as_AzureIdentityRef := (a_Identity a)\<lparr>id_TypeMeta :=
         setGVK CRDGroup CRDVersion ''AzureIdentity'' (id_TypeMeta (a_Identity a))\<rparr>,
       as_AzureBindingRef := (a_Binding a)\<lparr>b_TypeMeta :=
         setGVK CRDGroup CRDVersion ''AzureIdentityBinding'' (b_TypeMeta (a_Binding a))\<rparr>\<rparr>\<rparr>"
  by (simp add: conversion_defs Let_def)

end
