(* ===== verification/DeepCopyMem.thy ===== *)
theory DeepCopyMem
  imports AadTypes
begin

text \<open>
  Memory for the generated deep copies (\<^verbatim>\<open>aadpodidentity_deepcopy_generated.go\<close>, in both packages of types).  What these functions promise
  is about aliasing, so structs are kept here the way Go keeps them: a pointer, a slice and a map are the address of a cell, and nil is
  \<open>None\<close>.  The two packages declare the same fields, so one set of records gives the layout for both, and the \<open>v1\<close> records of
  \<^theory_text>\<open>AadTypes\<close> are the values one reads out of the memory by following all addresses (a nil slice or map reads as an empty one).

  \<^verbatim>\<open>ObjectMeta\<close> and its \<^verbatim>\<open>DeepCopyInto\<close> belong to apimachinery: its layout is a type parameter \<open>'m\<close>, its cells may be of a type \<open>'x\<close>,
  and its copy is a field of \<open>CopyEnv\<close>.

  The locale \<open>deep_copier\<close> is the contract of a \<^verbatim>\<open>DeepCopyInto\<close>.  It is closed under the ways the generator puts copies together (fields of a
  struct, pointers, slices, maps), so a copy of a struct has it by its structure.
\<close>

section \<open>Layout\<close>

type_synonym addr = nat

record 'm mAzureIdentitySpec =
  mids_ObjectMeta :: 'm
  mids_Type :: int
  mids_ResourceID :: string
  mids_ClientID :: string
  mids_ClientPassword :: SecretReference
  mids_TenantID :: string
  mids_AuxiliaryTenantIDs :: "addr option"
  mids_ADResourceID :: string
  mids_ADEndpoint :: string
  mids_Replicas :: "addr option"

record 'm mAzureIdentityStatus =
  midst_ObjectMeta :: 'm
  midst_AvailableReplicas :: "32 word"

record 'm mAzureIdentity =
  mid_TypeMeta :: TypeMeta
  mid_ObjectMeta :: 'm
  mid_Spec :: "'m mAzureIdentitySpec"
  mid_Status :: "'m mAzureIdentityStatus"

record 'm mAzureIdentityBindingSpec =
  mbs_ObjectMeta :: 'm
  mbs_AzureIdentity :: string
  mbs_Selector :: string
  mbs_Weight :: int

record 'm mAzureIdentityBindingStatus =
  mbst_ObjectMeta :: 'm
  mbst_AvailableReplicas :: "32 word"

record 'm mAzureIdentityBinding =
  mb_TypeMeta :: TypeMeta
  mb_ObjectMeta :: 'm
  mb_Spec :: "'m mAzureIdentityBindingSpec"
  mb_Status :: "'m mAzureIdentityBindingStatus"

record 'm mAzureAssignedIdentitySpec =
  mas_ObjectMeta :: 'm
  mas_AzureIdentityRef :: "addr option"
  mas_AzureBindingRef :: "addr option"
  mas_Pod :: string
  mas_PodNamespace :: string
  mas_NodeName :: string
  mas_Replicas :: "addr option"

record 'm mAzureAssignedIdentityStatus =
  mast_ObjectMeta :: 'm
  mast_Status :: string
  mast_AvailableReplicas :: "32 word"

record 'm mAzureAssignedIdentity =
  ma_TypeMeta :: TypeMeta
  ma_ObjectMeta :: 'm
  ma_Spec :: "'m mAzureAssignedIdentitySpec"
  ma_Status :: "'m mAzureAssignedIdentityStatus"

record 'm mAzurePodIdentityExceptionSpec =
  mes_ObjectMeta :: 'm
  mes_PodLabels :: "addr option"

record 'm mAzurePodIdentityExceptionStatus =
  mest_ObjectMeta :: 'm
  mest_Status :: string

record 'm mAzurePodIdentityException =
  me_TypeMeta :: TypeMeta
  me_ObjectMeta :: 'm
  me_Spec :: "'m mAzurePodIdentityExceptionSpec"
  me_Status :: "'m mAzurePodIdentityExceptionStatus"

text \<open>Lists.  \<^verbatim>\<open>ListMeta\<close> is apimachinery's: three strings and a pointer to the number of items that are left.\<close>

record mListMeta =
  mlm_SelfLink :: string
  mlm_ResourceVersion :: string
  mlm_Continue :: string
  mlm_RemainingItemCount :: "addr option"

record mAzureIdentityList =
  mil_TypeMeta :: TypeMeta
  mil_ListMeta :: mListMeta
  mil_Items :: "addr option"

record mAzureIdentityBindingList =
  mbl_TypeMeta :: TypeMeta
  mbl_ListMeta :: mListMeta
  mbl_Items :: "addr option"

record mAzureAssignedIdentityList =
  mal_TypeMeta :: TypeMeta
  mal_ListMeta :: mListMeta
  mal_Items :: "addr option"

record mAzurePodIdentityExceptionList =
  mel_TypeMeta :: TypeMeta
  mel_ListMeta :: mListMeta
  mel_Items :: "addr option"

text \<open>
  A cell holds a value of one Go type; a slice has a cell for its array.  Go's types make sure that an address is read at the type of its cell.
\<close>

datatype ('m, 'x) cell =
    CInt32 (int32_of: "32 word")
  | CInt64 (int64_of: "64 word")
  | CStrings (strings_of: "string list")
  | CLabels (labels_of: "(string, string) gomap")
  | CIdentity (identity_of: "'m mAzureIdentity")
  | CIdentitySpec (identitySpec_of: "'m mAzureIdentitySpec")
  | CIdentityStatus (identityStatus_of: "'m mAzureIdentityStatus")
  | CIdentities (identities_of: "'m mAzureIdentity list")
  | CIdentityList (identityList_of: mAzureIdentityList)
  | CBinding (binding_of: "'m mAzureIdentityBinding")
  | CBindingSpec (bindingSpec_of: "'m mAzureIdentityBindingSpec")
  | CBindingStatus (bindingStatus_of: "'m mAzureIdentityBindingStatus")
  | CBindings (bindings_of: "'m mAzureIdentityBinding list")
  | CBindingList (bindingList_of: mAzureIdentityBindingList)
  | CAssigned (assigned_of: "'m mAzureAssignedIdentity")
  | CAssignedSpec (assignedSpec_of: "'m mAzureAssignedIdentitySpec")
  | CAssignedStatus (assignedStatus_of: "'m mAzureAssignedIdentityStatus")
  | CAssigneds (assigneds_of: "'m mAzureAssignedIdentity list")
  | CAssignedList (assignedList_of: mAzureAssignedIdentityList)
  | CException (exception_of: "'m mAzurePodIdentityException")
  | CExceptionSpec (exceptionSpec_of: "'m mAzurePodIdentityExceptionSpec")
  | CExceptionStatus (exceptionStatus_of: "'m mAzurePodIdentityExceptionStatus")
  | CExceptions (exceptions_of: "'m mAzurePodIdentityException list")
  | CExceptionList (exceptionList_of: mAzurePodIdentityExceptionList)
  | COther (other_of: 'x)

text \<open>The memory.  Addresses below \<open>limit\<close> are in use.\<close>

record ('m, 'x) memory =
  limit :: addr
  cells :: "addr \<Rightarrow> ('m, 'x) cell"

text \<open>\<^verbatim>\<open>new\<close> and \<^verbatim>\<open>make\<close> give an address that was not in use; the copy then writes its contents.\<close>

definition alloc :: "('m, 'x) memory \<Rightarrow> addr \<times> ('m, 'x) memory" where
  "alloc h = (limit h, h\<lparr>limit := Suc (limit h)\<rparr>)"

definition put_cell :: "addr \<Rightarrow> ('m, 'x) cell \<Rightarrow> ('m, 'x) memory \<Rightarrow> ('m, 'x) memory" where
  "put_cell a c h = h\<lparr>cells := (cells h)(a := c)\<rparr>"

type_synonym ('m, 'x, 'a) copier = "'a \<Rightarrow> ('m, 'x) memory \<Rightarrow> 'a \<times> ('m, 'x) memory"

record ('m, 'x) CopyEnv =
  ce_ObjectMeta_DeepCopyInto :: "('m, 'x, 'm) copier"
  ce_ListMeta_DeepCopyInto :: "('m, 'x, mListMeta) copier"

text \<open>
  The pattern of the generator for a pointer, a slice or a map field, and of \<^verbatim>\<open>DeepCopy\<close>: nothing for nil; otherwise allocate, and let the copy
  of the contents write to the new address.
\<close>

definition new_copy ::
  "(('m, 'x) cell \<Rightarrow> 'a) \<Rightarrow> ('a \<Rightarrow> ('m, 'x) cell) \<Rightarrow> ('m, 'x, 'a) copier \<Rightarrow> ('m, 'x, addr option) copier" where
  "new_copy sel con into p h =
     (case p of
        None \<Rightarrow> (None, h)
      | Some a \<Rightarrow>
          let (b, h1) = alloc h;
              (v, h2) = into (sel (cells h1 a)) h1
          in (Some b, put_cell b (con v) h2))"

text \<open>\<^verbatim>\<open>**out = **in\<close>, and the loops over a slice and over a map.\<close>

definition assign_copy :: "('m, 'x, 'a) copier" where
  "assign_copy x h = (x, h)"

fun slice_copy :: "('m, 'x, 'a) copier \<Rightarrow> ('m, 'x, 'a list) copier" where
  "slice_copy into [] h = ([], h)"
| "slice_copy into (x # xs) h =
     (let (y, h1) = into x h; (ys, h2) = slice_copy into xs h1 in (y # ys, h2))"

definition map_copy :: "('m, 'x, (string, string) gomap) copier" where
  "map_copy m h = (fold (\<lambda>(key, val) out. mput key val out) m [], h)"

section \<open>Shapes\<close>

text \<open>
  The shape of a Go type says how a value of it is read: the value one sees, the addresses it reaches, those of them that a copy keeps in common with
  the original, and when it is well-formed (addresses in use, maps with distinct keys).
\<close>

record ('m, 'x, 'a, 'v) shape =
  shown :: "('m, 'x) memory \<Rightarrow> 'a \<Rightarrow> 'v"
  foot :: "('m, 'x) memory \<Rightarrow> 'a \<Rightarrow> addr set"
  shared :: "('m, 'x) memory \<Rightarrow> 'a \<Rightarrow> addr set"
  well :: "('m, 'x) memory \<Rightarrow> 'a \<Rightarrow> bool"

definition plain_shape :: "('m, 'x, 'a, 'a) shape" where
  "plain_shape = \<lparr>shown = (\<lambda>h x. x), foot = (\<lambda>h x. {}), shared = (\<lambda>h x. {}), well = (\<lambda>h x. True)\<rparr>"

definition map_shape :: "('m, 'x, (string, string) gomap, (string, string) gomap) shape" where
  "map_shape = plain_shape\<lparr>well := (\<lambda>h x. wf_map x)\<rparr>"

definition pair_shape ::
  "('m, 'x, 'a, 'v) shape \<Rightarrow> ('m, 'x, 'b, 'w) shape \<Rightarrow> ('m, 'x, 'a \<times> 'b, 'v \<times> 'w) shape" where
  "pair_shape S T = \<lparr>shown = (\<lambda>h (x, y). (shown S h x, shown T h y)), foot = (\<lambda>h (x, y). foot S h x \<union> foot T h y),
     shared = (\<lambda>h (x, y). shared S h x \<union> shared T h y), well = (\<lambda>h (x, y). well S h x \<and> well T h y)\<rparr>"

definition list_shape :: "('m, 'x, 'a, 'v) shape \<Rightarrow> ('m, 'x, 'a list, 'v list) shape" where
  "list_shape S = \<lparr>shown = (\<lambda>h. map (shown S h)), foot = (\<lambda>h xs. \<Union>x \<in> set xs. foot S h x),
     shared = (\<lambda>h xs. \<Union>x \<in> set xs. shared S h x), well = (\<lambda>h. list_all (well S h))\<rparr>"

definition ptr_shape :: "(('m, 'x) cell \<Rightarrow> 'a) \<Rightarrow> ('m, 'x, 'a, 'v) shape \<Rightarrow> ('m, 'x, addr option, 'v option) shape" where
  "ptr_shape sel S = \<lparr>shown = (\<lambda>h. map_option (\<lambda>a. shown S h (sel (cells h a)))),
     foot = (\<lambda>h p. case p of None \<Rightarrow> {} | Some a \<Rightarrow> insert a (foot S h (sel (cells h a)))),
     shared = (\<lambda>h p. case p of None \<Rightarrow> {} | Some a \<Rightarrow> shared S h (sel (cells h a))),
     well = (\<lambda>h p. case p of None \<Rightarrow> True | Some a \<Rightarrow> a < limit h \<and> well S h (sel (cells h a)))\<rparr>"

text \<open>A struct with the parts that are not plain values, and a field that a copy takes over as it is.\<close>

definition struct_shape :: "('s \<Rightarrow> 'p) \<Rightarrow> ('s \<Rightarrow> 'w \<Rightarrow> 'v) \<Rightarrow> ('m, 'x, 'p, 'w) shape \<Rightarrow> ('m, 'x, 's, 'v) shape" where
  "struct_shape parts build S = \<lparr>shown = (\<lambda>h x. build x (shown S h (parts x))), foot = (\<lambda>h x. foot S h (parts x)),
     shared = (\<lambda>h x. shared S h (parts x)), well = (\<lambda>h x. well S h (parts x))\<rparr>"

definition taken_over :: "('m, 'x, 'a, 'v) shape \<Rightarrow> ('m, 'x, 'a, 'v) shape" where
  "taken_over S = S\<lparr>shared := foot S\<rparr>"

lemmas shape_defs = plain_shape_def map_shape_def pair_shape_def list_shape_def ptr_shape_def struct_shape_def taken_over_def

text \<open>The memory grows: what was in use stays as it is.\<close>

definition grows :: "('m, 'x) memory \<Rightarrow> ('m, 'x) memory \<Rightarrow> bool" where
  "grows h h' \<longleftrightarrow> limit h \<le> limit h' \<and> (\<forall>a < limit h. cells h' a = cells h a)"

lemma grows_refl [simp]: "grows h h"
  by (simp add: grows_def)

lemma grows_trans: "grows h h1 \<Longrightarrow> grows h1 h2 \<Longrightarrow> grows h h2"
  by (simp add: grows_def)

lemma grows_limit: "grows h h' \<Longrightarrow> limit h \<le> limit h'"
  by (simp add: grows_def)

section \<open>The contract of a copy\<close>

text \<open>What a shape shows depends on the cells it reaches only.\<close>

locale well_shaped =
  fixes S :: "('m, 'x, 'a, 'v) shape"
  assumes in_use: "well S h x \<Longrightarrow> foot S h x \<subseteq> {..<limit h}"
    and shares: "shared S h x \<subseteq> foot S h x"
    and reads: "well S h x \<Longrightarrow> limit h \<le> limit h' \<Longrightarrow> (\<And>a. a \<in> foot S h x \<Longrightarrow> cells h' a = cells h a) \<Longrightarrow>
      well S h' x \<and> shown S h' x = shown S h x \<and> foot S h' x = foot S h x \<and> shared S h' x = shared S h x"
begin

lemma reads_grows:
  "well S h x \<Longrightarrow> grows h h' \<Longrightarrow>
     well S h' x \<and> shown S h' x = shown S h x \<and> foot S h' x = foot S h x \<and> shared S h' x = shared S h x"
  using in_use by (intro reads) (auto simp: grows_def)

lemma frame:
  assumes "well S h z" "a \<notin> foot S h z"
  shows "shown S (put_cell a c h) z = shown S h z"
proof -
  have "cells (put_cell a c h) b = cells h b" if "b \<in> foot S h z" for b
    using that assms(2) by (auto simp: put_cell_def)
  then show ?thesis using reads[OF assms(1), of "put_cell a c h"] by (simp add: put_cell_def)
qed

end

text \<open>
  A copy only adds to the memory; the result is well-formed and reads as the original; and what it reaches is new, but for the addresses that the
  shape declares as shared.
\<close>

locale deep_copier = well_shaped S
  for S :: "('m, 'x, 'a, 'v) shape" +
  fixes copy :: "('m, 'x, 'a) copier"
  assumes copies: "well S h x \<Longrightarrow> copy x h = (y, h') \<Longrightarrow>
      grows h h' \<and> well S h' y \<and> shown S h' y = shown S h x \<and> foot S h' y \<subseteq> {limit h..<limit h'} \<union> shared S h x"
begin

text \<open>A write through the copy, to a cell that is not shared, does not show in the original; nor does one through the original show in the copy.\<close>

lemma apart:
  assumes "well S h x" "copy x h = (y, h')"
  shows "foot S h' y \<inter> foot S h' x \<subseteq> shared S h x"
proof -
  have "foot S h' x = foot S h x" using reads_grows assms copies by blast
  then have "foot S h' x \<subseteq> {..<limit h}" using in_use assms(1) by simp
  moreover have "foot S h' y \<subseteq> {limit h..<limit h'} \<union> shared S h x" using copies assms by blast
  ultimately show ?thesis by fastforce
qed

lemma independent:
  assumes x: "well S h x" "copy x h = (y, h')" and a: "a \<notin> shared S h x"
  shows "a \<in> foot S h' y \<Longrightarrow> shown S (put_cell a c h') x = shown S h x"
    and "a \<in> foot S h' x \<Longrightarrow> shown S (put_cell a c h') y = shown S h x"
proof -
  note c = copies[OF x]
  have x': "well S h' x" "shown S h' x = shown S h x" using reads_grows[OF x(1), of h'] c by simp_all
  show "shown S (put_cell a c h') x = shown S h x" if "a \<in> foot S h' y"
  proof -
    have "a \<notin> foot S h' x" using apart[OF x] that a by blast
    then show ?thesis using frame[OF x'(1)] x'(2) by simp
  qed
  show "shown S (put_cell a c h') y = shown S h x" if "a \<in> foot S h' x"
  proof -
    have "a \<notin> foot S h' y" using apart[OF x] that a by blast
    then show ?thesis using frame[of h' y a c] c by simp
  qed
qed

end

section \<open>Copies of parts\<close>

lemma well_shaped_plain: "well_shaped plain_shape"
  by unfold_locales (auto simp: shape_defs)

lemma taken_over_simps [simp]:
  "shown (taken_over S) = shown S" "foot (taken_over S) = foot S" "shared (taken_over S) = foot S" "well (taken_over S) = well S"
  by (simp_all add: taken_over_def)

lemma deep_copier_assign: "deep_copier plain_shape assign_copy"
  by unfold_locales (simp_all add: plain_shape_def assign_copy_def)

lemma deep_copier_taken_over:
  assumes "well_shaped S"
  shows "deep_copier (taken_over S) assign_copy"
proof (unfold_locales, unfold taken_over_simps)
  fix h h' :: "('a, 'b) memory" and x y
  show "well S h x \<Longrightarrow> foot S h x \<subseteq> {..<limit h}" by (rule well_shaped.in_use[OF assms])
  show "foot S h x \<subseteq> foot S h x" by simp
  show "assign_copy x h = (y, h') \<Longrightarrow> well S h x \<Longrightarrow>
      grows h h' \<and> well S h' y \<and> shown S h' y = shown S h x \<and> foot S h' y \<subseteq> {limit h..<limit h'} \<union> foot S h x"
    by (simp add: assign_copy_def)
  show "well S h' x \<and> shown S h' x = shown S h x \<and> foot S h' x = foot S h x \<and> foot S h' x = foot S h x"
    if "well S h x" "limit h \<le> limit h'" "\<And>a. a \<in> foot S h x \<Longrightarrow> cells h' a = cells h a"
    using well_shaped.reads[OF assms that] by simp
qed

lemma map_copy_loop:
  "wf_map m \<Longrightarrow> fst ` set m \<inter> fst ` set out = {} \<Longrightarrow> fold (\<lambda>(key, val) out. mput key val out) m out = out @ m"
  by (induction m arbitrary: out) (auto simp: mput_append_fresh)

interpretation map_labels: deep_copier map_shape map_copy
  by unfold_locales (auto simp: shape_defs map_copy_def map_copy_loop)

lemma well_shaped_pair:
  assumes "well_shaped S" "well_shaped T"
  shows "well_shaped (pair_shape S T)"
proof
  note s = well_shaped.in_use[OF assms(1)] well_shaped.shares[OF assms(1)]
    and t = well_shaped.in_use[OF assms(2)] well_shaped.shares[OF assms(2)]
  fix h :: "('a, 'b) memory" and h' :: "('a, 'b) memory" and x
  show "well (pair_shape S T) h x \<Longrightarrow> foot (pair_shape S T) h x \<subseteq> {..<limit h}"
    using s(1)[of h "fst x"] t(1)[of h "snd x"] by (auto simp: pair_shape_def split: prod.splits)
  show "shared (pair_shape S T) h x \<subseteq> foot (pair_shape S T) h x"
    using s(2)[of h "fst x"] t(2)[of h "snd x"] by (auto simp: pair_shape_def split: prod.splits)
  assume "well (pair_shape S T) h x" "limit h \<le> limit h'" "\<And>a. a \<in> foot (pair_shape S T) h x \<Longrightarrow> cells h' a = cells h a"
  then show "well (pair_shape S T) h' x \<and> shown (pair_shape S T) h' x = shown (pair_shape S T) h x \<and>
      foot (pair_shape S T) h' x = foot (pair_shape S T) h x \<and> shared (pair_shape S T) h' x = shared (pair_shape S T) h x"
    using well_shaped.reads[OF assms(1), of h "fst x" h'] well_shaped.reads[OF assms(2), of h "snd x" h']
    by (auto simp: pair_shape_def split: prod.splits)
qed

text \<open>Two fields are copied one after the other.\<close>

definition pair_copy :: "('m, 'x, 'a) copier \<Rightarrow> ('m, 'x, 'b) copier \<Rightarrow> ('m, 'x, 'a \<times> 'b) copier" where
  "pair_copy c d p h = (let (x', h1) = c (fst p) h; (y', h2) = d (snd p) h1 in ((x', y'), h2))"

lemma deep_copier_pair:
  assumes c: "deep_copier S c" and d: "deep_copier T d"
  shows "deep_copier (pair_shape S T) (pair_copy c d)"
proof -
  note S = deep_copier.axioms(1)[OF c] and T = deep_copier.axioms(1)[OF d]
  have "grows h h' \<and> well (pair_shape S T) h' y \<and> shown (pair_shape S T) h' y = shown (pair_shape S T) h x \<and>
      foot (pair_shape S T) h' y \<subseteq> {limit h..<limit h'} \<union> shared (pair_shape S T) h x"
    if ok: "well (pair_shape S T) h x" and run: "pair_copy c d x h = (y, h')" for h x y h'
  proof -
    obtain x1 x2 where x: "x = (x1, x2)" by (cases x)
    obtain y1 h1 where r1: "c x1 h = (y1, h1)" by fastforce
    obtain y2 h2 where r2: "d x2 h1 = (y2, h2)" by fastforce
    have y: "y = (y1, y2)" "h' = h2" using run by (simp_all add: pair_copy_def x r1 r2)
    have w: "well S h x1" "well T h x2" using ok by (simp_all add: pair_shape_def x)
    note k1 = deep_copier.copies[OF c w(1) r1]
    note x2 = well_shaped.reads_grows[OF T w(2), of h1]
    have w2: "well T h1 x2" using x2 k1 by simp
    note k2 = deep_copier.copies[OF d w2 r2]
    note y1 = well_shaped.reads_grows[OF S, of h1 y1 h2]
    have g: "grows h h2" "limit h \<le> limit h1" "limit h1 \<le> limit h2" using k1 k2 grows_trans grows_limit by blast+
    have v: "well S h2 y1 \<and> shown S h2 y1 = shown S h x1" and f1: "foot S h2 y1 \<subseteq> {limit h..<limit h1} \<union> shared S h x1"
      using y1 k1 k2 by simp_all
    have v2: "shown T h2 y2 = shown T h x2" and f2: "foot T h2 y2 \<subseteq> {limit h1..<limit h2} \<union> shared T h x2" using k1 k2 x2 by simp_all
    have "foot S h2 y1 \<union> foot T h2 y2 \<subseteq> {limit h..<limit h2} \<union> (shared S h x1 \<union> shared T h x2)"
      using f1 f2 g(2,3) by fastforce
    then show ?thesis using g(1) v v2 k2 by (simp add: pair_shape_def x y)
  qed
  then show ?thesis using well_shaped_pair[OF S T] by (simp add: deep_copier_def deep_copier_axioms_def)
qed

text \<open>A struct: its parts are copied, and put back into the struct that was assigned.\<close>

lemma well_shaped_struct: "well_shaped S \<Longrightarrow> well_shaped (struct_shape parts build S)"
proof
  assume S: "well_shaped S"
  fix h h' :: "('a, 'b) memory" and x
  show "well (struct_shape parts build S) h x \<Longrightarrow> foot (struct_shape parts build S) h x \<subseteq> {..<limit h}"
    using well_shaped.in_use[OF S, of h "parts x"] by (simp add: struct_shape_def)
  show "shared (struct_shape parts build S) h x \<subseteq> foot (struct_shape parts build S) h x"
    using well_shaped.shares[OF S, of h "parts x"] by (simp add: struct_shape_def)
  assume "well (struct_shape parts build S) h x" "limit h \<le> limit h'"
    "\<And>a. a \<in> foot (struct_shape parts build S) h x \<Longrightarrow> cells h' a = cells h a"
  then show "well (struct_shape parts build S) h' x \<and> shown (struct_shape parts build S) h' x = shown (struct_shape parts build S) h x \<and>
      foot (struct_shape parts build S) h' x = foot (struct_shape parts build S) h x \<and>
      shared (struct_shape parts build S) h' x = shared (struct_shape parts build S) h x"
    using well_shaped.reads[OF S, of h "parts x" h'] by (simp add: struct_shape_def)
qed

lemma deep_copier_struct:
  assumes c: "deep_copier S c"
    and copy: "\<And>x h. copy x h = (let (p, h') = c (parts x) h in (upd p x, h'))"
    and parts: "\<And>p x. parts (upd p x) = p"
    and rest: "\<And>p x w. build (upd p x) w = build x w"
  shows "deep_copier (struct_shape parts build S) copy"
proof -
  have "grows h h' \<and> well (struct_shape parts build S) h' y \<and> shown (struct_shape parts build S) h' y = shown (struct_shape parts build S) h x \<and>
      foot (struct_shape parts build S) h' y \<subseteq> {limit h..<limit h'} \<union> shared (struct_shape parts build S) h x"
    if "well (struct_shape parts build S) h x" "copy x h = (y, h')" for h x y h'
  proof -
    obtain p h1 where r: "c (parts x) h = (p, h1)" by fastforce
    have "y = upd p x" "h' = h1" using that(2) by (simp_all add: copy r)
    then show ?thesis using deep_copier.copies[OF c _ r] that(1) by (simp add: struct_shape_def parts rest)
  qed
  then show ?thesis
    using well_shaped_struct[OF deep_copier.axioms(1)[OF c]] by (simp add: deep_copier_def deep_copier_axioms_def)
qed

text \<open>A loop over a slice.\<close>

lemma well_shaped_list:
  assumes S: "well_shaped S"
  shows "well_shaped (list_shape S)"
proof
  fix h h' :: "('a, 'b) memory" and xs
  show "well (list_shape S) h xs \<Longrightarrow> foot (list_shape S) h xs \<subseteq> {..<limit h}"
    using well_shaped.in_use[OF S, of h] by (fastforce simp: list_shape_def list_all_iff)
  show "shared (list_shape S) h xs \<subseteq> foot (list_shape S) h xs"
    using well_shaped.shares[OF S, of h] by (fastforce simp: list_shape_def)
  assume "well (list_shape S) h xs" "limit h \<le> limit h'" "\<And>a. a \<in> foot (list_shape S) h xs \<Longrightarrow> cells h' a = cells h a"
  then have "well S h' x \<and> shown S h' x = shown S h x \<and> foot S h' x = foot S h x \<and> shared S h' x = shared S h x" if "x \<in> set xs" for x
    using well_shaped.reads[OF S, of h x h'] that by (auto simp: list_shape_def list_all_iff)
  then show "well (list_shape S) h' xs \<and> shown (list_shape S) h' xs = shown (list_shape S) h xs \<and>
      foot (list_shape S) h' xs = foot (list_shape S) h xs \<and> shared (list_shape S) h' xs = shared (list_shape S) h xs"
    by (simp add: list_shape_def list_all_iff)
qed

lemma slice_copy_copies:
  assumes c: "deep_copier S c"
  shows "well (list_shape S) h xs \<Longrightarrow> slice_copy c xs h = (ys, h') \<Longrightarrow>
    grows h h' \<and> well (list_shape S) h' ys \<and> shown (list_shape S) h' ys = shown (list_shape S) h xs \<and>
    foot (list_shape S) h' ys \<subseteq> {limit h..<limit h'} \<union> shared (list_shape S) h xs"
proof (induction xs arbitrary: h ys h')
  case Nil
  then show ?case by (simp add: list_shape_def)
next
  case (Cons x xs)
  obtain y h1 where r1: "c x h = (y, h1)" by fastforce
  obtain zs h2 where r2: "slice_copy c xs h1 = (zs, h2)" by fastforce
  have ys: "ys = y # zs" "h' = h2" using Cons.prems(2) by (simp_all add: r1 r2)
  have w: "well S h x" "well (list_shape S) h xs" using Cons.prems(1) by (simp_all add: list_shape_def)
  note S = deep_copier.axioms(1)[OF c]
  note k1 = deep_copier.copies[OF c w(1) r1]
  note xs = well_shaped.reads_grows[OF well_shaped_list[OF S] w(2), of h1]
  have w2: "well (list_shape S) h1 xs" using xs k1 by simp
  note k2 = Cons.IH[OF w2 r2]
  note y = well_shaped.reads_grows[OF S, of h1 y h2]
  have g: "grows h h2" "limit h \<le> limit h1" "limit h1 \<le> limit h2" using k1 k2 grows_trans grows_limit by blast+
  have v: "well S h2 y" "shown S h2 y = shown S h x" and f1: "foot S h2 y \<subseteq> {limit h..<limit h1} \<union> shared S h x"
    using y k1 k2 by simp_all
  have v2: "shown (list_shape S) h2 zs = shown (list_shape S) h xs"
    and f2: "foot (list_shape S) h2 zs \<subseteq> {limit h1..<limit h2} \<union> shared (list_shape S) h xs" using k1 k2 xs by simp_all
  have "foot S h2 y \<union> foot (list_shape S) h2 zs \<subseteq> {limit h..<limit h2} \<union> (shared S h x \<union> shared (list_shape S) h xs)"
    using f1 f2 g(2,3) by fastforce
  then show ?case using g(1) v v2 k2 by (simp add: list_shape_def ys)
qed

lemma deep_copier_slice:
  assumes c: "deep_copier S c"
  shows "deep_copier (list_shape S) (slice_copy c)"
  using well_shaped_list[OF deep_copier.axioms(1)[OF c]] slice_copy_copies[OF c] by (simp add: deep_copier_def deep_copier_axioms_def)

text \<open>A pointer.\<close>

lemma new_copy_at: "\<exists>h'. new_copy sel con into (Some a) h = (Some (limit h), h')"
  by (simp add: new_copy_def alloc_def split: prod.splits)

lemma well_shaped_ptr:
  assumes S: "well_shaped S"
  shows "well_shaped (ptr_shape sel S)"
proof
  fix h h' :: "('a, 'b) memory" and p
  show "well (ptr_shape sel S) h p \<Longrightarrow> foot (ptr_shape sel S) h p \<subseteq> {..<limit h}"
    using well_shaped.in_use[OF S, of h] by (auto simp: ptr_shape_def split: option.splits)
  show "shared (ptr_shape sel S) h p \<subseteq> foot (ptr_shape sel S) h p"
    using well_shaped.shares[OF S, of h] by (auto simp: ptr_shape_def split: option.splits)
  assume p: "well (ptr_shape sel S) h p" "limit h \<le> limit h'" "\<And>a. a \<in> foot (ptr_shape sel S) h p \<Longrightarrow> cells h' a = cells h a"
  show "well (ptr_shape sel S) h' p \<and> shown (ptr_shape sel S) h' p = shown (ptr_shape sel S) h p \<and>
      foot (ptr_shape sel S) h' p = foot (ptr_shape sel S) h p \<and> shared (ptr_shape sel S) h' p = shared (ptr_shape sel S) h p"
  proof (cases p)
    case None
    then show ?thesis by (simp add: ptr_shape_def)
  next
    case (Some a)
    have "cells h' a = cells h a" using p(3)[of a] by (simp add: ptr_shape_def Some)
    moreover have "cells h' b = cells h b" if "b \<in> foot S h (sel (cells h a))" for b using p(3)[of b] that by (simp add: ptr_shape_def Some)
    ultimately show ?thesis
      using well_shaped.reads[OF S, of h "sel (cells h a)" h'] p(1,2) by (simp add: ptr_shape_def Some)
  qed
qed

lemma deep_copier_new:
  assumes c: "deep_copier S c" and sel: "\<And>v. sel (con v) = v"
  shows "deep_copier (ptr_shape sel S) (new_copy sel con c)"
proof -
  note S = deep_copier.axioms(1)[OF c]
  have "grows h h' \<and> well (ptr_shape sel S) h' q \<and> shown (ptr_shape sel S) h' q = shown (ptr_shape sel S) h p \<and>
      foot (ptr_shape sel S) h' q \<subseteq> {limit h..<limit h'} \<union> shared (ptr_shape sel S) h p"
    if ok: "well (ptr_shape sel S) h p" and run: "new_copy sel con c p h = (q, h')" for h p q h'
  proof (cases p)
    case None
    then show ?thesis using run by (simp add: new_copy_def ptr_shape_def)
  next
    case (Some a)
    let ?h1 = "h\<lparr>limit := Suc (limit h)\<rparr>" and ?v = "sel (cells h a)"
    obtain w h2 where r: "c ?v ?h1 = (w, h2)" by fastforce
    have q: "q = Some (limit h)" "h' = put_cell (limit h) (con w) h2"
      using run by (simp_all add: new_copy_def alloc_def Some r)
    have a: "a < limit h" "well S h ?v" using ok by (simp_all add: ptr_shape_def Some)
    have g1: "grows h ?h1" by (simp add: grows_def)
    note v = well_shaped.reads_grows[OF S a(2) g1]
    note k = deep_copier.copies[OF c _ r]
    have lim: "Suc (limit h) \<le> limit h2" "grows ?h1 h2" using k v grows_limit[of ?h1 h2] by simp_all
    have sh: "shared S h ?v \<subseteq> {..<limit h}" using well_shaped.shares[OF S, of h ?v] well_shaped.in_use[OF S a(2)] by (rule subset_trans)
    have "foot S h2 w \<subseteq> {Suc (limit h)..<limit h2} \<union> shared S h ?v" using k v by simp
    then have fw: "foot S h2 w \<subseteq> {limit h..<limit h2} \<union> shared S h ?v" "limit h \<notin> foot S h2 w" using sh by fastforce+
    have same: "cells h' b = cells h2 b" if "b \<in> foot S h2 w" for b using that fw(2) by (auto simp: q put_cell_def)
    have w: "well S h' w \<and> shown S h' w = shown S h2 w \<and> foot S h' w = foot S h2 w"
      using well_shaped.reads[OF S, of h2 w h'] k v same by (simp add: q put_cell_def)
    have "grows h h'" using lim by (auto simp: grows_def q put_cell_def)
    moreover have "cells h' (limit h) = con w" "limit h' = limit h2" by (simp_all add: q put_cell_def)
    ultimately show ?thesis using w k v fw lim(1) by (simp add: ptr_shape_def q(1) Some sel)
  qed
  then show ?thesis using well_shaped_ptr[OF S] by (simp add: deep_copier_def deep_copier_axioms_def)
qed

end
