(* ===== verification/DeepCopy.thy ===== *)
theory DeepCopy
  imports DeepCopyMem
begin

text \<open>
  The deep copies of \<^verbatim>\<open>pkg/apis/aadpodidentity/aadpodidentity_deepcopy_generated.go\<close>, one definition per function, on the memory of
  \<^theory_text>\<open>DeepCopyMem\<close>.  \<^verbatim>\<open>DeepCopyInto\<close> gives what it leaves in \<^verbatim>\<open>*out\<close>, which starts as \<^verbatim>\<open>*in\<close>; \<open>v\<close> is the value that the call on the line leaves in its field.
  The elements of a slice are written to the array of the new slice when the loop is done.

  The second part gives each type its shape and shows that its copy is a \<open>deep_copier\<close> for it.
\<close>

section \<open>Generated copies\<close>

text \<open>What \<^verbatim>\<open>DeepCopyObject\<close> returns as a \<^verbatim>\<open>runtime.Object\<close>: a pointer with its type, or the nil interface.\<close>

datatype runtime_Object =
    OIdentity addr | OIdentityList addr | OBinding addr | OBindingList addr
  | OAssigned addr | OAssignedList addr | OException addr | OExceptionList addr

definition AzureIdentitySpec_DeepCopyInto :: "('m, 'x) CopyEnv \<Rightarrow> ('m, 'x, 'm mAzureIdentitySpec) copier" where
  "AzureIdentitySpec_DeepCopyInto env inp h =
     (let out = inp;
          (v, h) = ce_ObjectMeta_DeepCopyInto env (mids_ObjectMeta inp) h; out = out\<lparr>mids_ObjectMeta := v\<rparr>;
          out = out\<lparr>mids_ClientPassword := mids_ClientPassword inp\<rparr>;
          (v, h) = new_copy int32_of CInt32 assign_copy (mids_Replicas inp) h; out = out\<lparr>mids_Replicas := v\<rparr>
      in (out, h))"

definition AzureIdentitySpec_DeepCopy :: "('m, 'x) CopyEnv \<Rightarrow> ('m, 'x, addr option) copier" where
  "AzureIdentitySpec_DeepCopy env = new_copy identitySpec_of CIdentitySpec (AzureIdentitySpec_DeepCopyInto env)"

definition AzureIdentityStatus_DeepCopyInto :: "('m, 'x) CopyEnv \<Rightarrow> ('m, 'x, 'm mAzureIdentityStatus) copier" where
  "AzureIdentityStatus_DeepCopyInto env inp h =
     (let out = inp;
          (v, h) = ce_ObjectMeta_DeepCopyInto env (midst_ObjectMeta inp) h; out = out\<lparr>midst_ObjectMeta := v\<rparr>
      in (out, h))"

definition AzureIdentityStatus_DeepCopy :: "('m, 'x) CopyEnv \<Rightarrow> ('m, 'x, addr option) copier" where
  "AzureIdentityStatus_DeepCopy env = new_copy identityStatus_of CIdentityStatus (AzureIdentityStatus_DeepCopyInto env)"

definition AzureIdentity_DeepCopyInto :: "('m, 'x) CopyEnv \<Rightarrow> ('m, 'x, 'm mAzureIdentity) copier" where
  "AzureIdentity_DeepCopyInto env inp h =
     (let out = inp;
          out = out\<lparr>mid_TypeMeta := mid_TypeMeta inp\<rparr>;
          (v, h) = ce_ObjectMeta_DeepCopyInto env (mid_ObjectMeta inp) h; out = out\<lparr>mid_ObjectMeta := v\<rparr>;
          (v, h) = AzureIdentitySpec_DeepCopyInto env (mid_Spec inp) h; out = out\<lparr>mid_Spec := v\<rparr>;
          (v, h) = AzureIdentityStatus_DeepCopyInto env (mid_Status inp) h; out = out\<lparr>mid_Status := v\<rparr>
      in (out, h))"

definition AzureIdentity_DeepCopy :: "('m, 'x) CopyEnv \<Rightarrow> ('m, 'x, addr option) copier" where
  "AzureIdentity_DeepCopy env = new_copy identity_of CIdentity (AzureIdentity_DeepCopyInto env)"

definition AzureIdentity_DeepCopyObject ::
  "('m, 'x) CopyEnv \<Rightarrow> addr option \<Rightarrow> ('m, 'x) memory \<Rightarrow> runtime_Object option \<times> ('m, 'x) memory" where
  "AzureIdentity_DeepCopyObject env inp h =
     (let (c, h) = AzureIdentity_DeepCopy env inp h
      in case c of None \<Rightarrow> (None, h) | Some a \<Rightarrow> (Some (OIdentity a), h))"

definition AzureIdentityList_DeepCopyInto :: "('m, 'x) CopyEnv \<Rightarrow> ('m, 'x, mAzureIdentityList) copier" where
  "AzureIdentityList_DeepCopyInto env inp h =
     (let out = inp;
          out = out\<lparr>mil_TypeMeta := mil_TypeMeta inp\<rparr>;
          (v, h) = ce_ListMeta_DeepCopyInto env (mil_ListMeta inp) h; out = out\<lparr>mil_ListMeta := v\<rparr>;
          (v, h) = new_copy identities_of CIdentities (slice_copy (AzureIdentity_DeepCopyInto env)) (mil_Items inp) h; out = out\<lparr>mil_Items := v\<rparr>
      in (out, h))"

definition AzureIdentityList_DeepCopy :: "('m, 'x) CopyEnv \<Rightarrow> ('m, 'x, addr option) copier" where
  "AzureIdentityList_DeepCopy env = new_copy identityList_of CIdentityList (AzureIdentityList_DeepCopyInto env)"

definition AzureIdentityList_DeepCopyObject ::
  "('m, 'x) CopyEnv \<Rightarrow> addr option \<Rightarrow> ('m, 'x) memory \<Rightarrow> runtime_Object option \<times> ('m, 'x) memory" where
  "AzureIdentityList_DeepCopyObject env inp h =
     (let (c, h) = AzureIdentityList_DeepCopy env inp h
      in case c of None \<Rightarrow> (None, h) | Some a \<Rightarrow> (Some (OIdentityList a), h))"

definition AzureIdentityBindingSpec_DeepCopyInto :: "('m, 'x) CopyEnv \<Rightarrow> ('m, 'x, 'm mAzureIdentityBindingSpec) copier" where
  "AzureIdentityBindingSpec_DeepCopyInto env inp h =
     (let out = inp;
          (v, h) = ce_ObjectMeta_DeepCopyInto env (mbs_ObjectMeta inp) h; out = out\<lparr>mbs_ObjectMeta := v\<rparr>
      in (out, h))"

definition AzureIdentityBindingSpec_DeepCopy :: "('m, 'x) CopyEnv \<Rightarrow> ('m, 'x, addr option) copier" where
  "AzureIdentityBindingSpec_DeepCopy env = new_copy bindingSpec_of CBindingSpec (AzureIdentityBindingSpec_DeepCopyInto env)"

definition AzureIdentityBindingStatus_DeepCopyInto :: "('m, 'x) CopyEnv \<Rightarrow> ('m, 'x, 'm mAzureIdentityBindingStatus) copier" where
  "AzureIdentityBindingStatus_DeepCopyInto env inp h =
     (let out = inp;
          (v, h) = ce_ObjectMeta_DeepCopyInto env (mbst_ObjectMeta inp) h; out = out\<lparr>mbst_ObjectMeta := v\<rparr>
      in (out, h))"

definition AzureIdentityBindingStatus_DeepCopy :: "('m, 'x) CopyEnv \<Rightarrow> ('m, 'x, addr option) copier" where
  "AzureIdentityBindingStatus_DeepCopy env = new_copy bindingStatus_of CBindingStatus (AzureIdentityBindingStatus_DeepCopyInto env)"

definition AzureIdentityBinding_DeepCopyInto :: "('m, 'x) CopyEnv \<Rightarrow> ('m, 'x, 'm mAzureIdentityBinding) copier" where
  "AzureIdentityBinding_DeepCopyInto env inp h =
     (let out = inp;
          out = out\<lparr>mb_TypeMeta := mb_TypeMeta inp\<rparr>;
          (v, h) = ce_ObjectMeta_DeepCopyInto env (mb_ObjectMeta inp) h; out = out\<lparr>mb_ObjectMeta := v\<rparr>;
          (v, h) = AzureIdentityBindingSpec_DeepCopyInto env (mb_Spec inp) h; out = out\<lparr>mb_Spec := v\<rparr>;
          (v, h) = AzureIdentityBindingStatus_DeepCopyInto env (mb_Status inp) h; out = out\<lparr>mb_Status := v\<rparr>
      in (out, h))"

definition AzureIdentityBinding_DeepCopy :: "('m, 'x) CopyEnv \<Rightarrow> ('m, 'x, addr option) copier" where
  "AzureIdentityBinding_DeepCopy env = new_copy binding_of CBinding (AzureIdentityBinding_DeepCopyInto env)"

definition AzureIdentityBinding_DeepCopyObject ::
  "('m, 'x) CopyEnv \<Rightarrow> addr option \<Rightarrow> ('m, 'x) memory \<Rightarrow> runtime_Object option \<times> ('m, 'x) memory" where
  "AzureIdentityBinding_DeepCopyObject env inp h =
     (let (c, h) = AzureIdentityBinding_DeepCopy env inp h
      in case c of None \<Rightarrow> (None, h) | Some a \<Rightarrow> (Some (OBinding a), h))"

definition AzureIdentityBindingList_DeepCopyInto :: "('m, 'x) CopyEnv \<Rightarrow> ('m, 'x, mAzureIdentityBindingList) copier" where
  "AzureIdentityBindingList_DeepCopyInto env inp h =
     (let out = inp;
          out = out\<lparr>mbl_TypeMeta := mbl_TypeMeta inp\<rparr>;
          (v, h) = ce_ListMeta_DeepCopyInto env (mbl_ListMeta inp) h; out = out\<lparr>mbl_ListMeta := v\<rparr>;
          (v, h) = new_copy bindings_of CBindings (slice_copy (AzureIdentityBinding_DeepCopyInto env)) (mbl_Items inp) h; out = out\<lparr>mbl_Items := v\<rparr>
      in (out, h))"

definition AzureIdentityBindingList_DeepCopy :: "('m, 'x) CopyEnv \<Rightarrow> ('m, 'x, addr option) copier" where
  "AzureIdentityBindingList_DeepCopy env = new_copy bindingList_of CBindingList (AzureIdentityBindingList_DeepCopyInto env)"

definition AzureIdentityBindingList_DeepCopyObject ::
  "('m, 'x) CopyEnv \<Rightarrow> addr option \<Rightarrow> ('m, 'x) memory \<Rightarrow> runtime_Object option \<times> ('m, 'x) memory" where
  "AzureIdentityBindingList_DeepCopyObject env inp h =
     (let (c, h) = AzureIdentityBindingList_DeepCopy env inp h
      in case c of None \<Rightarrow> (None, h) | Some a \<Rightarrow> (Some (OBindingList a), h))"

definition AzureAssignedIdentitySpec_DeepCopyInto :: "('m, 'x) CopyEnv \<Rightarrow> ('m, 'x, 'm mAzureAssignedIdentitySpec) copier" where
  "AzureAssignedIdentitySpec_DeepCopyInto env inp h =
     (let out = inp;
          (v, h) = ce_ObjectMeta_DeepCopyInto env (mas_ObjectMeta inp) h; out = out\<lparr>mas_ObjectMeta := v\<rparr>;
          (v, h) = new_copy identity_of CIdentity (AzureIdentity_DeepCopyInto env) (mas_AzureIdentityRef inp) h; out = out\<lparr>mas_AzureIdentityRef := v\<rparr>;
          (v, h) = new_copy binding_of CBinding (AzureIdentityBinding_DeepCopyInto env) (mas_AzureBindingRef inp) h; out = out\<lparr>mas_AzureBindingRef := v\<rparr>;
          (v, h) = new_copy int32_of CInt32 assign_copy (mas_Replicas inp) h; out = out\<lparr>mas_Replicas := v\<rparr>
      in (out, h))"

definition AzureAssignedIdentitySpec_DeepCopy :: "('m, 'x) CopyEnv \<Rightarrow> ('m, 'x, addr option) copier" where
  "AzureAssignedIdentitySpec_DeepCopy env = new_copy assignedSpec_of CAssignedSpec (AzureAssignedIdentitySpec_DeepCopyInto env)"

definition AzureAssignedIdentityStatus_DeepCopyInto :: "('m, 'x) CopyEnv \<Rightarrow> ('m, 'x, 'm mAzureAssignedIdentityStatus) copier" where
  "AzureAssignedIdentityStatus_DeepCopyInto env inp h =
     (let out = inp;
          (v, h) = ce_ObjectMeta_DeepCopyInto env (mast_ObjectMeta inp) h; out = out\<lparr>mast_ObjectMeta := v\<rparr>
      in (out, h))"

definition AzureAssignedIdentityStatus_DeepCopy :: "('m, 'x) CopyEnv \<Rightarrow> ('m, 'x, addr option) copier" where
  "AzureAssignedIdentityStatus_DeepCopy env = new_copy assignedStatus_of CAssignedStatus (AzureAssignedIdentityStatus_DeepCopyInto env)"

definition AzureAssignedIdentity_DeepCopyInto :: "('m, 'x) CopyEnv \<Rightarrow> ('m, 'x, 'm mAzureAssignedIdentity) copier" where
  "AzureAssignedIdentity_DeepCopyInto env inp h =
     (let out = inp;
          out = out\<lparr>ma_TypeMeta := ma_TypeMeta inp\<rparr>;
          (v, h) = ce_ObjectMeta_DeepCopyInto env (ma_ObjectMeta inp) h; out = out\<lparr>ma_ObjectMeta := v\<rparr>;
          (v, h) = AzureAssignedIdentitySpec_DeepCopyInto env (ma_Spec inp) h; out = out\<lparr>ma_Spec := v\<rparr>;
          (v, h) = AzureAssignedIdentityStatus_DeepCopyInto env (ma_Status inp) h; out = out\<lparr>ma_Status := v\<rparr>
      in (out, h))"

definition AzureAssignedIdentity_DeepCopy :: "('m, 'x) CopyEnv \<Rightarrow> ('m, 'x, addr option) copier" where
  "AzureAssignedIdentity_DeepCopy env = new_copy assigned_of CAssigned (AzureAssignedIdentity_DeepCopyInto env)"

definition AzureAssignedIdentity_DeepCopyObject ::
  "('m, 'x) CopyEnv \<Rightarrow> addr option \<Rightarrow> ('m, 'x) memory \<Rightarrow> runtime_Object option \<times> ('m, 'x) memory" where
  "AzureAssignedIdentity_DeepCopyObject env inp h =
     (let (c, h) = AzureAssignedIdentity_DeepCopy env inp h
      in case c of None \<Rightarrow> (None, h) | Some a \<Rightarrow> (Some (OAssigned a), h))"

definition AzureAssignedIdentityList_DeepCopyInto :: "('m, 'x) CopyEnv \<Rightarrow> ('m, 'x, mAzureAssignedIdentityList) copier" where
  "AzureAssignedIdentityList_DeepCopyInto env inp h =
     (let out = inp;
          out = out\<lparr>mal_TypeMeta := mal_TypeMeta inp\<rparr>;
          (v, h) = ce_ListMeta_DeepCopyInto env (mal_ListMeta inp) h; out = out\<lparr>mal_ListMeta := v\<rparr>;
          (v, h) = new_copy assigneds_of CAssigneds (slice_copy (AzureAssignedIdentity_DeepCopyInto env)) (mal_Items inp) h; out = out\<lparr>mal_Items := v\<rparr>
      in (out, h))"

definition AzureAssignedIdentityList_DeepCopy :: "('m, 'x) CopyEnv \<Rightarrow> ('m, 'x, addr option) copier" where
  "AzureAssignedIdentityList_DeepCopy env = new_copy assignedList_of CAssignedList (AzureAssignedIdentityList_DeepCopyInto env)"

definition AzureAssignedIdentityList_DeepCopyObject ::
  "('m, 'x) CopyEnv \<Rightarrow> addr option \<Rightarrow> ('m, 'x) memory \<Rightarrow> runtime_Object option \<times> ('m, 'x) memory" where
  "AzureAssignedIdentityList_DeepCopyObject env inp h =
     (let (c, h) = AzureAssignedIdentityList_DeepCopy env inp h
      in case c of None \<Rightarrow> (None, h) | Some a \<Rightarrow> (Some (OAssignedList a), h))"

definition AzurePodIdentityExceptionSpec_DeepCopyInto :: "('m, 'x) CopyEnv \<Rightarrow> ('m, 'x, 'm mAzurePodIdentityExceptionSpec) copier" where
  "AzurePodIdentityExceptionSpec_DeepCopyInto env inp h =
     (let out = inp;
          (v, h) = ce_ObjectMeta_DeepCopyInto env (mes_ObjectMeta inp) h; out = out\<lparr>mes_ObjectMeta := v\<rparr>;
          (v, h) = new_copy labels_of CLabels map_copy (mes_PodLabels inp) h; out = out\<lparr>mes_PodLabels := v\<rparr>
      in (out, h))"

definition AzurePodIdentityExceptionSpec_DeepCopy :: "('m, 'x) CopyEnv \<Rightarrow> ('m, 'x, addr option) copier" where
  "AzurePodIdentityExceptionSpec_DeepCopy env = new_copy exceptionSpec_of CExceptionSpec (AzurePodIdentityExceptionSpec_DeepCopyInto env)"

definition AzurePodIdentityExceptionStatus_DeepCopyInto :: "('m, 'x) CopyEnv \<Rightarrow> ('m, 'x, 'm mAzurePodIdentityExceptionStatus) copier" where
  "AzurePodIdentityExceptionStatus_DeepCopyInto env inp h =
     (let out = inp;
          (v, h) = ce_ObjectMeta_DeepCopyInto env (mest_ObjectMeta inp) h; out = out\<lparr>mest_ObjectMeta := v\<rparr>
      in (out, h))"

definition AzurePodIdentityExceptionStatus_DeepCopy :: "('m, 'x) CopyEnv \<Rightarrow> ('m, 'x, addr option) copier" where
  "AzurePodIdentityExceptionStatus_DeepCopy env = new_copy exceptionStatus_of CExceptionStatus (AzurePodIdentityExceptionStatus_DeepCopyInto env)"

definition AzurePodIdentityException_DeepCopyInto :: "('m, 'x) CopyEnv \<Rightarrow> ('m, 'x, 'm mAzurePodIdentityException) copier" where
  "AzurePodIdentityException_DeepCopyInto env inp h =
     (let out = inp;
          out = out\<lparr>me_TypeMeta := me_TypeMeta inp\<rparr>;
          (v, h) = ce_ObjectMeta_DeepCopyInto env (me_ObjectMeta inp) h; out = out\<lparr>me_ObjectMeta := v\<rparr>;
          (v, h) = AzurePodIdentityExceptionSpec_DeepCopyInto env (me_Spec inp) h; out = out\<lparr>me_Spec := v\<rparr>;
          (v, h) = AzurePodIdentityExceptionStatus_DeepCopyInto env (me_Status inp) h; out = out\<lparr>me_Status := v\<rparr>
      in (out, h))"

definition AzurePodIdentityException_DeepCopy :: "('m, 'x) CopyEnv \<Rightarrow> ('m, 'x, addr option) copier" where
  "AzurePodIdentityException_DeepCopy env = new_copy exception_of CException (AzurePodIdentityException_DeepCopyInto env)"

definition AzurePodIdentityException_DeepCopyObject ::
  "('m, 'x) CopyEnv \<Rightarrow> addr option \<Rightarrow> ('m, 'x) memory \<Rightarrow> runtime_Object option \<times> ('m, 'x) memory" where
  "AzurePodIdentityException_DeepCopyObject env inp h =
     (let (c, h) = AzurePodIdentityException_DeepCopy env inp h
      in case c of None \<Rightarrow> (None, h) | Some a \<Rightarrow> (Some (OException a), h))"

definition AzurePodIdentityExceptionList_DeepCopyInto :: "('m, 'x) CopyEnv \<Rightarrow> ('m, 'x, mAzurePodIdentityExceptionList) copier" where
  "AzurePodIdentityExceptionList_DeepCopyInto env inp h =
     (let out = inp;
          out = out\<lparr>mel_TypeMeta := mel_TypeMeta inp\<rparr>;
          (v, h) = ce_ListMeta_DeepCopyInto env (mel_ListMeta inp) h; out = out\<lparr>mel_ListMeta := v\<rparr>;
          (v, h) = new_copy exceptions_of CExceptions (slice_copy (AzurePodIdentityException_DeepCopyInto env)) (mel_Items inp) h; out = out\<lparr>mel_Items := v\<rparr>
      in (out, h))"

definition AzurePodIdentityExceptionList_DeepCopy :: "('m, 'x) CopyEnv \<Rightarrow> ('m, 'x, addr option) copier" where
  "AzurePodIdentityExceptionList_DeepCopy env = new_copy exceptionList_of CExceptionList (AzurePodIdentityExceptionList_DeepCopyInto env)"

definition AzurePodIdentityExceptionList_DeepCopyObject ::
  "('m, 'x) CopyEnv \<Rightarrow> addr option \<Rightarrow> ('m, 'x) memory \<Rightarrow> runtime_Object option \<times> ('m, 'x) memory" where
  "AzurePodIdentityExceptionList_DeepCopyObject env inp h =
     (let (c, h) = AzurePodIdentityExceptionList_DeepCopy env inp h
      in case c of None \<Rightarrow> (None, h) | Some a \<Rightarrow> (Some (OExceptionList a), h))"


section \<open>What the types show\<close>

text \<open>
  The shapes of the types, from the shape \<open>M\<close> of \<^verbatim>\<open>ObjectMeta\<close>.  The copies of an identity take \<^verbatim>\<open>AuxiliaryTenantIDs\<close> over with the assignment
  \<^verbatim>\<open>*out = *in\<close>; nothing replaces the slice afterwards.
\<close>

abbreviation nil_empty :: "'a list option \<Rightarrow> 'a list" where
  "nil_empty p \<equiv> (case p of None \<Rightarrow> [] | Some l \<Rightarrow> l)"

definition AzureIdentitySpec_shape :: "('m, 'x, 'm, ObjectMeta) shape \<Rightarrow> ('m, 'x, 'm mAzureIdentitySpec, v1AzureIdentitySpec) shape" where
  "AzureIdentitySpec_shape M = struct_shape
     (\<lambda>s. (mids_ObjectMeta s, mids_AuxiliaryTenantIDs s, mids_Replicas s))
     (\<lambda>s (m, t, r). \<lparr>v1ids_ObjectMeta = m, v1ids_Type = mids_Type s, v1ids_ResourceID = mids_ResourceID s, v1ids_ClientID = mids_ClientID s,
        v1ids_ClientPassword = mids_ClientPassword s, v1ids_TenantID = mids_TenantID s, v1ids_AuxiliaryTenantIDs = nil_empty t,
        v1ids_ADResourceID = mids_ADResourceID s, v1ids_ADEndpoint = mids_ADEndpoint s, v1ids_Replicas = r\<rparr>)
     (pair_shape M (pair_shape (taken_over (ptr_shape strings_of plain_shape)) (ptr_shape int32_of plain_shape)))"

definition AzureIdentityStatus_shape :: "('m, 'x, 'm, ObjectMeta) shape \<Rightarrow> ('m, 'x, 'm mAzureIdentityStatus, AzureIdentityStatus) shape" where
  "AzureIdentityStatus_shape M = struct_shape midst_ObjectMeta
     (\<lambda>s m. \<lparr>idst_ObjectMeta = m, idst_AvailableReplicas = midst_AvailableReplicas s\<rparr>) M"

definition AzureIdentity_shape :: "('m, 'x, 'm, ObjectMeta) shape \<Rightarrow> ('m, 'x, 'm mAzureIdentity, v1AzureIdentity) shape" where
  "AzureIdentity_shape M = struct_shape
     (\<lambda>i. (mid_ObjectMeta i, mid_Spec i, mid_Status i))
     (\<lambda>i (m, s, t). \<lparr>v1id_TypeMeta = mid_TypeMeta i, v1id_ObjectMeta = m, v1id_Spec = s, v1id_Status = t\<rparr>)
     (pair_shape M (pair_shape (AzureIdentitySpec_shape M) (AzureIdentityStatus_shape M)))"

definition AzureIdentityBindingSpec_shape ::
  "('m, 'x, 'm, ObjectMeta) shape \<Rightarrow> ('m, 'x, 'm mAzureIdentityBindingSpec, v1AzureIdentityBindingSpec) shape" where
  "AzureIdentityBindingSpec_shape M = struct_shape mbs_ObjectMeta
     (\<lambda>s m. \<lparr>v1bs_ObjectMeta = m, v1bs_AzureIdentity = mbs_AzureIdentity s, v1bs_Selector = mbs_Selector s, v1bs_Weight = mbs_Weight s\<rparr>) M"

definition AzureIdentityBindingStatus_shape ::
  "('m, 'x, 'm, ObjectMeta) shape \<Rightarrow> ('m, 'x, 'm mAzureIdentityBindingStatus, AzureIdentityBindingStatus) shape" where
  "AzureIdentityBindingStatus_shape M = struct_shape mbst_ObjectMeta
     (\<lambda>s m. \<lparr>bst_ObjectMeta = m, bst_AvailableReplicas = mbst_AvailableReplicas s\<rparr>) M"

definition AzureIdentityBinding_shape :: "('m, 'x, 'm, ObjectMeta) shape \<Rightarrow> ('m, 'x, 'm mAzureIdentityBinding, v1AzureIdentityBinding) shape" where
  "AzureIdentityBinding_shape M = struct_shape
     (\<lambda>b. (mb_ObjectMeta b, mb_Spec b, mb_Status b))
     (\<lambda>b (m, s, t). \<lparr>v1b_TypeMeta = mb_TypeMeta b, v1b_ObjectMeta = m, v1b_Spec = s, v1b_Status = t\<rparr>)
     (pair_shape M (pair_shape (AzureIdentityBindingSpec_shape M) (AzureIdentityBindingStatus_shape M)))"

definition AzureAssignedIdentitySpec_shape ::
  "('m, 'x, 'm, ObjectMeta) shape \<Rightarrow> ('m, 'x, 'm mAzureAssignedIdentitySpec, v1AzureAssignedIdentitySpec) shape" where
  "AzureAssignedIdentitySpec_shape M = struct_shape
     (\<lambda>s. (mas_ObjectMeta s, mas_AzureIdentityRef s, mas_AzureBindingRef s, mas_Replicas s))
     (\<lambda>s (m, i, b, r). \<lparr>v1as_ObjectMeta = m, v1as_AzureIdentityRef = i, v1as_AzureBindingRef = b, v1as_Pod = mas_Pod s,
        v1as_PodNamespace = mas_PodNamespace s, v1as_NodeName = mas_NodeName s, v1as_Replicas = r\<rparr>)
     (pair_shape M (pair_shape (ptr_shape identity_of (AzureIdentity_shape M))
        (pair_shape (ptr_shape binding_of (AzureIdentityBinding_shape M)) (ptr_shape int32_of plain_shape))))"

definition AzureAssignedIdentityStatus_shape ::
  "('m, 'x, 'm, ObjectMeta) shape \<Rightarrow> ('m, 'x, 'm mAzureAssignedIdentityStatus, AzureAssignedIdentityStatus) shape" where
  "AzureAssignedIdentityStatus_shape M = struct_shape mast_ObjectMeta
     (\<lambda>s m. \<lparr>ast_ObjectMeta = m, ast_Status = mast_Status s, ast_AvailableReplicas = mast_AvailableReplicas s\<rparr>) M"

definition AzureAssignedIdentity_shape ::
  "('m, 'x, 'm, ObjectMeta) shape \<Rightarrow> ('m, 'x, 'm mAzureAssignedIdentity, v1AzureAssignedIdentity) shape" where
  "AzureAssignedIdentity_shape M = struct_shape
     (\<lambda>a. (ma_ObjectMeta a, ma_Spec a, ma_Status a))
     (\<lambda>a (m, s, t). \<lparr>v1a_TypeMeta = ma_TypeMeta a, v1a_ObjectMeta = m, v1a_Spec = s, v1a_Status = t\<rparr>)
     (pair_shape M (pair_shape (AzureAssignedIdentitySpec_shape M) (AzureAssignedIdentityStatus_shape M)))"

definition AzurePodIdentityExceptionSpec_shape ::
  "('m, 'x, 'm, ObjectMeta) shape \<Rightarrow> ('m, 'x, 'm mAzurePodIdentityExceptionSpec, v1AzurePodIdentityExceptionSpec) shape" where
  "AzurePodIdentityExceptionSpec_shape M = struct_shape
     (\<lambda>s. (mes_ObjectMeta s, mes_PodLabels s))
     (\<lambda>s (m, l). \<lparr>v1es_ObjectMeta = m, v1es_PodLabels = nil_empty l\<rparr>)
     (pair_shape M (ptr_shape labels_of map_shape))"

definition AzurePodIdentityExceptionStatus_shape ::
  "('m, 'x, 'm, ObjectMeta) shape \<Rightarrow> ('m, 'x, 'm mAzurePodIdentityExceptionStatus, AzurePodIdentityExceptionStatus) shape" where
  "AzurePodIdentityExceptionStatus_shape M = struct_shape mest_ObjectMeta
     (\<lambda>s m. \<lparr>est_ObjectMeta = m, est_Status = mest_Status s\<rparr>) M"

definition AzurePodIdentityException_shape ::
  "('m, 'x, 'm, ObjectMeta) shape \<Rightarrow> ('m, 'x, 'm mAzurePodIdentityException, v1AzurePodIdentityException) shape" where
  "AzurePodIdentityException_shape M = struct_shape
     (\<lambda>e. (me_ObjectMeta e, me_Spec e, me_Status e))
     (\<lambda>e (m, s, t). \<lparr>v1e_TypeMeta = me_TypeMeta e, v1e_ObjectMeta = m, v1e_Spec = s, v1e_Status = t\<rparr>)
     (pair_shape M (pair_shape (AzurePodIdentityExceptionSpec_shape M) (AzurePodIdentityExceptionStatus_shape M)))"

text \<open>Lists show their type, the metadata of the list and the items.  \<open>L\<close> is the shape that the copy has for \<^verbatim>\<open>ListMeta\<close>.\<close>

type_synonym list_meta = "string \<times> string \<times> string \<times> 64 word option"

definition ListMeta_shape :: "('m, 'x, mListMeta, list_meta) shape" where
  "ListMeta_shape = struct_shape mlm_RemainingItemCount
     (\<lambda>l n. (mlm_SelfLink l, mlm_ResourceVersion l, mlm_Continue l, n)) (ptr_shape int64_of plain_shape)"

definition AzureIdentityList_shape ::
  "('m, 'x, 'm, ObjectMeta) shape \<Rightarrow> ('m, 'x, mListMeta, list_meta) shape \<Rightarrow>
   ('m, 'x, mAzureIdentityList, TypeMeta \<times> list_meta \<times> v1AzureIdentity list option) shape" where
  "AzureIdentityList_shape M L = struct_shape (\<lambda>l. (mil_ListMeta l, mil_Items l)) (\<lambda>l w. (mil_TypeMeta l, w))
     (pair_shape L (ptr_shape identities_of (list_shape (AzureIdentity_shape M))))"

definition AzureIdentityBindingList_shape ::
  "('m, 'x, 'm, ObjectMeta) shape \<Rightarrow> ('m, 'x, mListMeta, list_meta) shape \<Rightarrow>
   ('m, 'x, mAzureIdentityBindingList, TypeMeta \<times> list_meta \<times> v1AzureIdentityBinding list option) shape" where
  "AzureIdentityBindingList_shape M L = struct_shape (\<lambda>l. (mbl_ListMeta l, mbl_Items l)) (\<lambda>l w. (mbl_TypeMeta l, w))
     (pair_shape L (ptr_shape bindings_of (list_shape (AzureIdentityBinding_shape M))))"

definition AzureAssignedIdentityList_shape ::
  "('m, 'x, 'm, ObjectMeta) shape \<Rightarrow> ('m, 'x, mListMeta, list_meta) shape \<Rightarrow>
   ('m, 'x, mAzureAssignedIdentityList, TypeMeta \<times> list_meta \<times> v1AzureAssignedIdentity list option) shape" where
  "AzureAssignedIdentityList_shape M L = struct_shape (\<lambda>l. (mal_ListMeta l, mal_Items l)) (\<lambda>l w. (mal_TypeMeta l, w))
     (pair_shape L (ptr_shape assigneds_of (list_shape (AzureAssignedIdentity_shape M))))"

definition AzurePodIdentityExceptionList_shape ::
  "('m, 'x, 'm, ObjectMeta) shape \<Rightarrow> ('m, 'x, mListMeta, list_meta) shape \<Rightarrow>
   ('m, 'x, mAzurePodIdentityExceptionList, TypeMeta \<times> list_meta \<times> v1AzurePodIdentityException list option) shape" where
  "AzurePodIdentityExceptionList_shape M L = struct_shape (\<lambda>l. (mel_ListMeta l, mel_Items l)) (\<lambda>l w. (mel_TypeMeta l, w))
     (pair_shape L (ptr_shape exceptions_of (list_shape (AzurePodIdentityException_shape M))))"

section \<open>The copies keep the contract\<close>

text \<open>
  What apimachinery promises of the copies of its metadata: they are deep copies that share nothing with the original.
\<close>

definition meta_copies :: "('m, 'x) CopyEnv \<Rightarrow> ('m, 'x, 'm, ObjectMeta) shape \<Rightarrow> bool" where
  "meta_copies env M \<longleftrightarrow> deep_copier M (ce_ObjectMeta_DeepCopyInto env) \<and> (\<forall>h x. shared M h x = {}) \<and>
     deep_copier ListMeta_shape (ce_ListMeta_DeepCopyInto env)"

lemma meta_copiesD [dest]:
  "meta_copies env M \<Longrightarrow> deep_copier M (ce_ObjectMeta_DeepCopyInto env)"
  "meta_copies env M \<Longrightarrow> deep_copier ListMeta_shape (ce_ListMeta_DeepCopyInto env)"
  "meta_copies env M \<Longrightarrow> shared M h x = {}"
  by (simp_all add: meta_copies_def)

text \<open>The fields that the generated code copies itself.\<close>

interpretation tenants_ptr: well_shaped "ptr_shape strings_of plain_shape"
  by (intro well_shaped_ptr well_shaped_plain)

interpretation int32_ptr: deep_copier "ptr_shape int32_of plain_shape" "new_copy int32_of CInt32 assign_copy"
  by (rule deep_copier_new[OF deep_copier_assign]) simp

interpretation labels_ptr: deep_copier "ptr_shape labels_of map_shape" "new_copy labels_of CLabels map_copy"
  by (rule deep_copier_new[OF map_labels.deep_copier_axioms]) simp

lemma AzureIdentitySpec_copies:
  assumes "meta_copies env M"
  shows "deep_copier (AzureIdentitySpec_shape M) (AzureIdentitySpec_DeepCopyInto env)"
  unfolding AzureIdentitySpec_shape_def
proof (rule deep_copier_struct[where upd = "\<lambda>(m, t, r) s. s\<lparr>mids_ObjectMeta := m, mids_AuxiliaryTenantIDs := t, mids_Replicas := r\<rparr>"])
  show "deep_copier (pair_shape M (pair_shape (taken_over (ptr_shape strings_of plain_shape)) (ptr_shape int32_of plain_shape)))
      (pair_copy (ce_ObjectMeta_DeepCopyInto env) (pair_copy assign_copy (new_copy int32_of CInt32 assign_copy)))"
    by (intro deep_copier_pair meta_copiesD[OF assms] deep_copier_taken_over tenants_ptr.well_shaped_axioms int32_ptr.deep_copier_axioms)
qed (auto simp: AzureIdentitySpec_DeepCopyInto_def pair_copy_def assign_copy_def Let_def split: prod.splits)

lemma AzureIdentityStatus_copies:
  assumes "meta_copies env M"
  shows "deep_copier (AzureIdentityStatus_shape M) (AzureIdentityStatus_DeepCopyInto env)"
  unfolding AzureIdentityStatus_shape_def
  by (rule deep_copier_struct[OF meta_copiesD(1)[OF assms], where upd = "\<lambda>m. midst_ObjectMeta_update (\<lambda>_. m)"])
    (simp_all add: AzureIdentityStatus_DeepCopyInto_def Let_def)

lemma AzureIdentity_copies:
  assumes "meta_copies env M"
  shows "deep_copier (AzureIdentity_shape M) (AzureIdentity_DeepCopyInto env)"
  unfolding AzureIdentity_shape_def
proof (rule deep_copier_struct[where upd = "\<lambda>(m, s, t) i. i\<lparr>mid_ObjectMeta := m, mid_Spec := s, mid_Status := t\<rparr>"])
  show "deep_copier (pair_shape M (pair_shape (AzureIdentitySpec_shape M) (AzureIdentityStatus_shape M)))
      (pair_copy (ce_ObjectMeta_DeepCopyInto env) (pair_copy (AzureIdentitySpec_DeepCopyInto env) (AzureIdentityStatus_DeepCopyInto env)))"
    by (intro deep_copier_pair meta_copiesD[OF assms] AzureIdentitySpec_copies AzureIdentityStatus_copies assms)
qed (auto simp: AzureIdentity_DeepCopyInto_def pair_copy_def Let_def split: prod.splits)

lemma AzureIdentityList_copies:
  assumes "meta_copies env M"
  shows "deep_copier (AzureIdentityList_shape M ListMeta_shape) (AzureIdentityList_DeepCopyInto env)"
  unfolding AzureIdentityList_shape_def
proof (rule deep_copier_struct[where upd = "\<lambda>(m, p) l. l\<lparr>mil_ListMeta := m, mil_Items := p\<rparr>"])
  show "deep_copier (pair_shape ListMeta_shape (ptr_shape identities_of (list_shape (AzureIdentity_shape M))))
      (pair_copy (ce_ListMeta_DeepCopyInto env) (new_copy identities_of CIdentities (slice_copy (AzureIdentity_DeepCopyInto env))))"
    by (intro deep_copier_pair meta_copiesD[OF assms] deep_copier_new deep_copier_slice AzureIdentity_copies assms) simp
qed (auto simp: AzureIdentityList_DeepCopyInto_def pair_copy_def Let_def split: prod.splits)

lemma AzureIdentityBindingSpec_copies:
  assumes "meta_copies env M"
  shows "deep_copier (AzureIdentityBindingSpec_shape M) (AzureIdentityBindingSpec_DeepCopyInto env)"
  unfolding AzureIdentityBindingSpec_shape_def
  by (rule deep_copier_struct[OF meta_copiesD(1)[OF assms], where upd = "\<lambda>m. mbs_ObjectMeta_update (\<lambda>_. m)"])
    (simp_all add: AzureIdentityBindingSpec_DeepCopyInto_def Let_def)

lemma AzureIdentityBindingStatus_copies:
  assumes "meta_copies env M"
  shows "deep_copier (AzureIdentityBindingStatus_shape M) (AzureIdentityBindingStatus_DeepCopyInto env)"
  unfolding AzureIdentityBindingStatus_shape_def
  by (rule deep_copier_struct[OF meta_copiesD(1)[OF assms], where upd = "\<lambda>m. mbst_ObjectMeta_update (\<lambda>_. m)"])
    (simp_all add: AzureIdentityBindingStatus_DeepCopyInto_def Let_def)

lemma AzureIdentityBinding_copies:
  assumes "meta_copies env M"
  shows "deep_copier (AzureIdentityBinding_shape M) (AzureIdentityBinding_DeepCopyInto env)"
  unfolding AzureIdentityBinding_shape_def
proof (rule deep_copier_struct[where upd = "\<lambda>(m, s, t) x. x\<lparr>mb_ObjectMeta := m, mb_Spec := s, mb_Status := t\<rparr>"])
  show "deep_copier (pair_shape M (pair_shape (AzureIdentityBindingSpec_shape M) (AzureIdentityBindingStatus_shape M)))
      (pair_copy (ce_ObjectMeta_DeepCopyInto env) (pair_copy (AzureIdentityBindingSpec_DeepCopyInto env) (AzureIdentityBindingStatus_DeepCopyInto env)))"
    by (intro deep_copier_pair meta_copiesD[OF assms] AzureIdentityBindingSpec_copies AzureIdentityBindingStatus_copies assms)
qed (auto simp: AzureIdentityBinding_DeepCopyInto_def pair_copy_def Let_def split: prod.splits)

lemma AzureIdentityBindingList_copies:
  assumes "meta_copies env M"
  shows "deep_copier (AzureIdentityBindingList_shape M ListMeta_shape) (AzureIdentityBindingList_DeepCopyInto env)"
  unfolding AzureIdentityBindingList_shape_def
proof (rule deep_copier_struct[where upd = "\<lambda>(m, p) l. l\<lparr>mbl_ListMeta := m, mbl_Items := p\<rparr>"])
  show "deep_copier (pair_shape ListMeta_shape (ptr_shape bindings_of (list_shape (AzureIdentityBinding_shape M))))
      (pair_copy (ce_ListMeta_DeepCopyInto env) (new_copy bindings_of CBindings (slice_copy (AzureIdentityBinding_DeepCopyInto env))))"
    by (intro deep_copier_pair meta_copiesD[OF assms] deep_copier_new deep_copier_slice AzureIdentityBinding_copies assms) simp
qed (auto simp: AzureIdentityBindingList_DeepCopyInto_def pair_copy_def Let_def split: prod.splits)

lemma AzureAssignedIdentitySpec_copies:
  assumes "meta_copies env M"
  shows "deep_copier (AzureAssignedIdentitySpec_shape M) (AzureAssignedIdentitySpec_DeepCopyInto env)"
  unfolding AzureAssignedIdentitySpec_shape_def
proof (rule deep_copier_struct[where upd = "\<lambda>(m, i, b, r) s. s\<lparr>mas_ObjectMeta := m, mas_AzureIdentityRef := i, mas_AzureBindingRef := b, mas_Replicas := r\<rparr>"])
  show "deep_copier (pair_shape M (pair_shape (ptr_shape identity_of (AzureIdentity_shape M))
        (pair_shape (ptr_shape binding_of (AzureIdentityBinding_shape M)) (ptr_shape int32_of plain_shape))))
      (pair_copy (ce_ObjectMeta_DeepCopyInto env) (pair_copy (new_copy identity_of CIdentity (AzureIdentity_DeepCopyInto env))
        (pair_copy (new_copy binding_of CBinding (AzureIdentityBinding_DeepCopyInto env)) (new_copy int32_of CInt32 assign_copy))))"
    by (intro deep_copier_pair meta_copiesD[OF assms] deep_copier_new AzureIdentity_copies AzureIdentityBinding_copies
        int32_ptr.deep_copier_axioms deep_copier_assign assms) simp_all
qed (auto simp: AzureAssignedIdentitySpec_DeepCopyInto_def pair_copy_def Let_def split: prod.splits)

lemma AzureAssignedIdentityStatus_copies:
  assumes "meta_copies env M"
  shows "deep_copier (AzureAssignedIdentityStatus_shape M) (AzureAssignedIdentityStatus_DeepCopyInto env)"
  unfolding AzureAssignedIdentityStatus_shape_def
  by (rule deep_copier_struct[OF meta_copiesD(1)[OF assms], where upd = "\<lambda>m. mast_ObjectMeta_update (\<lambda>_. m)"])
    (simp_all add: AzureAssignedIdentityStatus_DeepCopyInto_def Let_def)

lemma AzureAssignedIdentity_copies:
  assumes "meta_copies env M"
  shows "deep_copier (AzureAssignedIdentity_shape M) (AzureAssignedIdentity_DeepCopyInto env)"
  unfolding AzureAssignedIdentity_shape_def
proof (rule deep_copier_struct[where upd = "\<lambda>(m, s, t) x. x\<lparr>ma_ObjectMeta := m, ma_Spec := s, ma_Status := t\<rparr>"])
  show "deep_copier (pair_shape M (pair_shape (AzureAssignedIdentitySpec_shape M) (AzureAssignedIdentityStatus_shape M)))
      (pair_copy (ce_ObjectMeta_DeepCopyInto env) (pair_copy (AzureAssignedIdentitySpec_DeepCopyInto env) (AzureAssignedIdentityStatus_DeepCopyInto env)))"
    by (intro deep_copier_pair meta_copiesD[OF assms] AzureAssignedIdentitySpec_copies AzureAssignedIdentityStatus_copies assms)
qed (auto simp: AzureAssignedIdentity_DeepCopyInto_def pair_copy_def Let_def split: prod.splits)

lemma AzureAssignedIdentityList_copies:
  assumes "meta_copies env M"
  shows "deep_copier (AzureAssignedIdentityList_shape M ListMeta_shape) (AzureAssignedIdentityList_DeepCopyInto env)"
  unfolding AzureAssignedIdentityList_shape_def
proof (rule deep_copier_struct[where upd = "\<lambda>(m, p) l. l\<lparr>mal_ListMeta := m, mal_Items := p\<rparr>"])
  show "deep_copier (pair_shape ListMeta_shape (ptr_shape assigneds_of (list_shape (AzureAssignedIdentity_shape M))))
      (pair_copy (ce_ListMeta_DeepCopyInto env) (new_copy assigneds_of CAssigneds (slice_copy (AzureAssignedIdentity_DeepCopyInto env))))"
    by (intro deep_copier_pair meta_copiesD[OF assms] deep_copier_new deep_copier_slice AzureAssignedIdentity_copies assms) simp
qed (auto simp: AzureAssignedIdentityList_DeepCopyInto_def pair_copy_def Let_def split: prod.splits)

lemma AzurePodIdentityExceptionSpec_copies:
  assumes "meta_copies env M"
  shows "deep_copier (AzurePodIdentityExceptionSpec_shape M) (AzurePodIdentityExceptionSpec_DeepCopyInto env)"
  unfolding AzurePodIdentityExceptionSpec_shape_def
proof (rule deep_copier_struct[where upd = "\<lambda>(m, l) s. s\<lparr>mes_ObjectMeta := m, mes_PodLabels := l\<rparr>"])
  show "deep_copier (pair_shape M (ptr_shape labels_of map_shape))
      (pair_copy (ce_ObjectMeta_DeepCopyInto env) (new_copy labels_of CLabels map_copy))"
    by (intro deep_copier_pair meta_copiesD[OF assms] labels_ptr.deep_copier_axioms)
qed (auto simp: AzurePodIdentityExceptionSpec_DeepCopyInto_def pair_copy_def Let_def split: prod.splits)

lemma AzurePodIdentityExceptionStatus_copies:
  assumes "meta_copies env M"
  shows "deep_copier (AzurePodIdentityExceptionStatus_shape M) (AzurePodIdentityExceptionStatus_DeepCopyInto env)"
  unfolding AzurePodIdentityExceptionStatus_shape_def
  by (rule deep_copier_struct[OF meta_copiesD(1)[OF assms], where upd = "\<lambda>m. mest_ObjectMeta_update (\<lambda>_. m)"])
    (simp_all add: AzurePodIdentityExceptionStatus_DeepCopyInto_def Let_def)

lemma AzurePodIdentityException_copies:
  assumes "meta_copies env M"
  shows "deep_copier (AzurePodIdentityException_shape M) (AzurePodIdentityException_DeepCopyInto env)"
  unfolding AzurePodIdentityException_shape_def
proof (rule deep_copier_struct[where upd = "\<lambda>(m, s, t) x. x\<lparr>me_ObjectMeta := m, me_Spec := s, me_Status := t\<rparr>"])
  show "deep_copier (pair_shape M (pair_shape (AzurePodIdentityExceptionSpec_shape M) (AzurePodIdentityExceptionStatus_shape M)))
      (pair_copy (ce_ObjectMeta_DeepCopyInto env) (pair_copy (AzurePodIdentityExceptionSpec_DeepCopyInto env) (AzurePodIdentityExceptionStatus_DeepCopyInto env)))"
    by (intro deep_copier_pair meta_copiesD[OF assms] AzurePodIdentityExceptionSpec_copies AzurePodIdentityExceptionStatus_copies assms)
qed (auto simp: AzurePodIdentityException_DeepCopyInto_def pair_copy_def Let_def split: prod.splits)

lemma AzurePodIdentityExceptionList_copies:
  assumes "meta_copies env M"
  shows "deep_copier (AzurePodIdentityExceptionList_shape M ListMeta_shape) (AzurePodIdentityExceptionList_DeepCopyInto env)"
  unfolding AzurePodIdentityExceptionList_shape_def
proof (rule deep_copier_struct[where upd = "\<lambda>(m, p) l. l\<lparr>mel_ListMeta := m, mel_Items := p\<rparr>"])
  show "deep_copier (pair_shape ListMeta_shape (ptr_shape exceptions_of (list_shape (AzurePodIdentityException_shape M))))
      (pair_copy (ce_ListMeta_DeepCopyInto env) (new_copy exceptions_of CExceptions (slice_copy (AzurePodIdentityException_DeepCopyInto env))))"
    by (intro deep_copier_pair meta_copiesD[OF assms] deep_copier_new deep_copier_slice AzurePodIdentityException_copies assms) simp
qed (auto simp: AzurePodIdentityExceptionList_DeepCopyInto_def pair_copy_def Let_def split: prod.splits)

end
