(* ===== verification/DeepCopyV1.thy ===== *)
theory DeepCopyV1
  imports DeepCopy
begin

text \<open>
  The deep copies of \<^verbatim>\<open>pkg/apis/aadpodidentity/v1/aadpodidentity_deepcopy_generated.go\<close>, which the machinery of Kubernetes calls on the
  objects of the cluster.  A copy reads as its original.  It is independent of it but for two fields: the code was not generated again when
  \<^verbatim>\<open>AuxiliaryTenantIDs\<close> was added to the identity, and it only assigns the metadata of a list, which contains a pointer.
\<close>

section \<open>Generated copies\<close>

definition v1AzureIdentitySpec_DeepCopyInto :: "('m, 'x) CopyEnv \<Rightarrow> ('m, 'x, 'm mAzureIdentitySpec) copier" where
  "v1AzureIdentitySpec_DeepCopyInto env inp h =
     (let out = inp;
          (v, h) = ce_ObjectMeta_DeepCopyInto env (mids_ObjectMeta inp) h; out = out\<lparr>mids_ObjectMeta := v\<rparr>;
          out = out\<lparr>mids_ClientPassword := mids_ClientPassword inp\<rparr>;
          (v, h) = new_copy int32_of CInt32 assign_copy (mids_Replicas inp) h; out = out\<lparr>mids_Replicas := v\<rparr>
      in (out, h))"

definition v1AzureIdentitySpec_DeepCopy :: "('m, 'x) CopyEnv \<Rightarrow> ('m, 'x, addr option) copier" where
  "v1AzureIdentitySpec_DeepCopy env = new_copy identitySpec_of CIdentitySpec (v1AzureIdentitySpec_DeepCopyInto env)"

definition v1AzureIdentityStatus_DeepCopyInto :: "('m, 'x) CopyEnv \<Rightarrow> ('m, 'x, 'm mAzureIdentityStatus) copier" where
  "v1AzureIdentityStatus_DeepCopyInto env inp h =
     (let out = inp;
          (v, h) = ce_ObjectMeta_DeepCopyInto env (midst_ObjectMeta inp) h; out = out\<lparr>midst_ObjectMeta := v\<rparr>
      in (out, h))"

definition v1AzureIdentityStatus_DeepCopy :: "('m, 'x) CopyEnv \<Rightarrow> ('m, 'x, addr option) copier" where
  "v1AzureIdentityStatus_DeepCopy env = new_copy identityStatus_of CIdentityStatus (v1AzureIdentityStatus_DeepCopyInto env)"

definition v1AzureIdentity_DeepCopyInto :: "('m, 'x) CopyEnv \<Rightarrow> ('m, 'x, 'm mAzureIdentity) copier" where
  "v1AzureIdentity_DeepCopyInto env inp h =
     (let out = inp;
          out = out\<lparr>mid_TypeMeta := mid_TypeMeta inp\<rparr>;
          (v, h) = ce_ObjectMeta_DeepCopyInto env (mid_ObjectMeta inp) h; out = out\<lparr>mid_ObjectMeta := v\<rparr>;
          (v, h) = v1AzureIdentitySpec_DeepCopyInto env (mid_Spec inp) h; out = out\<lparr>mid_Spec := v\<rparr>;
          (v, h) = v1AzureIdentityStatus_DeepCopyInto env (mid_Status inp) h; out = out\<lparr>mid_Status := v\<rparr>
      in (out, h))"

definition v1AzureIdentity_DeepCopy :: "('m, 'x) CopyEnv \<Rightarrow> ('m, 'x, addr option) copier" where
  "v1AzureIdentity_DeepCopy env = new_copy identity_of CIdentity (v1AzureIdentity_DeepCopyInto env)"

definition v1AzureIdentity_DeepCopyObject ::
  "('m, 'x) CopyEnv \<Rightarrow> addr option \<Rightarrow> ('m, 'x) memory \<Rightarrow> runtime_Object option \<times> ('m, 'x) memory" where
  "v1AzureIdentity_DeepCopyObject env inp h =
     (let (c, h) = v1AzureIdentity_DeepCopy env inp h
      in case c of None \<Rightarrow> (None, h) | Some a \<Rightarrow> (Some (OIdentity a), h))"

definition v1AzureIdentityList_DeepCopyInto :: "('m, 'x) CopyEnv \<Rightarrow> ('m, 'x, mAzureIdentityList) copier" where
  "v1AzureIdentityList_DeepCopyInto env inp h =
     (let out = inp;
          out = out\<lparr>mil_TypeMeta := mil_TypeMeta inp\<rparr>;
          out = out\<lparr>mil_ListMeta := mil_ListMeta inp\<rparr>;
          (v, h) = new_copy identities_of CIdentities (slice_copy (v1AzureIdentity_DeepCopyInto env)) (mil_Items inp) h; out = out\<lparr>mil_Items := v\<rparr>
      in (out, h))"

definition v1AzureIdentityList_DeepCopy :: "('m, 'x) CopyEnv \<Rightarrow> ('m, 'x, addr option) copier" where
  "v1AzureIdentityList_DeepCopy env = new_copy identityList_of CIdentityList (v1AzureIdentityList_DeepCopyInto env)"

definition v1AzureIdentityList_DeepCopyObject ::
  "('m, 'x) CopyEnv \<Rightarrow> addr option \<Rightarrow> ('m, 'x) memory \<Rightarrow> runtime_Object option \<times> ('m, 'x) memory" where
  "v1AzureIdentityList_DeepCopyObject env inp h =
     (let (c, h) = v1AzureIdentityList_DeepCopy env inp h
      in case c of None \<Rightarrow> (None, h) | Some a \<Rightarrow> (Some (OIdentityList a), h))"

definition v1AzureIdentityBindingSpec_DeepCopyInto :: "('m, 'x) CopyEnv \<Rightarrow> ('m, 'x, 'm mAzureIdentityBindingSpec) copier" where
  "v1AzureIdentityBindingSpec_DeepCopyInto env inp h =
     (let out = inp;
          (v, h) = ce_ObjectMeta_DeepCopyInto env (mbs_ObjectMeta inp) h; out = out\<lparr>mbs_ObjectMeta := v\<rparr>
      in (out, h))"

definition v1AzureIdentityBindingSpec_DeepCopy :: "('m, 'x) CopyEnv \<Rightarrow> ('m, 'x, addr option) copier" where
  "v1AzureIdentityBindingSpec_DeepCopy env = new_copy bindingSpec_of CBindingSpec (v1AzureIdentityBindingSpec_DeepCopyInto env)"

definition v1AzureIdentityBindingStatus_DeepCopyInto :: "('m, 'x) CopyEnv \<Rightarrow> ('m, 'x, 'm mAzureIdentityBindingStatus) copier" where
  "v1AzureIdentityBindingStatus_DeepCopyInto env inp h =
     (let out = inp;
          (v, h) = ce_ObjectMeta_DeepCopyInto env (mbst_ObjectMeta inp) h; out = out\<lparr>mbst_ObjectMeta := v\<rparr>
      in (out, h))"

definition v1AzureIdentityBindingStatus_DeepCopy :: "('m, 'x) CopyEnv \<Rightarrow> ('m, 'x, addr option) copier" where
  "v1AzureIdentityBindingStatus_DeepCopy env = new_copy bindingStatus_of CBindingStatus (v1AzureIdentityBindingStatus_DeepCopyInto env)"

definition v1AzureIdentityBinding_DeepCopyInto :: "('m, 'x) CopyEnv \<Rightarrow> ('m, 'x, 'm mAzureIdentityBinding) copier" where
  "v1AzureIdentityBinding_DeepCopyInto env inp h =
     (let out = inp;
          out = out\<lparr>mb_TypeMeta := mb_TypeMeta inp\<rparr>;
          (v, h) = ce_ObjectMeta_DeepCopyInto env (mb_ObjectMeta inp) h; out = out\<lparr>mb_ObjectMeta := v\<rparr>;
          (v, h) = v1AzureIdentityBindingSpec_DeepCopyInto env (mb_Spec inp) h; out = out\<lparr>mb_Spec := v\<rparr>;
          (v, h) = v1AzureIdentityBindingStatus_DeepCopyInto env (mb_Status inp) h; out = out\<lparr>mb_Status := v\<rparr>
      in (out, h))"

definition v1AzureIdentityBinding_DeepCopy :: "('m, 'x) CopyEnv \<Rightarrow> ('m, 'x, addr option) copier" where
  "v1AzureIdentityBinding_DeepCopy env = new_copy binding_of CBinding (v1AzureIdentityBinding_DeepCopyInto env)"

definition v1AzureIdentityBinding_DeepCopyObject ::
  "('m, 'x) CopyEnv \<Rightarrow> addr option \<Rightarrow> ('m, 'x) memory \<Rightarrow> runtime_Object option \<times> ('m, 'x) memory" where
  "v1AzureIdentityBinding_DeepCopyObject env inp h =
     (let (c, h) = v1AzureIdentityBinding_DeepCopy env inp h
      in case c of None \<Rightarrow> (None, h) | Some a \<Rightarrow> (Some (OBinding a), h))"

definition v1AzureIdentityBindingList_DeepCopyInto :: "('m, 'x) CopyEnv \<Rightarrow> ('m, 'x, mAzureIdentityBindingList) copier" where
  "v1AzureIdentityBindingList_DeepCopyInto env inp h =
     (let out = inp;
          out = out\<lparr>mbl_TypeMeta := mbl_TypeMeta inp\<rparr>;
          out = out\<lparr>mbl_ListMeta := mbl_ListMeta inp\<rparr>;
          (v, h) = new_copy bindings_of CBindings (slice_copy (v1AzureIdentityBinding_DeepCopyInto env)) (mbl_Items inp) h; out = out\<lparr>mbl_Items := v\<rparr>
      in (out, h))"

definition v1AzureIdentityBindingList_DeepCopy :: "('m, 'x) CopyEnv \<Rightarrow> ('m, 'x, addr option) copier" where
  "v1AzureIdentityBindingList_DeepCopy env = new_copy bindingList_of CBindingList (v1AzureIdentityBindingList_DeepCopyInto env)"

definition v1AzureIdentityBindingList_DeepCopyObject ::
  "('m, 'x) CopyEnv \<Rightarrow> addr option \<Rightarrow> ('m, 'x) memory \<Rightarrow> runtime_Object option \<times> ('m, 'x) memory" where
  "v1AzureIdentityBindingList_DeepCopyObject env inp h =
     (let (c, h) = v1AzureIdentityBindingList_DeepCopy env inp h
      in case c of None \<Rightarrow> (None, h) | Some a \<Rightarrow> (Some (OBindingList a), h))"

definition v1AzureAssignedIdentitySpec_DeepCopyInto :: "('m, 'x) CopyEnv \<Rightarrow> ('m, 'x, 'm mAzureAssignedIdentitySpec) copier" where
  "v1AzureAssignedIdentitySpec_DeepCopyInto env inp h =
     (let out = inp;
          (v, h) = ce_ObjectMeta_DeepCopyInto env (mas_ObjectMeta inp) h; out = out\<lparr>mas_ObjectMeta := v\<rparr>;
          (v, h) = new_copy identity_of CIdentity (v1AzureIdentity_DeepCopyInto env) (mas_AzureIdentityRef inp) h; out = out\<lparr>mas_AzureIdentityRef := v\<rparr>;
          (v, h) = new_copy binding_of CBinding (v1AzureIdentityBinding_DeepCopyInto env) (mas_AzureBindingRef inp) h; out = out\<lparr>mas_AzureBindingRef := v\<rparr>;
          (v, h) = new_copy int32_of CInt32 assign_copy (mas_Replicas inp) h; out = out\<lparr>mas_Replicas := v\<rparr>
      in (out, h))"

definition v1AzureAssignedIdentitySpec_DeepCopy :: "('m, 'x) CopyEnv \<Rightarrow> ('m, 'x, addr option) copier" where
  "v1AzureAssignedIdentitySpec_DeepCopy env = new_copy assignedSpec_of CAssignedSpec (v1AzureAssignedIdentitySpec_DeepCopyInto env)"

definition v1AzureAssignedIdentityStatus_DeepCopyInto :: "('m, 'x) CopyEnv \<Rightarrow> ('m, 'x, 'm mAzureAssignedIdentityStatus) copier" where
  "v1AzureAssignedIdentityStatus_DeepCopyInto env inp h =
     (let out = inp;
          (v, h) = ce_ObjectMeta_DeepCopyInto env (mast_ObjectMeta inp) h; out = out\<lparr>mast_ObjectMeta := v\<rparr>
      in (out, h))"

definition v1AzureAssignedIdentityStatus_DeepCopy :: "('m, 'x) CopyEnv \<Rightarrow> ('m, 'x, addr option) copier" where
  "v1AzureAssignedIdentityStatus_DeepCopy env = new_copy assignedStatus_of CAssignedStatus (v1AzureAssignedIdentityStatus_DeepCopyInto env)"

definition v1AzureAssignedIdentity_DeepCopyInto :: "('m, 'x) CopyEnv \<Rightarrow> ('m, 'x, 'm mAzureAssignedIdentity) copier" where
  "v1AzureAssignedIdentity_DeepCopyInto env inp h =
     (let out = inp;
          out = out\<lparr>ma_TypeMeta := ma_TypeMeta inp\<rparr>;
          (v, h) = ce_ObjectMeta_DeepCopyInto env (ma_ObjectMeta inp) h; out = out\<lparr>ma_ObjectMeta := v\<rparr>;
          (v, h) = v1AzureAssignedIdentitySpec_DeepCopyInto env (ma_Spec inp) h; out = out\<lparr>ma_Spec := v\<rparr>;
          (v, h) = v1AzureAssignedIdentityStatus_DeepCopyInto env (ma_Status inp) h; out = out\<lparr>ma_Status := v\<rparr>
      in (out, h))"

definition v1AzureAssignedIdentity_DeepCopy :: "('m, 'x) CopyEnv \<Rightarrow> ('m, 'x, addr option) copier" where
  "v1AzureAssignedIdentity_DeepCopy env = new_copy assigned_of CAssigned (v1AzureAssignedIdentity_DeepCopyInto env)"

definition v1AzureAssignedIdentity_DeepCopyObject ::
  "('m, 'x) CopyEnv \<Rightarrow> addr option \<Rightarrow> ('m, 'x) memory \<Rightarrow> runtime_Object option \<times> ('m, 'x) memory" where
  "v1AzureAssignedIdentity_DeepCopyObject env inp h =
     (let (c, h) = v1AzureAssignedIdentity_DeepCopy env inp h
      in case c of None \<Rightarrow> (None, h) | Some a \<Rightarrow> (Some (OAssigned a), h))"

definition v1AzureAssignedIdentityList_DeepCopyInto :: "('m, 'x) CopyEnv \<Rightarrow> ('m, 'x, mAzureAssignedIdentityList) copier" where
  "v1AzureAssignedIdentityList_DeepCopyInto env inp h =
     (let out = inp;
          out = out\<lparr>mal_TypeMeta := mal_TypeMeta inp\<rparr>;
          out = out\<lparr>mal_ListMeta := mal_ListMeta inp\<rparr>;
          (v, h) = new_copy assigneds_of CAssigneds (slice_copy (v1AzureAssignedIdentity_DeepCopyInto env)) (mal_Items inp) h; out = out\<lparr>mal_Items := v\<rparr>
      in (out, h))"

definition v1AzureAssignedIdentityList_DeepCopy :: "('m, 'x) CopyEnv \<Rightarrow> ('m, 'x, addr option) copier" where
  "v1AzureAssignedIdentityList_DeepCopy env = new_copy assignedList_of CAssignedList (v1AzureAssignedIdentityList_DeepCopyInto env)"

definition v1AzureAssignedIdentityList_DeepCopyObject ::
  "('m, 'x) CopyEnv \<Rightarrow> addr option \<Rightarrow> ('m, 'x) memory \<Rightarrow> runtime_Object option \<times> ('m, 'x) memory" where
  "v1AzureAssignedIdentityList_DeepCopyObject env inp h =
     (let (c, h) = v1AzureAssignedIdentityList_DeepCopy env inp h
      in case c of None \<Rightarrow> (None, h) | Some a \<Rightarrow> (Some (OAssignedList a), h))"

definition v1AzurePodIdentityExceptionSpec_DeepCopyInto :: "('m, 'x) CopyEnv \<Rightarrow> ('m, 'x, 'm mAzurePodIdentityExceptionSpec) copier" where
  "v1AzurePodIdentityExceptionSpec_DeepCopyInto env inp h =
     (let out = inp;
          (v, h) = ce_ObjectMeta_DeepCopyInto env (mes_ObjectMeta inp) h; out = out\<lparr>mes_ObjectMeta := v\<rparr>;
          (v, h) = new_copy labels_of CLabels map_copy (mes_PodLabels inp) h; out = out\<lparr>mes_PodLabels := v\<rparr>
      in (out, h))"

definition v1AzurePodIdentityExceptionSpec_DeepCopy :: "('m, 'x) CopyEnv \<Rightarrow> ('m, 'x, addr option) copier" where
  "v1AzurePodIdentityExceptionSpec_DeepCopy env = new_copy exceptionSpec_of CExceptionSpec (v1AzurePodIdentityExceptionSpec_DeepCopyInto env)"

definition v1AzurePodIdentityExceptionStatus_DeepCopyInto :: "('m, 'x) CopyEnv \<Rightarrow> ('m, 'x, 'm mAzurePodIdentityExceptionStatus) copier" where
  "v1AzurePodIdentityExceptionStatus_DeepCopyInto env inp h =
     (let out = inp;
          (v, h) = ce_ObjectMeta_DeepCopyInto env (mest_ObjectMeta inp) h; out = out\<lparr>mest_ObjectMeta := v\<rparr>
      in (out, h))"

definition v1AzurePodIdentityExceptionStatus_DeepCopy :: "('m, 'x) CopyEnv \<Rightarrow> ('m, 'x, addr option) copier" where
  "v1AzurePodIdentityExceptionStatus_DeepCopy env = new_copy exceptionStatus_of CExceptionStatus (v1AzurePodIdentityExceptionStatus_DeepCopyInto env)"

definition v1AzurePodIdentityException_DeepCopyInto :: "('m, 'x) CopyEnv \<Rightarrow> ('m, 'x, 'm mAzurePodIdentityException) copier" where
  "v1AzurePodIdentityException_DeepCopyInto env inp h =
     (let out = inp;
          out = out\<lparr>me_TypeMeta := me_TypeMeta inp\<rparr>;
          (v, h) = ce_ObjectMeta_DeepCopyInto env (me_ObjectMeta inp) h; out = out\<lparr>me_ObjectMeta := v\<rparr>;
          (v, h) = v1AzurePodIdentityExceptionSpec_DeepCopyInto env (me_Spec inp) h; out = out\<lparr>me_Spec := v\<rparr>;
          (v, h) = v1AzurePodIdentityExceptionStatus_DeepCopyInto env (me_Status inp) h; out = out\<lparr>me_Status := v\<rparr>
      in (out, h))"

definition v1AzurePodIdentityException_DeepCopy :: "('m, 'x) CopyEnv \<Rightarrow> ('m, 'x, addr option) copier" where
  "v1AzurePodIdentityException_DeepCopy env = new_copy exception_of CException (v1AzurePodIdentityException_DeepCopyInto env)"

definition v1AzurePodIdentityException_DeepCopyObject ::
  "('m, 'x) CopyEnv \<Rightarrow> addr option \<Rightarrow> ('m, 'x) memory \<Rightarrow> runtime_Object option \<times> ('m, 'x) memory" where
  "v1AzurePodIdentityException_DeepCopyObject env inp h =
     (let (c, h) = v1AzurePodIdentityException_DeepCopy env inp h
      in case c of None \<Rightarrow> (None, h) | Some a \<Rightarrow> (Some (OException a), h))"

definition v1AzurePodIdentityExceptionList_DeepCopyInto :: "('m, 'x) CopyEnv \<Rightarrow> ('m, 'x, mAzurePodIdentityExceptionList) copier" where
  "v1AzurePodIdentityExceptionList_DeepCopyInto env inp h =
     (let out = inp;
          out = out\<lparr>mel_TypeMeta := mel_TypeMeta inp\<rparr>;
          out = out\<lparr>mel_ListMeta := mel_ListMeta inp\<rparr>;
          (v, h) = new_copy exceptions_of CExceptions (slice_copy (v1AzurePodIdentityException_DeepCopyInto env)) (mel_Items inp) h; out = out\<lparr>mel_Items := v\<rparr>
      in (out, h))"

definition v1AzurePodIdentityExceptionList_DeepCopy :: "('m, 'x) CopyEnv \<Rightarrow> ('m, 'x, addr option) copier" where
  "v1AzurePodIdentityExceptionList_DeepCopy env = new_copy exceptionList_of CExceptionList (v1AzurePodIdentityExceptionList_DeepCopyInto env)"

definition v1AzurePodIdentityExceptionList_DeepCopyObject ::
  "('m, 'x) CopyEnv \<Rightarrow> addr option \<Rightarrow> ('m, 'x) memory \<Rightarrow> runtime_Object option \<times> ('m, 'x) memory" where
  "v1AzurePodIdentityExceptionList_DeepCopyObject env inp h =
     (let (c, h) = v1AzurePodIdentityExceptionList_DeepCopy env inp h
      in case c of None \<Rightarrow> (None, h) | Some a \<Rightarrow> (Some (OExceptionList a), h))"


section \<open>The two packages\<close>

text \<open>The copies of the two packages are the same on everything but lists, whose metadata the copies of \<open>v1\<close> only assign.\<close>

lemma v1_copies_same:
  "v1AzureIdentitySpec_DeepCopyInto = AzureIdentitySpec_DeepCopyInto"
  "v1AzureIdentityStatus_DeepCopyInto = AzureIdentityStatus_DeepCopyInto"
  "v1AzureIdentity_DeepCopyInto = AzureIdentity_DeepCopyInto"
  "v1AzureIdentityBindingSpec_DeepCopyInto = AzureIdentityBindingSpec_DeepCopyInto"
  "v1AzureIdentityBindingStatus_DeepCopyInto = AzureIdentityBindingStatus_DeepCopyInto"
  "v1AzureIdentityBinding_DeepCopyInto = AzureIdentityBinding_DeepCopyInto"
  "v1AzureAssignedIdentitySpec_DeepCopyInto = AzureAssignedIdentitySpec_DeepCopyInto"
  "v1AzureAssignedIdentityStatus_DeepCopyInto = AzureAssignedIdentityStatus_DeepCopyInto"
  "v1AzureAssignedIdentity_DeepCopyInto = AzureAssignedIdentity_DeepCopyInto"
  "v1AzurePodIdentityExceptionSpec_DeepCopyInto = AzurePodIdentityExceptionSpec_DeepCopyInto"
  "v1AzurePodIdentityExceptionStatus_DeepCopyInto = AzurePodIdentityExceptionStatus_DeepCopyInto"
  "v1AzurePodIdentityException_DeepCopyInto = AzurePodIdentityException_DeepCopyInto"
proof -
  show AzureIdentitySpec: "v1AzureIdentitySpec_DeepCopyInto = AzureIdentitySpec_DeepCopyInto"
    by (intro ext) (simp add: v1AzureIdentitySpec_DeepCopyInto_def AzureIdentitySpec_DeepCopyInto_def )
  show AzureIdentityStatus: "v1AzureIdentityStatus_DeepCopyInto = AzureIdentityStatus_DeepCopyInto"
    by (intro ext) (simp add: v1AzureIdentityStatus_DeepCopyInto_def AzureIdentityStatus_DeepCopyInto_def )
  show AzureIdentity: "v1AzureIdentity_DeepCopyInto = AzureIdentity_DeepCopyInto"
    by (intro ext) (simp add: v1AzureIdentity_DeepCopyInto_def AzureIdentity_DeepCopyInto_def AzureIdentitySpec AzureIdentityStatus)
  show AzureIdentityBindingSpec: "v1AzureIdentityBindingSpec_DeepCopyInto = AzureIdentityBindingSpec_DeepCopyInto"
    by (intro ext) (simp add: v1AzureIdentityBindingSpec_DeepCopyInto_def AzureIdentityBindingSpec_DeepCopyInto_def )
  show AzureIdentityBindingStatus: "v1AzureIdentityBindingStatus_DeepCopyInto = AzureIdentityBindingStatus_DeepCopyInto"
    by (intro ext) (simp add: v1AzureIdentityBindingStatus_DeepCopyInto_def AzureIdentityBindingStatus_DeepCopyInto_def )
  show AzureIdentityBinding: "v1AzureIdentityBinding_DeepCopyInto = AzureIdentityBinding_DeepCopyInto"
    by (intro ext) (simp add: v1AzureIdentityBinding_DeepCopyInto_def AzureIdentityBinding_DeepCopyInto_def AzureIdentityBindingSpec AzureIdentityBindingStatus)
  show AzureAssignedIdentitySpec: "v1AzureAssignedIdentitySpec_DeepCopyInto = AzureAssignedIdentitySpec_DeepCopyInto"
    by (intro ext) (simp add: v1AzureAssignedIdentitySpec_DeepCopyInto_def AzureAssignedIdentitySpec_DeepCopyInto_def AzureIdentity AzureIdentityBinding)
  show AzureAssignedIdentityStatus: "v1AzureAssignedIdentityStatus_DeepCopyInto = AzureAssignedIdentityStatus_DeepCopyInto"
    by (intro ext) (simp add: v1AzureAssignedIdentityStatus_DeepCopyInto_def AzureAssignedIdentityStatus_DeepCopyInto_def )
  show AzureAssignedIdentity: "v1AzureAssignedIdentity_DeepCopyInto = AzureAssignedIdentity_DeepCopyInto"
    by (intro ext) (simp add: v1AzureAssignedIdentity_DeepCopyInto_def AzureAssignedIdentity_DeepCopyInto_def AzureAssignedIdentitySpec AzureAssignedIdentityStatus)
  show AzurePodIdentityExceptionSpec: "v1AzurePodIdentityExceptionSpec_DeepCopyInto = AzurePodIdentityExceptionSpec_DeepCopyInto"
    by (intro ext) (simp add: v1AzurePodIdentityExceptionSpec_DeepCopyInto_def AzurePodIdentityExceptionSpec_DeepCopyInto_def )
  show AzurePodIdentityExceptionStatus: "v1AzurePodIdentityExceptionStatus_DeepCopyInto = AzurePodIdentityExceptionStatus_DeepCopyInto"
    by (intro ext) (simp add: v1AzurePodIdentityExceptionStatus_DeepCopyInto_def AzurePodIdentityExceptionStatus_DeepCopyInto_def )
  show AzurePodIdentityException: "v1AzurePodIdentityException_DeepCopyInto = AzurePodIdentityException_DeepCopyInto"
    by (intro ext) (simp add: v1AzurePodIdentityException_DeepCopyInto_def AzurePodIdentityException_DeepCopyInto_def AzurePodIdentityExceptionSpec AzurePodIdentityExceptionStatus)
qed

lemma well_shaped_ListMeta: "well_shaped ListMeta_shape"
  unfolding ListMeta_shape_def by (intro well_shaped_struct well_shaped_ptr well_shaped_plain)

lemma v1AzureIdentityList_copies:
  assumes "meta_copies env M"
  shows "deep_copier (AzureIdentityList_shape M (taken_over ListMeta_shape)) (v1AzureIdentityList_DeepCopyInto env)"
  unfolding AzureIdentityList_shape_def
proof (rule deep_copier_struct[where upd = "\<lambda>(m, p) l. l\<lparr>mil_ListMeta := m, mil_Items := p\<rparr>"])
  show "deep_copier (pair_shape (taken_over ListMeta_shape) (ptr_shape identities_of (list_shape (AzureIdentity_shape M))))
      (pair_copy assign_copy (new_copy identities_of CIdentities (slice_copy (AzureIdentity_DeepCopyInto env))))"
    by (intro deep_copier_pair deep_copier_taken_over well_shaped_ListMeta deep_copier_new deep_copier_slice AzureIdentity_copies assms) simp
qed (auto simp: v1AzureIdentityList_DeepCopyInto_def pair_copy_def assign_copy_def Let_def v1_copies_same split: prod.splits)

lemma v1AzureIdentityBindingList_copies:
  assumes "meta_copies env M"
  shows "deep_copier (AzureIdentityBindingList_shape M (taken_over ListMeta_shape)) (v1AzureIdentityBindingList_DeepCopyInto env)"
  unfolding AzureIdentityBindingList_shape_def
proof (rule deep_copier_struct[where upd = "\<lambda>(m, p) l. l\<lparr>mbl_ListMeta := m, mbl_Items := p\<rparr>"])
  show "deep_copier (pair_shape (taken_over ListMeta_shape) (ptr_shape bindings_of (list_shape (AzureIdentityBinding_shape M))))
      (pair_copy assign_copy (new_copy bindings_of CBindings (slice_copy (AzureIdentityBinding_DeepCopyInto env))))"
    by (intro deep_copier_pair deep_copier_taken_over well_shaped_ListMeta deep_copier_new deep_copier_slice AzureIdentityBinding_copies assms) simp
qed (auto simp: v1AzureIdentityBindingList_DeepCopyInto_def pair_copy_def assign_copy_def Let_def v1_copies_same split: prod.splits)

lemma v1AzureAssignedIdentityList_copies:
  assumes "meta_copies env M"
  shows "deep_copier (AzureAssignedIdentityList_shape M (taken_over ListMeta_shape)) (v1AzureAssignedIdentityList_DeepCopyInto env)"
  unfolding AzureAssignedIdentityList_shape_def
proof (rule deep_copier_struct[where upd = "\<lambda>(m, p) l. l\<lparr>mal_ListMeta := m, mal_Items := p\<rparr>"])
  show "deep_copier (pair_shape (taken_over ListMeta_shape) (ptr_shape assigneds_of (list_shape (AzureAssignedIdentity_shape M))))
      (pair_copy assign_copy (new_copy assigneds_of CAssigneds (slice_copy (AzureAssignedIdentity_DeepCopyInto env))))"
    by (intro deep_copier_pair deep_copier_taken_over well_shaped_ListMeta deep_copier_new deep_copier_slice AzureAssignedIdentity_copies assms) simp
qed (auto simp: v1AzureAssignedIdentityList_DeepCopyInto_def pair_copy_def assign_copy_def Let_def v1_copies_same split: prod.splits)

lemma v1AzurePodIdentityExceptionList_copies:
  assumes "meta_copies env M"
  shows "deep_copier (AzurePodIdentityExceptionList_shape M (taken_over ListMeta_shape)) (v1AzurePodIdentityExceptionList_DeepCopyInto env)"
  unfolding AzurePodIdentityExceptionList_shape_def
proof (rule deep_copier_struct[where upd = "\<lambda>(m, p) l. l\<lparr>mel_ListMeta := m, mel_Items := p\<rparr>"])
  show "deep_copier (pair_shape (taken_over ListMeta_shape) (ptr_shape exceptions_of (list_shape (AzurePodIdentityException_shape M))))
      (pair_copy assign_copy (new_copy exceptions_of CExceptions (slice_copy (AzurePodIdentityException_DeepCopyInto env))))"
    by (intro deep_copier_pair deep_copier_taken_over well_shaped_ListMeta deep_copier_new deep_copier_slice AzurePodIdentityException_copies assms) simp
qed (auto simp: v1AzurePodIdentityExceptionList_DeepCopyInto_def pair_copy_def assign_copy_def Let_def v1_copies_same split: prod.splits)

section \<open>Copies are independent, but for two fields\<close>

text \<open>
  The cells that a copy of a list of assigned identities has in common with the original: the number of remaining items in the metadata of the list,
  and the auxiliary tenants of the identities of its items.
\<close>

definition list_kept :: "('m, 'x) memory \<Rightarrow> addr option \<Rightarrow> addr set" where
  "list_kept h p = (\<Union>a \<in> set_option p. let l = assignedList_of (cells h a) in
     set_option (mlm_RemainingItemCount (mal_ListMeta l)) \<union>
     (\<Union>s \<in> set_option (mal_Items l). \<Union>x \<in> set (assigneds_of (cells h s)). \<Union>i \<in> set_option (mas_AzureIdentityRef (ma_Spec x)).
        set_option (mids_AuxiliaryTenantIDs (mid_Spec (identity_of (cells h i))))))"

abbreviation assigned_list_ptr :: "('m, 'x, 'm, ObjectMeta) shape \<Rightarrow>
    ('m, 'x, addr option, (TypeMeta \<times> list_meta \<times> v1AzureAssignedIdentity list option) option) shape" where
  "assigned_list_ptr M \<equiv> ptr_shape assignedList_of (AzureAssignedIdentityList_shape M (taken_over ListMeta_shape))"

abbreviation identity_ptr :: "('m, 'x, 'm, ObjectMeta) shape \<Rightarrow> ('m, 'x, addr option, v1AzureIdentity option) shape" where
  "identity_ptr M \<equiv> ptr_shape identity_of (AzureIdentity_shape M)"

abbreviation binding_ptr :: "('m, 'x, 'm, ObjectMeta) shape \<Rightarrow> ('m, 'x, addr option, v1AzureIdentityBinding option) shape" where
  "binding_ptr M \<equiv> ptr_shape binding_of (AzureIdentityBinding_shape M)"

abbreviation exception_ptr :: "('m, 'x, 'm, ObjectMeta) shape \<Rightarrow> ('m, 'x, addr option, v1AzurePodIdentityException option) shape" where
  "exception_ptr M \<equiv> ptr_shape exception_of (AzurePodIdentityException_shape M)"

lemma shared_plain: "shared plain_shape h x = {}" "shared map_shape h y = {}" "foot (ptr_shape sel plain_shape) h p = set_option p"
  by (auto simp: ptr_shape_def plain_shape_def map_shape_def split: option.splits)

lemma shared_ptr: "shared (ptr_shape sel S) h p = (\<Union>a \<in> set_option p. shared S h (sel (cells h a)))"
  by (auto simp: ptr_shape_def split: option.splits)

lemma shared_pair: "shared (pair_shape S T) h (x, y) = shared S h x \<union> shared T h y"
  by (simp add: pair_shape_def)

lemma shared_struct: "shared (struct_shape parts build S) h x = shared S h (parts x)" "foot (struct_shape parts build S) h x = foot S h (parts x)"
  by (simp_all add: struct_shape_def)

lemma shared_list: "shared (list_shape S) h xs = (\<Union>x \<in> set xs. shared S h x)"
  by (simp add: list_shape_def)

lemmas shared_simps = shared_plain shared_ptr shared_pair shared_struct shared_list

lemma shared_types:
  assumes "meta_copies env M"
  shows "shared (AzureIdentity_shape M) h i = set_option (mids_AuxiliaryTenantIDs (mid_Spec i))"
    and "shared (AzureIdentityBinding_shape M) h b = {}"
    and "shared (AzurePodIdentityException_shape M) h e = {}"
    and "shared (AzureAssignedIdentity_shape M) h a =
      (\<Union>r \<in> set_option (mas_AzureIdentityRef (ma_Spec a)). set_option (mids_AuxiliaryTenantIDs (mid_Spec (identity_of (cells h r)))))"
proof -
  note m = meta_copiesD(3)[OF assms]
  show i: "shared (AzureIdentity_shape M) h i = set_option (mids_AuxiliaryTenantIDs (mid_Spec i))" for i
    by (simp add: AzureIdentity_shape_def AzureIdentitySpec_shape_def AzureIdentityStatus_shape_def shared_simps m)
  show b: "shared (AzureIdentityBinding_shape M) h b = {}" for b
    by (simp add: AzureIdentityBinding_shape_def AzureIdentityBindingSpec_shape_def AzureIdentityBindingStatus_shape_def shared_simps m)
  show "shared (AzurePodIdentityException_shape M) h e = {}"
    by (simp add: AzurePodIdentityException_shape_def AzurePodIdentityExceptionSpec_shape_def AzurePodIdentityExceptionStatus_shape_def shared_simps m)
  show "shared (AzureAssignedIdentity_shape M) h a =
      (\<Union>r \<in> set_option (mas_AzureIdentityRef (ma_Spec a)). set_option (mids_AuxiliaryTenantIDs (mid_Spec (identity_of (cells h r)))))"
    by (simp add: AzureAssignedIdentity_shape_def AzureAssignedIdentitySpec_shape_def AzureAssignedIdentityStatus_shape_def shared_simps m i b)
qed

lemma shared_assigned_list:
  assumes "meta_copies env M"
  shows "shared (assigned_list_ptr M) h p = list_kept h p"
  by (simp add: AzureAssignedIdentityList_shape_def ListMeta_shape_def shared_simps shared_types[OF assms] list_kept_def Let_def)

text \<open>The pointers of the interface \<^verbatim>\<open>runtime.Object\<close>.\<close>

lemma DeepCopy_copies:
  assumes "meta_copies env M"
  shows "deep_copier (assigned_list_ptr M) (v1AzureAssignedIdentityList_DeepCopy env)"
    and "deep_copier (identity_ptr M) (v1AzureIdentity_DeepCopy env)"
    and "deep_copier (binding_ptr M) (v1AzureIdentityBinding_DeepCopy env)"
    and "deep_copier (exception_ptr M) (v1AzurePodIdentityException_DeepCopy env)"
  unfolding v1AzureAssignedIdentityList_DeepCopy_def v1AzureIdentity_DeepCopy_def v1AzureIdentityBinding_DeepCopy_def
    v1AzurePodIdentityException_DeepCopy_def v1_copies_same
  by (intro deep_copier_new v1AzureAssignedIdentityList_copies AzureIdentity_copies AzureIdentityBinding_copies
      AzurePodIdentityException_copies assms; simp)+

lemma copy_independent:
  assumes "deep_copier S copy" "well S h x" "copy x h = (y, h')"
  shows "shown S h' y = shown S h x \<and> shown S h' x = shown S h x \<and> foot S h' y \<inter> foot S h' x \<subseteq> shared S h x \<and>
    (\<forall>a c. a \<notin> shared S h x \<longrightarrow>
      (a \<in> foot S h' y \<longrightarrow> shown S (put_cell a c h') x = shown S h x) \<and> (a \<in> foot S h' x \<longrightarrow> shown S (put_cell a c h') y = shown S h x))"
  using deep_copier.copies[OF assms] deep_copier.apart[OF assms] deep_copier.independent[OF assms]
    well_shaped.reads_grows[OF deep_copier.axioms(1)[OF assms(1)] assms(2), of h'] by simp

text \<open>
  (C27) The deep copy of a list of assigned identities (\<^verbatim>\<open>v1\<close>).  If the copies of apimachinery are deep, the copy and the original
  read as the list that was copied.  The only cells they have in common are the number of remaining items in the metadata of the list and the auxiliary
  tenants of the identities; a write to any other cell of the copy does not show in the original, nor one to the original in the copy.
\<close>

theorem deep_copy_independent:
  assumes "meta_copies env M" "well (assigned_list_ptr M) h p" "v1AzureAssignedIdentityList_DeepCopy env p h = (q, h')"
  shows "shown (assigned_list_ptr M) h' q = shown (assigned_list_ptr M) h p \<and>
    shown (assigned_list_ptr M) h' p = shown (assigned_list_ptr M) h p \<and>
    foot (assigned_list_ptr M) h' q \<inter> foot (assigned_list_ptr M) h' p \<subseteq> list_kept h p \<and>
    (\<forall>a c. a \<notin> list_kept h p \<longrightarrow>
      (a \<in> foot (assigned_list_ptr M) h' q \<longrightarrow> shown (assigned_list_ptr M) (put_cell a c h') p = shown (assigned_list_ptr M) h p) \<and>
      (a \<in> foot (assigned_list_ptr M) h' p \<longrightarrow> shown (assigned_list_ptr M) (put_cell a c h') q = shown (assigned_list_ptr M) h p))"
  using copy_independent[OF DeepCopy_copies(1)[OF assms(1)] assms(2,3)] unfolding shared_assigned_list[OF assms(1)] .

text \<open>
  Copies of bindings and of exceptions share nothing.
\<close>

theorem deep_copy_disjoint:
  assumes "meta_copies env M"
  shows "well (binding_ptr M) h p \<Longrightarrow> v1AzureIdentityBinding_DeepCopy env p h = (q, h') \<Longrightarrow>
      shown (binding_ptr M) h' q = shown (binding_ptr M) h p \<and> foot (binding_ptr M) h' q \<inter> foot (binding_ptr M) h' p = {}"
    and "well (exception_ptr M) h p \<Longrightarrow> v1AzurePodIdentityException_DeepCopy env p h = (q, h') \<Longrightarrow>
      shown (exception_ptr M) h' q = shown (exception_ptr M) h p \<and> foot (exception_ptr M) h' q \<inter> foot (exception_ptr M) h' p = {}"
  using copy_independent[OF DeepCopy_copies(3)[OF assms], of h p q h'] copy_independent[OF DeepCopy_copies(4)[OF assms], of h p q h']
  by (simp_all add: shared_ptr shared_types[OF assms])

text \<open>
  (C37) The deep copy of an identity is not deep.  The slice of auxiliary tenants, a field that came after the code was generated, is not copied: the
  copy refers to the array of the original, and whatever is written to it through the copy shows in the original.
\<close>

theorem deep_copy_shares_tenants:
  assumes "meta_copies env M" "well (identity_ptr M) h (Some a)"
    and "cells h a = CIdentity i" "mids_AuxiliaryTenantIDs (mid_Spec i) = Some t" "cells h t = CStrings ids"
    and "v1AzureIdentity_DeepCopyObject env (Some a) h = (r, h')"
  shows "\<exists>b. r = Some (OIdentity b) \<and> b \<notin> foot (identity_ptr M) h (Some a) \<and>
    mids_AuxiliaryTenantIDs (mid_Spec (identity_of (cells h' b))) = Some t \<and>
    (\<forall>ts. map_option (\<lambda>v. v1ids_AuxiliaryTenantIDs (v1id_Spec v)) (shown (identity_ptr M) (put_cell t (CStrings ts) h') (Some a)) = Some ts)"
proof -
  note d = DeepCopy_copies(2)[OF assms(1)]
  obtain c h1 where r: "v1AzureIdentity_DeepCopy env (Some a) h = (c, h1)" by fastforce
  obtain j h2 where j: "AzureIdentity_DeepCopyInto env i (h\<lparr>limit := Suc (limit h)\<rparr>) = (j, h2)" by fastforce
  have c: "c = Some (limit h)" "h1 = put_cell (limit h) (CIdentity j) h2" "h' = h1" "r = Some (OIdentity (limit h))"
    using r assms(3,6) j by (auto simp: v1AzureIdentity_DeepCopy_def v1_copies_same new_copy_def alloc_def v1AzureIdentity_DeepCopyObject_def)
  have g: "grows h h'" using deep_copier.copies[OF d assms(2) r] c by simp
  have t: "mids_AuxiliaryTenantIDs (mid_Spec j) = Some t"
    using j assms(4) by (auto simp: AzureIdentity_DeepCopyInto_def AzureIdentitySpec_DeepCopyInto_def Let_def split: prod.splits)
  have fresh: "limit h \<notin> foot (identity_ptr M) h (Some a)"
    using well_shaped.in_use[OF deep_copier.axioms(1)[OF d] assms(2)] by blast
  have "a < limit h" using assms(2) by (simp add: ptr_shape_def)
  then have "cells h' a = CIdentity i" using g assms(3) by (simp add: grows_def)
  moreover have "t \<noteq> a" using assms(3,5) by auto
  ultimately have "map_option (\<lambda>v. v1ids_AuxiliaryTenantIDs (v1id_Spec v)) (shown (identity_ptr M) (put_cell t (CStrings ts) h') (Some a)) = Some ts" for ts
    using assms(4) by (simp add: shape_defs AzureIdentity_shape_def AzureIdentitySpec_shape_def put_cell_def)
  then show ?thesis using c fresh t by (simp add: put_cell_def)
qed

section \<open>A memory\<close>

text \<open>Metadata with a name and labels, the way apimachinery copies it, and a list of one assigned identity whose identity has auxiliary tenants.\<close>

definition sample_meta_shape :: "(string \<times> addr option, unit, string \<times> addr option, ObjectMeta) shape" where
  "sample_meta_shape = struct_shape snd (\<lambda>m l. zero_ObjectMeta\<lparr>om_Name := fst m, om_Labels := nil_empty l\<rparr>) (ptr_shape labels_of map_shape)"

definition sample_copy_env :: "(string \<times> addr option, unit) CopyEnv" where
  "sample_copy_env = \<lparr>
     ce_ObjectMeta_DeepCopyInto = (\<lambda>m h. let (l, h) = new_copy labels_of CLabels map_copy (snd m) h in ((fst m, l), h)),
     ce_ListMeta_DeepCopyInto = (\<lambda>m h. let (n, h) = new_copy int64_of CInt64 assign_copy (mlm_RemainingItemCount m) h
       in (m\<lparr>mlm_RemainingItemCount := n\<rparr>, h))\<rparr>"

lemma sample_meta_copies: "meta_copies sample_copy_env sample_meta_shape"
proof -
  have "deep_copier sample_meta_shape (ce_ObjectMeta_DeepCopyInto sample_copy_env)"
    unfolding sample_meta_shape_def
    by (rule deep_copier_struct[OF labels_ptr.deep_copier_axioms, where upd = "\<lambda>l m. (fst m, l)"]) (simp_all add: sample_copy_env_def)
  moreover have "deep_copier ListMeta_shape (ce_ListMeta_DeepCopyInto sample_copy_env)"
    unfolding ListMeta_shape_def
    by (rule deep_copier_struct[OF deep_copier_new[OF deep_copier_assign, of int64_of CInt64],
          where upd = "\<lambda>n. mlm_RemainingItemCount_update (\<lambda>_. n)"]) (simp_all add: sample_copy_env_def)
  ultimately show ?thesis by (simp add: meta_copies_def sample_meta_shape_def shared_simps)
qed

definition sample_mIdentity :: "(string \<times> addr option) mAzureIdentity" where
  "sample_mIdentity = \<lparr>mid_TypeMeta = zero_TypeMeta, mid_ObjectMeta = (''id'', Some 5),
     mid_Spec = \<lparr>mids_ObjectMeta = ('''', None), mids_Type = ServicePrincipal, mids_ResourceID = '''', mids_ClientID = ''client'',
       mids_ClientPassword = \<lparr>sr_Name = ''s'', sr_Namespace = ''ns''\<rparr>, mids_TenantID = ''t0'', mids_AuxiliaryTenantIDs = Some 3,
       mids_ADResourceID = '''', mids_ADEndpoint = '''', mids_Replicas = None\<rparr>,
     mid_Status = \<lparr>midst_ObjectMeta = ('''', None), midst_AvailableReplicas = 0\<rparr>\<rparr>"

definition sample_mAssigned :: "(string \<times> addr option) mAzureAssignedIdentity" where
  "sample_mAssigned = \<lparr>ma_TypeMeta = zero_TypeMeta, ma_ObjectMeta = (''a'', None),
     ma_Spec = \<lparr>mas_ObjectMeta = ('''', None), mas_AzureIdentityRef = Some 2, mas_AzureBindingRef = None, mas_Pod = ''p'',
       mas_PodNamespace = ''ns'', mas_NodeName = ''n'', mas_Replicas = None\<rparr>,
     ma_Status = \<lparr>mast_ObjectMeta = ('''', None), mast_Status = AssignedIDAssigned, mast_AvailableReplicas = 0\<rparr>\<rparr>"

definition sample_memory :: "(string \<times> addr option, unit) memory" where
  "sample_memory = \<lparr>limit = 6, cells = (\<lambda>_. COther ())(
     0 := CAssignedList \<lparr>mal_TypeMeta = zero_TypeMeta,
       mal_ListMeta = \<lparr>mlm_SelfLink = '''', mlm_ResourceVersion = ''7'', mlm_Continue = '''', mlm_RemainingItemCount = Some 4\<rparr>, mal_Items = Some 1\<rparr>,
     1 := CAssigneds [sample_mAssigned], 2 := CIdentity sample_mIdentity, 3 := CStrings [''t1''], 4 := CInt64 9,
     5 := CLabels [(''k'', ''v'')])\<rparr>"

lemmas sample_memory_defs = sample_memory_def sample_mAssigned_def sample_mIdentity_def sample_meta_shape_def

lemma sample_memory_well:
  "well (assigned_list_ptr sample_meta_shape) sample_memory (Some 0)" "well (identity_ptr sample_meta_shape) sample_memory (Some 2)"
  by (simp_all add: sample_memory_defs shape_defs AzureAssignedIdentityList_shape_def ListMeta_shape_def AzureAssignedIdentity_shape_def
      AzureAssignedIdentitySpec_shape_def AzureAssignedIdentityStatus_shape_def AzureIdentity_shape_def AzureIdentitySpec_shape_def
      AzureIdentityStatus_shape_def)

theorem deep_copy_independent_witness:
  "\<exists>b h'. v1AzureAssignedIdentityList_DeepCopy sample_copy_env (Some 0) sample_memory = (Some b, h') \<and> list_kept sample_memory (Some 0) = {3, 4} \<and>
     shown (assigned_list_ptr sample_meta_shape) h' (Some b) = shown (assigned_list_ptr sample_meta_shape) sample_memory (Some 0) \<and>
     foot (assigned_list_ptr sample_meta_shape) h' (Some b) \<inter> foot (assigned_list_ptr sample_meta_shape) h' (Some 0) \<subseteq> {3, 4} \<and>
     shown (assigned_list_ptr sample_meta_shape) (put_cell b (CInt32 0) h') (Some 0) = shown (assigned_list_ptr sample_meta_shape) sample_memory (Some 0)"
proof -
  have kept: "list_kept sample_memory (Some 0) = {3, 4}"
    by (auto simp: list_kept_def sample_memory_defs)
  obtain h' where r: "v1AzureAssignedIdentityList_DeepCopy sample_copy_env (Some 0) sample_memory = (Some 6, h')"
    using new_copy_at[of assignedList_of CAssignedList "v1AzureAssignedIdentityList_DeepCopyInto sample_copy_env" 0 sample_memory]
    by (auto simp: v1AzureAssignedIdentityList_DeepCopy_def sample_memory_def)
  have "6 \<in> foot (assigned_list_ptr sample_meta_shape) h' (Some 6)" by (simp add: ptr_shape_def)
  then show ?thesis using deep_copy_independent[OF sample_meta_copies sample_memory_well(1) r] r unfolding kept
    by (intro exI[of _ 6] exI[of _ h']) simp
qed

theorem deep_copy_shares_tenants_witness:
  "\<exists>b h'. v1AzureIdentity_DeepCopyObject sample_copy_env (Some 2) sample_memory = (Some (OIdentity b), h') \<and> b \<noteq> 2 \<and>
     map_option (\<lambda>v. v1ids_AuxiliaryTenantIDs (v1id_Spec v)) (shown (identity_ptr sample_meta_shape) sample_memory (Some 2)) = Some [''t1''] \<and>
     map_option (\<lambda>v. v1ids_AuxiliaryTenantIDs (v1id_Spec v)) (shown (identity_ptr sample_meta_shape) (put_cell 3 (CStrings [''evil'']) h') (Some 2)) = Some [''evil'']"
proof -
  have c: "cells sample_memory 2 = CIdentity sample_mIdentity" "mids_AuxiliaryTenantIDs (mid_Spec sample_mIdentity) = Some 3"
    "cells sample_memory 3 = CStrings [''t1'']" by (simp_all add: sample_memory_def sample_mIdentity_def)
  obtain r h' where r: "v1AzureIdentity_DeepCopyObject sample_copy_env (Some 2) sample_memory = (r, h')" by fastforce
  have "2 \<in> foot (identity_ptr sample_meta_shape) sample_memory (Some 2)" by (simp add: ptr_shape_def)
  moreover have "map_option (\<lambda>v. v1ids_AuxiliaryTenantIDs (v1id_Spec v)) (shown (identity_ptr sample_meta_shape) sample_memory (Some 2)) = Some [''t1'']"
    by (simp add: shape_defs AzureIdentity_shape_def AzureIdentitySpec_shape_def sample_memory_defs)
  ultimately show ?thesis using deep_copy_shares_tenants[OF sample_meta_copies sample_memory_well(2) c r] r by fastforce
qed

end
