(* ===== verification/GoRegexp.thy ===== *)
theory GoRegexp
  imports Prelude
begin

text \<open>
  Go's \<^verbatim>\<open>regexp\<close> package, for the syntax the program's patterns use.  The package documents the
  leftmost-first rule: of all matches it returns the one that starts leftmost and that a
  backtracking search would have found first.  \<open>re_matches\<close> is that search as a list of successes:
  it lists every way to match a pattern at a position, in the order in which a backtracking
  search tries them.  \<open>FindStringSubmatch\<close> takes the first success at the leftmost position that
  has one.  The lemmas give the set of successes of each construct, which is what a
  characterisation of a pattern needs.
\<close>

section \<open>Patterns and matching\<close>

datatype regex =
    REps
  | RLit bool string            \<comment> \<open>a literal; True under the flag \<^verbatim>\<open>(?i)\<close>\<close>
  | RCls "char \<Rightarrow> bool"         \<comment> \<open>a character class\<close>
  | RSeq regex regex
  | RAlt regex regex
  | ROpt regex                  \<comment> \<open>\<^verbatim>\<open>r?\<close>\<close>
  | RStar bool regex            \<comment> \<open>\<^verbatim>\<open>r*\<close> (True) or \<^verbatim>\<open>r*?\<close> (False)\<close>
  | RGrp nat regex              \<comment> \<open>a numbered capture\<close>
  | RBegin                      \<comment> \<open>\<^verbatim>\<open>^\<close>\<close>
  | REnd                        \<comment> \<open>\<^verbatim>\<open>$\<close>\<close>

text \<open>A position: how many bytes precede it, the captures so far, and what is left of the text.\<close>

type_synonym rstate = "nat \<times> (nat, string) gomap \<times> string"

abbreviation rest_of :: "rstate \<Rightarrow> string" where
  "rest_of x \<equiv> snd (snd x)"

definition lit_matches :: "bool \<Rightarrow> string \<Rightarrow> string \<Rightarrow> bool" where
  "lit_matches ci l s \<longleftrightarrow>
     length l \<le> length s \<and>
     (if ci then strings_EqualFold (take (length l) s) l else take (length l) s = l)"

fun advance :: "nat \<Rightarrow> rstate \<Rightarrow> rstate" where
  "advance n (p, caps, s) = (p + n, caps, drop n s)"

text \<open>
  Repetition.  Every iteration has to consume at least one byte, so the length of the rest bounds
  the number of iterations and is the fuel of \<open>star_matches\<close>.
\<close>

fun star_matches :: "nat \<Rightarrow> bool \<Rightarrow> (rstate \<Rightarrow> rstate list) \<Rightarrow> rstate \<Rightarrow> rstate list" where
  "star_matches 0 greedy f x = [x]"
| "star_matches (Suc n) greedy f x =
     (let more = concat (map (star_matches n greedy f)
                   (filter (\<lambda>y. length (rest_of y) < length (rest_of x)) (f x)))
      in if greedy then more @ [x] else x # more)"

primrec re_matches :: "regex \<Rightarrow> rstate \<Rightarrow> rstate list" where
  "re_matches REps x = [x]"
| "re_matches (RLit ci l) x =
     (if lit_matches ci l (rest_of x) then [advance (length l) x] else [])"
| "re_matches (RCls P) x =
     (case rest_of x of [] \<Rightarrow> [] | c # cs \<Rightarrow> if P c then [advance 1 x] else [])"
| "re_matches (RSeq a b) x = concat (map (re_matches b) (re_matches a x))"
| "re_matches (RAlt a b) x = re_matches a x @ re_matches b x"
| "re_matches (ROpt a) x = re_matches a x @ [x]"
| "re_matches (RStar greedy a) x = star_matches (length (rest_of x)) greedy (re_matches a) x"
| "re_matches (RGrp n a) x =
     map (\<lambda>(p, caps, s). (p, mput n (take (p - fst x) (rest_of x)) caps, s)) (re_matches a x)"
| "re_matches RBegin x = (if fst x = 0 then [x] else [])"
| "re_matches REnd x = (if rest_of x = [] then [x] else [])"

definition RPlus :: "bool \<Rightarrow> regex \<Rightarrow> regex" where
  "RPlus greedy a = RSeq a (RStar greedy a)"

text \<open>\<^verbatim>\<open>.\<close> matches every character but the newline.\<close>

definition RDot :: regex where
  "RDot = RCls (\<lambda>c. c \<noteq> CHR 10)"

fun rseq :: "regex list \<Rightarrow> regex" where
  "rseq [] = REps"
| "rseq [r] = r"
| "rseq (r # q # rs) = RSeq r (rseq (q # rs))"

text \<open>
  The leftmost match: the whole matched text and the captures, or \<open>None\<close>.  A capture that took no
  part in the match is the empty string, as in the slice that Go returns.
\<close>

fun find_from :: "nat \<Rightarrow> regex \<Rightarrow> string \<Rightarrow> (string \<times> (nat, string) gomap) option" where
  "find_from p r [] =
     (case re_matches r (p, [], []) of [] \<Rightarrow> None | (q, caps, s) # _ \<Rightarrow> Some ([], caps))"
| "find_from p r (c # cs) =
     (case re_matches r (p, [], c # cs) of
        [] \<Rightarrow> find_from (Suc p) r cs
      | (q, caps, s) # _ \<Rightarrow> Some (take (q - p) (c # cs), caps))"

definition FindStringSubmatch :: "regex \<Rightarrow> string \<Rightarrow> (string \<times> (nat, string) gomap) option" where
  "FindStringSubmatch r s = find_from 0 r s"

definition MatchString :: "regex \<Rightarrow> string \<Rightarrow> bool" where
  "MatchString r s \<longleftrightarrow> FindStringSubmatch r s \<noteq> None"

abbreviation capture :: "(nat, string) gomap \<Rightarrow> nat \<Rightarrow> string" where
  "capture caps n \<equiv> mget0 [] caps n"

section \<open>What each construct can match\<close>

named_theorems re_set_simps \<open>the set of successes of a pattern\<close>

text \<open>\<open>reaches r x y\<close>: one way to match \<open>r\<close> leads from \<open>x\<close> to \<open>y\<close>.\<close>

definition reaches :: "regex \<Rightarrow> rstate \<Rightarrow> rstate \<Rightarrow> bool" where
  "reaches r x y \<longleftrightarrow> y \<in> set (re_matches r x)"

lemma reaches_Lit [re_set_simps]:
  "reaches (RLit ci l) x y \<longleftrightarrow> lit_matches ci l (rest_of x) \<and> y = advance (length l) x"
  by (cases "lit_matches ci l (rest_of x)") (simp_all add: reaches_def)

lemma reaches_Cls [re_set_simps]:
  "reaches (RCls P) x y \<longleftrightarrow> (\<exists>c cs. rest_of x = c # cs \<and> P c \<and> y = advance 1 x)"
proof (cases "rest_of x")
  case Nil
  then show ?thesis by (simp add: reaches_def)
next
  case (Cons c cs)
  then show ?thesis by (cases "P c") (simp_all add: reaches_def)
qed

lemma reaches_Seq [re_set_simps]:
  "reaches (RSeq a b) x y \<longleftrightarrow> (\<exists>z. reaches a x z \<and> reaches b z y)"
  by (auto simp: reaches_def)

lemma reaches_Opt [re_set_simps]: "reaches (ROpt a) x y \<longleftrightarrow> reaches a x y \<or> y = x"
  by (auto simp: reaches_def)

lemma reaches_Alt [re_set_simps]: "reaches (RAlt a b) x y \<longleftrightarrow> reaches a x y \<or> reaches b x y"
  by (auto simp: reaches_def)

lemma reaches_Grp [re_set_simps]:
  "reaches (RGrp n a) x y \<longleftrightarrow>
     (\<exists>p caps s. reaches a x (p, caps, s) \<and> y = (p, mput n (take (p - fst x) (rest_of x)) caps, s))"
  by (force simp: reaches_def)

lemma reaches_Begin [re_set_simps]: "reaches RBegin x y \<longleftrightarrow> fst x = 0 \<and> y = x"
  by (cases "fst x = 0") (simp_all add: reaches_def)

lemma reaches_End [re_set_simps]: "reaches REnd x y \<longleftrightarrow> rest_of x = [] \<and> y = x"
  by (cases "rest_of x = []") (simp_all add: reaches_def)

lemma reaches_Eps [re_set_simps]: "reaches REps x y \<longleftrightarrow> y = x"
  by (auto simp: reaches_def)

lemma advance_rest [simp]: "rest_of (advance n x) = drop n (rest_of x)"
  by (cases x) simp

lemma advance_fst [simp]: "fst (advance n x) = fst x + n"
  by (cases x) simp

lemma advance_0 [simp]: "advance 0 x = x"
  by (cases x) simp

lemma advance_advance [simp]: "advance m (advance n x) = advance (n + m) x"
  by (cases x) (simp add: drop_drop add.commute add.assoc)

lemma star_Cls_set:
  "length (rest_of x) \<le> n \<Longrightarrow>
   set (star_matches n g (re_matches (RCls P)) x) =
   {advance k x | k. k \<le> length (rest_of x) \<and> (\<forall>c \<in> set (take k (rest_of x)). P c)}"
proof (induction n arbitrary: x)
  case 0
  then show ?case by auto
next
  case (Suc n)
  show ?case
  proof (cases "rest_of x")
    case Nil
    then show ?thesis by auto
  next
    case (Cons c cs)
    have sub: "set (star_matches n g (re_matches (RCls P)) (advance 1 x)) =
        {advance (Suc k) x | k. k \<le> length cs \<and> (\<forall>c \<in> set (take k cs). P c)}"
    proof -
      have "length (rest_of (advance 1 x)) \<le> n" using Suc.prems Cons by simp
      from Suc.IH[OF this] show ?thesis using Cons by (simp del: re_matches.simps)
    qed
    have split: "{advance k x | k. k \<le> length (rest_of x) \<and> (\<forall>c \<in> set (take k (rest_of x)). P c)} =
        insert x (if P c then {advance (Suc k) x | k. k \<le> length cs \<and> (\<forall>c \<in> set (take k cs). P c)} else {})"
      (is "?L = ?R")
    proof
      show "?L \<subseteq> ?R"
      proof
        fix y assume "y \<in> ?L"
        then obtain k where k: "y = advance k x" "k \<le> length (c # cs)" "\<forall>c \<in> set (take k (c # cs)). P c"
          using Cons by auto
        then show "y \<in> ?R" by (cases k) auto
      qed
      show "?R \<subseteq> ?L"
        using Cons by (auto intro: exI[of _ 0] split: if_splits) (metis Suc_le_mono length_Cons set_ConsD take_Suc_Cons)
    qed
    have step: "re_matches (RCls P) x = (if P c then [advance 1 x] else [])"
      using Cons by simp
    have "set (star_matches (Suc n) g (re_matches (RCls P)) x) =
        insert x (if P c then set (star_matches n g (re_matches (RCls P)) (advance 1 x)) else {})"
      unfolding star_matches.simps step using Cons by (simp add: Let_def)
    then show ?thesis by (simp only: sub split)
  qed
qed

lemma reaches_Star_Cls [re_set_simps]:
  "reaches (RStar g (RCls P)) x y \<longleftrightarrow>
     (\<exists>k \<le> length (rest_of x). (\<forall>c \<in> set (take k (rest_of x)). P c) \<and> y = advance k x)"
  using star_Cls_set[of x "length (rest_of x)" g P] by (auto simp: reaches_def)

lemma reaches_Plus_Cls [re_set_simps]:
  "reaches (RPlus g (RCls P)) x y \<longleftrightarrow>
     (\<exists>k. 0 < k \<and> k \<le> length (rest_of x) \<and> (\<forall>c \<in> set (take k (rest_of x)). P c) \<and> y = advance k x)"
proof (cases "rest_of x")
  case Nil
  then show ?thesis by (auto simp: RPlus_def reaches_Seq reaches_Cls)
next
  case (Cons c cs)
  show ?thesis (is "?L = ?R")
  proof
    assume ?L
    then obtain k where "P c" "k \<le> length cs" "\<forall>c \<in> set (take k cs). P c" "y = advance (Suc k) x"
      using Cons by (auto simp: RPlus_def reaches_Seq reaches_Cls reaches_Star_Cls)
    then show ?R using Cons by (intro exI[of _ "Suc k"]) auto
  next
    assume ?R
    then obtain k where k: "k \<le> length cs" "P c" "\<forall>c \<in> set (take k cs). P c" "y = advance (Suc k) x"
      using Cons by (auto simp: gr0_conv_Suc)
    then show ?L
      using Cons by (auto simp: RPlus_def reaches_Seq reaches_Cls reaches_Star_Cls intro!: exI[of _ k])
  qed
qed

text \<open>Repetition of any body: what one iteration keeps, many keep; what it can do, many can do.\<close>

lemma star_invariant:
  assumes step: "\<And>x y. y \<in> set (f x) \<Longrightarrow> R x y"
    and refl: "\<And>x. R x x"
    and trans: "\<And>x y z. R x y \<Longrightarrow> R y z \<Longrightarrow> R x z"
  shows "y \<in> set (star_matches n g f x) \<Longrightarrow> R x y"
proof (induction n arbitrary: x)
  case 0
  then show ?case by (simp add: refl)
next
  case (Suc n)
  then consider "y = x" | z where "z \<in> set (f x)" "y \<in> set (star_matches n g f z)"
    by (auto simp: Let_def split: if_splits)
  then show ?case by cases (auto intro: refl trans step Suc.IH)
qed

lemma star_progress:
  assumes step: "\<And>x. rest_of x \<noteq> [] \<Longrightarrow> \<exists>y \<in> set (f x). fst y = Suc (fst x) \<and> rest_of y = tl (rest_of x)"
  shows "k \<le> length (rest_of x) \<Longrightarrow> k \<le> n \<Longrightarrow>
    \<exists>y \<in> set (star_matches n g f x). fst y = fst x + k \<and> rest_of y = drop k (rest_of x)"
proof (induction n arbitrary: x k)
  case 0
  then show ?case by simp
next
  case (Suc n)
  show ?case
  proof (cases k)
    case 0
    then show ?thesis by (intro bexI[of _ x]) (simp_all add: Let_def)
  next
    case (Suc j)
    then have ne: "rest_of x \<noteq> []" using Suc.prems by auto
    from step[OF ne] obtain z where
      z: "z \<in> set (f x)" "fst z = Suc (fst x)" "rest_of z = tl (rest_of x)" by blast
    have lt: "length (rest_of z) < length (rest_of x)" using z(3) ne by simp
    have "j \<le> length (rest_of z)" "j \<le> n" using Suc.prems Suc z(3) by simp_all
    from Suc.IH[OF this] obtain y where
      y: "y \<in> set (star_matches n g f z)" "fst y = fst z + j" "rest_of y = drop j (rest_of z)" by blast
    have "y \<in> set (star_matches (Suc n) g f x)" using y(1) z(1) lt by (cases z) (auto simp: Let_def)
    then show ?thesis using y(2,3) z(2,3) Suc by (intro bexI[of _ y]) (simp_all add: drop_Suc)
  qed
qed

section \<open>Searching\<close>

lemma find_from_None_iff:
  "find_from p r s = None \<longleftrightarrow> (\<forall>i \<le> length s. \<forall>y. \<not> reaches r (p + i, [], drop i s) y)"
proof (induction s arbitrary: p)
  case Nil
  then show ?case by (auto simp: reaches_def split: list.splits)
next
  case (Cons c cs)
  have ball: "(\<forall>i \<le> length (c # cs). Q i) \<longleftrightarrow> Q 0 \<and> (\<forall>i \<le> length cs. Q (Suc i))" for Q
    by (metis Suc_le_mono bot_nat_0.extremum length_Cons not0_implies_Suc)
  have "find_from p r (c # cs) = None \<longleftrightarrow>
      re_matches r (p, [], c # cs) = [] \<and> find_from (Suc p) r cs = None"
    by (auto split: list.splits)
  also have "\<dots> \<longleftrightarrow> (\<forall>i \<le> length (c # cs). \<forall>y. \<not> reaches r (p + i, [], drop i (c # cs)) y)"
    unfolding ball by (auto simp: Cons.IH reaches_def)
  finally show ?case .
qed

lemma MatchString_iff:
  "MatchString r s \<longleftrightarrow> (\<exists>i \<le> length s. \<exists>y. reaches r (i, [], drop i s) y)"
  using find_from_None_iff[of 0 r s] by (auto simp: MatchString_def FindStringSubmatch_def)

lemma find_from_here:
  assumes "reaches r (p, [], s) y"
  shows "\<exists>q caps t. reaches r (p, [], s) (q, caps, t) \<and> find_from p r s = Some (take (q - p) s, caps)"
proof -
  from assms obtain q caps t ys where m: "re_matches r (p, [], s) = (q, caps, t) # ys"
    by (cases "re_matches r (p, [], s)") (auto simp: reaches_def)
  then have "find_from p r s = Some (take (q - p) s, caps)" by (cases s) auto
  with m show ?thesis by (auto simp: reaches_def)
qed

end
