(* ===== verification/GoUtils.thy ===== *)
theory GoUtils
  imports GoRegexp
begin

text \<open>
  \<^verbatim>\<open>pkg/utils/utils.go\<close>: validation of user-assigned identity resource ids, redaction of client ids
  for the log, and the kubenet test of the kubelet configuration.  The two patterns are the
  program's, as terms of \<open>regex\<close>.
\<close>

section \<open>Definitions\<close>

datatype utils_error = InvalidResourceID string

text \<open>
  \<^verbatim>\<open>(?i)/subscriptions/(.+?)/resourcegroups/(.+?)/providers/Microsoft.ManagedIdentity/userAssignedIdentities/(.+)\<close>;
  the dot of \<^verbatim>\<open>Microsoft.ManagedIdentity\<close> is not escaped and matches any character.
\<close>

definition validResourceIDPattern :: regex where
  "validResourceIDPattern = rseq
     [RLit True ''/subscriptions/'', RGrp 1 (RPlus False RDot),
      RLit True ''/resourcegroups/'', RGrp 2 (RPlus False RDot),
      RLit True ''/providers/Microsoft'', RDot,
      RLit True ''ManagedIdentity/userAssignedIdentities/'', RGrp 3 (RPlus True RDot)]"

text \<open>The result is the error, or \<open>None\<close> for Go's \<^verbatim>\<open>nil\<close>.\<close>

definition ValidateResourceID :: "string \<Rightarrow> utils_error option" where
  "ValidateResourceID resourceID =
     (if \<not> MatchString validResourceIDPattern resourceID then Some (InvalidResourceID resourceID)
      else None)"

definition is_space :: "char \<Rightarrow> bool" where
  "is_space c \<longleftrightarrow> c \<in> {CHR 9, CHR 10, CHR 12, CHR 13, CHR 32}"

text \<open>\<^verbatim>\<open>^(\S{4})(\S|\s)*(\S{4})$\<close>\<close>

definition four_nonspace :: regex where
  "four_nonspace = rseq (replicate 4 (RCls (\<lambda>c. \<not> is_space c)))"

definition redactPattern :: regex where
  "redactPattern = rseq
     [RBegin, RGrp 1 four_nonspace,
      RStar True (RGrp 2 (RAlt (RCls (\<lambda>c. \<not> is_space c)) (RCls is_space))),
      RGrp 3 four_nonspace, REnd]"

text \<open>
  \<^verbatim>\<open>redact\<close> with the replacement \<^verbatim>\<open>$1<mid>$3\<close>.  The pattern is anchored at both ends, so a text has at
  most one match, the whole text, and \<^verbatim>\<open>ReplaceAllString\<close> replaces all of it.
\<close>

definition redact :: "string \<Rightarrow> string \<Rightarrow> string" where
  "redact src mid =
     (case FindStringSubmatch redactPattern src of
        None \<Rightarrow> src
      | Some (m, caps) \<Rightarrow> capture caps 1 @ mid @ capture caps 3)"

definition RedactClientID :: "string \<Rightarrow> string" where
  "RedactClientID clientID = redact clientID ''##### REDACTED #####''"

text \<open>The kubelet configuration file is read through the parameter \<open>readFile\<close> (\<^verbatim>\<open>os.ReadFile\<close>).\<close>

definition IsKubenetCNI :: "(string \<Rightarrow> ('e, string) result) \<Rightarrow> string \<Rightarrow> bool \<times> 'e option" where
  "IsKubenetCNI readFile kubeletConfig =
     (case readFile kubeletConfig of
        Inl err \<Rightarrow> (False, Some err)
      | Inr bytes \<Rightarrow> (strings_Contains bytes ''--network-plugin=kubenet'', None))"

section \<open>Which ids are valid\<close>

definition no_newline :: "string \<Rightarrow> bool" where
  "no_newline s \<longleftrightarrow> CHR 10 \<notin> set s"

text \<open>The shape the pattern asks for, without positions: literals up to case, non-empty fields.\<close>

definition valid_resource_id :: "string \<Rightarrow> bool" where
  "valid_resource_id s \<longleftrightarrow>
     (\<exists>pre l1 sub l2 rg l3 d l4 name post.
        s = pre @ l1 @ sub @ l2 @ rg @ l3 @ d # l4 @ name @ post \<and>
        strings_EqualFold l1 ''/subscriptions/'' \<and> strings_EqualFold l2 ''/resourcegroups/'' \<and>
        strings_EqualFold l3 ''/providers/Microsoft'' \<and>
        strings_EqualFold l4 ''ManagedIdentity/userAssignedIdentities/'' \<and>
        sub \<noteq> [] \<and> rg \<noteq> [] \<and> name \<noteq> [] \<and>
        no_newline sub \<and> no_newline rg \<and> d \<noteq> CHR 10 \<and> no_newline name)"

text \<open>Matching in terms of splitting the rest of the text, positions and captures left aside.\<close>

definition splits :: "regex \<Rightarrow> (string \<Rightarrow> bool) \<Rightarrow> bool" where
  "splits r P \<longleftrightarrow> (\<forall>x. \<forall>t. (\<exists>y. reaches r x y \<and> rest_of y = t) \<longleftrightarrow> (\<exists>w. rest_of x = w @ t \<and> P w))"

lemma splits_dest: "splits r P \<Longrightarrow> reaches r x y \<Longrightarrow> \<exists>w. rest_of x = w @ rest_of y \<and> P w"
  unfolding splits_def by blast

lemma splits_ex: "splits r P \<Longrightarrow> rest_of x = w @ t \<Longrightarrow> P w \<Longrightarrow> \<exists>y. reaches r x y \<and> rest_of y = t"
  unfolding splits_def by blast

lemma splits_Lit: "splits (RLit True l) (\<lambda>w. strings_EqualFold w l)"
proof -
  have "lit_matches True l s \<and> drop (length l) s = t \<longleftrightarrow> (\<exists>w. s = w @ t \<and> strings_EqualFold w l)" for s t
  proof
    assume "lit_matches True l s \<and> drop (length l) s = t"
    then show "\<exists>w. s = w @ t \<and> strings_EqualFold w l"
      by (intro exI[of _ "take (length l) s"]) (auto simp: lit_matches_def)
  next
    assume "\<exists>w. s = w @ t \<and> strings_EqualFold w l"
    then obtain w where w: "s = w @ t" "strings_EqualFold w l" by blast
    then have "length w = length l"
      by (metis length_map strings_EqualFold_def strings_ToLower_def)
    with w show "lit_matches True l s \<and> drop (length l) s = t" by (auto simp: lit_matches_def)
  qed
  then show ?thesis by (auto simp: splits_def reaches_Lit)
qed

lemma splits_Seq:
  assumes "splits a P" "splits b Q"
  shows "splits (RSeq a b) (\<lambda>w. \<exists>u v. w = u @ v \<and> P u \<and> Q v)"
  unfolding splits_def reaches_Seq
proof (intro allI iffI)
  fix x t
  assume "\<exists>y. (\<exists>z. reaches a x z \<and> reaches b z y) \<and> rest_of y = t"
  then obtain y z where "reaches a x z" "reaches b z y" "rest_of y = t" by blast
  with assms obtain u v where "rest_of x = u @ rest_of z" "P u" "rest_of z = v @ t" "Q v"
    unfolding splits_def by blast
  then show "\<exists>w. rest_of x = w @ t \<and> (\<exists>u v. w = u @ v \<and> P u \<and> Q v)" by auto
next
  fix x t
  assume "\<exists>w. rest_of x = w @ t \<and> (\<exists>u v. w = u @ v \<and> P u \<and> Q v)"
  then obtain u v where "rest_of x = u @ v @ t" "P u" "Q v" by auto
  with assms(1) obtain z where "reaches a x z" "rest_of z = v @ t" unfolding splits_def by blast
  with assms(2) \<open>Q v\<close> obtain y where "reaches b z y" "rest_of y = t" unfolding splits_def by blast
  with \<open>reaches a x z\<close> show "\<exists>y. (\<exists>z. reaches a x z \<and> reaches b z y) \<and> rest_of y = t" by blast
qed

lemma splits_Grp:
  assumes "splits a P"
  shows "splits (RGrp n a) P"
proof -
  have "(\<exists>y. reaches (RGrp n a) x y \<and> rest_of y = t) \<longleftrightarrow> (\<exists>y. reaches a x y \<and> rest_of y = t)" for x t
    by (auto simp: reaches_Grp)
  then show ?thesis using assms by (simp add: splits_def)
qed

lemma splits_Dot: "splits RDot (\<lambda>w. \<exists>d. w = [d] \<and> d \<noteq> CHR 10)"
proof -
  have "(\<exists>y. reaches RDot x y \<and> rest_of y = t) \<longleftrightarrow> (\<exists>c. rest_of x = c # t \<and> c \<noteq> CHR 10)" for x t
    unfolding RDot_def reaches_Cls by (cases "rest_of x") auto
  then show ?thesis by (simp add: splits_def) auto
qed

lemma splits_Dots: "splits (RPlus g RDot) (\<lambda>w. w \<noteq> [] \<and> no_newline w)"
proof -
  have "(\<exists>k>0. k \<le> length s \<and> (\<forall>c\<in>set (take k s). c \<noteq> CHR 10) \<and> drop k s = t) \<longleftrightarrow>
      (\<exists>w. s = w @ t \<and> w \<noteq> [] \<and> no_newline w)" (is "?L \<longleftrightarrow> ?R") for s t
  proof
    assume ?L
    then obtain k where "0 < k" "k \<le> length s" "\<forall>c\<in>set (take k s). c \<noteq> CHR 10" "drop k s = t" by blast
    moreover have "s = take k s @ drop k s" by simp
    moreover have "take k s \<noteq> []" using calculation(1,2) by (cases s) auto
    ultimately show ?R unfolding no_newline_def by metis
  next
    assume ?R
    then obtain w where "s = w @ t" "w \<noteq> []" "no_newline w" by blast
    then have "0 < length w" "length w \<le> length s" "\<forall>c\<in>set (take (length w) s). c \<noteq> CHR 10" "drop (length w) s = t"
      by (simp_all add: no_newline_def) metis
    then show ?L by blast
  qed
  moreover have "(\<exists>y. reaches (RPlus g RDot) x y \<and> rest_of y = t) \<longleftrightarrow>
      (\<exists>k>0. k \<le> length (rest_of x) \<and> (\<forall>c\<in>set (take k (rest_of x)). c \<noteq> CHR 10) \<and> drop k (rest_of x) = t)" for x t
    unfolding RDot_def reaches_Plus_Cls by (metis advance_rest)
  ultimately show ?thesis by (simp add: splits_def)
qed

lemmas splits_intros = splits_Seq splits_Lit splits_Grp splits_Dot splits_Dots

lemma MatchString_splits:
  assumes "splits r P"
  shows "MatchString r s \<longleftrightarrow> (\<exists>pre w post. s = pre @ w @ post \<and> P w)"
  unfolding MatchString_iff
proof
  assume "\<exists>i \<le> length s. \<exists>y. reaches r (i, [], drop i s) y"
  then obtain i y where i: "i \<le> length s" "reaches r (i, [], drop i s) y" by blast
  with splits_dest[OF assms i(2)] obtain w where "drop i s = w @ rest_of y" "P w" by auto
  with i have "s = take i s @ w @ rest_of y" by (metis append_take_drop_id)
  with \<open>P w\<close> show "\<exists>pre w post. s = pre @ w @ post \<and> P w" by blast
next
  assume "\<exists>pre w post. s = pre @ w @ post \<and> P w"
  then obtain pre w post where s: "s = pre @ w @ post" "P w" by blast
  with splits_ex[OF assms, of "(length pre, [], w @ post)" w post]
  obtain y where "reaches r (length pre, [], w @ post) y" by auto
  moreover have "length pre \<le> length s" "drop (length pre) s = w @ post" using s by simp_all
  ultimately show "\<exists>i \<le> length s. \<exists>y. reaches r (i, [], drop i s) y" by metis
qed

lemma MatchString_valid: "MatchString validResourceIDPattern s \<longleftrightarrow> valid_resource_id s"
proof -
  have "splits validResourceIDPattern (\<lambda>w. \<exists>l1 v1. w = l1 @ v1 \<and> strings_EqualFold l1 ''/subscriptions/'' \<and>
     (\<exists>sub v2. v1 = sub @ v2 \<and> (sub \<noteq> [] \<and> no_newline sub) \<and>
     (\<exists>l2 v3. v2 = l2 @ v3 \<and> strings_EqualFold l2 ''/resourcegroups/'' \<and>
     (\<exists>rg v4. v3 = rg @ v4 \<and> (rg \<noteq> [] \<and> no_newline rg) \<and>
     (\<exists>l3 v5. v4 = l3 @ v5 \<and> strings_EqualFold l3 ''/providers/Microsoft'' \<and>
     (\<exists>ds v6. v5 = ds @ v6 \<and> (\<exists>d. ds = [d] \<and> d \<noteq> CHR 10) \<and>
     (\<exists>l4 name. v6 = l4 @ name \<and> strings_EqualFold l4 ''ManagedIdentity/userAssignedIdentities/'' \<and>
        (name \<noteq> [] \<and> no_newline name))))))))"
    unfolding validResourceIDPattern_def rseq.simps by (intro splits_intros)
  note iff = MatchString_splits[OF this, of s]
  show ?thesis
  proof
    assume "MatchString validResourceIDPattern s"
    then obtain pre l1 sub l2 rg l3 d l4 name post where e:
      "s = pre @ l1 @ sub @ l2 @ rg @ l3 @ d # l4 @ name @ post"
      "strings_EqualFold l1 ''/subscriptions/''" "strings_EqualFold l2 ''/resourcegroups/''"
      "strings_EqualFold l3 ''/providers/Microsoft''"
      "strings_EqualFold l4 ''ManagedIdentity/userAssignedIdentities/''"
      "sub \<noteq> []" "rg \<noteq> []" "name \<noteq> []"
      "no_newline sub" "no_newline rg" "d \<noteq> CHR 10" "no_newline name"
      unfolding iff by (elim exE conjE) simp
    show "valid_resource_id s"
      unfolding valid_resource_id_def by (intro exI conjI) (rule e)+
  next
    assume "valid_resource_id s"
    then obtain pre l1 sub l2 rg l3 d l4 name post where e:
      "s = pre @ l1 @ sub @ l2 @ rg @ l3 @ d # l4 @ name @ post"
      "strings_EqualFold l1 ''/subscriptions/''" "strings_EqualFold l2 ''/resourcegroups/''"
      "strings_EqualFold l3 ''/providers/Microsoft''"
      "strings_EqualFold l4 ''ManagedIdentity/userAssignedIdentities/''"
      "sub \<noteq> []" "rg \<noteq> []" "name \<noteq> []"
      "no_newline sub" "no_newline rg" "d \<noteq> CHR 10" "no_newline name"
      unfolding valid_resource_id_def by (elim exE conjE) blast
    have s: "s = pre @ (l1 @ sub @ l2 @ rg @ l3 @ [d] @ l4 @ name) @ post" using e(1) by simp
    show "MatchString validResourceIDPattern s"
      unfolding iff by (intro exI conjI, rule s) (rule refl e)+
  qed
qed

section \<open>Redaction\<close>

abbreviation any_char :: regex where
  "any_char \<equiv> RGrp 2 (RAlt (RCls (\<lambda>c. \<not> is_space c)) (RCls is_space))"

text \<open>One iteration of \<^verbatim>\<open>(\S|\s)\<close> takes one character and leaves the other captures alone.\<close>

definition only_grp2 :: "rstate \<Rightarrow> rstate \<Rightarrow> bool" where
  "only_grp2 x y \<longleftrightarrow>
     (\<exists>k \<le> length (rest_of x). fst y = fst x + k \<and> rest_of y = drop k (rest_of x)) \<and>
     (\<forall>n. n \<noteq> 2 \<longrightarrow> map_of (fst (snd y)) n = map_of (fst (snd x)) n)"

lemma only_grp2_refl: "only_grp2 x x"
  by (auto simp: only_grp2_def)

lemma only_grp2_trans:
  assumes "only_grp2 x y" "only_grp2 y z"
  shows "only_grp2 x z"
proof -
  from assms obtain k j where "k \<le> length (rest_of x)" "fst y = fst x + k" "rest_of y = drop k (rest_of x)"
    "j \<le> length (rest_of y)" "fst z = fst y + j" "rest_of z = drop j (rest_of y)"
    unfolding only_grp2_def by blast
  then have "k + j \<le> length (rest_of x)" "fst z = fst x + (k + j)" "rest_of z = drop (k + j) (rest_of x)"
    by (simp_all add: add.commute)
  with assms show ?thesis unfolding only_grp2_def by metis
qed

lemma any_char_step: "reaches any_char x y \<Longrightarrow> only_grp2 x y"
  by (cases x) (auto simp: re_set_simps only_grp2_def intro!: exI[of _ 1])

lemma any_char_progress:
  assumes "rest_of x \<noteq> []"
  shows "\<exists>y \<in> set (re_matches any_char x). fst y = Suc (fst x) \<and> rest_of y = tl (rest_of x)"
proof -
  from assms obtain c cs where "rest_of x = c # cs" by (cases "rest_of x") auto
  then show ?thesis by (cases x; cases "is_space c") auto
qed

lemma reaches_any_chars: "reaches (RStar g any_char) x y \<Longrightarrow> only_grp2 x y"
  unfolding reaches_def re_matches.simps(7)
  by (rule star_invariant[of "re_matches any_char" only_grp2])
    (auto intro: any_char_step only_grp2_refl only_grp2_trans simp: reaches_def simp del: re_matches.simps)

lemma reaches_any_chars_ex:
  "k \<le> length (rest_of x) \<Longrightarrow>
   \<exists>y. reaches (RStar g any_char) x y \<and> fst y = fst x + k \<and> rest_of y = drop k (rest_of x)"
  unfolding reaches_def re_matches.simps(7)
  using star_progress[OF any_char_progress, of k x "length (rest_of x)" g] by blast

lemma four_cons: "4 \<le> length s \<Longrightarrow> \<exists>a b c d t. s = a # b # c # d # t"
  by (auto simp: numeral_eq_Suc Suc_le_length_iff)

lemma reaches_four_nonspace:
  "reaches four_nonspace x y \<longleftrightarrow>
     4 \<le> length (rest_of x) \<and> (\<forall>c \<in> set (take 4 (rest_of x)). \<not> is_space c) \<and> y = advance 4 x"
proof -
  have rep: "replicate 4 (r :: regex) = [r, r, r, r]" for r by (simp add: numeral_eq_Suc)
  show ?thesis
  proof (cases "4 \<le> length (rest_of x)")
    case True
    with four_cons obtain a b c d t where "rest_of x = a # b # c # d # t" by blast
    then show ?thesis unfolding four_nonspace_def rep rseq.simps
      by (cases x) (auto simp: re_set_simps)
  next
    case False
    then have "length (rest_of x) \<le> 3" by simp
    then show ?thesis unfolding four_nonspace_def rep rseq.simps using False
      by (cases x) (auto simp: re_set_simps dest!: arg_cong[of _ _ length])
  qed
qed

definition redactable :: "string \<Rightarrow> bool" where
  "redactable s \<longleftrightarrow> 8 \<le> length s \<and> (\<forall>c \<in> set (take 4 s). \<not> is_space c) \<and>
     (\<forall>c \<in> set (drop (length s - 4) s). \<not> is_space c)"

lemma redact_captures:
  assumes "reaches redactPattern (0, [], s) y"
  shows "redactable s \<and> capture (fst (snd y)) 1 = take 4 s \<and> capture (fst (snd y)) 3 = drop (length s - 4) s"
proof -
  from assms obtain x2 where
    pre: "4 \<le> length s" "\<forall>c \<in> set (take 4 s). \<not> is_space c"
    and star: "only_grp2 (4, mput 1 (take 4 s) [], drop 4 s) x2"
    and suf: "4 \<le> length (rest_of x2)" "\<forall>c \<in> set (take 4 (rest_of x2)). \<not> is_space c"
    and y: "y = (fst x2 + 4, mput 3 (take 4 (rest_of x2)) (fst (snd x2)), drop 4 (rest_of x2))"
    and fin: "drop 4 (rest_of x2) = []"
    unfolding redactPattern_def rseq.simps reaches_Seq reaches_Begin reaches_Grp reaches_four_nonspace reaches_End
    by (auto dest!: reaches_any_chars)
  from star obtain k where k: "k \<le> length (drop 4 s)" "rest_of x2 = drop k (drop 4 s)"
    and cap: "map_of (fst (snd x2)) 1 = Some (take 4 s)"
    by (auto simp: only_grp2_def)
  from suf(1) fin have len4: "length (rest_of x2) = 4" by simp
  with k have "k + 4 = length s - 4" "8 \<le> length s" by auto
  with k(2) have "rest_of x2 = drop (length s - 4) s" by (simp add: add.commute)
  with pre suf(2) len4 y cap \<open>8 \<le> length s\<close> show ?thesis
    by (simp add: redactable_def mget0_def)
qed

lemma redact_matches:
  assumes "redactable s"
  shows "\<exists>y. reaches redactPattern (0, [], s) y"
proof -
  let ?x = "(4, mput 1 (take 4 s) [], drop 4 s) :: rstate"
  have len: "8 \<le> length s" using assms by (simp add: redactable_def)
  then have "length s - 8 \<le> length (rest_of ?x)" by simp
  from reaches_any_chars_ex[OF this, of True] obtain x2 where
    x2: "reaches (RStar True any_char) ?x x2" "rest_of x2 = drop (length s - 8) (drop 4 s)" by auto
  from x2(2) len have r: "rest_of x2 = drop (length s - 4) s" by simp
  then have "reaches (RSeq (RGrp 3 four_nonspace) REnd) x2
      (fst x2 + 4, mput 3 (take 4 (rest_of x2)) (fst (snd x2)), [])"
    using assms len by (cases x2) (auto simp: re_set_simps reaches_four_nonspace redactable_def)
  moreover have "reaches (RGrp 1 four_nonspace) (0, [], s) ?x"
    using assms len by (auto simp: re_set_simps reaches_four_nonspace redactable_def)
  ultimately show ?thesis
    unfolding redactPattern_def rseq.simps reaches_Seq reaches_Begin using x2(1) by fastforce
qed

lemma redact_only_at_start: "reaches redactPattern (p, [], s) y \<Longrightarrow> p = 0"
  by (auto simp: redactPattern_def re_set_simps)

lemma redact_eq:
  "redact s mid = (if redactable s then take 4 s @ mid @ drop (length s - 4) s else s)"
proof (cases "redactable s")
  case True
  from redact_matches[OF True] obtain y where "reaches redactPattern (0, [], s) y" by blast
  from find_from_here[OF this] obtain q caps t where
    "reaches redactPattern (0, [], s) (q, caps, t)" "find_from 0 redactPattern s = Some (take (q - 0) s, caps)"
    by blast
  with redact_captures[OF this(1)] True show ?thesis
    by (simp add: redact_def FindStringSubmatch_def)
next
  case False
  have "\<not> reaches redactPattern (i, [], drop i s) y" if "i \<le> length s" for i y
    using redact_only_at_start[of i "drop i s" y] redact_captures[of s y] False by (cases "i = 0") auto
  then have "find_from 0 redactPattern s = None" by (simp add: find_from_None_iff)
  with False show ?thesis by (simp add: redact_def FindStringSubmatch_def)
qed

section \<open>Properties\<close>

text \<open>
  \<^verbatim>\<open>ValidateResourceID\<close> accepts exactly the strings that contain
  \<^verbatim>\<open>/subscriptions/<x>/resourcegroups/<y>/providers/Microsoft?ManagedIdentity/userAssignedIdentities/<z>\<close>
  up to case, with non-empty one-line fields, and reports every other string with the offending id.
\<close>

theorem ValidateResourceID_accepts:
  "ValidateResourceID s = (if valid_resource_id s then None else Some (InvalidResourceID s))"
  by (simp add: ValidateResourceID_def MatchString_valid)

text \<open>
  \<^verbatim>\<open>RedactClientID\<close> hides everything but the first and the last four characters of a client id of
  at least eight characters whose ends hold no white space; any other string comes back unchanged.
\<close>

theorem RedactClientID_hides_middle:
  "RedactClientID s =
     (if 8 \<le> length s \<and> (\<forall>c \<in> set (take 4 s @ drop (length s - 4) s). \<not> is_space c)
      then take 4 s @ ''##### REDACTED #####'' @ drop (length s - 4) s else s)"
proof -
  have "redactable s \<longleftrightarrow> 8 \<le> length s \<and> (\<forall>c \<in> set (take 4 s @ drop (length s - 4) s). \<not> is_space c)"
    by (auto simp: redactable_def)
  then show ?thesis by (simp only: RedactClientID_def redact_eq)
qed

theorem RedactClientID_hides_middle_witness:
  "RedactClientID ''aabc-0000-a83v-9h4m-000j-2c0a-66b0-c1f9'' = ''aabc##### REDACTED #####c1f9''"
  using RedactClientID_hides_middle [of "''aabc-0000-a83v-9h4m-000j-2c0a-66b0-c1f9''"]
  by (simp add: is_space_def)

end
