(* ===== verification/GoPath.thy ===== *)
theory GoPath
  imports Prelude
begin

text \<open>
  The functions of Go's \<^verbatim>\<open>path\<close> package that the program uses: \<^verbatim>\<open>Base\<close>, \<^verbatim>\<open>Split\<close>, \<^verbatim>\<open>Join\<close> and the
  \<^verbatim>\<open>Clean\<close> it ends with, by the rules of the package's documentation, and the lemmas on paths whose
  elements are plain names.
\<close>

section \<open>Definitions\<close>

abbreviation slash :: char where
  "slash \<equiv> CHR ''/''"

definition trim_trailing_slashes :: "string \<Rightarrow> string" where
  "trim_trailing_slashes s = rev (dropWhile (\<lambda>c. c = slash) (rev s))"

text \<open>What follows the last slash, and what precedes it, the slash included.\<close>

definition after_last_slash :: "string \<Rightarrow> string" where
  "after_last_slash s = rev (takeWhile (\<lambda>c. c \<noteq> slash) (rev s))"

definition upto_last_slash :: "string \<Rightarrow> string" where
  "upto_last_slash s = rev (dropWhile (\<lambda>c. c \<noteq> slash) (rev s))"

definition path_Base :: "string \<Rightarrow> string" where
  "path_Base s =
     (if s = [] then ''.''
      else let r = after_last_slash (trim_trailing_slashes s) in if r = [] then ''/'' else r)"

definition path_Split :: "string \<Rightarrow> string \<times> string" where
  "path_Split s = (upto_last_slash s, after_last_slash s)"

text \<open>One element of \<^verbatim>\<open>Clean\<close>: the output so far is a stack with the last element first.\<close>

definition clean_step :: "bool \<Rightarrow> string \<Rightarrow> string list \<Rightarrow> string list" where
  "clean_step rooted e out =
     (if e = [] \<or> e = ''.'' then out
      else if e = ''..'' then
        (case out of
           [] \<Rightarrow> if rooted then [] else [''..'']
         | o1 # os \<Rightarrow> if o1 = ''..'' then ''..'' # out else os)
      else e # out)"

definition path_Clean :: "string \<Rightarrow> string" where
  "path_Clean s =
     (if s = [] then ''.''
      else let rooted = (hd s = slash);
               out = rev (fold (clean_step rooted) (strings_Split slash s) []);
               r = (if rooted then [slash] else []) @ strings_Join out [slash]
           in if r = [] then ''.'' else r)"

definition path_Join :: "string list \<Rightarrow> string" where
  "path_Join elems =
     (let es = filter (\<lambda>e. e \<noteq> []) elems in if es = [] then [] else path_Clean (strings_Join es [slash]))"

section \<open>Plain names\<close>

text \<open>A plain path element: what a subscription id, a resource group or a resource name is.\<close>

definition plain_element :: "string \<Rightarrow> bool" where
  "plain_element e \<longleftrightarrow> e \<noteq> [] \<and> slash \<notin> set e \<and> e \<noteq> ''.'' \<and> e \<noteq> ''..''"

lemma clean_step_plain [simp]: "plain_element e \<Longrightarrow> clean_step rooted e out = e # out"
  by (simp add: clean_step_def plain_element_def)

lemma strings_Split_plain: "sep \<notin> set e \<Longrightarrow> strings_Split sep e = [e]"
  by (induction e) auto

lemma strings_Split_append:
  "sep \<notin> set e \<Longrightarrow> strings_Split sep (e @ sep # s) = e # strings_Split sep s"
  by (induction e) auto

lemma strings_Split_Join:
  "es \<noteq> [] \<Longrightarrow> (\<And>e. e \<in> set es \<Longrightarrow> sep \<notin> set e) \<Longrightarrow> strings_Split sep (strings_Join es [sep]) = es"
proof (induction es)
  case (Cons e es)
  then show ?case
    by (cases es) (auto simp: strings_Split_plain strings_Split_append)
qed simp

lemma fold_clean_plain:
  "(\<And>e. e \<in> set es \<Longrightarrow> plain_element e) \<Longrightarrow> fold (clean_step rooted) es out = rev es @ out"
  by (induction es arbitrary: out) auto

lemma strings_Join_not_Nil: "es \<noteq> [] \<Longrightarrow> (\<And>e. e \<in> set es \<Longrightarrow> e \<noteq> []) \<Longrightarrow> strings_Join es sep \<noteq> []"
  by (cases es rule: list.exhaust; cases "tl es") auto

lemma path_Join_plain:
  assumes "es \<noteq> []" "\<And>e. e \<in> set es \<Longrightarrow> plain_element e"
  shows "path_Join es = strings_Join es [slash]"
proof -
  have ne: "strings_Join es [slash] \<noteq> []"
    using assms by (intro strings_Join_not_Nil) (auto simp: plain_element_def)
  have filt: "filter (\<lambda>e. e \<noteq> []) es = es"
    using assms(2) by (auto simp: plain_element_def filter_id_conv)
  have hd: "hd (strings_Join es [slash]) \<noteq> slash"
  proof -
    obtain e es' where es: "es = e # es'" using assms(1) by (cases es) auto
    then have "plain_element e" using assms(2) by simp
    then have "e \<noteq> []" "hd e \<noteq> slash" using hd_in_set[of e] unfolding plain_element_def by metis+
    then show ?thesis using es by (cases es') auto
  qed
  have "strings_Split slash (strings_Join es [slash]) = es"
    using assms by (intro strings_Split_Join) (auto simp: plain_element_def)
  then show ?thesis
    using assms ne filt hd fold_clean_plain[of es False "[]"]
    by (simp add: path_Join_def path_Clean_def Let_def)
qed

lemma after_last_slash_plain: "slash \<notin> set e \<Longrightarrow> after_last_slash (p @ slash # e) = e"
proof -
  assume "slash \<notin> set e"
  then have "takeWhile (\<lambda>c. c \<noteq> slash) (rev e @ slash # rev p) = rev e"
    by (subst takeWhile_append2) auto
  then show ?thesis by (simp add: after_last_slash_def)
qed

lemma path_Base_plain: "plain_element e \<Longrightarrow> path_Base e = e"
proof -
  assume e: "plain_element e"
  then have "last e \<noteq> slash" using last_in_set[of e] unfolding plain_element_def by metis
  then have "dropWhile (\<lambda>c. c = slash) (rev e) = rev e"
    using e by (cases "rev e") (auto simp: plain_element_def last_rev rev_swap)
  then have trim: "trim_trailing_slashes e = e" by (simp add: trim_trailing_slashes_def)
  have "after_last_slash e = e"
    using e by (auto simp: after_last_slash_def plain_element_def takeWhile_eq_all_conv rev_swap)
  then show ?thesis using e trim by (simp add: path_Base_def plain_element_def)
qed

lemma strings_Join_last:
  assumes "es \<noteq> []"
  shows "strings_Join (es @ [e]) [slash] = strings_Join es [slash] @ slash # e"
  using assms by (induction es rule: list_nonempty_induct) (auto simp: strings_Join_Cons)

end
