(* ===== verification/ResourceId.thy ===== *)
theory ResourceId
  imports GoUtils GoPath
begin

text \<open>
  Azure resource ids in \<^verbatim>\<open>pkg/cloudprovider/cloudprovider.go\<close>: the patterns, \<^verbatim>\<open>ParseResourceID\<close> and
  \<^verbatim>\<open>extractIdentitiesFromError\<close>.
\<close>

section \<open>\<^verbatim>\<open>ParseResourceID\<close>\<close>

definition dots :: "nat \<Rightarrow> regex" where
  "dots n = RGrp n (RPlus True RDot)"

definition lazy_dots :: "nat \<Rightarrow> regex" where
  "lazy_dots n = RGrp n (RPlus False RDot)"

definition nestedResourceIDPattern :: regex where
  "nestedResourceIDPattern =
     rseq [RLit True ''subscriptions/'', dots 1, RLit True ''/resourceGroups/'', dots 2,
           RLit True ''/providers/'', lazy_dots 3, RLit True ''/'', lazy_dots 4, RLit True ''/'',
           lazy_dots 5, RLit True ''/'', dots 6]"

definition resourceIDPattern :: regex where
  "resourceIDPattern =
     rseq [RLit True ''subscriptions/'', dots 1, RLit True ''/resourceGroups/'', dots 2,
           RLit True ''/providers/'', lazy_dots 3, RLit True ''/'', lazy_dots 4, RLit True ''/'', dots 5]"

definition VMResourceType :: string where "VMResourceType = ''virtualMachines''"
definition VMSSResourceType :: string where "VMSSResourceType = ''virtualMachineScaleSets''"

text \<open>\<^verbatim>\<open>azure.Resource\<close>.\<close>

record Resource =
  res_SubscriptionID :: string
  res_ResourceGroup :: string
  res_Provider :: string
  res_ResourceType :: string
  res_ResourceName :: string

text \<open>A match always has all its groups (6 or 7 entries), so only the absence of a match is the error.\<close>

definition ParseResourceID :: "string \<Rightarrow> (string, Resource) result" where
  "ParseResourceID resourceID =
     (let match = (case FindStringSubmatch nestedResourceIDPattern resourceID of
                     None \<Rightarrow> FindStringSubmatch resourceIDPattern resourceID
                   | Some m \<Rightarrow> Some m)
      in case match of
           None \<Rightarrow> Inl (''failed to parse '' @ resourceID @ '': invalid resource ID format'')
         | Some (whole, caps) \<Rightarrow>
             Inr \<lparr>res_SubscriptionID = capture caps 1, res_ResourceGroup = capture caps 2,
                  res_Provider = capture caps 3, res_ResourceType = capture caps 4,
                  res_ResourceName = path_Base (capture caps 5)\<rparr>)"

section \<open>\<^verbatim>\<open>extractIdentitiesFromError\<close>\<close>

text \<open>The class \<^verbatim>\<open>[a-zA-Z0-9-_]\<close>.\<close>

definition is_word_char :: "char \<Rightarrow> bool" where
  "is_word_char c =
     (let n = (of_char c :: nat) in
      (97 \<le> n \<and> n \<le> 122) \<or> (65 \<le> n \<and> n \<le> 90) \<or> (48 \<le> n \<and> n \<le> 57) \<or> n = 45 \<or> n = 95)"

definition words :: regex where
  "words = RPlus True (RCls is_word_char)"

text \<open>
  \<^verbatim>\<open>'(,?(?i)/subscriptions/...)+'\<close>; the dot of \<^verbatim>\<open>Microsoft.ManagedIdentity\<close> is not escaped in the pattern.
\<close>

definition userAssignedIdentitiesPattern :: regex where
  "userAssignedIdentitiesPattern =
     rseq [RLit False [CHR 39],
           RPlus True (RGrp 1 (rseq
             [ROpt (RLit False '',''), RLit True ''/subscriptions/'', words, RLit True ''/resourcegroups/'', words,
              RLit True ''/providers/Microsoft'', RDot, RLit True ''ManagedIdentity/userAssignedIdentities/'', words])),
           RLit False [CHR 39]]"

definition extractIdentitiesFromError :: "string option \<Rightarrow> string list" where
  "extractIdentitiesFromError err =
     (case err of
        None \<Rightarrow> []
      | Some e \<Rightarrow>
          (case FindStringSubmatch userAssignedIdentitiesPattern e of
             None \<Rightarrow> []
           | Some (match, caps) \<Rightarrow>
               filter (\<lambda>i. ValidateResourceID i = None)
                 (strings_Split (CHR '','') (tl (butlast match)))))"

end
