(* ===== verification/ResourceIdParse.thy ===== *)
theory ResourceIdParse
  imports ResourceId
begin

text \<open>
  The resource ids that \<^verbatim>\<open>ParseResourceID\<close> reads back: for the ids that Azure gives to nodes, the first
  success of the leftmost-first search is worked out step by step, greedy and lazy groups alike.
\<close>

section \<open>Ordered successes\<close>

lemma re_matches_Dot: "re_matches RDot (p, caps, c # cs) = (if c = CHR 10 then [] else [(Suc p, caps, cs)])"
  by (simp add: RDot_def)

lemma star_dots:
  "no_newline s \<Longrightarrow> length s \<le> n \<Longrightarrow>
   star_matches n g (re_matches RDot) (p, caps, s) =
     map (\<lambda>k. (p + k, caps, drop k s)) (if g then rev [0..<Suc (length s)] else [0..<Suc (length s)])"
proof (induction s arbitrary: n p)
  case Nil
  have "re_matches RDot (p, caps, []) = []" by (simp add: RDot_def)
  then show ?case by (cases n) (auto simp: Let_def)
next
  case (Cons c cs)
  then obtain m where n: "n = Suc m" "length cs \<le> m" by (cases n) auto
  have c: "c \<noteq> CHR 10" "no_newline cs" using Cons.prems by (auto simp: no_newline_def)
  have up: "[0..<Suc (length (c # cs))] = 0 # map Suc [0..<Suc (length cs)]"
    unfolding map_Suc_upt by (subst upt_conv_Cons) simp_all
  have IH: "star_matches m g (re_matches RDot) (Suc p, caps, cs) =
      map (\<lambda>k. (p + k, caps, drop k (c # cs))) (map Suc (if g then rev [0..<Suc (length cs)] else [0..<Suc (length cs)]))"
    using Cons.IH[OF c(2) n(2), of "Suc p"] by simp
  show ?case unfolding up n(1) star_matches.simps Let_def
    using c(1) IH by (auto simp: re_matches_Dot rev_map)
qed

lemma plus_dots:
  assumes "no_newline s"
  shows "re_matches (RPlus g RDot) (p, caps, s) =
    map (\<lambda>k. (p + k, caps, drop k s)) (if g then rev [1..<Suc (length s)] else [1..<Suc (length s)])"
proof (cases s)
  case Nil
  then show ?thesis by (simp add: RPlus_def RDot_def)
next
  case (Cons c cs)
  then have c: "c \<noteq> CHR 10" "no_newline cs" using assms by (auto simp: no_newline_def)
  have up: "[1..<Suc (length s)] = map Suc [0..<Suc (length cs)]" using Cons by (simp only: map_Suc_upt length_Cons) simp
  show ?thesis unfolding up
    using c Cons star_dots[OF c(2) order_refl, of g "Suc p" caps]
    by (simp add: RPlus_def re_matches_Dot rev_map comp_def)
qed

lemma group_dots:
  assumes "no_newline s"
  shows "re_matches (RGrp n (RPlus g RDot)) (p, caps, s) =
    map (\<lambda>k. (p + k, mput n (take k s) caps, drop k s)) (if g then rev [1..<Suc (length s)] else [1..<Suc (length s)])"
  using plus_dots[OF assms, of g p caps] by (simp add: comp_def)

text \<open>The first element of a \<open>concat\<close> whose earlier parts are empty.\<close>

lemma concat_map_first:
  assumes "xs = us @ x # vs" "\<And>u. u \<in> set us \<Longrightarrow> f u = []" "f x = y # ys"
  shows "\<exists>zs. concat (map f xs) = y # zs"
  using assms by (induction us arbitrary: xs) auto

lemma range_split:
  assumes "e \<noteq> []" "s = e @ t"
  shows "[1..<Suc (length s)] = [1..<length e] @ length e # [Suc (length e)..<Suc (length s)]"
proof -
  have le: "1 \<le> length e" "length e < Suc (length s)" using assms by (cases e; simp)+
  then have "[1..<Suc (length s)] = [1..<length e] @ [length e..<Suc (length s)]"
    using upt_add_eq_append[of 1 "length e" "Suc (length s) - length e"] by simp
  then show ?thesis using upt_conv_Cons[OF le(2)] by (simp only:)
qed

lemma greedy_first:
  assumes "no_newline s" "s = e @ t" "e \<noteq> []"
    "\<And>k. length e < k \<Longrightarrow> k \<le> length s \<Longrightarrow> re_matches r (p + k, mput n (take k s) caps, drop k s) = []"
    "re_matches r (p + length e, mput n e caps, t) = y # ys"
  shows "\<exists>zs. re_matches (RSeq (dots n) r) (p, caps, s) = y # zs"
proof -
  let ?f = "\<lambda>k. re_matches r (p + k, mput n (take k s) caps, drop k s)"
  have split: "rev [1..<Suc (length s)] = rev [Suc (length e)..<Suc (length s)] @ length e # rev [1..<length e]"
    unfolding range_split[OF assms(3,2)] by simp
  have "\<exists>zs. concat (map ?f (rev [1..<Suc (length s)])) = y # zs"
  proof (rule concat_map_first[OF split])
    show "?f u = []" if "u \<in> set (rev [Suc (length e)..<Suc (length s)])" for u
      using that assms(4)[of u] by (simp only: set_rev set_upt atLeastLessThan_iff less_Suc_eq_le Suc_le_eq)
    show "?f (length e) = y # ys" using assms(2,5) by simp
  qed
  then show ?thesis using group_dots[OF assms(1), of n True p caps] by (simp add: dots_def comp_def)
qed

lemma lazy_first:
  assumes "no_newline s" "s = e @ t" "e \<noteq> []"
    "\<And>k. 0 < k \<Longrightarrow> k < length e \<Longrightarrow> re_matches r (p + k, mput n (take k s) caps, drop k s) = []"
    "re_matches r (p + length e, mput n e caps, t) = y # ys"
  shows "\<exists>zs. re_matches (RSeq (lazy_dots n) r) (p, caps, s) = y # zs"
proof -
  let ?f = "\<lambda>k. re_matches r (p + k, mput n (take k s) caps, drop k s)"
  note split = range_split[OF assms(3,2)]
  have "\<exists>zs. concat (map ?f [1..<Suc (length s)]) = y # zs"
    by (rule concat_map_first[OF split]) (use assms in auto)
  then show ?thesis using group_dots[OF assms(1), of n False p caps] by (simp add: lazy_dots_def comp_def)
qed

lemma greedy_last:
  assumes "no_newline s" "s \<noteq> []"
  shows "\<exists>zs. re_matches (dots n) (p, caps, s) = (p + length s, mput n s caps, []) # zs"
  using group_dots[OF assms(1), of n True p caps] assms(2) by (cases s) (auto simp: dots_def)

lemma lit_first:
  assumes "strings_EqualFold l' l"
  shows "re_matches (RSeq (RLit True l) r) (p, caps, l' @ t) = re_matches r (p + length l, caps, t)"
proof -
  have "length l' = length l" using assms by (metis length_map strings_EqualFold_def strings_ToLower_def)
  then show ?thesis using assms by (simp add: lit_matches_def)
qed

lemma lit_fails: "\<not> lit_matches True l s \<Longrightarrow> re_matches (RSeq (RLit True l) r) (p, caps, s) = []"
  by simp

section \<open>Slashes\<close>

lemma to_lower_slash [simp]: "to_lower_char c = slash \<longleftrightarrow> c = slash"
proof -
  have "to_lower_char c = slash \<Longrightarrow> c = slash"
  proof (cases "65 \<le> (of_char c :: nat) \<and> (of_char c :: nat) \<le> 90")
    case True
    then have "(of_char (to_lower_char c) :: nat) = of_char c + 32" by (simp add: to_lower_char_def Let_def of_char_of)
    moreover assume "to_lower_char c = slash"
    ultimately show ?thesis using True by simp
  next
    case False
    then show "to_lower_char c = slash \<Longrightarrow> c = slash" by (auto simp: to_lower_char_def Let_def)
  qed
  moreover have "to_lower_char slash = slash" by code_simp
  ultimately show ?thesis by auto
qed

lemma slash_lower [simp]: "to_lower_char slash = slash"
  by simp

lemma EqualFold_length: "strings_EqualFold a b \<Longrightarrow> length a = length b"
  by (metis length_map strings_EqualFold_def strings_ToLower_def)

lemma EqualFold_append: "strings_EqualFold a b \<Longrightarrow> strings_EqualFold c d \<Longrightarrow> strings_EqualFold (a @ c) (b @ d)"
  by (simp add: strings_EqualFold_def strings_ToLower_def)

lemma EqualFold_slash: "strings_EqualFold a b \<Longrightarrow> slash \<in> set a \<longleftrightarrow> slash \<in> set b"
proof -
  have "slash \<in> set x \<longleftrightarrow> slash \<in> set (strings_ToLower x)" for x
    by (force simp: strings_ToLower_def image_iff eq_commute[of slash])
  then show "strings_EqualFold a b \<Longrightarrow> ?thesis" by (metis strings_EqualFold_def)
qed

lemma EqualFold_count: "strings_EqualFold a b \<Longrightarrow> count_list a slash = count_list b slash"
proof -
  have "count_list x slash = count_list (strings_ToLower x) slash" for x
    by (induction x) (auto simp: strings_ToLower_def)
  then show "strings_EqualFold a b \<Longrightarrow> ?thesis" by (metis strings_EqualFold_def)
qed

lemma lit_matches_slash: "lit_matches True (slash # l) s \<Longrightarrow> \<exists>t. s = slash # t \<and> lit_matches True l t"
  by (cases s) (auto simp: lit_matches_def strings_EqualFold_def strings_ToLower_def)

lemma lit_matches_elem:
  assumes "lit_matches True (w @ [slash]) t"
  shows "\<exists>w' t'. t = w' @ slash # t' \<and> strings_EqualFold w' w"
proof -
  let ?u = "take (Suc (length w)) t"
  have u: "length ?u = Suc (length w)" "map to_lower_char ?u = map to_lower_char w @ [to_lower_char slash]"
    using assms by (auto simp: lit_matches_def strings_EqualFold_def strings_ToLower_def min_def)
  then obtain w' c where w': "?u = w' @ [c]" by (metis length_0_conv nat.distinct(1) rev_exhaust)
  with u have "map to_lower_char w' = map to_lower_char w" "c = slash" by auto
  then show ?thesis using w' by (metis append.assoc append_Cons append_Nil append_take_drop_id strings_EqualFold_def strings_ToLower_def)
qed

lemma first_element:
  assumes "slash \<notin> set e" "slash \<notin> set w" "e @ slash # t = w @ slash # t'"
  shows "e = w"
proof -
  have "takeWhile (\<lambda>c. c \<noteq> slash) (x @ slash # u) = x" if "slash \<notin> set x" for x u
    using that by (subst takeWhile_append2) auto
  then show ?thesis using assms by metis
qed

text \<open>An occurrence of \<^verbatim>\<open>/w/\<close> in a path is an inner element of the path.\<close>

lemma lit_between:
  assumes "\<And>e. e \<in> set es \<Longrightarrow> slash \<notin> set e" "slash \<notin> set w"
    "lit_matches True (slash # w @ [slash]) (drop k (strings_Join es [slash]))"
  shows "\<exists>e \<in> set (tl es). strings_EqualFold e w"
  using assms
proof (induction es arbitrary: k)
  case (Cons e es)
  from lit_matches_slash[OF Cons.prems(3)] obtain t where
    t: "drop k (strings_Join (e # es) [slash]) = slash # t" "lit_matches True (w @ [slash]) t" by blast
  have e: "slash \<notin> set e" using Cons.prems(1) by simp
  show ?case
  proof (cases es)
    case Nil
    then have "slash \<in> set e" using t(1) by (metis in_set_dropD list.set_intros(1) strings_Join.simps(2))
    then show ?thesis using e by simp
  next
    case (Cons e2 es2)
    then have J: "strings_Join (e # es) [slash] = e @ slash # strings_Join es [slash]" by simp
    consider "k < length e" | "k = length e" | k' where "k = length e + Suc k'"
      by (metis less_imp_Suc_add linorder_neqE_nat add_Suc_right)
    then show ?thesis
    proof cases
      case 1
      then have "slash = e ! k" using t(1) J by (metis hd_drop_conv_nth length_append list.sel(1) nth_append trans_less_add1)
      then show ?thesis using 1 e by simp
    next
      case 2
      then have "strings_Join es [slash] = t" using t(1) J by simp
      with lit_matches_elem[OF t(2)] obtain w' t' where w': "strings_Join es [slash] = w' @ slash # t'" "strings_EqualFold w' w" by blast
      have sw: "slash \<notin> set w'" using EqualFold_slash[OF w'(2)] assms(2) by simp
      have se: "slash \<notin> set e2" using Cons.prems(1) Cons by simp
      show ?thesis
      proof (cases es2)
        case Nil
        then show ?thesis using w'(1) Cons se by (metis in_set_conv_decomp strings_Join.simps(2))
      next
        case c2: (Cons e3 es3)
        then have "e2 = w'" using first_element[OF se sw] w'(1) Cons by simp
        then show ?thesis using w'(2) Cons by auto
      qed
    next
      case 3
      then have "drop k (strings_Join (e # es) [slash]) = drop k' (strings_Join es [slash])" using J by simp
      then have "\<exists>e\<in>set (tl es). strings_EqualFold e w"
        using Cons.IH[of k'] Cons.prems by simp
      then show ?thesis using Cons by auto
    qed
  qed
qed (simp add: lit_matches_def)

section \<open>Captures of the first success\<close>

text \<open>\<open>first_caps r s f\<close>: at the text \<open>s\<close> the first success of \<open>r\<close> exists and changes the captures by \<open>f\<close>.\<close>

definition first_caps :: "regex \<Rightarrow> string \<Rightarrow> ((nat, string) gomap \<Rightarrow> (nat, string) gomap) \<Rightarrow> bool" where
  "first_caps r s f \<longleftrightarrow> (\<forall>p caps. \<exists>q t zs. re_matches r (p, caps, s) = (q, f caps, t) # zs)"

lemma first_capsE:
  assumes "first_caps r s f"
  obtains q t zs where "re_matches r (p, caps, s) = (q, f caps, t) # zs"
  using assms unfolding first_caps_def by blast

lemma first_caps_last: "no_newline s \<Longrightarrow> s \<noteq> [] \<Longrightarrow> first_caps (dots n) s (mput n s)"
  unfolding first_caps_def using greedy_last by blast

lemma first_caps_lit:
  "first_caps r t f \<Longrightarrow> strings_EqualFold l' l \<Longrightarrow> first_caps (RSeq (RLit True l) r) (l' @ t) f"
  unfolding first_caps_def by (simp only: lit_first simp_thms)

lemma strings_Join_Cons': "es \<noteq> [] \<Longrightarrow> strings_Join (e # es) [slash] = e @ slash # strings_Join es [slash]"
  by (simp add: strings_Join_Cons)

lemma first_caps_lazy:
  assumes "first_caps r (strings_Join es [slash]) f" "es \<noteq> []" "e \<noteq> []" "slash \<notin> set e"
    "no_newline (strings_Join (e # es) [slash])"
  shows "first_caps (RSeq (lazy_dots n) (RSeq (RLit True ''/'') r)) (strings_Join (e # es) [slash]) (\<lambda>c. f (mput n e c))"
  unfolding first_caps_def
proof (intro allI)
  fix p caps
  let ?s = "strings_Join (e # es) [slash]"
  have s: "?s = e @ slash # strings_Join es [slash]" using assms(2) by (rule strings_Join_Cons')
  obtain q t zs where y: "re_matches r (p + length e + 1, mput n e caps, strings_Join es [slash]) = (q, f (mput n e caps), t) # zs"
    using assms(1) by (rule first_capsE)
  have "re_matches (RSeq (RLit True ''/'') r) (p + length e, mput n e caps, slash # strings_Join es [slash]) = (q, f (mput n e caps), t) # zs"
    using lit_first[of "''/''" "''/''" r "p + length e" "mput n e caps" "strings_Join es [slash]"] y by simp
  moreover have "re_matches (RSeq (RLit True ''/'') r) (p + k, mput n (take k ?s) caps, drop k ?s) = []" if "k < length e" for k
  proof (rule lit_fails, rule notI)
    assume "lit_matches True ''/'' (drop k ?s)"
    then have "drop k ?s ! 0 = slash" using lit_matches_slash[of "[]" "drop k ?s"] by auto
    then have "e ! k = slash" using that s by (simp add: nth_append)
    then show False using assms(4) that by (metis nth_mem)
  qed
  ultimately show "\<exists>q t zs. re_matches (RSeq (lazy_dots n) (RSeq (RLit True ''/'') r)) (p, caps, ?s) = (q, f (mput n e caps), t) # zs"
    using lazy_first[OF assms(5) s assms(3)] by blast
qed

lemma first_caps_greedy:
  assumes "first_caps r (strings_Join es [slash]) f" "es \<noteq> []" "e \<noteq> []" "strings_EqualFold w' w" "slash \<notin> set w"
    "\<And>x. x \<in> set es \<Longrightarrow> slash \<notin> set x \<and> \<not> strings_EqualFold x w"
    "no_newline (strings_Join (e # w' # es) [slash])"
  shows "first_caps (RSeq (dots n) (RSeq (RLit True (slash # w @ [slash])) r)) (strings_Join (e # w' # es) [slash])
           (\<lambda>c. f (mput n e c))"
  unfolding first_caps_def
proof (intro allI)
  fix p caps
  let ?s = "strings_Join (e # w' # es) [slash]"
  have s: "?s = e @ slash # strings_Join (w' # es) [slash]" by (rule strings_Join_Cons') simp
  have s2: "slash # strings_Join (w' # es) [slash] = (slash # w' @ [slash]) @ strings_Join es [slash]"
    using assms(2) by (simp add: strings_Join_Cons')
  have fold: "strings_EqualFold (slash # w' @ [slash]) (slash # w @ [slash])"
    using assms(4) by (simp add: strings_EqualFold_def strings_ToLower_def)
  obtain q t zs where y: "re_matches r (p + length e + length (slash # w @ [slash]), mput n e caps, strings_Join es [slash]) =
      (q, f (mput n e caps), t) # zs"
    using assms(1) by (rule first_capsE)
  have "re_matches (RSeq (RLit True (slash # w @ [slash])) r) (p + length e, mput n e caps, slash # strings_Join (w' # es) [slash]) =
      (q, f (mput n e caps), t) # zs"
    unfolding s2 lit_first[OF fold] by (rule y)
  moreover have "re_matches (RSeq (RLit True (slash # w @ [slash])) r) (p + k, mput n (take k ?s) caps, drop k ?s) = []"
    if lt: "length e < k" for k
  proof (rule lit_fails, rule notI)
    obtain j where j: "k = length e + Suc j" using less_imp_Suc_add[OF lt] by auto
    assume "lit_matches True (slash # w @ [slash]) (drop k ?s)"
    then have "lit_matches True (slash # w @ [slash]) (drop j (strings_Join (w' # es) [slash]))"
      unfolding s j by simp
    moreover have "\<And>x. x \<in> set (w' # es) \<Longrightarrow> slash \<notin> set x"
      using assms(5,6) EqualFold_slash[OF assms(4)] by auto
    ultimately have "\<exists>e \<in> set (tl (w' # es)). strings_EqualFold e w" using assms(5) by (intro lit_between)
    then show False using assms(6) by (metis list.sel(3))
  qed
  ultimately show "\<exists>q t zs. re_matches (RSeq (dots n) (RSeq (RLit True (slash # w @ [slash])) r)) (p, caps, ?s) =
      (q, f (mput n e caps), t) # zs"
    using greedy_first[OF assms(7) s assms(3)] by blast
qed

section \<open>Parsing\<close>

text \<open>The search starts at the keyword when nothing before it can start one.\<close>

lemma find_from_skip:
  assumes "\<And>c. c \<in> set pre \<Longrightarrow> to_lower_char c \<noteq> to_lower_char (hd l)" "l \<noteq> []"
  shows "find_from p (RSeq (RLit True l) r) (pre @ s) = find_from (p + length pre) (RSeq (RLit True l) r) s"
  using assms(1)
proof (induction pre arbitrary: p)
  case (Cons c pre)
  obtain d l' where l: "l = d # l'" using assms(2) by (cases l) auto
  have "\<not> lit_matches True l (c # pre @ s)"
    using Cons.prems[of c] by (auto simp: l lit_matches_def strings_EqualFold_def strings_ToLower_def)
  then have "re_matches (RSeq (RLit True l) r) (p, [], c # pre @ s) = []" by (rule lit_fails)
  then show ?case using Cons by simp
qed simp

lemma find_from_first_caps:
  assumes "first_caps r s f"
  shows "\<exists>whole. find_from p r s = Some (whole, f [])"
proof -
  obtain q t zs where "re_matches r (p, [], s) = (q, f [], t) # zs" using assms by (rule first_capsE)
  then show ?thesis by (cases s) auto
qed

text \<open>The path of a resource, after its leading slashes; \<open>nested\<close> is what follows the name of a nested resource.\<close>

definition resource_path :: "string \<Rightarrow> string \<Rightarrow> string \<Rightarrow> string \<Rightarrow> string \<Rightarrow> string list \<Rightarrow> string" where
  "resource_path sub rg prov ty name nested =
     strings_Join ([''subscriptions'', sub, ''resourceGroups'', rg, ''providers'', prov, ty, name] @ nested) [slash]"

definition id_element :: "string \<Rightarrow> bool" where
  "id_element e \<longleftrightarrow> plain_element e \<and> no_newline e \<and> \<not> strings_EqualFold e ''resourceGroups'' \<and>
     \<not> strings_EqualFold e ''providers''"

lemma id_elementD:
  "id_element e \<Longrightarrow> e \<noteq> [] \<and> slash \<notin> set e \<and> no_newline e \<and> \<not> strings_EqualFold e ''resourceGroups'' \<and>
     \<not> strings_EqualFold e ''providers'' \<and> plain_element e"
  by (simp add: id_element_def plain_element_def)

lemma no_newline_Join: "(\<And>e. e \<in> set es \<Longrightarrow> no_newline e) \<Longrightarrow> no_newline (strings_Join es [slash])"
proof (induction es)
  case (Cons e es)
  then show ?case by (cases es) (auto simp: no_newline_def)
qed (simp add: no_newline_def)

lemma keyword_facts:
  "no_newline ''subscriptions''" "no_newline ''resourceGroups''" "no_newline ''providers''"
  "\<not> strings_EqualFold ''providers'' ''resourceGroups''"
  "slash \<notin> set ''subscriptions''" "slash \<notin> set ''resourceGroups''" "slash \<notin> set ''providers''"
  by (simp add: no_newline_def)+ (code_simp, simp_all)

text \<open>The common head of the two patterns, up to the provider.\<close>

lemma first_caps_head:
  assumes "first_caps r (strings_Join (prov # es) [slash]) f" "id_element sub" "id_element rg"
    "list_all id_element (prov # es)"
  shows "first_caps (rseq [RLit True ''subscriptions/'', dots 1, RLit True ''/resourceGroups/'', dots 2, RLit True ''/providers/'', r])
           (strings_Join (''subscriptions'' # sub # ''resourceGroups'' # rg # ''providers'' # prov # es) [slash])
           (\<lambda>c. f (mput 2 rg (mput 1 sub c)))"
proof -
  note d = id_elementD[OF assms(2)] id_elementD[OF assms(3)]
  have el: "\<And>e. e \<in> set (prov # es) \<Longrightarrow> slash \<notin> set e \<and> no_newline e \<and> \<not> strings_EqualFold e ''resourceGroups'' \<and> \<not> strings_EqualFold e ''providers''"
    using assms(4) id_elementD unfolding list_all_iff by blast
  have 2: "first_caps (RSeq (dots 2) (RSeq (RLit True (slash # ''providers'' @ [slash])) r))
      (strings_Join (rg # ''providers'' # prov # es) [slash]) (\<lambda>c. f (mput 2 rg c))"
    by (rule first_caps_greedy[OF assms(1)])
      (use d el keyword_facts in \<open>auto intro!: no_newline_Join simp del: strings_Join.simps\<close>)
  have 1: "first_caps (RSeq (dots 1) (RSeq (RLit True (slash # ''resourceGroups'' @ [slash])) (RSeq (dots 2) (RSeq (RLit True (slash # ''providers'' @ [slash])) r))))
      (strings_Join (sub # ''resourceGroups'' # rg # ''providers'' # prov # es) [slash]) (\<lambda>c. f (mput 2 rg (mput 1 sub c)))"
    by (rule first_caps_greedy[OF 2])
      (use d el keyword_facts in \<open>auto intro!: no_newline_Join simp del: strings_Join.simps\<close>)
  from first_caps_lit[OF 1, of "''subscriptions/''" "''subscriptions/''"] show ?thesis
    by (simp add: strings_Join_Cons')
qed

lemma nested_slashes:
  assumes "reaches nestedResourceIDPattern x y"
  shows "8 \<le> count_list (rest_of x) slash"
proof -
  have "splits nestedResourceIDPattern (\<lambda>w. \<exists>l1 v1. w = l1 @ v1 \<and> strings_EqualFold l1 ''subscriptions/'' \<and>
     (\<exists>g1 v2. v1 = g1 @ v2 \<and> (g1 \<noteq> [] \<and> no_newline g1) \<and>
     (\<exists>l2 v3. v2 = l2 @ v3 \<and> strings_EqualFold l2 ''/resourceGroups/'' \<and>
     (\<exists>g2 v4. v3 = g2 @ v4 \<and> (g2 \<noteq> [] \<and> no_newline g2) \<and>
     (\<exists>l3 v5. v4 = l3 @ v5 \<and> strings_EqualFold l3 ''/providers/'' \<and>
     (\<exists>g3 v6. v5 = g3 @ v6 \<and> (g3 \<noteq> [] \<and> no_newline g3) \<and>
     (\<exists>l4 v7. v6 = l4 @ v7 \<and> strings_EqualFold l4 ''/'' \<and>
     (\<exists>g4 v8. v7 = g4 @ v8 \<and> (g4 \<noteq> [] \<and> no_newline g4) \<and>
     (\<exists>l5 v9. v8 = l5 @ v9 \<and> strings_EqualFold l5 ''/'' \<and>
     (\<exists>g5 v10. v9 = g5 @ v10 \<and> (g5 \<noteq> [] \<and> no_newline g5) \<and>
     (\<exists>l6 g6. v10 = l6 @ g6 \<and> strings_EqualFold l6 ''/'' \<and> (g6 \<noteq> [] \<and> no_newline g6))))))))))))"
    unfolding nestedResourceIDPattern_def dots_def lazy_dots_def rseq.simps by (intro splits_intros)
  from splits_dest[OF this assms] obtain l1 g1 l2 g2 l3 g3 l4 g4 l5 g5 l6 g6 t where
    "rest_of x = l1 @ g1 @ l2 @ g2 @ l3 @ g3 @ l4 @ g4 @ l5 @ g5 @ l6 @ g6 @ t"
    "strings_EqualFold l1 ''subscriptions/''" "strings_EqualFold l2 ''/resourceGroups/''"
    "strings_EqualFold l3 ''/providers/''" "strings_EqualFold l4 ''/''" "strings_EqualFold l5 ''/''" "strings_EqualFold l6 ''/''"
    by (elim exE conjE) simp
  then show ?thesis by (simp add: EqualFold_count)
qed

lemma no_nested_match:
  assumes "count_list s slash < 8"
  shows "find_from p nestedResourceIDPattern s = None"
  unfolding find_from_None_iff
proof (intro allI impI notI)
  fix i y
  assume "reaches nestedResourceIDPattern (p + i, [], drop i s) y"
  from nested_slashes[OF this] have "8 \<le> count_list (drop i s) slash" by simp
  moreover have "count_list (take i s @ drop i s) slash = count_list (take i s) slash + count_list (drop i s) slash"
    by (rule count_list_append)
  ultimately show False using assms by simp
qed

lemma patterns_start:
  "\<exists>r. nestedResourceIDPattern = RSeq (RLit True ''subscriptions/'') r"
  "\<exists>r. resourceIDPattern = RSeq (RLit True ''subscriptions/'') r"
  by (simp_all add: nestedResourceIDPattern_def resourceIDPattern_def)

lemma find_at_keyword:
  assumes "\<And>c. c \<in> set pre \<Longrightarrow> to_lower_char c \<noteq> CHR ''s''"
    "pat = nestedResourceIDPattern \<or> pat = resourceIDPattern"
  shows "FindStringSubmatch pat (pre @ s) = find_from (length pre) pat s"
proof -
  obtain r where r: "pat = RSeq (RLit True ''subscriptions/'') r" using assms(2) patterns_start by blast
  have "to_lower_char (CHR ''s'') = CHR ''s''" by code_simp
  then show ?thesis
    unfolding FindStringSubmatch_def r using find_from_skip[of pre "''subscriptions/''" 0 r s] assms(1) by simp
qed

lemma lazy_element:
  assumes "first_caps r (strings_Join es [slash]) f" "es \<noteq> []" "list_all id_element (e # es)"
  shows "first_caps (RSeq (lazy_dots n) (RSeq (RLit True ''/'') r)) (strings_Join (e # es) [slash]) (\<lambda>c. f (mput n e c))"
proof (rule first_caps_lazy[OF assms(1,2)])
  show "no_newline (strings_Join (e # es) [slash])"
    using assms(3) id_elementD by (intro no_newline_Join) (auto simp: list_all_iff)
qed (use assms(3) id_elementD in auto)

lemma first_caps_plain:
  assumes "list_all id_element [sub, rg, prov, ty, name]"
  shows "first_caps resourceIDPattern (resource_path sub rg prov ty name [])
    (\<lambda>c. mput 5 name (mput 4 ty (mput 3 prov (mput 2 rg (mput 1 sub c)))))"
proof -
  have "first_caps (dots 5) (strings_Join [name] [slash]) (mput 5 name)"
    using first_caps_last[of name 5] id_elementD[of name] assms by simp
  from lazy_element[OF lazy_element[OF this, of ty 4], of prov 3]
  have "first_caps (RSeq (lazy_dots 3) (RSeq (RLit True ''/'') (RSeq (lazy_dots 4) (RSeq (RLit True ''/'') (dots 5)))))
      (strings_Join [prov, ty, name] [slash]) (\<lambda>c. mput 5 name (mput 4 ty (mput 3 prov c)))"
    using assms by simp
  from first_caps_head[OF this, of sub rg] show ?thesis
    using assms by (simp add: resourceIDPattern_def resource_path_def)
qed

lemma first_caps_nested:
  assumes "list_all id_element (sub # rg # prov # ty # name # nested)" "nested \<noteq> []"
  shows "first_caps nestedResourceIDPattern (resource_path sub rg prov ty name nested)
    (\<lambda>c. mput 6 (strings_Join nested [slash]) (mput 5 name (mput 4 ty (mput 3 prov (mput 2 rg (mput 1 sub c))))))"
proof -
  have "\<And>e. e \<in> set nested \<Longrightarrow> e \<noteq> [] \<and> no_newline e"
    using assms(1) id_elementD by (auto simp: list_all_iff)
  then have "strings_Join nested [slash] \<noteq> []" "no_newline (strings_Join nested [slash])"
    using strings_Join_not_Nil[OF assms(2)] no_newline_Join by blast+
  then have "first_caps (dots 6) (strings_Join nested [slash]) (mput 6 (strings_Join nested [slash]))"
    using first_caps_last by blast
  from lazy_element[OF lazy_element[OF lazy_element[OF this assms(2), of name 5], of ty 4], of prov 3]
  have "first_caps (RSeq (lazy_dots 3) (RSeq (RLit True ''/'') (RSeq (lazy_dots 4) (RSeq (RLit True ''/'')
        (RSeq (lazy_dots 5) (RSeq (RLit True ''/'') (dots 6)))))))
      (strings_Join (prov # ty # name # nested) [slash])
      (\<lambda>c. mput 6 (strings_Join nested [slash]) (mput 5 name (mput 4 ty (mput 3 prov c))))"
    using assms by simp
  from first_caps_head[OF this, of sub rg] show ?thesis
    using assms(1) by (simp add: nestedResourceIDPattern_def resource_path_def)
qed

lemma plain_not_nested:
  assumes "list_all id_element [sub, rg, prov, ty, name]"
  shows "find_from p nestedResourceIDPattern (resource_path sub rg prov ty name []) = None"
proof (rule no_nested_match)
  have "slash \<notin> set sub" "slash \<notin> set rg" "slash \<notin> set prov" "slash \<notin> set ty" "slash \<notin> set name"
    using assms id_elementD by simp_all
  then show "count_list (resource_path sub rg prov ty name []) slash < 8"
    by (simp add: resource_path_def count_notin)
qed

lemma ParseResourceID_parts:
  assumes "list_all (\<lambda>c. to_lower_char c \<noteq> CHR ''s'') pre"
    "list_all id_element ([sub, rg, prov, ty, name] @ nested)"
  shows "ParseResourceID (pre @ resource_path sub rg prov ty name nested) =
    Inr \<lparr>res_SubscriptionID = sub, res_ResourceGroup = rg, res_Provider = prov, res_ResourceType = ty, res_ResourceName = name\<rparr>"
proof -
  have base: "path_Base name = name" using assms(2) path_Base_plain id_elementD[of name] by simp
  have pre: "\<And>c. c \<in> set pre \<Longrightarrow> to_lower_char c \<noteq> CHR ''s''" using assms(1) by (simp add: list_all_iff)
  note find = find_at_keyword[OF pre]
  show ?thesis
  proof (cases "nested = []")
    case True
    have el: "list_all id_element [sub, rg, prov, ty, name]" using assms(2) by simp
    from find_from_first_caps[OF first_caps_plain[OF el], of "length pre"] obtain whole where
      "find_from (length pre) resourceIDPattern (resource_path sub rg prov ty name nested) =
        Some (whole, mput 5 name (mput 4 ty (mput 3 prov (mput 2 rg (mput 1 sub [])))))"
      unfolding True by blast
    then show ?thesis
      using plain_not_nested[OF el, of "length pre"] base unfolding True
      by (simp add: ParseResourceID_def find mget0_def)
  next
    case False
    have el: "list_all id_element (sub # rg # prov # ty # name # nested)" using assms(2) by simp
    from find_from_first_caps[OF first_caps_nested[OF el False], of "length pre"] obtain whole where
      "find_from (length pre) nestedResourceIDPattern (resource_path sub rg prov ty name nested) =
        Some (whole, mput 6 (strings_Join nested [slash]) (mput 5 name (mput 4 ty (mput 3 prov (mput 2 rg (mput 1 sub []))))))"
      by blast
    then show ?thesis using base by (simp add: ParseResourceID_def find mget0_def)
  qed
qed

text \<open>
  (C32) \<^verbatim>\<open>ParseResourceID\<close> reads back the ids of Azure resources: from
  \<^verbatim>\<open>.../subscriptions/S/resourceGroups/R/providers/P/T/N\<close>, whatever follows the name (the instance of a
  scale set node, for example), it returns exactly S, R, P, T and N.
\<close>

theorem ParseResourceID_roundtrip:
  assumes "list_all (\<lambda>c. to_lower_char c \<noteq> CHR ''s'') pre"
    "list_all id_element ([sub, rg, prov, ty, name] @ nested)"
  shows "ParseResourceID (pre @ resource_path sub rg prov ty name nested) =
    Inr \<lparr>res_SubscriptionID = sub, res_ResourceGroup = rg, res_Provider = prov, res_ResourceType = ty, res_ResourceName = name\<rparr>"
  using assms by (rule ParseResourceID_parts)

theorem ParseResourceID_roundtrip_witness:
  "ParseResourceID (''azure:///'' @ resource_path ''sub1'' ''MC_rg'' ''Microsoft.Compute'' ''virtualMachineScaleSets'' ''vmss1'' [''virtualMachines'', ''0'']) =
    Inr \<lparr>res_SubscriptionID = ''sub1'', res_ResourceGroup = ''MC_rg'', res_Provider = ''Microsoft.Compute'',
         res_ResourceType = ''virtualMachineScaleSets'', res_ResourceName = ''vmss1''\<rparr>"
proof (rule ParseResourceID_roundtrip)
  show "list_all (\<lambda>c. to_lower_char c \<noteq> CHR ''s'') ''azure:///''" by code_simp
  show "list_all id_element ([''sub1'', ''MC_rg'', ''Microsoft.Compute'', ''virtualMachineScaleSets'', ''vmss1''] @ [''virtualMachines'', ''0''])"
    by code_simp
qed

end
