(* ===== verification/Vmss.thy ===== *)
theory Vmss
  imports AadTypes ResourceIdParse
begin

text \<open>
  \<^verbatim>\<open>pkg/mic/vmss.go\<close> and the \<^verbatim>\<open>NodeGetter\<close> of \<^verbatim>\<open>pkg/mic/node.go\<close>: which nodes belong to which VM scale set.

  \<^verbatim>\<open>NodeClient.Get\<close> reads the informer's cache and is a function from the node's name to the node or an
  error; of an error the code asks whether it is a not-found error and what its text is.

  A \<^verbatim>\<open>*vmssGroup\<close> is reached through \<^verbatim>\<open>groups\<close> (by scale set) and through \<^verbatim>\<open>nodeIdx\<close> (by node).  A group is
  created once per scale set and never replaced, so the id of the scale set stands for the pointer:
  \<open>nodeIdx\<close> maps a node to the id whose group it points to.
\<close>

section \<open>Definitions\<close>

record node_err =
  ne_IsNotFound :: bool
  ne_Text :: string

type_synonym node_getter = "string \<Rightarrow> (node_err, Node) result"

definition plain_err :: "string \<Rightarrow> node_err" where
  "plain_err t = \<lparr>ne_IsNotFound = False, ne_Text = t\<rparr>"

type_synonym vmssGroup = "(string, bool) gomap"

record vmssGroupList =
  groups :: "(string, vmssGroup) gomap"
  nodeIdx :: "(string, string) gomap"

definition addNode :: "string \<Rightarrow> string \<Rightarrow> vmssGroupList \<Rightarrow> vmssGroupList" where
  "addNode vmss node ls =
     (let g = mget0 [] (groups ls) vmss
      in ls\<lparr>groups := mput vmss (mput node True g) (groups ls), nodeIdx := mput node vmss (nodeIdx ls)\<rparr>)"

definition get_group :: "vmssGroupList \<Rightarrow> string \<Rightarrow> vmssGroup option" where
  "get_group ls vmss = map_of (groups ls) vmss"

definition getByNode :: "vmssGroupList \<Rightarrow> string \<Rightarrow> vmssGroup option" where
  "getByNode ls ref = Option.bind (map_of (nodeIdx ls) ref) (get_group ls)"

definition hasNode :: "vmssGroup \<Rightarrow> string \<Rightarrow> bool" where
  "hasNode g ref = mget0 False g ref"

definition makeVMSSID :: "Resource \<Rightarrow> string" where
  "makeVMSSID r = path_Join [res_SubscriptionID r, res_ResourceGroup r, res_ResourceName r]"

definition getVMSSName :: "string \<Rightarrow> string" where
  "getVMSSName vmssID = snd (path_Split vmssID)"

text \<open>A node without a provider id parses to the zero resource, which is not a scale set.\<close>

definition isVMSS :: "Node \<Rightarrow> (string, string \<times> bool) result" where
  "isVMSS n =
     (case ParseResourceID (node_ProviderID n) of
        Inl err \<Rightarrow> if node_ProviderID n \<noteq> [] then Inl err else Inr ([], False)
      | Inr r \<Rightarrow>
          if res_ResourceType r \<noteq> VMSSResourceType then Inr ([], False) else Inr (makeVMSSID r, True))"

definition vmssFromNodeRef :: "node_getter \<Rightarrow> string \<Rightarrow> (node_err, string \<times> bool) result" where
  "vmssFromNodeRef nc ref =
     (case nc ref of
        Inl err \<Rightarrow> if \<not> ne_IsNotFound err then Inl err else Inr ([], False)
      | Inr n \<Rightarrow> (case isVMSS n of Inl e \<Rightarrow> Inl (plain_err e) | Inr r \<Rightarrow> Inr r))"

fun getVMSSGroups_loop :: "node_getter \<Rightarrow> string list \<Rightarrow> vmssGroupList \<Rightarrow> (node_err, vmssGroupList) result" where
  "getVMSSGroups_loop nc [] ls = Inr ls"
| "getVMSSGroups_loop nc (ref # refs) ls =
     (case vmssFromNodeRef nc ref of
        Inl err \<Rightarrow> if \<not> ne_IsNotFound err then Inl err else getVMSSGroups_loop nc refs ls
      | Inr (vmss, ok) \<Rightarrow> getVMSSGroups_loop nc refs (if ok then addNode vmss ref ls else ls))"

definition empty_groups :: vmssGroupList where
  "empty_groups = \<lparr>groups = [], nodeIdx = []\<rparr>"

definition getVMSSGroups :: "node_getter \<Rightarrow> (string, bool) gomap \<Rightarrow> (node_err, vmssGroupList) result" where
  "getVMSSGroups nc refs = getVMSSGroups_loop nc (map fst refs) empty_groups"

definition getVMSSGroupFromPossiblyUnreferencedNode ::
  "node_getter \<Rightarrow> vmssGroupList \<Rightarrow> string \<Rightarrow> (node_err, vmssGroup option) result \<times> vmssGroupList" where
  "getVMSSGroupFromPossiblyUnreferencedNode nc ls ref =
     (case getByNode ls ref of
        Some g \<Rightarrow> (Inr (Some g), ls)
      | None \<Rightarrow>
          (case vmssFromNodeRef nc ref of
             Inl err \<Rightarrow> if \<not> ne_IsNotFound err then (Inl err, ls) else (Inr None, ls)
           | Inr (vmssID, is_vmss) \<Rightarrow>
               if is_vmss then let ls' = addNode vmssID ref ls in (Inr (get_group ls' vmssID), ls')
               else (Inr None, ls)))"

section \<open>The scale set of a node\<close>

text \<open>What the list of groups stands for: the scale set of each node, if it is in one.\<close>

definition vmss_id :: "node_getter \<Rightarrow> string \<Rightarrow> string option" where
  "vmss_id nc ref = (case vmssFromNodeRef nc ref of Inr (v, True) \<Rightarrow> Some v | _ \<Rightarrow> None)"

definition groups_inv :: "node_getter \<Rightarrow> vmssGroupList \<Rightarrow> bool" where
  "groups_inv nc ls \<longleftrightarrow>
     (\<forall>n v. map_of (nodeIdx ls) n = Some v \<longrightarrow> vmss_id nc n = Some v) \<and>
     (\<forall>n v. (\<exists>g. map_of (groups ls) v = Some g \<and> hasNode g n) \<longleftrightarrow> map_of (nodeIdx ls) n = Some v)"

lemma groups_invD:
  "groups_inv nc ls \<Longrightarrow> map_of (nodeIdx ls) n = Some v \<Longrightarrow> vmss_id nc n = Some v"
  by (simp add: groups_inv_def)

lemma groups_inv_group:
  "groups_inv nc ls \<Longrightarrow> map_of (groups ls) v = Some g \<Longrightarrow> hasNode g n \<longleftrightarrow> map_of (nodeIdx ls) n = Some v"
  unfolding groups_inv_def by (metis option.inject)

lemma groups_inv_no_group:
  "groups_inv nc ls \<Longrightarrow> map_of (groups ls) v = None \<Longrightarrow> map_of (nodeIdx ls) n \<noteq> Some v"
  unfolding groups_inv_def by (metis option.distinct(1))

lemma empty_groups_inv [simp]: "groups_inv nc empty_groups"
  by (simp add: groups_inv_def empty_groups_def)

lemma addNode_nodeIdx [simp]: "map_of (nodeIdx (addNode v n ls)) = (map_of (nodeIdx ls))(n \<mapsto> v)"
  by (simp add: addNode_def Let_def)

lemma addNode_groups [simp]:
  "map_of (groups (addNode v n ls)) = (map_of (groups ls))(v \<mapsto> mput n True (mget0 [] (groups ls) v))"
  by (simp add: addNode_def Let_def)

lemma hasNode_mput [simp]: "hasNode (mput n True g) m \<longleftrightarrow> m = n \<or> hasNode g m"
  by (simp add: hasNode_def)

lemma addNode_inv:
  assumes "groups_inv nc ls" "vmss_id nc n = Some v"
  shows "groups_inv nc (addNode v n ls)"
proof -
  have old: "hasNode (mget0 [] (groups ls) v) m \<longleftrightarrow> map_of (nodeIdx ls) m = Some v" for m
    using groups_inv_group[OF assms(1), of v _ m] groups_inv_no_group[OF assms(1), of v m]
    by (cases "map_of (groups ls) v") (auto simp: mget0_def hasNode_def)
  have "v' \<noteq> v \<Longrightarrow> map_of (nodeIdx ls) n \<noteq> Some v'" for v'
    using groups_invD[OF assms(1), of n v'] assms(2) by auto
  then show ?thesis
    using assms old unfolding groups_inv_def by (auto split: if_splits)
qed

lemma getVMSSGroups_loop_inv:
  assumes "getVMSSGroups_loop nc refs ls = Inr ls'" "groups_inv nc ls"
  shows "groups_inv nc ls' \<and>
    (\<forall>n v. map_of (nodeIdx ls') n = Some v \<longleftrightarrow>
       map_of (nodeIdx ls) n = Some v \<or> n \<in> set refs \<and> vmss_id nc n = Some v)"
  using assms
proof (induction refs arbitrary: ls)
  case (Cons ref refs)
  show ?case
  proof (cases "vmss_id nc ref")
    case None
    then have "getVMSSGroups_loop nc refs ls = Inr ls'"
      using Cons.prems(1) by (auto simp: vmss_id_def split: sum.splits if_splits prod.splits bool.splits)
    from Cons.IH[OF this Cons.prems(2)] None show ?thesis by auto
  next
    case (Some v)
    then have "getVMSSGroups_loop nc refs (addNode v ref ls) = Inr ls'"
      using Cons.prems(1) by (auto simp: vmss_id_def split: sum.splits prod.splits bool.splits)
    moreover have "map_of (nodeIdx ls) ref = None \<or> map_of (nodeIdx ls) ref = Some v"
      using groups_invD[OF Cons.prems(2), of ref] Some by (cases "map_of (nodeIdx ls) ref") auto
    ultimately show ?thesis
      using Cons.IH[OF _ addNode_inv[OF Cons.prems(2) Some]] Some by (auto split: if_splits)
  qed
qed simp

lemma getVMSSGroups_inv:
  assumes "getVMSSGroups nc refs = Inr ls"
  shows "groups_inv nc ls"
    "map_of (nodeIdx ls) n = Some v \<longleftrightarrow> n \<in> fst ` set refs \<and> vmss_id nc n = Some v"
proof -
  have "groups_inv nc ls \<and> (\<forall>n v. map_of (nodeIdx ls) n = Some v \<longleftrightarrow>
      map_of (nodeIdx empty_groups) n = Some v \<or> n \<in> set (map fst refs) \<and> vmss_id nc n = Some v)"
    using getVMSSGroups_loop_inv[of nc "map fst refs" empty_groups ls] assms by (simp add: getVMSSGroups_def)
  then show "groups_inv nc ls"
    "map_of (nodeIdx ls) n = Some v \<longleftrightarrow> n \<in> fst ` set refs \<and> vmss_id nc n = Some v"
    by (simp_all add: empty_groups_def)
qed

lemma groups_inv_getByNode:
  assumes "groups_inv nc ls"
  shows "getByNode ls n = None \<longleftrightarrow> map_of (nodeIdx ls) n = None"
    "getByNode ls n = Some g \<Longrightarrow> \<exists>v. vmss_id nc n = Some v \<and> map_of (nodeIdx ls) n = Some v \<and> map_of (groups ls) v = Some g"
proof -
  have "map_of (nodeIdx ls) n = Some v \<Longrightarrow> \<exists>g. map_of (groups ls) v = Some g" for v
    using assms unfolding groups_inv_def by blast
  then show "getByNode ls n = None \<longleftrightarrow> map_of (nodeIdx ls) n = None"
    by (cases "map_of (nodeIdx ls) n") (auto simp: getByNode_def get_group_def)
  show "getByNode ls n = Some g \<Longrightarrow> \<exists>v. vmss_id nc n = Some v \<and> map_of (nodeIdx ls) n = Some v \<and> map_of (groups ls) v = Some g"
    using groups_invD[OF assms, of n] by (cases "map_of (nodeIdx ls) n") (auto simp: getByNode_def get_group_def)
qed

text \<open>
  What \<^verbatim>\<open>checkIfInUse\<close> asks for: the group of a node, cached if the node was not in the list yet.  The list
  keeps its meaning and grows at most by that node.
\<close>

lemma possiblyUnreferenced_cases:
  assumes "groups_inv nc ls" "getVMSSGroupFromPossiblyUnreferencedNode nc ls ref = (r, ls')"
  obtains (Error) err where "r = Inl err" "vmssFromNodeRef nc ref = Inl err" "ls' = ls"
  | (NoVMSS) "r = Inr None" "vmss_id nc ref = None" "ls' = ls"
  | (Group) v g where "r = Inr (Some g)" "vmss_id nc ref = Some v" "groups_inv nc ls'"
      "\<And>n. hasNode g n \<longleftrightarrow> map_of (nodeIdx ls') n = Some v"
      "\<And>n w. map_of (nodeIdx ls') n = Some w \<longleftrightarrow> map_of (nodeIdx ls) n = Some w \<or> n = ref \<and> w = v"
proof (cases "getByNode ls ref")
  case (Some g)
  then obtain v where v: "vmss_id nc ref = Some v" "map_of (nodeIdx ls) ref = Some v" "map_of (groups ls) v = Some g"
    using groups_inv_getByNode(2)[OF assms(1)] by blast
  have "r = Inr (Some g)" "ls' = ls" using assms(2) Some by (auto simp: getVMSSGroupFromPossiblyUnreferencedNode_def)
  then show ?thesis using Group[of g v] v assms(1) groups_inv_group[OF assms(1) v(3)] by auto
next
  case None
  then have idx: "map_of (nodeIdx ls) ref = None" using groups_inv_getByNode(1)[OF assms(1)] by simp
  show ?thesis
  proof (cases "vmssFromNodeRef nc ref")
    case (Inl err)
    then have nf: "\<not> ne_IsNotFound err"
      by (auto simp: vmssFromNodeRef_def plain_err_def split: sum.splits if_splits)
    then show ?thesis using Error assms(2) None Inl by (auto simp: getVMSSGroupFromPossiblyUnreferencedNode_def)
  next
    case (Inr p)
    obtain v b where p: "p = (v, b)" by fastforce
    show ?thesis
    proof (cases b)
      case False
      then show ?thesis using NoVMSS assms(2) None Inr p
        by (auto simp: getVMSSGroupFromPossiblyUnreferencedNode_def vmss_id_def)
    next
      case True
      then have id: "vmss_id nc ref = Some v" using Inr p by (simp add: vmss_id_def)
      have r: "r = Inr (get_group (addNode v ref ls) v)" "ls' = addNode v ref ls"
        using assms(2) None Inr p True by (auto simp: getVMSSGroupFromPossiblyUnreferencedNode_def Let_def)
      note inv = addNode_inv[OF assms(1) id]
      obtain g where g: "map_of (groups (addNode v ref ls)) v = Some g" by simp
      have grow: "map_of (nodeIdx (addNode v ref ls)) n = Some w \<longleftrightarrow> map_of (nodeIdx ls) n = Some w \<or> n = ref \<and> w = v" for n w
        using idx by auto
      show ?thesis
        by (rule Group[of g v]) (use r id inv g groups_inv_group[OF inv g] grow in \<open>simp_all add: get_group_def\<close>)
    qed
  qed
qed

section \<open>Classification of nodes\<close>

lemma isVMSS_parts:
  assumes "list_all (\<lambda>c. to_lower_char c \<noteq> CHR ''s'') pre" "list_all id_element ([sub, rg, prov, ty, name] @ nested)"
  shows "isVMSS \<lparr>node_ProviderID = pre @ resource_path sub rg prov ty name nested\<rparr> =
      (if ty = VMSSResourceType then Inr (sub @ ''/'' @ rg @ ''/'' @ name, True) else Inr ([], False))"
    "getVMSSName (sub @ ''/'' @ rg @ ''/'' @ name) = name"
proof -
  have plain: "plain_element sub" "plain_element rg" "plain_element name"
    using assms(2) id_elementD by simp_all
  have "path_Join [sub, rg, name] = sub @ ''/'' @ rg @ ''/'' @ name"
    using path_Join_plain[of "[sub, rg, name]"] plain by auto
  then show "isVMSS \<lparr>node_ProviderID = pre @ resource_path sub rg prov ty name nested\<rparr> =
      (if ty = VMSSResourceType then Inr (sub @ ''/'' @ rg @ ''/'' @ name, True) else Inr ([], False))"
    using ParseResourceID_parts[OF assms] by (simp add: isVMSS_def makeVMSSID_def)
  show "getVMSSName (sub @ ''/'' @ rg @ ''/'' @ name) = name"
    using after_last_slash_plain[of name "sub @ ''/'' @ rg"] plain(3)
    by (simp add: getVMSSName_def path_Split_def plain_element_def)
qed

text \<open>
  A node whose provider id is an instance of a scale set belongs to the scale set
  \<^verbatim>\<open>subscription/resource group/name\<close>, and \<^verbatim>\<open>getVMSSName\<close> reads the name back from that id; a node whose provider
  id is a virtual machine belongs to none.
\<close>

theorem isVMSS_classifies:
  assumes "list_all (\<lambda>c. to_lower_char c \<noteq> CHR ''s'') pre" "list_all id_element ([sub, rg, prov, ty, name] @ nested)"
  shows "isVMSS \<lparr>node_ProviderID = pre @ resource_path sub rg prov ty name nested\<rparr> =
      (if ty = VMSSResourceType then Inr (sub @ ''/'' @ rg @ ''/'' @ name, True) else Inr ([], False)) \<and>
    getVMSSName (sub @ ''/'' @ rg @ ''/'' @ name) = name"
  using isVMSS_parts[OF assms] by blast

theorem isVMSS_classifies_witness:
  "isVMSS \<lparr>node_ProviderID = ''azure:///'' @ resource_path ''sub1'' ''rg'' ''Microsoft.Compute'' ''virtualMachineScaleSets'' ''vmss1'' [''virtualMachines'', ''3'']\<rparr> =
     Inr (''sub1'' @ ''/'' @ ''rg'' @ ''/'' @ ''vmss1'', True)"
proof -
  have "list_all (\<lambda>c. to_lower_char c \<noteq> CHR ''s'') ''azure:///''"
    "list_all id_element ([''sub1'', ''rg'', ''Microsoft.Compute'', ''virtualMachineScaleSets'', ''vmss1''] @ [''virtualMachines'', ''3''])"
    by code_simp+
  from isVMSS_classifies[OF this] show ?thesis by (simp add: VMSSResourceType_def)
qed

text \<open>
  \<^verbatim>\<open>getVMSSGroups\<close> partitions the referenced nodes: two referenced nodes are in one group exactly when
  they are nodes of one scale set, and every other node is in none.
\<close>

theorem getVMSSGroups_partition:
  assumes "getVMSSGroups nc refs = Inr ls"
  shows "(case getByNode ls a of Some g \<Rightarrow> hasNode g b | None \<Rightarrow> False) \<longleftrightarrow>
    a \<in> fst ` set refs \<and> b \<in> fst ` set refs \<and> vmss_id nc a \<noteq> None \<and> vmss_id nc a = vmss_id nc b"
proof (cases "getByNode ls a")
  case None
  then have "map_of (nodeIdx ls) a = None"
    using groups_inv_getByNode(1)[OF getVMSSGroups_inv(1)[OF assms]] by simp
  then have "\<not> (a \<in> fst ` set refs \<and> vmss_id nc a \<noteq> None)"
    using getVMSSGroups_inv(2)[OF assms, of a] by (metis option.distinct(1) option.exhaust)
  then show ?thesis using None by auto
next
  case (Some g)
  then obtain v where v: "vmss_id nc a = Some v" "map_of (nodeIdx ls) a = Some v" "map_of (groups ls) v = Some g"
    using groups_inv_getByNode(2)[OF getVMSSGroups_inv(1)[OF assms]] by blast
  have "hasNode g b \<longleftrightarrow> b \<in> fst ` set refs \<and> vmss_id nc b = Some v"
    using groups_inv_group[OF getVMSSGroups_inv(1)[OF assms] v(3), of b] getVMSSGroups_inv(2)[OF assms, of b v] by simp
  moreover have "a \<in> fst ` set refs" using v(2) getVMSSGroups_inv(2)[OF assms, of a v] by simp
  ultimately show ?thesis using Some v(1) by auto
qed

definition one_vmss :: node_getter where
  "one_vmss n = Inr \<lparr>node_ProviderID = ''azure:///'' @
     (if n = ''c'' then resource_path ''s1'' ''r'' ''p'' ''virtualMachines'' ''c'' []
      else resource_path ''s1'' ''r'' ''p'' ''virtualMachineScaleSets'' ''v'' [''virtualMachines'', ''0''])\<rparr>"

lemma one_vmss_from:
  "vmssFromNodeRef one_vmss n = Inr (if n = ''c'' then ([], False) else (''s1/r/v'', True))"
proof -
  have "list_all (\<lambda>c. to_lower_char c \<noteq> CHR ''s'') ''azure:///''"
    "list_all id_element ([''s1'', ''r'', ''p'', ''virtualMachines'', ''c''] @ [])"
    "list_all id_element ([''s1'', ''r'', ''p'', ''virtualMachineScaleSets'', ''v''] @ [''virtualMachines'', ''0''])"
    by code_simp+
  from isVMSS_parts(1)[OF this(1,2)] isVMSS_parts(1)[OF this(1,3)] show ?thesis
    by (simp add: vmssFromNodeRef_def one_vmss_def VMSSResourceType_def)
qed

theorem getVMSSGroups_partition_witness:
  "(case getByNode (projr (getVMSSGroups one_vmss [(''a'', True), (''b'', True), (''c'', True)])) ''a'' of
      Some g \<Rightarrow> hasNode g ''b'' | None \<Rightarrow> False) \<longleftrightarrow>
    ''a'' \<in> fst ` set [(''a'', True), (''b'', True), (''c'', True)] \<and>
    ''b'' \<in> fst ` set [(''a'', True), (''b'', True), (''c'', True)] \<and>
    vmss_id one_vmss ''a'' \<noteq> None \<and> vmss_id one_vmss ''a'' = vmss_id one_vmss ''b''"
proof -
  obtain ls where ls: "getVMSSGroups one_vmss [(''a'', True), (''b'', True), (''c'', True)] = Inr ls"
    by (simp add: getVMSSGroups_def one_vmss_from)
  show ?thesis unfolding ls sum.sel by (rule getVMSSGroups_partition[OF ls])
qed

end
