(* ===== verification/Mic.thy ===== *)
theory Mic
  imports Vmss
begin

text \<open>
  The managed identity controller, \<^verbatim>\<open>pkg/mic/mic.go\<close>: the decisions of one sync cycle, from the listed
  pods, bindings, identities and assigned identities to the work for every node.  The effects of the
  cycle are in theory \<open>MicSync\<close>.

  The functions that fill a map which their caller passed return the new map.  \<^verbatim>\<open>getAzureAssignedIDsToCreate\<close>
  and \<^verbatim>\<open>getAzureAssignedIDsToDelete\<close> may return one of their arguments; \<^verbatim>\<open>getAzureAssignedIdentitiesToUpdate\<close>
  deletes from both results.  Lemma \<open>update_keeps_aliased\<close> shows that an aliased argument is never changed.
\<close>

section \<open>Data\<close>

record mic_client =
  mic_IsNamespaced :: bool
  mic_ImmutableUserMSIsMap :: "(string, bool) gomap"
  mic_createDeleteBatch :: int

type_synonym assigned_map = "(string, AzureAssignedIdentity) gomap"

record trackUserAssignedMSIIds =
  addUserAssignedMSIIDs :: "string list"
  removeUserAssignedMSIIDs :: "string list"
  assignedIDsToCreate :: "AzureAssignedIdentity list"
  assignedIDsToDelete :: "AzureAssignedIdentity list"
  assignedIDsToUpdate :: "AzureAssignedIdentity list"
  isvmss :: bool

definition zero_track :: trackUserAssignedMSIIds where
  "zero_track = \<lparr>addUserAssignedMSIIDs = [], removeUserAssignedMSIIDs = [], assignedIDsToCreate = [],
     assignedIDsToDelete = [], assignedIDsToUpdate = [], isvmss = False\<rparr>"

type_synonym node_map = "(string, trackUserAssignedMSIIds) gomap"

text \<open>The immutable identities of \<^verbatim>\<open>NewMICClient\<close>: the configured ones in lower case, and the cluster identity.\<close>

definition immutable_map :: "string list \<Rightarrow> string \<Rightarrow> (string, bool) gomap" where
  "immutable_map immutableUserMSIsList clusterIdentity =
     (let m = fold (\<lambda>item m. mput (strings_ToLower item) True m) immutableUserMSIsList []
      in if clusterIdentity \<noteq> [] then mput clusterIdentity True m else m)"

section \<open>Identities and desired state\<close>

definition getIDKey :: "string \<Rightarrow> string \<Rightarrow> string" where
  "getIDKey ns name = strings_Join [ns, name] ''/''"

definition checkIfUserAssignedMSI :: "AzureIdentity \<Rightarrow> bool" where
  "checkIfUserAssignedMSI i = (id_Type i = UserAssignedMSI)"

definition convertIDListToMap :: "AzureIdentity list \<Rightarrow> (string, AzureIdentity) gomap" where
  "convertIDListToMap azureIdentities =
     fold (\<lambda>i m. if checkIfUserAssignedMSI i \<and> ValidateResourceID (id_ResourceID i) \<noteq> None then m
                 else mput (getIDKey (id_Namespace i) (id_Name i)) i m) azureIdentities []"

definition getAssignedIDName :: "string \<Rightarrow> string \<Rightarrow> string \<Rightarrow> string" where
  "getAssignedIDName podName podNameSpace idName = podName @ ''-'' @ podNameSpace @ ''-'' @ idName"

definition makeAssignedIDs ::
  "mic_client \<Rightarrow> AzureIdentity \<Rightarrow> AzureIdentityBinding \<Rightarrow> string \<Rightarrow> string \<Rightarrow> string \<Rightarrow> AzureAssignedIdentity" where
  "makeAssignedIDs c azID azBinding podName podNameSpace nodeName =
     \<lparr>a_TypeMeta = zero_TypeMeta,
      a_ObjectMeta = zero_ObjectMeta\<lparr>om_Name := getAssignedIDName podName podNameSpace (id_Name azID),
        om_Labels := [(''nodename'', nodeName)],
        om_Namespace := (if mic_IsNamespaced c \<or> IsNamespacedIdentity azID then id_Namespace azID else ''default'')\<rparr>,
      a_Spec = \<lparr>as_ObjectMeta = zero_ObjectMeta, as_AzureIdentityRef = azID, as_AzureBindingRef = azBinding,
        as_Pod = podName, as_PodNamespace = podNameSpace, as_NodeName = nodeName, as_Replicas = None\<rparr>,
      a_Status = \<lparr>ast_ObjectMeta = zero_ObjectMeta, ast_Status = [], ast_AvailableReplicas = 1\<rparr>\<rparr>"

text \<open>One binding that matches a pod.\<close>

definition desired_binding_step ::
  "mic_client \<Rightarrow> (string, AzureIdentity) gomap \<Rightarrow> Pod \<Rightarrow> AzureIdentityBinding \<Rightarrow> assigned_map \<Rightarrow> assigned_map" where
  "desired_binding_step c idMap pod b newAssignedIDs =
     (case map_of idMap (getIDKey (b_Namespace b) (b_AzureIdentity b)) of
        None \<Rightarrow> newAssignedIDs
      | Some azureID \<Rightarrow>
          if (mic_IsNamespaced c \<or> IsNamespacedIdentity azureID) \<and>
             \<not> (id_Namespace azureID = b_Namespace b \<and> b_Namespace b = pod_Namespace pod)
          then newAssignedIDs
          else
            let assignedID = makeAssignedIDs c azureID b (pod_Name pod) (pod_Namespace pod) (pod_NodeName pod)
            in if map_of newAssignedIDs (a_Name assignedID) \<noteq> None then newAssignedIDs
               else mput (a_Name assignedID) assignedID newAssignedIDs)"

definition desired_pod_step ::
  "mic_client \<Rightarrow> AzureIdentityBinding list \<Rightarrow> (string, AzureIdentity) gomap \<Rightarrow> Pod \<Rightarrow>
     assigned_map \<times> (string, bool) gomap \<Rightarrow> assigned_map \<times> (string, bool) gomap" where
  "desired_pod_step c listBindings idMap pod acc =
     (case acc of (newAssignedIDs, nodeRefs) \<Rightarrow>
        if pod_NodeName pod = [] then acc
        else
          let crdPodLabelVal = mget0 [] (pod_Labels pod) CRDLabelKey in
          if crdPodLabelVal = [] then acc
          else
            let matchedBindings = filter (\<lambda>b. b_Selector b = crdPodLabelVal) listBindings in
            if matchedBindings = [] then acc
            else (fold (desired_binding_step c idMap pod) (sort_bindings matchedBindings) newAssignedIDs,
                  mput (pod_NodeName pod) True nodeRefs))"

definition createDesiredAssignedIdentityList ::
  "mic_client \<Rightarrow> Pod list \<Rightarrow> AzureIdentityBinding list \<Rightarrow> (string, AzureIdentity) gomap \<Rightarrow>
     assigned_map \<times> (string, bool) gomap" where
  "createDesiredAssignedIdentityList c listPods listBindings idMap =
     fold (desired_pod_step c listBindings idMap) listPods ([], [])"

section \<open>The difference of two states\<close>

definition matchAssignedID :: "AzureAssignedIdentity \<Rightarrow> AzureAssignedIdentity \<Rightarrow> bool" where
  "matchAssignedID x y \<longleftrightarrow>
     b_Name (a_Binding x) = b_Name (a_Binding y) \<and>
     om_ResourceVersion (b_ObjectMeta (a_Binding x)) = om_ResourceVersion (b_ObjectMeta (a_Binding y)) \<and>
     id_Name (a_Identity x) = id_Name (a_Identity y) \<and>
     om_ResourceVersion (id_ObjectMeta (a_Identity x)) = om_ResourceVersion (id_ObjectMeta (a_Identity y)) \<and>
     a_Pod x = a_Pod y \<and>
     a_PodNamespace x = a_PodNamespace y \<and>
     a_NodeName x = a_NodeName y"

definition create_step :: "assigned_map \<Rightarrow> string \<times> AzureAssignedIdentity \<Rightarrow> assigned_map \<Rightarrow> assigned_map" where
  "create_step old entry create =
     (case entry of (assignedIDName, newAssignedID) \<Rightarrow>
        (case map_of old assignedIDName of
           None \<Rightarrow> mput assignedIDName newAssignedID create
         | Some oldAssignedID \<Rightarrow>
             if matchAssignedID oldAssignedID newAssignedID then
               if a_StatusText oldAssignedID = AssignedIDCreated
               then mput assignedIDName oldAssignedID create else create
             else mput assignedIDName newAssignedID create))"

definition getAzureAssignedIDsToCreate :: "assigned_map \<Rightarrow> assigned_map \<Rightarrow> assigned_map" where
  "getAzureAssignedIDsToCreate old new =
     (if length old = 0 then new else fold (create_step old) new [])"

definition delete_step :: "assigned_map \<Rightarrow> string \<times> AzureAssignedIdentity \<Rightarrow> assigned_map \<Rightarrow> assigned_map" where
  "delete_step new entry del =
     (case entry of (assignedIDName, oldAssignedID) \<Rightarrow>
        (case map_of new assignedIDName of
           Some newAssignedID \<Rightarrow>
             if matchAssignedID oldAssignedID newAssignedID then del else mput assignedIDName oldAssignedID del
         | None \<Rightarrow> mput assignedIDName oldAssignedID del))"

definition getAzureAssignedIDsToDelete :: "assigned_map \<Rightarrow> assigned_map \<Rightarrow> assigned_map" where
  "getAzureAssignedIDsToDelete old new =
     (if length old = 0 then [] else if length new = 0 then old else fold (delete_step new) old [])"

text \<open>
  The result of an update: the desired assigned identity with the metadata of the existing one, but the
  desired labels.
\<close>

definition updated_assigned :: "AzureAssignedIdentity \<Rightarrow> AzureAssignedIdentity \<Rightarrow> AzureAssignedIdentity" where
  "updated_assigned delAssignedID addAssignedID =
     addAssignedID\<lparr>a_ObjectMeta := (a_ObjectMeta delAssignedID)\<lparr>om_Labels := om_Labels (a_ObjectMeta addAssignedID)\<rparr>\<rparr>"

text \<open>The state of the loop: before, after, and the add and delete maps it deletes from.\<close>

definition update_step ::
  "string \<times> AzureAssignedIdentity \<Rightarrow> assigned_map \<times> assigned_map \<times> assigned_map \<times> assigned_map \<Rightarrow>
     assigned_map \<times> assigned_map \<times> assigned_map \<times> assigned_map" where
  "update_step entry acc =
     (case entry of (assignedIDName, addAssignedID) \<Rightarrow> case acc of (beforeUpdate, afterUpdate, add, del) \<Rightarrow>
        (case map_of del assignedIDName of
           None \<Rightarrow> acc
         | Some delAssignedID \<Rightarrow>
             (mput assignedIDName delAssignedID beforeUpdate,
              mput assignedIDName (updated_assigned delAssignedID addAssignedID) afterUpdate,
              mdel assignedIDName add, mdel assignedIDName del)))"

definition getAzureAssignedIdentitiesToUpdate ::
  "assigned_map \<Rightarrow> assigned_map \<Rightarrow> assigned_map \<times> assigned_map \<times> assigned_map \<times> assigned_map" where
  "getAzureAssignedIdentitiesToUpdate add del =
     (if length add = 0 \<or> length del = 0 then ([], [], add, del)
      else fold update_step add ([], [], add, del))"

section \<open>Work per node\<close>

definition track_create :: "AzureAssignedIdentity \<Rightarrow> node_map \<Rightarrow> node_map" where
  "track_create a nodeMap =
     (case map_of nodeMap (a_NodeName a) of
        Some t \<Rightarrow> mput (a_NodeName a) (t\<lparr>assignedIDsToCreate := assignedIDsToCreate t @ [a]\<rparr>) nodeMap
      | None \<Rightarrow> mput (a_NodeName a) (zero_track\<lparr>assignedIDsToCreate := [a]\<rparr>) nodeMap)"

definition track_delete :: "AzureAssignedIdentity \<Rightarrow> node_map \<Rightarrow> node_map" where
  "track_delete a nodeMap =
     (case map_of nodeMap (a_NodeName a) of
        Some t \<Rightarrow> mput (a_NodeName a) (t\<lparr>assignedIDsToDelete := assignedIDsToDelete t @ [a]\<rparr>) nodeMap
      | None \<Rightarrow> mput (a_NodeName a) (zero_track\<lparr>assignedIDsToDelete := [a]\<rparr>) nodeMap)"

definition track_update :: "AzureAssignedIdentity \<Rightarrow> node_map \<Rightarrow> node_map" where
  "track_update a nodeMap =
     (case map_of nodeMap (a_NodeName a) of
        Some t \<Rightarrow> mput (a_NodeName a) (t\<lparr>assignedIDsToUpdate := assignedIDsToUpdate t @ [a]\<rparr>) nodeMap
      | None \<Rightarrow> mput (a_NodeName a) (zero_track\<lparr>assignedIDsToUpdate := [a]\<rparr>) nodeMap)"

definition convertAssignedIDListToMap :: "assigned_map \<Rightarrow> assigned_map \<Rightarrow> assigned_map \<Rightarrow> node_map \<Rightarrow> node_map" where
  "convertAssignedIDListToMap addList deleteList updateList nodeMap =
     fold (\<lambda>(_, a). track_update a) updateList
       (fold (\<lambda>(_, a). track_delete a) deleteList
         (fold (\<lambda>(_, a). track_create a) addList nodeMap))"

definition appendToRemoveListForNode :: "string \<Rightarrow> string \<Rightarrow> node_map \<Rightarrow> node_map" where
  "appendToRemoveListForNode resourceID nodeName nodeMap =
     (case map_of nodeMap nodeName of
        Some t \<Rightarrow> mput nodeName (t\<lparr>removeUserAssignedMSIIDs := removeUserAssignedMSIIDs t @ [resourceID]\<rparr>) nodeMap
      | None \<Rightarrow> mput nodeName (zero_track\<lparr>removeUserAssignedMSIIDs := [resourceID]\<rparr>) nodeMap)"

definition appendToAddListForNode :: "string \<Rightarrow> string \<Rightarrow> node_map \<Rightarrow> node_map" where
  "appendToAddListForNode resourceID nodeName nodeMap =
     (case map_of nodeMap nodeName of
        Some t \<Rightarrow> mput nodeName (t\<lparr>addUserAssignedMSIIDs := addUserAssignedMSIIDs t @ [resourceID]\<rparr>) nodeMap
      | None \<Rightarrow> mput nodeName (zero_track\<lparr>addUserAssignedMSIIDs := [resourceID]\<rparr>) nodeMap)"

section \<open>Identities in use\<close>

definition checkIfIdentityImmutable :: "mic_client \<Rightarrow> string \<Rightarrow> bool" where
  "checkIfIdentityImmutable c i \<longleftrightarrow> map_of (mic_ImmutableUserMSIsMap c) i \<noteq> None"

fun checkIfInUse_loop ::
  "node_getter \<Rightarrow> AzureAssignedIdentity \<Rightarrow> AzureAssignedIdentity list \<Rightarrow> vmssGroupList \<Rightarrow>
     (node_err, bool) result \<times> vmssGroupList" where
  "checkIfInUse_loop nc chk [] ls = (Inr False, ls)"
| "checkIfInUse_loop nc chk (a # as) ls =
     (if id_Type (a_Identity chk) \<noteq> UserAssignedMSI then checkIfInUse_loop nc chk as ls
      else if a_Pod chk = a_Pod a then checkIfInUse_loop nc chk as ls
      else if id_ClientID (a_Identity chk) \<noteq> id_ClientID (a_Identity a) then checkIfInUse_loop nc chk as ls
      else if a_NodeName chk = a_NodeName a then (Inr True, ls)
      else
        (case getVMSSGroupFromPossiblyUnreferencedNode nc ls (a_NodeName chk) of
           (Inl err, ls) \<Rightarrow> (Inl err, ls)
         | (Inr (Some vmss), ls) \<Rightarrow>
             if hasNode vmss (a_NodeName a) then (Inr True, ls) else checkIfInUse_loop nc chk as ls
         | (Inr None, ls) \<Rightarrow> checkIfInUse_loop nc chk as ls))"

definition checkIfInUse ::
  "node_getter \<Rightarrow> AzureAssignedIdentity \<Rightarrow> assigned_map \<Rightarrow> vmssGroupList \<Rightarrow> (node_err, bool) result \<times> vmssGroupList" where
  "checkIfInUse nc chk assignedIDMap ls = checkIfInUse_loop nc chk (map snd assignedIDMap) ls"

definition shouldAssignID :: "AzureAssignedIdentity \<Rightarrow> node_map \<Rightarrow> node_map" where
  "shouldAssignID a nodeMap =
     (if (a_StatusText a = [] \<or> a_StatusText a = AssignedIDCreated) \<and> checkIfUserAssignedMSI (a_Identity a)
      then appendToAddListForNode (id_ResourceID (a_Identity a)) (a_NodeName a) nodeMap else nodeMap)"

text \<open>An error of \<^verbatim>\<open>shouldRemoveID\<close> is logged by its caller; the node map is then unchanged.\<close>

definition shouldRemoveID ::
  "mic_client \<Rightarrow> node_getter \<Rightarrow> AzureAssignedIdentity \<Rightarrow> assigned_map \<Rightarrow> node_map \<Rightarrow> vmssGroupList \<Rightarrow>
     node_err option \<times> node_map \<times> vmssGroupList" where
  "shouldRemoveID c nc a newAssignedIDs nodeMap ls =
     (case checkIfInUse nc a newAssignedIDs ls of
        (Inl err, ls) \<Rightarrow> (Some err, nodeMap, ls)
      | (Inr inUse, ls) \<Rightarrow>
          (None,
           (if (a_StatusText a = AssignedIDAssigned \<or> a_StatusText a = []) \<and>
               \<not> inUse \<and> checkIfUserAssignedMSI (a_Identity a) \<and>
               \<not> checkIfIdentityImmutable c (id_ClientID (a_Identity a))
            then appendToRemoveListForNode (id_ResourceID (a_Identity a)) (a_NodeName a) nodeMap else nodeMap), ls))"

definition remove_step ::
  "mic_client \<Rightarrow> node_getter \<Rightarrow> assigned_map \<Rightarrow> string \<times> AzureAssignedIdentity \<Rightarrow> node_map \<times> vmssGroupList \<Rightarrow>
     node_map \<times> vmssGroupList" where
  "remove_step c nc toCheck entry acc =
     (case acc of (nodeMap, ls) \<Rightarrow> snd (shouldRemoveID c nc (snd entry) toCheck nodeMap ls))"

definition getListOfIdsToDelete ::
  "mic_client \<Rightarrow> node_getter \<Rightarrow> assigned_map \<Rightarrow> assigned_map \<Rightarrow> assigned_map \<Rightarrow> assigned_map \<Rightarrow> node_map \<Rightarrow>
     (string, bool) gomap \<Rightarrow> node_map" where
  "getListOfIdsToDelete c nc deleteList beforeUpdateList afterUpdateList newAssignedIDs nodeMap nodeRefs =
     (case getVMSSGroups nc nodeRefs of
        Inl err \<Rightarrow> nodeMap
      | Inr vmssGroups \<Rightarrow>
          let toCheck = fold (\<lambda>(name, a) m. mput name a m) afterUpdateList
                          (fold (\<lambda>(name, a) m. mput name a m) newAssignedIDs [])
          in fst (fold (remove_step c nc toCheck) beforeUpdateList
                    (fold (remove_step c nc toCheck) deleteList (nodeMap, vmssGroups))))"

definition getListOfIdsToAssign :: "assigned_map \<Rightarrow> assigned_map \<Rightarrow> node_map \<Rightarrow> node_map" where
  "getListOfIdsToAssign addList updateList nodeMap =
     fold (\<lambda>(_, a). shouldAssignID a) updateList (fold (\<lambda>(_, a). shouldAssignID a) addList nodeMap)"

end
