(* ===== verification/MicDesired.thy ===== *)
theory MicDesired
  imports Mic
begin

text \<open>
  The desired state of a sync cycle (\<^verbatim>\<open>createDesiredAssignedIdentityList\<close>): which assigned identities
  it contains, what they look like, and that it does not depend on the order in which the bindings
  are listed.
\<close>

section \<open>Specification\<close>

text \<open>Binding \<open>b\<close> gives pod \<open>pod\<close> the identity \<open>i\<close>.\<close>

definition gives :: "mic_client \<Rightarrow> (string, AzureIdentity) gomap \<Rightarrow> Pod \<Rightarrow> AzureIdentityBinding \<Rightarrow> AzureIdentity \<Rightarrow> bool" where
  "gives c idMap pod b i \<longleftrightarrow>
     map_of idMap (getIDKey (b_Namespace b) (b_AzureIdentity b)) = Some i \<and>
     (mic_IsNamespaced c \<or> IsNamespacedIdentity i \<longrightarrow>
        id_Namespace i = b_Namespace b \<and> b_Namespace b = pod_Namespace pod)"

text \<open>The pod runs on a node and its label selects the binding.\<close>

definition selects :: "Pod \<Rightarrow> AzureIdentityBinding \<Rightarrow> bool" where
  "selects pod b \<longleftrightarrow>
     pod_NodeName pod \<noteq> [] \<and> mget0 [] (pod_Labels pod) CRDLabelKey \<noteq> [] \<and>
     b_Selector b = mget0 [] (pod_Labels pod) CRDLabelKey"

abbreviation assigned_for :: "mic_client \<Rightarrow> Pod \<Rightarrow> AzureIdentityBinding \<Rightarrow> AzureIdentity \<Rightarrow> AzureAssignedIdentity" where
  "assigned_for c pod b i \<equiv> makeAssignedIDs c i b (pod_Name pod) (pod_Namespace pod) (pod_NodeName pod)"

abbreviation assigned_name :: "Pod \<Rightarrow> AzureIdentity \<Rightarrow> string" where
  "assigned_name pod i \<equiv> getAssignedIDName (pod_Name pod) (pod_Namespace pod) (id_Name i)"

lemma a_Name_makeAssignedIDs [simp]:
  "a_Name (makeAssignedIDs c i b p ns n) = getAssignedIDName p ns (id_Name i)"
  by (simp add: makeAssignedIDs_def)

lemma makeAssignedIDs_simps [simp]:
  "a_Identity (makeAssignedIDs c i b p ns n) = i" "a_Binding (makeAssignedIDs c i b p ns n) = b"
  "a_Pod (makeAssignedIDs c i b p ns n) = p" "a_PodNamespace (makeAssignedIDs c i b p ns n) = ns"
  "a_NodeName (makeAssignedIDs c i b p ns n) = n" "a_StatusText (makeAssignedIDs c i b p ns n) = []"
  by (simp_all add: makeAssignedIDs_def)

section \<open>One pod\<close>

lemma desired_binding_step_eq:
  "map_of (desired_binding_step c idMap pod b new) n =
     (case map_of new n of
        Some a \<Rightarrow> Some a
      | None \<Rightarrow> (case map_of idMap (getIDKey (b_Namespace b) (b_AzureIdentity b)) of
                   Some i \<Rightarrow> if gives c idMap pod b i \<and> n = assigned_name pod i then Some (assigned_for c pod b i) else None
                 | None \<Rightarrow> None))"
  by (auto simp: desired_binding_step_def gives_def Let_def split: option.splits)

lemma desired_binding_mono:
  "map_of new n = Some a \<Longrightarrow> map_of (fold (desired_binding_step c idMap pod) bs new) n = Some a"
  by (induction bs arbitrary: new) (auto simp: desired_binding_step_eq)

lemma desired_binding_sound:
  "map_of (fold (desired_binding_step c idMap pod) bs new) n = Some a \<Longrightarrow>
     map_of new n = Some a \<or>
     (\<exists>b \<in> set bs. \<exists>i. gives c idMap pod b i \<and> n = assigned_name pod i \<and> a = assigned_for c pod b i)"
proof (induction bs arbitrary: new)
  case (Cons b bs)
  from Cons.IH[of "desired_binding_step c idMap pod b new"] Cons.prems
  consider "map_of (desired_binding_step c idMap pod b new) n = Some a"
    | "\<exists>b \<in> set bs. \<exists>i. gives c idMap pod b i \<and> n = assigned_name pod i \<and> a = assigned_for c pod b i"
    by auto
  then show ?case
  proof cases
    case 1
    then show ?thesis by (auto simp: desired_binding_step_eq split: option.splits if_splits)
  next
    case 2
    then show ?thesis by auto
  qed
qed simp

lemma desired_binding_complete:
  "b \<in> set bs \<Longrightarrow> gives c idMap pod b i \<Longrightarrow>
     map_of (fold (desired_binding_step c idMap pod) bs new) (assigned_name pod i) \<noteq> None"
proof (induction bs arbitrary: new)
  case (Cons b' bs)
  show ?case
  proof (cases "b' = b")
    case True
    have "map_of (desired_binding_step c idMap pod b new) (assigned_name pod i) \<noteq> None"
      using Cons.prems(2) by (auto simp: desired_binding_step_eq gives_def split: option.splits)
    then obtain a where "map_of (desired_binding_step c idMap pod b new) (assigned_name pod i) = Some a" by auto
    from desired_binding_mono[OF this] True show ?thesis by simp
  next
    case False
    then show ?thesis using Cons by simp
  qed
qed simp

section \<open>All pods\<close>

lemma desired_pod_step_eq:
  "desired_pod_step c bindings idMap pod (new, refs) =
     (if \<exists>b \<in> set bindings. selects pod b
      then (fold (desired_binding_step c idMap pod) (sort_bindings (filter (selects pod) bindings)) new,
            mput (pod_NodeName pod) True refs)
      else (new, refs))"
proof (cases "pod_NodeName pod = [] \<or> mget0 [] (pod_Labels pod) CRDLabelKey = []")
  case True
  then show ?thesis by (auto simp: desired_pod_step_def selects_def)
next
  case False
  then have "selects pod = (\<lambda>b. b_Selector b = mget0 [] (pod_Labels pod) CRDLabelKey)"
    by (auto simp: selects_def)
  then show ?thesis using False by (auto simp: desired_pod_step_def Let_def filter_empty_conv)
qed

lemma desired_pods_mono:
  "map_of (fst acc) n = Some a \<Longrightarrow> map_of (fst (fold (desired_pod_step c bindings idMap) pods acc)) n = Some a"
proof (induction pods arbitrary: acc)
  case (Cons pod pods)
  have "map_of (fst (desired_pod_step c bindings idMap pod acc)) n = Some a"
    using Cons.prems desired_binding_mono by (cases acc) (auto simp: desired_pod_step_eq)
  then show ?case using Cons.IH by simp
qed simp

lemma desired_pods_refs_mono:
  "map_of (snd acc) n = Some True \<Longrightarrow> map_of (snd (fold (desired_pod_step c bindings idMap) pods acc)) n = Some True"
proof (induction pods arbitrary: acc)
  case (Cons pod pods)
  have "map_of (snd (desired_pod_step c bindings idMap pod acc)) n = Some True"
    using Cons.prems by (cases acc) (auto simp: desired_pod_step_eq)
  then show ?case using Cons.IH by simp
qed simp

lemma desired_pods_sound:
  "map_of (fst (fold (desired_pod_step c bindings idMap) pods acc)) n = Some a \<Longrightarrow>
     map_of (fst acc) n = Some a \<or>
     (\<exists>pod \<in> set pods. \<exists>b \<in> set bindings. \<exists>i. selects pod b \<and> gives c idMap pod b i \<and>
        n = assigned_name pod i \<and> a = assigned_for c pod b i \<and>
        map_of (snd (fold (desired_pod_step c bindings idMap) pods acc)) (pod_NodeName pod) = Some True)"
proof (induction pods arbitrary: acc)
  case (Cons pod pods)
  obtain new refs where acc: "acc = (new, refs)" by fastforce
  let ?acc = "desired_pod_step c bindings idMap pod acc"
  from Cons.IH[of ?acc] Cons.prems consider
    "map_of (fst ?acc) n = Some a"
    | "\<exists>pod \<in> set pods. \<exists>b \<in> set bindings. \<exists>i. selects pod b \<and> gives c idMap pod b i \<and>
        n = assigned_name pod i \<and> a = assigned_for c pod b i \<and>
        map_of (snd (fold (desired_pod_step c bindings idMap) pods ?acc)) (pod_NodeName pod) = Some True"
    by auto
  then show ?case
  proof cases
    case 1
    show ?thesis
    proof (cases "\<exists>b \<in> set bindings. selects pod b")
      case True
      then have "?acc = (fold (desired_binding_step c idMap pod) (sort_bindings (filter (selects pod) bindings)) new,
          mput (pod_NodeName pod) True refs)"
        by (simp add: acc desired_pod_step_eq)
      moreover from this have "map_of (snd (fold (desired_pod_step c bindings idMap) pods ?acc)) (pod_NodeName pod) = Some True"
        by (intro desired_pods_refs_mono) simp
      ultimately show ?thesis
        using 1 desired_binding_sound[of c idMap pod "sort_bindings (filter (selects pod) bindings)" new n a] acc by auto
    next
      case False
      then show ?thesis using 1 acc by (simp add: desired_pod_step_eq)
    qed
  next
    case 2
    then show ?thesis by auto
  qed
qed simp

lemma desired_pods_complete:
  assumes "pod \<in> set pods" "b \<in> set bindings" "selects pod b" "gives c idMap pod b i"
  shows "map_of (fst (fold (desired_pod_step c bindings idMap) pods acc)) (assigned_name pod i) \<noteq> None"
  using assms(1)
proof (induction pods arbitrary: acc)
  case (Cons p pods)
  show ?case
  proof (cases "p = pod")
    case True
    obtain new refs where acc: "acc = (new, refs)" by fastforce
    have "map_of (fst (desired_pod_step c bindings idMap pod acc)) (assigned_name pod i) \<noteq> None"
      using desired_binding_complete[of b "sort_bindings (filter (selects pod) bindings)" c idMap pod i new] assms(2-4)
      by (auto simp: acc desired_pod_step_eq)
    then obtain a where "map_of (fst (desired_pod_step c bindings idMap pod acc)) (assigned_name pod i) = Some a" by auto
    from desired_pods_mono[OF this] True show ?thesis by simp
  next
    case False
    then show ?thesis using Cons by simp
  qed
qed simp

section \<open>Properties\<close>

lemma desired_entry:
  assumes "createDesiredAssignedIdentityList c pods bindings idMap = (new, refs)" "map_of new n = Some a"
  obtains pod b i where "pod \<in> set pods" "b \<in> set bindings" "selects pod b" "gives c idMap pod b i"
    "n = assigned_name pod i" "a = assigned_for c pod b i" "map_of refs (pod_NodeName pod) = Some True"
  using desired_pods_sound[of c bindings idMap pods "([], [])" n a] assms
  by (auto simp: createDesiredAssignedIdentityList_def)

text \<open>
  (C12) The desired state names an assigned identity exactly when some pod on a node has a label that
  selects a binding whose identity exists and whose namespaces match where they have to: nothing is
  missing and nothing else is in it.
\<close>

theorem desired_iff:
  "map_of (fst (createDesiredAssignedIdentityList c pods bindings idMap)) n \<noteq> None \<longleftrightarrow>
     (\<exists>pod \<in> set pods. \<exists>b \<in> set bindings. \<exists>i. selects pod b \<and> gives c idMap pod b i \<and>
        n = getAssignedIDName (pod_Name pod) (pod_Namespace pod) (id_Name i))"
  (is "?L \<longleftrightarrow> ?R")
proof
  assume ?L
  then obtain a where "map_of (fst (createDesiredAssignedIdentityList c pods bindings idMap)) n = Some a" by auto
  then show ?R
    using desired_pods_sound[of c bindings idMap pods "([], [])" n a]
    by (auto simp: createDesiredAssignedIdentityList_def)
next
  assume ?R
  then show ?L
    using desired_pods_complete[of _ pods _ bindings c idMap _ "([], [])"]
    by (auto simp: createDesiredAssignedIdentityList_def)
qed

text \<open>
  Every entry of the desired state is stored under its own name, belongs to a listed pod, carries the
  listed binding and the identity that the binding names, is not yet assigned (empty status), and its
  node is among the referenced nodes.
\<close>

theorem desired_entries:
  assumes "createDesiredAssignedIdentityList c pods bindings idMap = (new, refs)" "map_of new n = Some a"
  shows "a_Name a = n \<and> a_StatusText a = [] \<and> a_Binding a \<in> set bindings \<and>
    map_of idMap (getIDKey (b_Namespace (a_Binding a)) (b_AzureIdentity (a_Binding a))) = Some (a_Identity a) \<and>
    map_of refs (a_NodeName a) = Some True \<and>
    (\<exists>pod \<in> set pods. a_Pod a = pod_Name pod \<and> a_PodNamespace a = pod_Namespace pod \<and> a_NodeName a = pod_NodeName pod)"
  using assms by (rule desired_entry) (auto simp: gives_def)

text \<open>
  (C14) In namespaced mode, and for every identity that is marked as namespaced, an assigned identity never
  crosses a namespace: pod, binding, identity and the assigned identity itself are in one namespace.
\<close>

theorem namespaced_isolation:
  assumes "createDesiredAssignedIdentityList c pods bindings idMap = (new, refs)" "map_of new n = Some a"
    "mic_IsNamespaced c \<or> IsNamespacedIdentity (a_Identity a)"
  shows "id_Namespace (a_Identity a) = a_PodNamespace a \<and> b_Namespace (a_Binding a) = a_PodNamespace a \<and>
    a_Namespace a = a_PodNamespace a"
  using assms(1,2)
proof (rule desired_entry)
  fix pod b i
  assume "gives c idMap pod b i" "a = assigned_for c pod b i"
  then show ?thesis using assms(3) by (auto simp: gives_def makeAssignedIDs_def)
qed

text \<open>
  The desired state does not depend on the order in which the API server lists the bindings, as long as
  no two bindings have the same namespace and name.
\<close>

theorem desired_binding_order:
  assumes "mset bindings' = mset bindings" "distinct (map binding_key bindings)"
  shows "createDesiredAssignedIdentityList c pods bindings' idMap = createDesiredAssignedIdentityList c pods bindings idMap"
proof -
  have "desired_pod_step c bindings' idMap pod acc = desired_pod_step c bindings idMap pod acc" for pod acc
  proof -
    have ms: "mset (filter (selects pod) bindings') = mset (filter (selects pod) bindings)"
      using assms(1) by simp
    have "distinct (map binding_key (filter (selects pod) bindings))"
      using assms(2) by (simp add: distinct_map_filter)
    with ms have "sort_bindings (filter (selects pod) bindings') = sort_bindings (filter (selects pod) bindings)"
      using sort_bindings_unique by blast
    then show ?thesis using mset_eq_setD[OF assms(1)] by (cases acc) (simp add: desired_pod_step_eq)
  qed
  then have "desired_pod_step c bindings' idMap = desired_pod_step c bindings idMap" by (intro ext)
  then show ?thesis by (simp add: createDesiredAssignedIdentityList_def)
qed

section \<open>A small cluster\<close>

definition sample_client :: mic_client where
  "sample_client = \<lparr>mic_IsNamespaced = True, mic_ImmutableUserMSIsMap = [], mic_createDeleteBatch = 20\<rparr>"

definition sample_id :: "string \<Rightarrow> string \<Rightarrow> AzureIdentity" where
  "sample_id ns n = zero_AzureIdentity\<lparr>id_ObjectMeta := zero_ObjectMeta\<lparr>om_Name := n, om_Namespace := ns\<rparr>,
     id_Spec := (id_Spec zero_AzureIdentity)\<lparr>ids_Type := ServicePrincipal, ids_ClientID := ''client''\<rparr>\<rparr>"

definition sample_binding :: "string \<Rightarrow> string \<Rightarrow> AzureIdentityBinding" where
  "sample_binding ns n = zero_AzureIdentityBinding\<lparr>b_ObjectMeta := zero_ObjectMeta\<lparr>om_Name := n, om_Namespace := ns\<rparr>,
     b_Spec := (b_Spec zero_AzureIdentityBinding)\<lparr>bs_AzureIdentity := ''id'', bs_Selector := ''sel''\<rparr>\<rparr>"

definition sample_pod :: Pod where
  "sample_pod = \<lparr>pod_ObjectMeta = zero_ObjectMeta\<lparr>om_Name := ''pod'', om_Namespace := ''ns'',
     om_Labels := [(CRDLabelKey, ''sel'')]\<rparr>, pod_NodeName = ''node'', pod_PodIP = [], pod_Phase = []\<rparr>"

definition sample_desired :: "assigned_map \<times> (string, bool) gomap" where
  "sample_desired = createDesiredAssignedIdentityList sample_client [sample_pod]
     [sample_binding ''other'' ''b2'', sample_binding ''ns'' ''b1'']
     (convertIDListToMap [sample_id ''ns'' ''id'', sample_id ''other'' ''id''])"

lemma sample_desired_run:
  "createDesiredAssignedIdentityList sample_client [sample_pod] [sample_binding ''other'' ''b2'', sample_binding ''ns'' ''b1'']
     (convertIDListToMap [sample_id ''ns'' ''id'', sample_id ''other'' ''id'']) = (fst sample_desired, snd sample_desired)"
  by (simp add: sample_desired_def)

lemma sample_desired_eq:
  "fst sample_desired = [(''pod-ns-id'', makeAssignedIDs sample_client (sample_id ''ns'' ''id'') (sample_binding ''ns'' ''b1'') ''pod'' ''ns'' ''node'')]"
  by code_simp

lemma sample_desired_lookup: "map_of (fst sample_desired) ''pod-ns-id'' \<noteq> None"
  by (simp add: sample_desired_eq)

theorem desired_entries_witness:
  "a_Name (the (map_of (fst sample_desired) ''pod-ns-id'')) = ''pod-ns-id'' \<and>
   map_of (snd sample_desired) (a_NodeName (the (map_of (fst sample_desired) ''pod-ns-id''))) = Some True"
proof -
  obtain a where a: "map_of (fst sample_desired) ''pod-ns-id'' = Some a" using sample_desired_lookup by auto
  show ?thesis using desired_entries[OF sample_desired_run a] by (simp only: a option.sel)
qed

theorem namespaced_isolation_witness:
  "id_Namespace (a_Identity (the (map_of (fst sample_desired) ''pod-ns-id''))) =
     a_PodNamespace (the (map_of (fst sample_desired) ''pod-ns-id''))"
proof -
  obtain a where a: "map_of (fst sample_desired) ''pod-ns-id'' = Some a" using sample_desired_lookup by auto
  show ?thesis using namespaced_isolation[OF sample_desired_run a] by (simp add: a sample_client_def)
qed

theorem desired_binding_order_witness:
  "createDesiredAssignedIdentityList sample_client [sample_pod] [sample_binding ''ns'' ''b1'', sample_binding ''other'' ''b2'']
     (convertIDListToMap [sample_id ''ns'' ''id'', sample_id ''other'' ''id'']) = sample_desired"
proof -
  have d: "distinct (map binding_key [sample_binding ''other'' ''b2'', sample_binding ''ns'' ''b1''])" by code_simp
  have m: "mset [sample_binding ''ns'' ''b1'', sample_binding ''other'' ''b2''] =
      mset [sample_binding ''other'' ''b2'', sample_binding ''ns'' ''b1'']" by simp
  show ?thesis unfolding sample_desired_def by (rule desired_binding_order[OF m d])
qed

end
