(* ===== verification/MicDiff.thy ===== *)
theory MicDiff
  imports MicDesired
begin

text \<open>
  The difference of the assigned identities in the cluster and the desired ones (\<^verbatim>\<open>getAzureAssignedIDsToCreate\<close>,
  \<^verbatim>\<open>getAzureAssignedIDsToDelete\<close>, \<^verbatim>\<open>getAzureAssignedIdentitiesToUpdate\<close>) and its distribution over the nodes
  (\<^verbatim>\<open>convertAssignedIDListToMap\<close>).
\<close>

section \<open>Create and delete lists\<close>

definition create_of :: "assigned_map \<Rightarrow> string \<Rightarrow> AzureAssignedIdentity \<Rightarrow> AzureAssignedIdentity option" where
  "create_of old n x =
     (case map_of old n of
        None \<Rightarrow> Some x
      | Some y \<Rightarrow> if matchAssignedID y x then if a_StatusText y = AssignedIDCreated then Some y else None else Some x)"

definition delete_of :: "assigned_map \<Rightarrow> string \<Rightarrow> AzureAssignedIdentity \<Rightarrow> AzureAssignedIdentity option" where
  "delete_of new n y =
     (case map_of new n of
        None \<Rightarrow> Some y
      | Some x \<Rightarrow> if matchAssignedID y x then None else Some y)"

lemma create_step_eq: "create_step old (k, v) m = (case create_of old k v of None \<Rightarrow> m | Some w \<Rightarrow> mput k w m)"
  by (auto simp: create_step_def create_of_def split: option.splits)

lemma delete_step_eq: "delete_step new (k, v) m = (case delete_of new k v of None \<Rightarrow> m | Some w \<Rightarrow> mput k w m)"
  by (auto simp: delete_step_def delete_of_def split: option.splits)

lemma toCreate_map:
  assumes "wf_map new"
  shows "map_of (getAzureAssignedIDsToCreate old new) n = Option.bind (map_of new n) (create_of old n)"
    "wf_map (getAzureAssignedIDsToCreate old new)"
proof -
  show "map_of (getAzureAssignedIDsToCreate old new) n = Option.bind (map_of new n) (create_of old n)"
  proof (cases "old = []")
    case True
    then show ?thesis by (cases "map_of new n") (auto simp: getAzureAssignedIDsToCreate_def create_of_def)
  next
    case False
    then show ?thesis
      using fold_keyed(2)[of "create_step old" "create_of old" new "[]" n, OF create_step_eq assms]
      by (simp add: getAzureAssignedIDsToCreate_def)
  qed
  show "wf_map (getAzureAssignedIDsToCreate old new)"
    using fold_keyed(1)[of "create_step old" "create_of old" "[]" new, OF create_step_eq] assms
    by (simp add: getAzureAssignedIDsToCreate_def)
qed

lemma toDelete_map:
  assumes "wf_map old"
  shows "map_of (getAzureAssignedIDsToDelete old new) n = Option.bind (map_of old n) (delete_of new n)"
    "wf_map (getAzureAssignedIDsToDelete old new)"
proof -
  show "map_of (getAzureAssignedIDsToDelete old new) n = Option.bind (map_of old n) (delete_of new n)"
  proof (cases "old = [] \<or> new = []")
    case True
    then show ?thesis by (cases "map_of old n") (auto simp: getAzureAssignedIDsToDelete_def delete_of_def)
  next
    case False
    then show ?thesis
      using fold_keyed(2)[of "delete_step new" "delete_of new" old "[]" n, OF delete_step_eq assms]
      by (simp add: getAzureAssignedIDsToDelete_def)
  qed
  show "wf_map (getAzureAssignedIDsToDelete old new)"
    using fold_keyed(1)[of "delete_step new" "delete_of new" "[]" old, OF delete_step_eq] assms
    by (simp add: getAzureAssignedIDsToDelete_def)
qed

section \<open>Updates\<close>

lemma update_step_cases:
  "map_of De k = None \<Longrightarrow> update_step (k, v) (B, A, Ad, De) = (B, A, Ad, De)"
  "map_of De k = Some d \<Longrightarrow> update_step (k, v) (B, A, Ad, De) =
     (mput k d B, mput k (updated_assigned d v) A, mdel k Ad, mdel k De)"
  by (simp_all add: update_step_def)

lemma update_loop_map:
  assumes "wf_map xs" "fold update_step xs (B, A, Ad, De) = (B', A', Ad', De')"
  shows "map_of B' n = (if map_of xs n \<noteq> None \<and> map_of De n \<noteq> None then map_of De n else map_of B n) \<and>
    map_of A' n = (case (map_of xs n, map_of De n) of (Some x, Some d) \<Rightarrow> Some (updated_assigned d x) | _ \<Rightarrow> map_of A n) \<and>
    map_of Ad' n = (if map_of xs n \<noteq> None \<and> map_of De n \<noteq> None then None else map_of Ad n) \<and>
    map_of De' n = (if map_of xs n \<noteq> None then None else map_of De n)"
  using assms
proof (induction xs arbitrary: B A Ad De)
  case (Cons x xs)
  obtain k v where x: "x = (k, v)" by fastforce
  have k: "map_of xs k = None" using Cons.prems(1) x by (simp add: map_of_None_iff)
  have wf: "wf_map xs" using Cons.prems(1) by simp
  show ?case
  proof (cases "map_of De k")
    case None
    then have "fold update_step xs (B, A, Ad, De) = (B', A', Ad', De')"
      using Cons.prems(2) by (simp add: x update_step_cases)
    from Cons.IH[OF wf this] None k show ?thesis by (cases "n = k") (simp_all add: x)
  next
    case (Some d)
    then have "fold update_step xs (mput k d B, mput k (updated_assigned d v) A, mdel k Ad, mdel k De) = (B', A', Ad', De')"
      using Cons.prems(2) by (simp add: x update_step_cases)
    from Cons.IH[OF wf this] Some k show ?thesis
      by (cases "n = k"; cases "map_of xs n"; cases "map_of De n") (simp_all add: x)
  qed
qed simp

lemma toUpdate_map:
  assumes "wf_map add" "getAzureAssignedIdentitiesToUpdate add del = (before, after, add', del')"
  shows "map_of before n = (if map_of add n \<noteq> None then map_of del n else None)"
    "map_of after n = (case (map_of add n, map_of del n) of (Some x, Some d) \<Rightarrow> Some (updated_assigned d x) | _ \<Rightarrow> None)"
    "map_of add' n = (if map_of del n \<noteq> None then None else map_of add n)"
    "map_of del' n = (if map_of add n \<noteq> None then None else map_of del n)"
proof -
  have "map_of before n = (if map_of add n \<noteq> None then map_of del n else None) \<and>
    map_of after n = (case (map_of add n, map_of del n) of (Some x, Some d) \<Rightarrow> Some (updated_assigned d x) | _ \<Rightarrow> None) \<and>
    map_of add' n = (if map_of del n \<noteq> None then None else map_of add n) \<and>
    map_of del' n = (if map_of add n \<noteq> None then None else map_of del n)"
  proof (cases "add = [] \<or> del = []")
    case True
    then show ?thesis using assms(2) by (auto simp: getAzureAssignedIdentitiesToUpdate_def split: option.splits)
  next
    case False
    then show ?thesis
      using update_loop_map[OF assms(1), of "[]" "[]" add del before after add' del' n] assms(2)
      by (auto simp: getAzureAssignedIdentitiesToUpdate_def split: option.splits)
  qed
  then show "map_of before n = (if map_of add n \<noteq> None then map_of del n else None)"
    "map_of after n = (case (map_of add n, map_of del n) of (Some x, Some d) \<Rightarrow> Some (updated_assigned d x) | _ \<Rightarrow> None)"
    "map_of add' n = (if map_of del n \<noteq> None then None else map_of add n)"
    "map_of del' n = (if map_of add n \<noteq> None then None else map_of del n)"
    by blast+
qed

text \<open>When a list is one of the arguments (the maps are shared), the update step deletes nothing from it.\<close>

lemma update_keeps_aliased:
  assumes "old = [] \<or> new = []"
    "getAzureAssignedIdentitiesToUpdate (getAzureAssignedIDsToCreate old new) (getAzureAssignedIDsToDelete old new) =
       (before, after, add', del')"
  shows "add' = getAzureAssignedIDsToCreate old new \<and> del' = getAzureAssignedIDsToDelete old new"
  using assms
  by (auto simp: getAzureAssignedIdentitiesToUpdate_def getAzureAssignedIDsToCreate_def getAzureAssignedIDsToDelete_def)

section \<open>The whole difference\<close>

definition mic_diff :: "assigned_map \<Rightarrow> assigned_map \<Rightarrow> assigned_map \<times> assigned_map \<times> assigned_map \<times> assigned_map" where
  "mic_diff old new =
     getAzureAssignedIdentitiesToUpdate (getAzureAssignedIDsToCreate old new) (getAzureAssignedIDsToDelete old new)"

lemma matchAssignedID_refl [simp]: "matchAssignedID x x"
  by (simp add: matchAssignedID_def)

lemma matchAssignedID_updated [simp]: "matchAssignedID (updated_assigned d x) y = matchAssignedID x y"
  by (simp add: matchAssignedID_def updated_assigned_def)

lemma mic_diff_map:
  assumes "wf_map old" "wf_map new" "mic_diff old new = (before, after, add, del)"
  shows "map_of add n = (case (map_of old n, map_of new n) of
      (None, Some x) \<Rightarrow> Some x
    | (Some y, Some x) \<Rightarrow> if matchAssignedID y x \<and> a_StatusText y = AssignedIDCreated then Some y else None
    | _ \<Rightarrow> None)"
    "map_of del n = (case (map_of old n, map_of new n) of (Some y, None) \<Rightarrow> Some y | _ \<Rightarrow> None)"
    "map_of before n = (case (map_of old n, map_of new n) of
      (Some y, Some x) \<Rightarrow> if matchAssignedID y x then None else Some y | _ \<Rightarrow> None)"
    "map_of after n = (case (map_of old n, map_of new n) of
      (Some y, Some x) \<Rightarrow> if matchAssignedID y x then None else Some (updated_assigned y x) | _ \<Rightarrow> None)"
  using toUpdate_map[OF toCreate_map(2)[OF assms(2)] assms(3)[unfolded mic_diff_def], of n]
    toCreate_map(1)[OF assms(2), of old n] toDelete_map(1)[OF assms(1), of new n]
  by (auto simp: create_of_def delete_of_def split: option.splits if_splits)

text \<open>
  (C11) The three lists of a sync cycle are exactly the difference of the cluster and the desired state: an
  assigned identity is created when it is desired and absent (or present, matching, and still in state
  Created), deleted when it is present and not desired, and updated when both exist and differ in pod,
  node, binding or identity version; no name is in two of the lists.
\<close>

theorem mic_diff_exact:
  assumes "wf_map old" "wf_map new" "mic_diff old new = (before, after, add, del)"
  shows "map_of add n = (case (map_of old n, map_of new n) of
      (None, Some x) \<Rightarrow> Some x
    | (Some y, Some x) \<Rightarrow> if matchAssignedID y x \<and> a_StatusText y = AssignedIDCreated then Some y else None
    | _ \<Rightarrow> None) \<and>
    map_of del n = (case (map_of old n, map_of new n) of (Some y, None) \<Rightarrow> Some y | _ \<Rightarrow> None) \<and>
    map_of after n = (case (map_of old n, map_of new n) of
      (Some y, Some x) \<Rightarrow> if matchAssignedID y x then None else Some (updated_assigned y x) | _ \<Rightarrow> None) \<and>
    (n \<notin> dom (map_of add) \<or> n \<notin> dom (map_of del)) \<and> (n \<notin> dom (map_of add) \<or> n \<notin> dom (map_of after)) \<and>
    (n \<notin> dom (map_of del) \<or> n \<notin> dom (map_of after))"
  using mic_diff_map[OF assms, of n] by (auto split: option.splits if_splits)

text \<open>What the cluster holds after the lists were carried out.\<close>

definition apply_diff :: "assigned_map \<Rightarrow> assigned_map \<times> assigned_map \<times> assigned_map \<times> assigned_map \<Rightarrow> string \<Rightarrow> AzureAssignedIdentity option" where
  "apply_diff old d n =
     (case d of (before, after, add, del) \<Rightarrow>
        if map_of del n \<noteq> None then None
        else if map_of after n \<noteq> None then map_of after n
        else if map_of add n \<noteq> None then map_of add n else map_of old n)"

text \<open>
  Carrying out the lists reaches the desired state: afterwards the cluster has exactly the desired
  names, and every assigned identity matches the desired one.
\<close>

theorem mic_diff_reaches_desired:
  assumes "wf_map old" "wf_map new"
  shows "case (apply_diff old (mic_diff old new) n, map_of new n) of
      (None, None) \<Rightarrow> True | (Some a, Some x) \<Rightarrow> matchAssignedID a x | _ \<Rightarrow> False"
proof -
  obtain before after add del where d: "mic_diff old new = (before, after, add, del)" by (metis prod_cases4)
  show ?thesis using mic_diff_map[OF assms d, of n]
    by (auto simp: apply_diff_def d split: option.splits if_splits)
qed

text \<open>
  When the cluster already matches the desired state and every assignment is complete, the cycle has
  nothing to do: all lists are empty.
\<close>

theorem mic_diff_fixpoint:
  assumes "wf_map old" "wf_map new"
    "\<And>n. case (map_of old n, map_of new n) of
       (None, None) \<Rightarrow> True | (Some y, Some x) \<Rightarrow> matchAssignedID y x \<and> a_StatusText y = AssignedIDAssigned | _ \<Rightarrow> False"
  shows "mic_diff old new = ([], [], [], [])"
proof -
  obtain before after add del where d: "mic_diff old new = (before, after, add, del)" by (metis prod_cases4)
  have "map_of add n = None \<and> map_of del n = None \<and> map_of before n = None \<and> map_of after n = None" for n
    using mic_diff_map[OF assms(1,2) d, of n] assms(3)[of n] by (auto simp: status_defs split: option.splits)
  then have "map_of add = Map.empty" "map_of del = Map.empty" "map_of before = Map.empty" "map_of after = Map.empty"
    by (intro ext; simp)+
  then show ?thesis using d by simp
qed

section \<open>Work per node\<close>

text \<open>All four ways to record work for a node are one update of its entry.\<close>

definition track_at :: "string \<Rightarrow> (trackUserAssignedMSIIds \<Rightarrow> trackUserAssignedMSIIds) \<Rightarrow> node_map \<Rightarrow> node_map" where
  "track_at node f m = mput node (f (mget0 zero_track m node)) m"

lemma track_at_eqs:
  "track_create a = track_at (a_NodeName a) (\<lambda>t. t\<lparr>assignedIDsToCreate := assignedIDsToCreate t @ [a]\<rparr>)"
  "track_delete a = track_at (a_NodeName a) (\<lambda>t. t\<lparr>assignedIDsToDelete := assignedIDsToDelete t @ [a]\<rparr>)"
  "track_update a = track_at (a_NodeName a) (\<lambda>t. t\<lparr>assignedIDsToUpdate := assignedIDsToUpdate t @ [a]\<rparr>)"
  "appendToRemoveListForNode r node = track_at node (\<lambda>t. t\<lparr>removeUserAssignedMSIIDs := removeUserAssignedMSIIDs t @ [r]\<rparr>)"
  "appendToAddListForNode r node = track_at node (\<lambda>t. t\<lparr>addUserAssignedMSIIDs := addUserAssignedMSIIDs t @ [r]\<rparr>)"
  by (auto simp: track_create_def track_delete_def track_update_def appendToRemoveListForNode_def
      appendToAddListForNode_def track_at_def mget0_def zero_track_def fun_eq_iff split: option.splits)

lemma track_at_get: "mget0 zero_track (track_at node f m) n = (if n = node then f (mget0 zero_track m node) else mget0 zero_track m n)"
  by (simp add: track_at_def)

lemma track_at_keys [simp]: "fst ` set (track_at node f m) = insert node (fst ` set m)"
  unfolding track_at_def by (rule keys_mput)

lemma track_fold:
  "mget0 zero_track (fold (\<lambda>(_, a). track_create a) xs m) n =
     (mget0 zero_track m n)\<lparr>assignedIDsToCreate := assignedIDsToCreate (mget0 zero_track m n) @ filter (\<lambda>a. a_NodeName a = n) (map snd xs)\<rparr>"
  "mget0 zero_track (fold (\<lambda>(_, a). track_delete a) xs m) n =
     (mget0 zero_track m n)\<lparr>assignedIDsToDelete := assignedIDsToDelete (mget0 zero_track m n) @ filter (\<lambda>a. a_NodeName a = n) (map snd xs)\<rparr>"
  "mget0 zero_track (fold (\<lambda>(_, a). track_update a) xs m) n =
     (mget0 zero_track m n)\<lparr>assignedIDsToUpdate := assignedIDsToUpdate (mget0 zero_track m n) @ filter (\<lambda>a. a_NodeName a = n) (map snd xs)\<rparr>"
  by (induction xs arbitrary: m) (auto simp: track_at_eqs track_at_get)

lemma track_fold_keys:
  "fst ` set (fold (\<lambda>(_, a). track_create a) xs m) = a_NodeName ` snd ` set xs \<union> fst ` set m"
  "fst ` set (fold (\<lambda>(_, a). track_delete a) xs m) = a_NodeName ` snd ` set xs \<union> fst ` set m"
  "fst ` set (fold (\<lambda>(_, a). track_update a) xs m) = a_NodeName ` snd ` set xs \<union> fst ` set m"
  by (induction xs arbitrary: m) (auto simp: track_at_eqs split: prod.splits)

lemma convertAssignedIDListToMap_lists:
  "mget0 zero_track (convertAssignedIDListToMap addList deleteList updateList []) n =
     zero_track\<lparr>assignedIDsToCreate := filter (\<lambda>a. a_NodeName a = n) (map snd addList),
                assignedIDsToDelete := filter (\<lambda>a. a_NodeName a = n) (map snd deleteList),
                assignedIDsToUpdate := filter (\<lambda>a. a_NodeName a = n) (map snd updateList)\<rparr>"
  "fst ` set (convertAssignedIDListToMap addList deleteList updateList []) =
     a_NodeName ` snd ` (set addList \<union> set deleteList \<union> set updateList)"
proof -
  have "mget0 zero_track [] n = zero_track" by (simp add: mget0_def)
  then show "mget0 zero_track (convertAssignedIDListToMap addList deleteList updateList []) n =
     zero_track\<lparr>assignedIDsToCreate := filter (\<lambda>a. a_NodeName a = n) (map snd addList),
                assignedIDsToDelete := filter (\<lambda>a. a_NodeName a = n) (map snd deleteList),
                assignedIDsToUpdate := filter (\<lambda>a. a_NodeName a = n) (map snd updateList)\<rparr>"
    by (simp add: convertAssignedIDListToMap_def track_fold) (simp add: zero_track_def)
  show "fst ` set (convertAssignedIDListToMap addList deleteList updateList []) =
     a_NodeName ` snd ` (set addList \<union> set deleteList \<union> set updateList)"
    by (simp add: convertAssignedIDListToMap_def track_fold_keys image_Un Un_ac)
qed

text \<open>
  \<^verbatim>\<open>convertAssignedIDListToMap\<close> distributes the lists over the nodes without loss: every node gets, in
  order, exactly the assigned identities that name it, and nodes without any get no entry.
\<close>

theorem convertAssignedIDListToMap_partition:
  "mget0 zero_track (convertAssignedIDListToMap addList deleteList updateList []) n =
     zero_track\<lparr>assignedIDsToCreate := filter (\<lambda>a. a_NodeName a = n) (map snd addList),
                assignedIDsToDelete := filter (\<lambda>a. a_NodeName a = n) (map snd deleteList),
                assignedIDsToUpdate := filter (\<lambda>a. a_NodeName a = n) (map snd updateList)\<rparr> \<and>
   fst ` set (convertAssignedIDListToMap addList deleteList updateList []) =
     a_NodeName ` snd ` (set addList \<union> set deleteList \<union> set updateList)"
  using convertAssignedIDListToMap_lists by (rule conjI)

section \<open>Witnesses\<close>

definition sample_assigned :: "string \<Rightarrow> string \<Rightarrow> AzureAssignedIdentity" where
  "sample_assigned node status =
     (let a = makeAssignedIDs sample_client (sample_id ''ns'' ''id'') (sample_binding ''ns'' ''b1'') ''pod'' ''ns'' node
      in a\<lparr>a_Status := (a_Status a)\<lparr>ast_Status := status\<rparr>\<rparr>)"

lemma sample_moved: "\<not> matchAssignedID (sample_assigned ''n1'' ''Assigned'') (sample_assigned ''n2'' [])"
  by (simp add: sample_assigned_def Let_def matchAssignedID_def makeAssignedIDs_def)

theorem mic_diff_exact_witness:
  "map_of (fst (snd (mic_diff [(''a'', sample_assigned ''n1'' ''Assigned'')] [(''a'', sample_assigned ''n2'' [])]))) ''a'' =
     Some (updated_assigned (sample_assigned ''n1'' ''Assigned'') (sample_assigned ''n2'' []))"
proof -
  let ?old = "[(''a'', sample_assigned ''n1'' ''Assigned'')]" and ?new = "[(''a'', sample_assigned ''n2'' [])]"
  obtain before after add del where d: "mic_diff ?old ?new = (before, after, add, del)" by (metis prod_cases4)
  have "wf_map ?old" "wf_map ?new" by simp_all
  from mic_diff_exact[OF this d, of "''a''"] sample_moved d show ?thesis by simp
qed

theorem mic_diff_reaches_desired_witness:
  "case apply_diff [(''a'', sample_assigned ''n1'' ''Assigned'')]
       (mic_diff [(''a'', sample_assigned ''n1'' ''Assigned'')] [(''a'', sample_assigned ''n2'' [])]) ''a'' of
     Some a \<Rightarrow> matchAssignedID a (sample_assigned ''n2'' []) | None \<Rightarrow> False"
proof -
  let ?old = "[(''a'', sample_assigned ''n1'' ''Assigned'')]" and ?new = "[(''a'', sample_assigned ''n2'' [])]"
  have "wf_map ?old" "wf_map ?new" by simp_all
  from mic_diff_reaches_desired[OF this, of "''a''"] show ?thesis by (simp split: option.splits)
qed

theorem mic_diff_fixpoint_witness:
  "mic_diff [(''a'', sample_assigned ''n1'' ''Assigned'')] [(''a'', sample_assigned ''n1'' [])] = ([], [], [], [])"
proof (rule mic_diff_fixpoint)
  fix n
  show "case (map_of [(''a'', sample_assigned ''n1'' ''Assigned'')] n, map_of [(''a'', sample_assigned ''n1'' [])] n) of
       (None, None) \<Rightarrow> True | (Some y, Some x) \<Rightarrow> matchAssignedID y x \<and> a_StatusText y = AssignedIDAssigned | _ \<Rightarrow> False"
    by (simp add: sample_assigned_def Let_def matchAssignedID_def makeAssignedIDs_def status_defs)
qed simp_all

end
