(* ===== verification/MicRemove.thy ===== *)
theory MicRemove
  imports MicDiff
begin

text \<open>
  Which identities a sync cycle takes off a node (\<^verbatim>\<open>checkIfInUse\<close>, \<^verbatim>\<open>shouldRemoveID\<close>, \<^verbatim>\<open>getListOfIdsToDelete\<close>)
  and which it puts on (\<^verbatim>\<open>shouldAssignID\<close>, \<^verbatim>\<open>getListOfIdsToAssign\<close>).
\<close>

section \<open>In use\<close>

text \<open>A pod of another name uses the identity of \<open>d\<close> on the same node or on the same scale set; the code compares names only.\<close>

definition uses_same :: "node_getter \<Rightarrow> AzureAssignedIdentity \<Rightarrow> AzureAssignedIdentity \<Rightarrow> bool" where
  "uses_same nc d a \<longleftrightarrow>
     id_Type (a_Identity d) = UserAssignedMSI \<and> a_Pod d \<noteq> a_Pod a \<and>
     id_ClientID (a_Identity d) = id_ClientID (a_Identity a) \<and>
     (a_NodeName d = a_NodeName a \<or>
      vmss_id nc (a_NodeName d) \<noteq> None \<and> vmss_id nc (a_NodeName d) = vmss_id nc (a_NodeName a))"

text \<open>The list of groups knows the scale sets of the nodes of \<open>as\<close>, and \<open>ls'\<close> knows at least what \<open>ls\<close> does.\<close>

definition knows :: "node_getter \<Rightarrow> vmssGroupList \<Rightarrow> AzureAssignedIdentity list \<Rightarrow> bool" where
  "knows nc ls as \<longleftrightarrow> (\<forall>a \<in> set as. \<forall>v. vmss_id nc (a_NodeName a) = Some v \<longrightarrow> map_of (nodeIdx ls) (a_NodeName a) = Some v)"

definition extends :: "vmssGroupList \<Rightarrow> vmssGroupList \<Rightarrow> bool" where
  "extends ls' ls \<longleftrightarrow> (\<forall>n v. map_of (nodeIdx ls) n = Some v \<longrightarrow> map_of (nodeIdx ls') n = Some v)"

lemma knows_extends: "knows nc ls as \<Longrightarrow> extends ls' ls \<Longrightarrow> knows nc ls' as"
  by (simp add: knows_def extends_def)

lemma knows_Cons: "knows nc ls (a # as) \<Longrightarrow> knows nc ls as"
  by (simp add: knows_def)

lemma extends_refl [simp]: "extends ls ls"
  by (simp add: extends_def)

lemma extends_trans: "extends ls3 ls2 \<Longrightarrow> extends ls2 ls1 \<Longrightarrow> extends ls3 ls1"
  by (simp add: extends_def)

lemma checkIfInUse_loop_spec:
  assumes "groups_inv nc ls" "knows nc ls as" "checkIfInUse_loop nc d as ls = (r, ls')"
  shows "groups_inv nc ls' \<and> extends ls' ls \<and>
    (case r of Inr b \<Rightarrow> b \<longleftrightarrow> (\<exists>a \<in> set as. uses_same nc d a)
             | Inl err \<Rightarrow> vmssFromNodeRef nc (a_NodeName d) = Inl err)"
  using assms
proof (induction as arbitrary: ls)
  case (Cons a as)
  note k = knows_Cons[OF Cons.prems(2)]
  show ?case
  proof (cases "id_Type (a_Identity d) = UserAssignedMSI \<and> a_Pod d \<noteq> a_Pod a \<and>
      id_ClientID (a_Identity d) = id_ClientID (a_Identity a)")
    case False
    then have "checkIfInUse_loop nc d as ls = (r, ls')" "\<not> uses_same nc d a"
      using Cons.prems(3) by (auto simp: uses_same_def split: if_splits)
    then show ?thesis using Cons.IH[OF Cons.prems(1) k] by (auto split: sum.splits)
  next
    case True
    note t = True
    show ?thesis
    proof (cases "a_NodeName d = a_NodeName a")
      case True
      then have "r = Inr True" "ls' = ls" "uses_same nc d a"
        using Cons.prems(3) t by (auto simp: uses_same_def)
      then show ?thesis using Cons.prems(1) by auto
    next
      case False
      obtain g ls1 where g: "getVMSSGroupFromPossiblyUnreferencedNode nc ls (a_NodeName d) = (g, ls1)" by fastforce
      from Cons.prems(1) g show ?thesis
      proof (cases rule: possiblyUnreferenced_cases)
        case (Error err)
        then show ?thesis using Cons.prems(1,3) t False g by auto
      next
        case NoVMSS
        then have "checkIfInUse_loop nc d as ls = (r, ls')" "\<not> uses_same nc d a"
          using Cons.prems(3) t False g by (auto simp: uses_same_def)
        then show ?thesis using Cons.IH[OF Cons.prems(1) k] by (auto split: sum.splits)
      next
        case (Group v gr)
        have ext: "extends ls1 ls" using Group(5) by (simp add: extends_def)
        have u: "uses_same nc d a \<longleftrightarrow> hasNode gr (a_NodeName a)"
        proof -
          have "map_of (nodeIdx ls1) (a_NodeName a) = Some v \<longleftrightarrow> vmss_id nc (a_NodeName a) = Some v"
            using knows_extends[OF Cons.prems(2) ext] groups_invD[OF Group(3), of "a_NodeName a" v]
            unfolding knows_def list.set by blast
          then show ?thesis using t False Group(2) Group(4)[of "a_NodeName a"] by (simp add: uses_same_def eq_commute[of "Some v"])
        qed
        show ?thesis
        proof (cases "hasNode gr (a_NodeName a)")
          case True
          then show ?thesis using Cons.prems(3) t False g Group(1,3) ext u by auto
        next
          case no: False
          then have "checkIfInUse_loop nc d as ls1 = (r, ls')"
            using Cons.prems(3) t False g Group(1) by auto
          from Cons.IH[OF Group(3) knows_extends[OF k ext] this] show ?thesis
            using u no extends_trans[OF _ ext] by (auto split: sum.splits)
        qed
      qed
    qed
  qed
qed (auto simp: extends_def)

section \<open>Removal\<close>

definition removable :: "mic_client \<Rightarrow> node_getter \<Rightarrow> AzureAssignedIdentity list \<Rightarrow> AzureAssignedIdentity \<Rightarrow> bool" where
  "removable c nc as d \<longleftrightarrow>
     (a_StatusText d = AssignedIDAssigned \<or> a_StatusText d = []) \<and> checkIfUserAssignedMSI (a_Identity d) \<and>
     \<not> checkIfIdentityImmutable c (id_ClientID (a_Identity d)) \<and> \<not> (\<exists>a \<in> set as. uses_same nc d a)"

abbreviation removed_ids :: "node_map \<Rightarrow> string \<Rightarrow> string list" where
  "removed_ids m n \<equiv> removeUserAssignedMSIIDs (mget0 zero_track m n)"

lemma remove_step_spec:
  assumes "groups_inv nc ls" "knows nc ls (map snd toCheck)" "remove_step c nc toCheck e (m, ls) = (m', ls')"
  shows "groups_inv nc ls' \<and> knows nc ls' (map snd toCheck) \<and>
    (removed_ids m' n = removed_ids m n \<or>
     removable c nc (map snd toCheck) (snd e) \<and> a_NodeName (snd e) = n \<and>
     removed_ids m' n = removed_ids m n @ [id_ResourceID (a_Identity (snd e))])"
proof -
  obtain r ls1 where r: "checkIfInUse_loop nc (snd e) (map snd toCheck) ls = (r, ls1)" by fastforce
  note spec = checkIfInUse_loop_spec[OF assms(1,2) r]
  have ls': "ls' = ls1"
    using assms(3) r by (auto simp: remove_step_def shouldRemoveID_def checkIfInUse_def split: sum.splits)
  show ?thesis
  proof (cases "r = Inr False \<and> removable c nc (map snd toCheck) (snd e)")
    case True
    then have "m' = appendToRemoveListForNode (id_ResourceID (a_Identity (snd e))) (a_NodeName (snd e)) m"
      using assms(3) r by (auto simp: remove_step_def shouldRemoveID_def checkIfInUse_def removable_def)
    then show ?thesis using spec ls' True knows_extends[OF assms(2)]
      by (auto simp: track_at_eqs track_at_get)
  next
    case False
    then have "m' = m"
      using assms(3) r spec
      by (auto simp: remove_step_def shouldRemoveID_def checkIfInUse_def removable_def split: sum.splits if_splits)
    then show ?thesis using spec ls' knows_extends[OF assms(2)] by auto
  qed
qed

lemma remove_fold_spec:
  assumes "groups_inv nc ls" "knows nc ls (map snd toCheck)" "fold (remove_step c nc toCheck) xs (m, ls) = (m', ls')"
  shows "groups_inv nc ls' \<and> knows nc ls' (map snd toCheck) \<and>
    (r \<in> set (removed_ids m' n) \<longrightarrow> r \<in> set (removed_ids m n) \<or>
     (\<exists>d \<in> snd ` set xs. removable c nc (map snd toCheck) d \<and> a_NodeName d = n \<and> id_ResourceID (a_Identity d) = r))"
  using assms
proof (induction xs arbitrary: m ls)
  case (Cons e xs)
  obtain m1 ls1 where s: "remove_step c nc toCheck e (m, ls) = (m1, ls1)" by fastforce
  note step = remove_step_spec[OF Cons.prems(1,2) s, of n]
  have "fold (remove_step c nc toCheck) xs (m1, ls1) = (m', ls')" using Cons.prems(3) s by simp
  from Cons.IH[OF _ _ this] step show ?case by auto
qed auto

section \<open>One cycle\<close>

lemma desired_wf: "createDesiredAssignedIdentityList c pods bindings idMap = (new, refs) \<Longrightarrow> wf_map new"
proof -
  have b: "wf_map m \<Longrightarrow> wf_map (fold (desired_binding_step c idMap pod) bs m)" for bs pod m
    by (induction bs arbitrary: m) (auto simp: desired_binding_step_def Let_def split: option.splits)
  have "wf_map (fst acc) \<Longrightarrow> wf_map (fst (fold (desired_pod_step c bindings idMap) pods acc))" for acc
    by (induction pods arbitrary: acc) (auto simp: desired_pod_step_eq b)
  from this[of "([], [])"] show "createDesiredAssignedIdentityList c pods bindings idMap = (new, refs) \<Longrightarrow> wf_map new"
    by (simp add: createDesiredAssignedIdentityList_def)
qed

definition overlay :: "assigned_map \<Rightarrow> assigned_map \<Rightarrow> assigned_map" where
  "overlay after new = fold (\<lambda>(name, a) m. mput name a m) after (fold (\<lambda>(name, a) m. mput name a m) new [])"

lemma overlay_map: "wf_map after \<Longrightarrow> wf_map new \<Longrightarrow> wf_map (overlay after new) \<and>
    map_of (overlay after new) n = (case map_of after n of Some a \<Rightarrow> Some a | None \<Rightarrow> map_of new n)"
proof -
  have put: "wf_map xs \<Longrightarrow> wf_map m \<Longrightarrow> wf_map (fold (\<lambda>(name, a) m. mput name a m) xs m) \<and>
      map_of (fold (\<lambda>(name, a) m. mput name a m) xs m) n = (case map_of xs n of Some a \<Rightarrow> Some a | None \<Rightarrow> map_of m n)"
    for xs m :: assigned_map
  proof (induction xs arbitrary: m)
    case (Cons x xs)
    obtain k v where x: "x = (k, v)" by fastforce
    have "map_of xs k = None" using Cons.prems(1) x by (simp add: map_of_None_iff)
    then show ?case using Cons.IH[of "mput k v m"] Cons.prems x by (cases "n = k") (auto split: option.splits)
  qed (auto split: option.splits)
  assume "wf_map after" "wf_map new"
  then show ?thesis using put[of new "[]"] put[of after "fold (\<lambda>(name, a) m. mput name a m) new []"]
    by (auto simp: overlay_def split: option.splits)
qed

lemma uses_same_spec: "a_Spec a = a_Spec a' \<Longrightarrow> uses_same nc d a = uses_same nc d a'"
  by (simp add: uses_same_def)

lemma toUpdate_wf:
  assumes "getAzureAssignedIdentitiesToUpdate add del = (before, after, add', del')"
  shows "wf_map after"
proof -
  have "wf_map A \<Longrightarrow> fold update_step xs (B, A, Ad, De) = (B', A', Ad', De') \<Longrightarrow> wf_map A'" for xs B A Ad De B' A' Ad' De'
  proof (induction xs arbitrary: B A Ad De)
    case (Cons x xs)
    obtain k v where x: "x = (k, v)" by fastforce
    show ?case
    proof (cases "map_of De k")
      case None
      then show ?thesis using Cons x by (auto simp: update_step_cases)
    next
      case (Some d)
      then show ?thesis using Cons.IH[of "mput k (updated_assigned d v) A"] Cons.prems x by (auto simp: update_step_cases)
    qed
  qed simp
  from this[of "[]"] show ?thesis
    using assms by (auto simp: getAzureAssignedIdentitiesToUpdate_def split: if_splits)
qed

text \<open>The map that removals are checked against has, for every desired assigned identity, one with its spec.\<close>

lemma overlay_desired:
  assumes "createDesiredAssignedIdentityList c pods bindings idMap = (new, refs)" "wf_map old"
    "mic_diff old new = (before, after, add, del)"
  shows "(n, a) \<in> set new \<Longrightarrow> \<exists>a' \<in> snd ` set (overlay after new). a_Spec a' = a_Spec a"
    "(n, a') \<in> set (overlay after new) \<Longrightarrow> a_NodeName a' \<in> fst ` set refs"
proof -
  note wf = desired_wf[OF assms(1)] toUpdate_wf[OF assms(3)[unfolded mic_diff_def]]
  note o = overlay_map[OF wf(2,1)]
  note after = mic_diff_map(4)[OF assms(2) wf(1) assms(3)]
  have both: "map_of (overlay after new) n = Some a' \<Longrightarrow> \<exists>a. map_of new n = Some a \<and> a_Spec a' = a_Spec a" for n a'
    using o[of n] after[of n] by (auto simp: updated_assigned_def split: option.splits if_splits)
  show "(n, a) \<in> set new \<Longrightarrow> \<exists>a' \<in> snd ` set (overlay after new). a_Spec a' = a_Spec a"
  proof -
    assume "(n, a) \<in> set new"
    then have a: "map_of new n = Some a" using wf(1) by (simp add: map_of_mem_iff)
    then obtain a' where a': "map_of (overlay after new) n = Some a'" using o[of n] by (auto split: option.splits)
    then have "a_Spec a' = a_Spec a" using both[OF a'] a by auto
    moreover have "(n, a') \<in> set (overlay after new)" using a' by (rule map_of_SomeD)
    ultimately show ?thesis by force
  qed
  show "(n, a') \<in> set (overlay after new) \<Longrightarrow> a_NodeName a' \<in> fst ` set refs"
  proof -
    assume "(n, a') \<in> set (overlay after new)"
    then have "map_of (overlay after new) n = Some a'"
      using o[of n] by (metis map_of_mem_iff)
    then obtain a where a: "map_of new n = Some a" "a_Spec a' = a_Spec a" using both by blast
    from assms(1) a(1) obtain pod b i where "a = assigned_for c pod b i" "map_of refs (pod_NodeName pod) = Some True"
      by (rule desired_entry)
    then show ?thesis using a(2) map_of_SomeD[of refs] by (metis fst_conv image_eqI makeAssignedIDs_simps(5))
  qed
qed

text \<open>
  (C8) A cycle takes an identity off a node only if it belongs to an assigned identity that is no longer
  desired in this form, was assigned, is a user-assigned identity, is not immutable, and no desired pod of
  another name uses an identity with the same client id on that node or on another node of the same
  scale set.  The check of the code compares names only, so it does not see a pod of the same name in another namespace
  (\<open>checkIfInUse_ignores_pod_namespace\<close> below).
\<close>

theorem removal_safe:
  assumes "createDesiredAssignedIdentityList c pods bindings idMap = (new, refs)" "wf_map old"
    "mic_diff old new = (before, after, add, del)"
    "r \<in> set (removeUserAssignedMSIIDs (mget0 zero_track
           (getListOfIdsToDelete c nc del before after new (convertAssignedIDListToMap add del after []) refs) n))"
  shows "\<exists>d \<in> snd ` (set del \<union> set before).
    a_NodeName d = n \<and> id_ResourceID (a_Identity d) = r \<and> id_Type (a_Identity d) = UserAssignedMSI \<and>
    (a_StatusText d = AssignedIDAssigned \<or> a_StatusText d = []) \<and>
    map_of (mic_ImmutableUserMSIsMap c) (id_ClientID (a_Identity d)) = None \<and>
    (\<forall>a \<in> snd ` set new. \<not> uses_same nc d a)"
proof -
  define m0 where "m0 = convertAssignedIDListToMap add del after []"
  have none: "removed_ids m0 n = []"
    using convertAssignedIDListToMap_lists(1)[of add del after n] by (simp add: m0_def zero_track_def)
  obtain groups where g: "getVMSSGroups nc refs = Inr groups"
    using assms(4) none by (cases "getVMSSGroups nc refs") (auto simp: getListOfIdsToDelete_def m0_def[symmetric])
  let ?chk = "overlay after new"
  have inv: "groups_inv nc groups" "knows nc groups (map snd ?chk)"
    using getVMSSGroups_inv[OF g] overlay_desired(2)[OF assms(1-3)] by (auto simp: knows_def)
  obtain m1 ls1 where f1: "fold (remove_step c nc ?chk) del (m0, groups) = (m1, ls1)" by fastforce
  obtain m2 ls2 where f2: "fold (remove_step c nc ?chk) before (m1, ls1) = (m2, ls2)" by fastforce
  have r: "r \<in> set (removed_ids m2 n)"
    using assms(4) g f1 f2 by (simp add: getListOfIdsToDelete_def overlay_def[symmetric] m0_def[symmetric] Let_def)
  note s1 = remove_fold_spec[OF inv f1, of r n]
  then have "r \<in> set (removed_ids m1 n) \<or>
      (\<exists>d \<in> snd ` set before. removable c nc (map snd ?chk) d \<and> a_NodeName d = n \<and> id_ResourceID (a_Identity d) = r)"
    using remove_fold_spec[OF _ _ f2, of r n] r by blast
  then obtain d where d: "d \<in> snd ` (set del \<union> set before)" "removable c nc (map snd ?chk) d" "a_NodeName d = n"
      "id_ResourceID (a_Identity d) = r"
    using s1 none by auto
  have "\<not> uses_same nc d a" if a: "a \<in> snd ` set new" for a
  proof -
    from a obtain nm where "(nm, a) \<in> set new" by auto
    then obtain a' where "a' \<in> snd ` set ?chk" "a_Spec a' = a_Spec a" using overlay_desired(1)[OF assms(1-3)] by blast
    then show ?thesis using d(2) uses_same_spec[of a' a nc d] by (auto simp: removable_def)
  qed
  then show ?thesis using d by (auto simp: removable_def checkIfUserAssignedMSI_def checkIfIdentityImmutable_def)
qed

text \<open>A cluster in which a pod has gone and its user-assigned identity can be removed.\<close>

definition sample_msi :: AzureIdentity where
  "sample_msi = (sample_id ''ns'' ''id'')\<lparr>id_Spec := (id_Spec (sample_id ''ns'' ''id''))\<lparr>ids_Type := UserAssignedMSI,
     ids_ResourceID := ''rid''\<rparr>\<rparr>"

definition sample_gone :: AzureAssignedIdentity where
  "sample_gone =
     (let a = makeAssignedIDs sample_client sample_msi (sample_binding ''ns'' ''b1'') ''gone'' ''ns'' ''node''
      in a\<lparr>a_Status := (a_Status a)\<lparr>ast_Status := AssignedIDAssigned\<rparr>\<rparr>)"

definition no_nodes :: node_getter where
  "no_nodes n = Inl \<lparr>ne_IsNotFound = True, ne_Text = ''not found''\<rparr>"

theorem removal_safe_witness:
  "\<exists>d \<in> snd ` (set [(''gone-ns-id'', sample_gone)] \<union> set []). a_NodeName d = ''node'' \<and> id_ResourceID (a_Identity d) = ''rid'' \<and>
     map_of (mic_ImmutableUserMSIsMap sample_client) (id_ClientID (a_Identity d)) = None"
proof -
  have d: "createDesiredAssignedIdentityList sample_client [] [] [] = ([], [])" by code_simp
  have m: "mic_diff [(''gone-ns-id'', sample_gone)] [] = ([], [], [], [(''gone-ns-id'', sample_gone)])"
    by (simp add: mic_diff_def getAzureAssignedIDsToCreate_def getAzureAssignedIDsToDelete_def getAzureAssignedIdentitiesToUpdate_def)
  have r: "''rid'' \<in> set (removeUserAssignedMSIIDs (mget0 zero_track
      (getListOfIdsToDelete sample_client no_nodes [(''gone-ns-id'', sample_gone)] [] [] []
        (convertAssignedIDListToMap [] [(''gone-ns-id'', sample_gone)] [] []) []) ''node''))"
    by code_simp
  show ?thesis using removal_safe[OF d _ m r] by auto
qed

section \<open>Assignment\<close>

lemma shouldAssignID_track:
  "mget0 zero_track (shouldAssignID a m) n =
     (if (a_StatusText a = [] \<or> a_StatusText a = AssignedIDCreated) \<and> checkIfUserAssignedMSI (a_Identity a) \<and> a_NodeName a = n
      then (mget0 zero_track m n)\<lparr>addUserAssignedMSIIDs := addUserAssignedMSIIDs (mget0 zero_track m n) @ [id_ResourceID (a_Identity a)]\<rparr>
      else mget0 zero_track m n)"
  by (auto simp: shouldAssignID_def track_at_eqs track_at_get)

definition to_assign :: "string \<Rightarrow> AzureAssignedIdentity list \<Rightarrow> string list" where
  "to_assign n as = map (\<lambda>a. id_ResourceID (a_Identity a))
     (filter (\<lambda>a. (a_StatusText a = [] \<or> a_StatusText a = AssignedIDCreated) \<and> id_Type (a_Identity a) = UserAssignedMSI \<and> a_NodeName a = n) as)"

lemma shouldAssignID_fold:
  "mget0 zero_track (fold (\<lambda>(_, a). shouldAssignID a) xs m) n =
     (mget0 zero_track m n)\<lparr>addUserAssignedMSIIDs := addUserAssignedMSIIDs (mget0 zero_track m n) @ to_assign n (map snd xs)\<rparr>"
  by (induction xs arbitrary: m) (auto simp: shouldAssignID_track to_assign_def checkIfUserAssignedMSI_def)

text \<open>
  The identities to put on a node are exactly the user-assigned identities of the assigned identities to
  create or update on that node that are not assigned yet, and nothing else of the node's work changes.
\<close>

theorem getListOfIdsToAssign_exact:
  "mget0 zero_track (getListOfIdsToAssign addList updateList m) n =
     (mget0 zero_track m n)\<lparr>addUserAssignedMSIIDs :=
        addUserAssignedMSIIDs (mget0 zero_track m n) @ to_assign n (map snd addList) @ to_assign n (map snd updateList)\<rparr>"
  by (simp add: getListOfIdsToAssign_def shouldAssignID_fold)

section \<open>Where the checks are weaker than they look\<close>

text \<open>
  \<^verbatim>\<open>checkIfInUse\<close> compares pods by name only: an identity that a pod of the same name in another namespace
  uses on the same node does not count as in use.
\<close>

theorem checkIfInUse_ignores_pod_namespace:
  "checkIfInUse nc d [(n, d\<lparr>a_Spec := (a_Spec d)\<lparr>as_PodNamespace := other\<rparr>\<rparr>)] ls = (Inr False, ls)"
  by (simp add: checkIfInUse_def)

text \<open>
  The configured immutable identities are stored in lower case but looked up as they are written in the
  AzureIdentity, so a client id with an upper-case letter is protected only by the cluster identity.
\<close>

theorem immutable_case_sensitive:
  "checkIfIdentityImmutable \<lparr>mic_IsNamespaced = ns, mic_ImmutableUserMSIsMap = immutable_map ids cluster, mic_createDeleteBatch = b\<rparr> i \<longleftrightarrow>
     i \<in> strings_ToLower ` set ids \<or> cluster \<noteq> [] \<and> i = cluster"
proof -
  have "map_of (fold (\<lambda>item m. mput (strings_ToLower item) True m) xs m) k \<noteq> None \<longleftrightarrow>
      k \<in> strings_ToLower ` set xs \<or> map_of m k \<noteq> None" for xs k and m :: "(string, bool) gomap"
    by (induction xs arbitrary: m) auto
  from this[of ids "[]" i] show ?thesis by (auto simp: checkIfIdentityImmutable_def immutable_map_def Let_def)
qed

end
