(* ===== verification/MicConsolidate.thy ===== *)
theory MicConsolidate
  imports MicRemove
begin

text \<open>
  \<^verbatim>\<open>consolidateVMSSNodes\<close> of \<^verbatim>\<open>pkg/mic/mic.go\<close>: the work of the nodes of one scale set becomes work of the scale
  set, and the work of a node that is gone is handed to a clean-up.  The node map is read while the first
  loop deletes from it; Go visits every entry that was not deleted before it was reached, and the loop
  deletes only the entry it is at, so the loop runs over the entries the map had at the start.
\<close>

section \<open>Definitions\<close>

type_synonym cleanup = "string \<times> trackUserAssignedMSIIds"

definition consolidate_scan ::
  "node_getter \<Rightarrow> string \<times> trackUserAssignedMSIIds \<Rightarrow> node_map \<times> (string, string list) gomap \<times> cleanup list \<Rightarrow>
     node_map \<times> (string, string list) gomap \<times> cleanup list" where
  "consolidate_scan nc entry acc =
     (case entry of (nodeName, nodeTrackList) \<Rightarrow> case acc of (nodeMap, vmssMap, cleanups) \<Rightarrow>
        (case nc nodeName of
           Inl err \<Rightarrow>
             if \<not> strings_Contains (ne_Text err) ''not found'' then acc
             else (mdel nodeName nodeMap, vmssMap, cleanups @ [(nodeName, nodeTrackList)])
         | Inr node \<Rightarrow>
             (case isVMSS node of
                Inl err \<Rightarrow> acc
              | Inr (vmssName, is_vmss) \<Rightarrow>
                  if is_vmss then
                    (case map_of vmssMap vmssName of
                       Some nodes \<Rightarrow> (nodeMap, mput vmssName (nodes @ [nodeName]) vmssMap, cleanups)
                     | None \<Rightarrow> (nodeMap, mput vmssName [nodeName] vmssMap, cleanups))
                  else acc)))"

definition add_tracks :: "trackUserAssignedMSIIds \<Rightarrow> trackUserAssignedMSIIds \<Rightarrow> trackUserAssignedMSIIds" where
  "add_tracks t u =
     \<lparr>addUserAssignedMSIIDs = addUserAssignedMSIIDs t @ addUserAssignedMSIIDs u,
      removeUserAssignedMSIIDs = removeUserAssignedMSIIDs t @ removeUserAssignedMSIIDs u,
      assignedIDsToCreate = assignedIDsToCreate t @ assignedIDsToCreate u,
      assignedIDsToDelete = assignedIDsToDelete t @ assignedIDsToDelete u,
      assignedIDsToUpdate = assignedIDsToUpdate t @ assignedIDsToUpdate u,
      isvmss = True\<rparr>"

definition aggregate_node ::
  "string \<Rightarrow> string \<Rightarrow> node_map \<times> trackUserAssignedMSIIds \<Rightarrow> node_map \<times> trackUserAssignedMSIIds" where
  "aggregate_node vmssName vmssNode acc =
     (case acc of (nodeMap, vmssTrackList) \<Rightarrow>
        let t = add_tracks vmssTrackList (mget0 zero_track nodeMap vmssNode)
        in (mput (getVMSSName vmssName) t (mdel vmssNode nodeMap), t))"

definition aggregate_vmss :: "string \<times> string list \<Rightarrow> node_map \<Rightarrow> node_map" where
  "aggregate_vmss entry nodeMap =
     (case entry of (vmssName, vmssNodes) \<Rightarrow>
        if length vmssNodes < 1 then nodeMap
        else fst (fold (aggregate_node vmssName) vmssNodes (nodeMap, zero_track)))"

text \<open>The new node map, and the clean-ups that were started.\<close>

definition consolidateVMSSNodes :: "node_getter \<Rightarrow> node_map \<Rightarrow> node_map \<times> cleanup list" where
  "consolidateVMSSNodes nc nodeMap =
     (case fold (consolidate_scan nc) nodeMap (nodeMap, [], []) of
        (nodeMap, vmssMap, cleanups) \<Rightarrow> (fold aggregate_vmss vmssMap nodeMap, cleanups))"

section \<open>The first loop\<close>

text \<open>The two questions the loop asks about a node: is it gone, and which scale set is it in.\<close>

definition node_gone :: "node_getter \<Rightarrow> string \<Rightarrow> bool" where
  "node_gone nc n = (case nc n of Inl err \<Rightarrow> strings_Contains (ne_Text err) ''not found'' | Inr _ \<Rightarrow> False)"

definition node_vmss :: "node_getter \<Rightarrow> string \<Rightarrow> string option" where
  "node_vmss nc n =
     (case nc n of Inl _ \<Rightarrow> None | Inr node \<Rightarrow> (case isVMSS node of Inr (v, True) \<Rightarrow> Some v | _ \<Rightarrow> None))"

definition put_node :: "string \<Rightarrow> string \<Rightarrow> (string, string list) gomap \<Rightarrow> (string, string list) gomap" where
  "put_node v n m = mput v (mget0 [] m v @ [n]) m"

lemma scan_cases:
  "consolidate_scan nc (n, t) (M, vm, cl) =
     (if node_gone nc n then mdel n M else M,
      case node_vmss nc n of None \<Rightarrow> vm | Some v \<Rightarrow> put_node v n vm,
      if node_gone nc n then cl @ [(n, t)] else cl)"
  by (auto simp: consolidate_scan_def node_gone_def node_vmss_def put_node_def mget0_def
      split: sum.splits prod.splits bool.splits option.splits)

lemma gone_no_vmss: "node_gone nc n \<Longrightarrow> node_vmss nc n = None"
  by (auto simp: node_gone_def node_vmss_def split: sum.splits)

text \<open>The nodes of one scale set among the entries.\<close>

definition nodes_of :: "node_getter \<Rightarrow> node_map \<Rightarrow> string \<Rightarrow> string list" where
  "nodes_of nc M v = filter (\<lambda>n. node_vmss nc n = Some v) (map fst M)"

lemma scan_fold:
  assumes "fold (consolidate_scan nc) xs (M, vm, cl) = (M', vm', cl')"
  shows "(\<forall>k. map_of M' k = (if k \<in> fst ` set xs \<and> node_gone nc k then None else map_of M k)) \<and>
    cl' = cl @ filter (\<lambda>(n, _). node_gone nc n) xs \<and>
    (\<forall>v. mget0 [] vm' v = mget0 [] vm v @ nodes_of nc xs v) \<and>
    fst ` set vm' = fst ` set vm \<union> {v. nodes_of nc xs v \<noteq> []} \<and>
    (wf_map vm \<longrightarrow> wf_map vm') \<and> (wf_map M \<longrightarrow> wf_map M')"
  using assms
proof (induction xs arbitrary: M vm cl)
  case (Cons x xs)
  obtain n t where x: "x = (n, t)" by fastforce
  define M1 where "M1 = (if node_gone nc n then mdel n M else M)"
  define vm1 where "vm1 = (case node_vmss nc n of None \<Rightarrow> vm | Some v \<Rightarrow> put_node v n vm)"
  define cl1 where "cl1 = (if node_gone nc n then cl @ [(n, t)] else cl)"
  have step: "fold (consolidate_scan nc) xs (M1, vm1, cl1) = (M', vm', cl')"
    using Cons.prems by (simp add: x scan_cases M1_def vm1_def cl1_def)
  have get: "mget0 [] vm1 v = mget0 [] vm v @ nodes_of nc [x] v" for v
    by (auto simp: vm1_def nodes_of_def x put_node_def split: option.splits)
  have keys: "fst ` set vm1 = fst ` set vm \<union> {v. nodes_of nc [x] v \<noteq> []}"
    by (auto simp: vm1_def nodes_of_def x put_node_def split: option.splits)
  have split: "nodes_of nc (x # xs) v = nodes_of nc [x] v @ nodes_of nc xs v" for v
    by (simp add: nodes_of_def)
  have wf: "wf_map vm \<Longrightarrow> wf_map vm1" "wf_map M \<Longrightarrow> wf_map M1"
    by (auto simp: vm1_def M1_def put_node_def split: option.splits)
  have "map_of M' k = (if k \<in> fst ` set (x # xs) \<and> node_gone nc k then None else map_of M k)" for k
    using Cons.IH[OF step] by (auto simp: M1_def x)
  moreover have "cl' = cl @ filter (\<lambda>(n, _). node_gone nc n) (x # xs)"
    using Cons.IH[OF step] by (auto simp: cl1_def x)
  moreover have "mget0 [] vm' v = mget0 [] vm v @ nodes_of nc (x # xs) v" for v
    using Cons.IH[OF step] get[of v] split[of v] by simp
  moreover have "fst ` set vm' = fst ` set vm \<union> {v. nodes_of nc (x # xs) v \<noteq> []}"
    using Cons.IH[OF step] keys by (auto simp: split)
  ultimately show ?case using Cons.IH[OF step] wf by blast
qed (simp add: nodes_of_def)

section \<open>The second loop\<close>

definition merge_tracks :: "trackUserAssignedMSIIds \<Rightarrow> trackUserAssignedMSIIds list \<Rightarrow> trackUserAssignedMSIIds" where
  "merge_tracks t ts = fold (\<lambda>u t. add_tracks t u) ts t"

lemma merge_tracks_Cons: "merge_tracks t (u # us) = merge_tracks (add_tracks t u) us"
  by (simp add: merge_tracks_def)

lemma aggregate_nodes:
  assumes "distinct ns" "getVMSSName v \<notin> set ns" "ns \<noteq> []"
  shows "map_of (fst (fold (aggregate_node v) ns (M, t))) k =
    (if k = getVMSSName v then Some (merge_tracks t (map (mget0 zero_track M) ns))
     else if k \<in> set ns then None else map_of M k)"
  using assms
proof (induction ns arbitrary: M t)
  case (Cons n ns)
  define t1 where "t1 = add_tracks t (mget0 zero_track M n)"
  define M1 where "M1 = mput (getVMSSName v) t1 (mdel n M)"
  have step: "fold (aggregate_node v) (n # ns) (M, t) = fold (aggregate_node v) ns (M1, t1)"
    by (simp add: aggregate_node_def t1_def M1_def Let_def)
  show ?case
  proof (cases "ns = []")
    case True
    then show ?thesis using Cons.prems by (simp add: aggregate_node_def merge_tracks_def Let_def)
  next
    case False
    have same: "map (mget0 zero_track M1) ns = map (mget0 zero_track M) ns"
      using Cons.prems by (auto simp: M1_def mget0_def)
    have "map_of (fst (fold (aggregate_node v) (n # ns) (M, t))) k =
        (if k = getVMSSName v then Some (merge_tracks t1 (map (mget0 zero_track M) ns))
         else if k \<in> set ns then None else map_of M1 k)"
      unfolding step same[symmetric] using Cons.prems False by (intro Cons.IH) auto
    then show ?thesis by (simp add: t1_def merge_tracks_Cons M1_def)
  qed
qed simp

lemma aggregate_vmss_map:
  assumes "distinct ns" "getVMSSName v \<notin> set ns" "ns \<noteq> []"
  shows "map_of (aggregate_vmss (v, ns) M) k =
    (if k = getVMSSName v then Some (merge_tracks zero_track (map (mget0 zero_track M) ns))
     else if k \<in> set ns then None else map_of M k)"
  using aggregate_nodes[OF assms] assms(3) by (simp add: aggregate_vmss_def)

text \<open>
  The lists of the second loop do not disturb each other: every list is non-empty and without repetition,
  no node is in two of them, and the names of the scale sets are distinct and not names of nodes.
\<close>

definition separate :: "(string \<times> string list) list \<Rightarrow> bool" where
  "separate vm \<longleftrightarrow>
     distinct (map (getVMSSName \<circ> fst) vm) \<and> distinct (concat (map snd vm)) \<and> (\<forall>e \<in> set vm. snd e \<noteq> []) \<and>
     getVMSSName ` fst ` set vm \<inter> set (concat (map snd vm)) = {}"

lemma aggregate_fold:
  assumes "separate vm"
  shows "map_of (fold aggregate_vmss vm M) k =
    (case List.find (\<lambda>e. getVMSSName (fst e) = k) vm of
       Some e \<Rightarrow> Some (merge_tracks zero_track (map (mget0 zero_track M) (snd e)))
     | None \<Rightarrow> if k \<in> set (concat (map snd vm)) then None else map_of M k)"
  using assms
proof (induction vm arbitrary: M)
  case (Cons e vm)
  obtain v ns where e: "e = (v, ns)" by fastforce
  define M1 where "M1 = aggregate_vmss (v, ns) M"
  have sep: "separate vm" "distinct ns" "getVMSSName v \<notin> set ns" "ns \<noteq> []"
    "set ns \<inter> set (concat (map snd vm)) = {}" "getVMSSName v \<notin> set (concat (map snd vm))"
    "getVMSSName v \<notin> getVMSSName ` fst ` set vm"
    using Cons.prems by (auto simp: separate_def e image_image)
  note M1 = aggregate_vmss_map[OF sep(2,3,4), of M, folded M1_def]
  have same: "mget0 zero_track M1 n = mget0 zero_track M n" if "n \<in> set (concat (map snd vm))" for n
    using that sep(5,6) by (auto simp: mget0_def M1)
  have rest: "List.find (\<lambda>e. getVMSSName (fst e) = getVMSSName v) vm = None"
    using sep(7) unfolding find_None_iff by (metis image_eqI)
  have eqs: "map (mget0 zero_track M1) (snd e') = map (mget0 zero_track M) (snd e')"
    if "List.find (\<lambda>e. getVMSSName (fst e) = k) vm = Some e'" for e'
    using that same by (auto simp: find_Some_iff) (metis nth_mem)
  show ?case
  proof (cases "List.find (\<lambda>e. getVMSSName (fst e) = k) vm")
    case None
    then show ?thesis using Cons.IH[OF sep(1), of M1] sep(6) by (auto simp: e M1 simp flip: M1_def)
  next
    case (Some e')
    then have "k \<noteq> getVMSSName v" using rest by auto
    then show ?thesis using Cons.IH[OF sep(1), of M1] eqs[OF Some] Some by (simp add: e del: map_eq_conv flip: M1_def)
  qed
qed simp

section \<open>The result\<close>

text \<open>The work of a scale set: everything its nodes have to do.\<close>

definition vmss_track :: "trackUserAssignedMSIIds list \<Rightarrow> trackUserAssignedMSIIds" where
  "vmss_track ts =
     \<lparr>addUserAssignedMSIIDs = concat (map addUserAssignedMSIIDs ts),
      removeUserAssignedMSIIDs = concat (map removeUserAssignedMSIIDs ts),
      assignedIDsToCreate = concat (map assignedIDsToCreate ts),
      assignedIDsToDelete = concat (map assignedIDsToDelete ts),
      assignedIDsToUpdate = concat (map assignedIDsToUpdate ts),
      isvmss = True\<rparr>"

lemma merge_tracks_eq: "ts \<noteq> [] \<Longrightarrow> merge_tracks zero_track ts = vmss_track ts"
proof -
  have "merge_tracks t ts = \<lparr>addUserAssignedMSIIDs = addUserAssignedMSIIDs t @ concat (map addUserAssignedMSIIDs ts),
      removeUserAssignedMSIIDs = removeUserAssignedMSIIDs t @ concat (map removeUserAssignedMSIIDs ts),
      assignedIDsToCreate = assignedIDsToCreate t @ concat (map assignedIDsToCreate ts),
      assignedIDsToDelete = assignedIDsToDelete t @ concat (map assignedIDsToDelete ts),
      assignedIDsToUpdate = assignedIDsToUpdate t @ concat (map assignedIDsToUpdate ts),
      isvmss = (isvmss t \<or> ts \<noteq> [])\<rparr>" for t
    by (induction ts arbitrary: t) (simp_all add: merge_tracks_Cons merge_tracks_def add_tracks_def)
  then show "ts \<noteq> [] \<Longrightarrow> merge_tracks zero_track ts = vmss_track ts"
    by (simp add: zero_track_def vmss_track_def)
qed

text \<open>
  What the loop relies on: the nodes of the cycle that are in scale sets of the same name are in one scale
  set, and no node of the cycle has the name of a scale set.
\<close>

definition vmss_names_ok :: "node_getter \<Rightarrow> node_map \<Rightarrow> bool" where
  "vmss_names_ok nc M \<longleftrightarrow>
     (\<forall>n \<in> fst ` set M. \<forall>v. node_vmss nc n = Some v \<longrightarrow>
        getVMSSName v \<notin> fst ` set M \<and>
        (\<forall>n' \<in> fst ` set M. \<forall>v'. node_vmss nc n' = Some v' \<longrightarrow> getVMSSName v = getVMSSName v' \<longrightarrow> v = v'))"

lemma nodes_of_mem: "n \<in> set (nodes_of nc M v) \<longleftrightarrow> n \<in> fst ` set M \<and> node_vmss nc n = Some v"
  by (auto simp: nodes_of_def)

lemma scan_separate:
  assumes "wf_map M" "vmss_names_ok nc M" and wf: "wf_map vm"
    and vm: "\<And>v. mget0 [] vm v = nodes_of nc M v" "fst ` set vm = {v. nodes_of nc M v \<noteq> []}"
  shows "separate vm" "\<And>e. e \<in> set vm \<Longrightarrow> snd e = nodes_of nc M (fst e)"
proof -
  show ent: "snd e = nodes_of nc M (fst e)" if "e \<in> set vm" for e
    using that vm(1)[of "fst e"] map_of_mem_iff[OF wf, of "fst e" "snd e"] by (simp add: mget0_def)
  have mem: "fst e \<in> {v. nodes_of nc M v \<noteq> []}" if "e \<in> set vm" for e using that vm(2) by blast
  then have host: "\<exists>n \<in> fst ` set M. node_vmss nc n = Some (fst e)" if "e \<in> set vm" for e
    using that by (metis (mono_tags) last_in_set mem_Collect_eq nodes_of_mem)
  have "inj_on (getVMSSName \<circ> fst) (set vm)"
  proof (rule inj_onI)
    fix e e' assume e: "e \<in> set vm" "e' \<in> set vm" "(getVMSSName \<circ> fst) e = (getVMSSName \<circ> fst) e'"
    then have "fst e = fst e'" using host[of e] host[of e'] assms(2) unfolding vmss_names_ok_def by (metis comp_apply)
    then show "e = e'" using ent[OF e(1)] ent[OF e(2)] by (simp add: prod_eq_iff)
  qed
  then have "distinct (map (getVMSSName \<circ> fst) vm)"
    using wf by (auto simp: distinct_map)
  moreover have "distinct (concat (map snd vm))"
  proof -
    have "map snd vm = map (nodes_of nc M) (map fst vm)" using ent by (simp)
    moreover have "distinct (concat (map (nodes_of nc M) vs))" if "distinct vs" for vs
      using that assms(1) by (induction vs) (auto simp: nodes_of_def)
    ultimately show ?thesis using wf by metis
  qed
  moreover have "\<forall>e \<in> set vm. snd e \<noteq> []" using ent mem by auto
  moreover have "getVMSSName ` fst ` set vm \<inter> set (concat (map snd vm)) = {}"
  proof -
    have "n \<in> fst ` set M" if "n \<in> set (concat (map snd vm))" for n
      using that ent by (fastforce simp: nodes_of_mem)
    then show ?thesis using host assms(2) unfolding vmss_names_ok_def by blast
  qed
  ultimately show "separate vm" by (simp add: separate_def)
qed

lemma scan_nodes:
  assumes ent: "\<And>e. e \<in> set vm \<Longrightarrow> snd e = nodes_of nc M (fst e)" and keys: "fst ` set vm = {v. nodes_of nc M v \<noteq> []}"
  shows "n \<in> set (concat (map snd vm)) \<longleftrightarrow> n \<in> fst ` set M \<and> node_vmss nc n \<noteq> None"
proof
  assume "n \<in> set (concat (map snd vm))"
  then obtain e where "e \<in> set vm" "n \<in> set (snd e)" by auto
  then show "n \<in> fst ` set M \<and> node_vmss nc n \<noteq> None" using ent by (simp add: nodes_of_mem)
next
  assume n: "n \<in> fst ` set M \<and> node_vmss nc n \<noteq> None"
  then obtain v where v: "n \<in> set (nodes_of nc M v)" by (auto simp: nodes_of_mem)
  then have "v \<in> fst ` set vm" using keys by force
  then show "n \<in> set (concat (map snd vm))" using v ent by force
qed

lemma consolidate_map:
  assumes "wf_map M" "vmss_names_ok nc M" "consolidateVMSSNodes nc M = (M', cleanups)"
  shows "map_of M' k =
      (case List.find (\<lambda>n. map_option getVMSSName (node_vmss nc n) = Some k) (map fst M) of
         Some n \<Rightarrow> Some (vmss_track (map snd (filter (\<lambda>e. node_vmss nc (fst e) = node_vmss nc n) M)))
       | None \<Rightarrow> if node_gone nc k \<or> node_vmss nc k \<noteq> None then None else map_of M k) \<and>
    cleanups = filter (\<lambda>e. node_gone nc (fst e)) M"
proof -
  obtain M1 vm cl where scan: "fold (consolidate_scan nc) M (M, [], []) = (M1, vm, cl)" by (metis prod_cases3)
  then have M': "M' = fold aggregate_vmss vm M1" and cl: "cleanups = cl"
    using assms(3) by (auto simp: consolidateVMSSNodes_def)
  have facts: "\<And>k. map_of M1 k = (if k \<in> fst ` set M \<and> node_gone nc k then None else map_of M k)"
    "cl = filter (\<lambda>e. node_gone nc (fst e)) M" "\<And>v. mget0 [] vm v = nodes_of nc M v"
    "fst ` set vm = {v. nodes_of nc M v \<noteq> []}" "wf_map vm"
    using scan_fold[OF scan] by (simp_all add: case_prod_unfold mget0_def)
  note sep = scan_separate[OF assms(1,2) facts(5,3,4)]
  note in_vm = scan_nodes[OF sep(2) facts(4)]
  have kept: "mget0 zero_track M1 n = snd e" if "e \<in> set M" "fst e = n" "node_vmss nc n = Some v" for n e v
    using that gone_no_vmss[of nc n] facts(1)[of n] map_of_mem_iff[OF assms(1), of n "snd e"] by (auto simp: mget0_def)
  have tracks: "map (mget0 zero_track M1) (nodes_of nc M v) = map snd (filter (\<lambda>e. node_vmss nc (fst e) = Some v) M)" for v
    using kept by (auto simp: nodes_of_def filter_map comp_def)
  show ?thesis
  proof (cases "List.find (\<lambda>n. map_option getVMSSName (node_vmss nc n) = Some k) (map fst M)")
    case None
    then have no: "\<forall>n \<in> fst ` set M. map_option getVMSSName (node_vmss nc n) \<noteq> Some k"
      by (auto simp: find_None_iff)
    have "getVMSSName (fst e) \<noteq> k" if "e \<in> set vm" for e
    proof -
      have "fst e \<in> {v. nodes_of nc M v \<noteq> []}" using that facts(4) by blast
      then obtain n where "n \<in> set (nodes_of nc M (fst e))" by (metis list.set_intros(1) mem_Collect_eq neq_Nil_conv)
      then show ?thesis using no by (auto simp: nodes_of_mem)
    qed
    then have "List.find (\<lambda>e. getVMSSName (fst e) = k) vm = None" unfolding find_None_iff by blast
    then show ?thesis
      using aggregate_fold[OF sep(1), of M1 k] in_vm[of k] facts(1)[of k] None
      by (auto simp: M' cl facts(2) map_of_None_iff dest: gone_no_vmss)
  next
    case (Some n)
    then obtain v where n: "n \<in> fst ` set M" "node_vmss nc n = Some v" "getVMSSName v = k"
      by (auto simp: find_Some_iff)
    then have "nodes_of nc M v \<noteq> []" using nodes_of_mem[of n nc M v] by auto
    then have "v \<in> fst ` set vm" using facts(4) by simp
    then obtain e where e: "List.find (\<lambda>e. getVMSSName (fst e) = k) vm = Some e" "e \<in> set vm" "getVMSSName (fst e) = k"
      using n(3) by (cases "List.find (\<lambda>e. getVMSSName (fst e) = k) vm") (auto simp: find_None_iff find_Some_iff)
    obtain n' where n': "n' \<in> set (nodes_of nc M (fst e))"
      using facts(4) e(2) by (metis (mono_tags) image_eqI list.set_intros(1) mem_Collect_eq neq_Nil_conv)
    then have "fst e = v" using n e(3) assms(2) unfolding vmss_names_ok_def nodes_of_mem by metis
    then have "snd e = nodes_of nc M v" using sep(2)[OF e(2)] by simp
    moreover have "filter (\<lambda>e. node_vmss nc (fst e) = Some v) M \<noteq> []"
      using n by (auto simp: filter_empty_conv)
    ultimately show ?thesis
      using aggregate_fold[OF sep(1), of M1 k] Some e(1) n(2)
      by (simp add: M' cl facts(2) tracks merge_tracks_eq del: map_map)
  qed
qed

text \<open>
  (C22) \<^verbatim>\<open>consolidateVMSSNodes\<close> loses no work, if the nodes of the cycle that are in scale sets of the same name are in one scale set and no
  node has the name of a scale set (\<open>vmss_names_ok\<close>; without that it does, see \<open>consolidate_same_name\<close>): the entry of a scale set is all the work of its nodes, in order and
  marked as a scale set; a node of no scale set keeps its entry; the nodes of scale sets lose theirs; and
  the work of exactly the nodes that are gone is handed to clean-ups.
\<close>

theorem consolidate_exact:
  assumes "wf_map M" "vmss_names_ok nc M" "consolidateVMSSNodes nc M = (M', cleanups)"
  shows "map_of M' k =
      (case List.find (\<lambda>n. map_option getVMSSName (node_vmss nc n) = Some k) (map fst M) of
         Some n \<Rightarrow> Some (vmss_track (map snd (filter (\<lambda>e. node_vmss nc (fst e) = node_vmss nc n) M)))
       | None \<Rightarrow> if node_gone nc k \<or> node_vmss nc k \<noteq> None then None else map_of M k) \<and>
    cleanups = filter (\<lambda>e. node_gone nc (fst e)) M"
  by (rule consolidate_map[OF assms])

definition sample_nodes :: node_getter where
  "sample_nodes n =
     (if n = ''gone'' then Inl \<lparr>ne_IsNotFound = True, ne_Text = ''node not found''\<rparr>
      else Inr \<lparr>node_ProviderID = ''azure:///'' @
        (if n = ''vm'' then resource_path ''s1'' ''r'' ''p'' ''virtualMachines'' ''vm'' []
         else if n = ''far'' then resource_path ''s1'' ''q'' ''p'' ''virtualMachineScaleSets'' ''v'' [''virtualMachines'', ''0'']
         else resource_path ''s1'' ''r'' ''p'' ''virtualMachineScaleSets'' ''v'' [''virtualMachines'', ''0''])\<rparr>)"

lemma sample_nodes_vmss:
  "node_vmss sample_nodes n =
     (if n = ''gone'' \<or> n = ''vm'' then None else Some (if n = ''far'' then ''s1/q/v'' else ''s1/r/v''))"
  "node_gone sample_nodes n = (n = ''gone'')"
proof -
  have "list_all (\<lambda>c. to_lower_char c \<noteq> CHR ''s'') ''azure:///''"
    "list_all id_element ([''s1'', ''r'', ''p'', ''virtualMachines'', ''vm''] @ [])"
    "list_all id_element ([''s1'', ''q'', ''p'', ''virtualMachineScaleSets'', ''v''] @ [''virtualMachines'', ''0''])"
    "list_all id_element ([''s1'', ''r'', ''p'', ''virtualMachineScaleSets'', ''v''] @ [''virtualMachines'', ''0''])"
    by code_simp+
  from isVMSS_parts(1)[OF this(1,2)] isVMSS_parts(1)[OF this(1,3)] isVMSS_parts(1)[OF this(1,4)]
  show "node_vmss sample_nodes n =
     (if n = ''gone'' \<or> n = ''vm'' then None else Some (if n = ''far'' then ''s1/q/v'' else ''s1/r/v''))"
    by (simp add: node_vmss_def sample_nodes_def VMSSResourceType_def)
  show "node_gone sample_nodes n = (n = ''gone'')"
    by (simp add: node_gone_def sample_nodes_def)
qed

lemma sample_vmss_names: "getVMSSName ''s1/r/v'' = ''v''" "getVMSSName ''s1/q/v'' = ''v''"
  by code_simp+

definition add_only :: "string \<Rightarrow> trackUserAssignedMSIIds" where
  "add_only i = zero_track\<lparr>addUserAssignedMSIIDs := [i]\<rparr>"

theorem consolidate_exact_witness:
  "map_of (fst (consolidateVMSSNodes sample_nodes
       [(''a'', add_only ''i''), (''vm'', add_only ''j''), (''b'', add_only ''k''), (''gone'', add_only ''l'')])) ''v'' =
     Some (vmss_track [add_only ''i'', add_only ''k''])"
proof -
  let ?M = "[(''a'', add_only ''i''), (''vm'', add_only ''j''), (''b'', add_only ''k''), (''gone'', add_only ''l'')]"
  obtain M' cl where c: "consolidateVMSSNodes sample_nodes ?M = (M', cl)" by fastforce
  have "vmss_names_ok sample_nodes ?M"
    by (simp add: vmss_names_ok_def sample_nodes_vmss sample_vmss_names)
  from consolidate_exact[OF _ this c, of "''v''"] show ?thesis
    by (simp add: c sample_nodes_vmss sample_vmss_names)
qed

text \<open>
  Scale sets are told apart by their name only: of two scale sets of the same name in different resource
  groups only the work of one is kept, and the identity to assign on the other is never assigned.
\<close>

theorem consolidate_same_name:
  "map_of (fst (consolidateVMSSNodes sample_nodes [(''a'', add_only ''i''), (''far'', add_only ''k'')])) ''v'' =
     Some (vmss_track [add_only ''k'']) \<and>
   length (fst (consolidateVMSSNodes sample_nodes [(''a'', add_only ''i''), (''far'', add_only ''k'')])) = 1"
  by (simp add: consolidateVMSSNodes_def scan_cases sample_nodes_vmss put_node_def mget0_def aggregate_vmss_def
      aggregate_node_def sample_vmss_names vmss_track_def add_tracks_def add_only_def zero_track_def Let_def)

end
