(* ===== verification/GoTime.thy ===== *)
theory GoTime
  imports Prelude
begin

text \<open>
  Go's \<^verbatim>\<open>time\<close> and \<^verbatim>\<open>strconv\<close> as far as the program uses them.  An instant (\<^verbatim>\<open>time.Time\<close>) is an
  integer number of nanoseconds.  A \<^verbatim>\<open>time.Duration\<close> is a 64-bit signed number of nanoseconds, here an
  integer with the wrap-around of \<^verbatim>\<open>int64\<close> arithmetic (\<open>wrap64\<close>) and the saturation of \<^verbatim>\<open>Time.Sub\<close>
  (\<open>sat64\<close>) written out.
\<close>

section \<open>Durations\<close>

type_synonym Time = int
type_synonym Duration = int

definition MaxInt64 :: int where "MaxInt64 = 9223372036854775807"
definition MinInt64 :: int where "MinInt64 = - 9223372036854775808"

definition wrap64 :: "int \<Rightarrow> int" where
  "wrap64 x = (x - MinInt64) mod 18446744073709551616 + MinInt64"

definition sat64 :: "int \<Rightarrow> int" where
  "sat64 x = (if x > MaxInt64 then MaxInt64 else if x < MinInt64 then MinInt64 else x)"

definition time_Second :: Duration where "time_Second = 1000000000"

definition time_Sub :: "Time \<Rightarrow> Time \<Rightarrow> Duration" where
  "time_Sub t u = sat64 (t - u)"

definition time_Add :: "Time \<Rightarrow> Duration \<Rightarrow> Time" where
  "time_Add t d = t + d"

text \<open>The zero value of \<^verbatim>\<open>time.Time\<close>, January 1 of year 1, relative to 1970.\<close>

definition zero_Time :: Time where "zero_Time = - 62135596800000000000"

lemmas int64_defs = MaxInt64_def MinInt64_def

lemma wrap64_range: "MinInt64 \<le> wrap64 x \<and> wrap64 x \<le> MaxInt64"
  using pos_mod_bound[of 18446744073709551616 "x - MinInt64"] pos_mod_sign[of 18446744073709551616 "x - MinInt64"]
  by (simp add: wrap64_def int64_defs)

lemma sat64_range: "MinInt64 \<le> sat64 x \<and> sat64 x \<le> MaxInt64"
  by (simp add: sat64_def int64_defs)

lemma wrap64_id [simp]: "MinInt64 \<le> x \<Longrightarrow> x \<le> MaxInt64 \<Longrightarrow> wrap64 x = x"
  by (simp add: wrap64_def int64_defs)

lemma sat64_id [simp]: "MinInt64 \<le> x \<Longrightarrow> x \<le> MaxInt64 \<Longrightarrow> sat64 x = x"
  by (simp add: sat64_def)

section \<open>\<^verbatim>\<open>strconv.Atoi\<close>\<close>

definition is_digit :: "char \<Rightarrow> bool" where
  "is_digit c = (48 \<le> (of_char c :: nat) \<and> (of_char c :: nat) \<le> 57)"

definition digit_val :: "char \<Rightarrow> int" where
  "digit_val c = of_char c - 48"

definition decimal :: "string \<Rightarrow> int" where
  "decimal ds = fold (\<lambda>c n. 10 * n + digit_val c) ds 0"

text \<open>
  The value and whether there was an error: a syntax error leaves 0, a value out of range the nearest
  64-bit integer.
\<close>

definition atoi_digits :: "bool \<Rightarrow> string \<Rightarrow> int \<times> bool" where
  "atoi_digits neg ds =
     (if ds = [] \<or> \<not> list_all is_digit ds then (0, True)
      else let n = (if neg then - decimal ds else decimal ds) in (sat64 n, sat64 n \<noteq> n))"

definition strconv_Atoi :: "string \<Rightarrow> int \<times> bool" where
  "strconv_Atoi s =
     (case s of
        [] \<Rightarrow> (0, True)
      | c # cs \<Rightarrow>
          if c = CHR ''-'' then atoi_digits True cs
          else if c = CHR ''+'' then atoi_digits False cs
          else atoi_digits False s)"

lemma strconv_Atoi_range: "MinInt64 \<le> fst (strconv_Atoi s) \<and> fst (strconv_Atoi s) \<le> MaxInt64"
  using sat64_range
  by (auto simp: strconv_Atoi_def atoi_digits_def Let_def int64_defs split: list.splits)

end
