(* ===== verification/Stats.thy ===== *)
theory Stats
  imports GoTime
begin

text \<open>
  \<^verbatim>\<open>pkg/stats/stats.go\<close>.  The package variables are a record; before the first \<^verbatim>\<open>Init\<close> they are nil, which
  is \<open>None\<close>.  Every operation holds the package mutex for its whole body, so it is atomic.  \<^verbatim>\<open>Increment\<close>
  and the printing functions dereference the mutex without a nil check; for them \<open>None\<close> is also the
  result of the panic that follows.
\<close>

section \<open>Definitions\<close>

datatype StatType =
    Total | System | CacheSync | CurrentState | PodList | AzureIdentityBindingList | AzureIdentityList
  | AzurePodIdentityExceptionList | AzureAssignedIdentityList | CloudGet | CloudPatch | TotalPatchCalls
  | TotalGetCalls | TotalAzureAssignedIdentitiesCreated | TotalAzureAssignedIdentitiesUpdated
  | TotalAzureAssignedIdentitiesDeleted | FindAzureAssignedIdentitiesToDelete
  | FindAzureAssignedIdentitiesToCreate | DeleteAzureAssignedIdentity | CreateAzureAssignedIdentity
  | UpdateAzureAssignedIdentity | TotalAzureAssignedIdentitiesCreateOrUpdate

text \<open>The text of each key, which is what \<^verbatim>\<open>Print\<close> logs.\<close>

fun stat_text :: "StatType \<Rightarrow> string" where
  "stat_text Total = ''Total''"
| "stat_text System = ''System''"
| "stat_text CacheSync = ''CacheSync''"
| "stat_text CurrentState = ''Gather current state''"
| "stat_text PodList = ''Pod listing''"
| "stat_text AzureIdentityBindingList = ''AzureIdentityBinding listing''"
| "stat_text AzureIdentityList = ''AzureIdentity listing''"
| "stat_text AzurePodIdentityExceptionList = ''AzurePodIdentityException listing''"
| "stat_text AzureAssignedIdentityList = ''AzureAssignedIdentity listing''"
| "stat_text CloudGet = ''Cloud provider GET''"
| "stat_text CloudPatch = ''Cloud provider PATCH''"
| "stat_text TotalPatchCalls = ''Number of cloud provider PATCH''"
| "stat_text TotalGetCalls = ''Number of cloud provider GET''"
| "stat_text TotalAzureAssignedIdentitiesCreated =
     ''Number of AzureAssignedIdentities created in this sync cycle''"
| "stat_text TotalAzureAssignedIdentitiesUpdated =
     ''Number of AzureAssignedIdentities updated in this sync cycle''"
| "stat_text TotalAzureAssignedIdentitiesDeleted =
     ''Number of AzureAssignedIdentities deleted in this sync cycle''"
| "stat_text FindAzureAssignedIdentitiesToDelete = ''Find AzureAssignedIdentities to delete''"
| "stat_text FindAzureAssignedIdentitiesToCreate = ''Find AzureAssignedIdentities to create''"
| "stat_text DeleteAzureAssignedIdentity = ''AzureAssignedIdentity deletion''"
| "stat_text CreateAzureAssignedIdentity = ''AzureAssignedIdentity creation''"
| "stat_text UpdateAzureAssignedIdentity = ''AzureAssignedIdentity update''"
| "stat_text TotalAzureAssignedIdentitiesCreateOrUpdate =
     ''Total time to assign or update AzureAssignedIdentities''"

record minMaxTime =
  mm_min :: Time
  mm_max :: Time

record stats =
  globalStats :: "(StatType, Duration) gomap"
  minMaxTimeStats :: "(StatType, minMaxTime) gomap"
  countStats :: "(StatType, int) gomap"

definition stats_Init :: stats where
  "stats_Init = \<lparr>globalStats = [], minMaxTimeStats = [], countStats = []\<rparr>"

definition stats_Put :: "StatType \<Rightarrow> Duration \<Rightarrow> stats option \<Rightarrow> stats option" where
  "stats_Put key val st = map_option (\<lambda>s. s\<lparr>globalStats := mput key val (globalStats s)\<rparr>) st"

definition stats_Aggregate :: "StatType \<Rightarrow> Duration \<Rightarrow> stats option \<Rightarrow> stats option" where
  "stats_Aggregate key val st =
     map_option (\<lambda>s. s\<lparr>globalStats :=
       mput key (wrap64 (mget0 0 (globalStats s) key + val)) (globalStats s)\<rparr>) st"

definition aggregate_interval :: "StatType \<Rightarrow> Time \<Rightarrow> Time \<Rightarrow> stats \<Rightarrow> stats" where
  "aggregate_interval key begin_t end_t s =
     (let (mi, ma) = (case map_of (minMaxTimeStats s) key of
                        None \<Rightarrow> (begin_t, end_t)
                      | Some mm \<Rightarrow> (mm_min mm, mm_max mm));
          mi = (if begin_t < mi then begin_t else mi);
          ma = (if end_t > ma then end_t else ma)
      in s\<lparr>minMaxTimeStats := mput key \<lparr>mm_min = mi, mm_max = ma\<rparr> (minMaxTimeStats s),
           globalStats := mput key (time_Sub ma mi) (globalStats s)\<rparr>)"

definition stats_AggregateConcurrent :: "StatType \<Rightarrow> Time \<Rightarrow> Time \<Rightarrow> stats option \<Rightarrow> stats option" where
  "stats_AggregateConcurrent key begin_t end_t st = map_option (aggregate_interval key begin_t end_t) st"

definition increment_count :: "StatType \<Rightarrow> int \<Rightarrow> stats \<Rightarrow> stats" where
  "increment_count key n s =
     s\<lparr>countStats := mput key (wrap64 (mget0 0 (countStats s) key + n)) (countStats s)\<rparr>"

definition stats_Increment :: "StatType \<Rightarrow> int \<Rightarrow> stats option \<Rightarrow> stats option" where
  "stats_Increment key n st = (case st of None \<Rightarrow> None | Some s \<Rightarrow> Some (increment_count key n s))"

text \<open>What \<^verbatim>\<open>PrintSync\<close> logs: the durations and the counts, in order.\<close>

datatype stat_line = PrintLine StatType Duration | PrintCountLine StatType int

definition stats_Print :: "StatType \<Rightarrow> stats \<Rightarrow> stat_line" where
  "stats_Print key s = PrintLine key (mget0 0 (globalStats s) key)"

definition stats_PrintCount :: "StatType \<Rightarrow> stats \<Rightarrow> stat_line" where
  "stats_PrintCount key s = PrintCountLine key (mget0 0 (countStats s) key)"

definition stats_PrintSync :: "stats option \<Rightarrow> stat_line list" where
  "stats_PrintSync st =
     (case st of
        None \<Rightarrow> []
      | Some s \<Rightarrow>
          map (\<lambda>k. stats_Print k s)
            [PodList, AzureIdentityList, AzureIdentityBindingList, AzureAssignedIdentityList, System,
             CacheSync, CloudGet, CloudPatch, CreateAzureAssignedIdentity, UpdateAzureAssignedIdentity,
             DeleteAzureAssignedIdentity] @
          map (\<lambda>k. stats_PrintCount k s)
            [TotalPatchCalls, TotalGetCalls, TotalAzureAssignedIdentitiesCreated,
             TotalAzureAssignedIdentitiesUpdated, TotalAzureAssignedIdentitiesDeleted] @
          map (\<lambda>k. stats_Print k s)
            [FindAzureAssignedIdentitiesToCreate, FindAzureAssignedIdentitiesToDelete,
             TotalAzureAssignedIdentitiesCreateOrUpdate, Total])"

section \<open>Concurrent intervals\<close>

lemma aggregate_interval_step:
  "map_of (minMaxTimeStats (aggregate_interval key b e s)) key =
     Some (case map_of (minMaxTimeStats s) key of
             None \<Rightarrow> \<lparr>mm_min = b, mm_max = e\<rparr>
           | Some mm \<Rightarrow> \<lparr>mm_min = min b (mm_min mm), mm_max = max e (mm_max mm)\<rparr>)"
  by (auto simp: aggregate_interval_def Let_def min_def max_def split: option.splits)

lemma aggregate_interval_global:
  "map_of (globalStats (aggregate_interval key b e s)) key =
     map_option (\<lambda>mm. time_Sub (mm_max mm) (mm_min mm))
       (map_of (minMaxTimeStats (aggregate_interval key b e s)) key)"
  by (auto simp: aggregate_interval_def Let_def split: option.splits)

definition aggregate_all :: "StatType \<Rightarrow> (Time \<times> Time) list \<Rightarrow> stats \<Rightarrow> stats" where
  "aggregate_all key ivs s = fold (\<lambda>(b, e) s. aggregate_interval key b e s) ivs s"

lemma aggregate_all_snoc:
  "aggregate_all key (ivs @ [(b, e)]) s = aggregate_interval key b e (aggregate_all key ivs s)"
  by (simp add: aggregate_all_def)

lemma aggregate_all_bounds:
  assumes "map_of (minMaxTimeStats s) key = None"
  shows "ivs \<noteq> [] \<Longrightarrow> map_of (minMaxTimeStats (aggregate_all key ivs s)) key =
           Some \<lparr>mm_min = Min (fst ` set ivs), mm_max = Max (snd ` set ivs)\<rparr>"
proof (induction ivs rule: rev_induct)
  case (snoc iv ivs)
  obtain b e where iv: "iv = (b, e)" by fastforce
  show ?case
  proof (cases "ivs = []")
    case True
    then show ?thesis using assms iv
      by (simp add: aggregate_all_def aggregate_interval_step)
  next
    case False
    then show ?thesis using snoc.IH iv
      by (simp add: aggregate_all_snoc aggregate_interval_step)
  qed
qed simp

text \<open>
  However the concurrent calls of \<^verbatim>\<open>AggregateConcurrent\<close> for one key are ordered after an
  \<^verbatim>\<open>Init\<close>, the recorded duration runs from the earliest begin to the latest end.
\<close>

theorem aggregate_concurrent_span:
  "map_of (globalStats (aggregate_all key (iv # ivs) stats_Init)) key =
     Some (sat64 (Max (snd ` set (iv # ivs)) - Min (fst ` set (iv # ivs))))"
proof -
  have none: "map_of (minMaxTimeStats stats_Init) key = None" by (simp add: stats_Init_def)
  obtain b e init where s: "aggregate_all key (iv # ivs) stats_Init = aggregate_interval key b e init"
    by (metis aggregate_all_snoc append_butlast_last_id list.distinct(1) surj_pair)
  show ?thesis
    using aggregate_interval_global[of key b e init] aggregate_all_bounds[OF none, of "iv # ivs"]
    unfolding s[symmetric] by (simp add: time_Sub_def)
qed

end
