(* ===== verification/Metrics.thy ===== *)
theory Metrics
  imports GoTime
begin

text \<open>
  \<^verbatim>\<open>pkg/metrics/metrics.go\<close>: the measures, the operation names, the views and the reporter.  What
  OpenCensus has recorded is a list of measurements with their tags; \<^verbatim>\<open>tag.New\<close> may refuse a tag value and
  is the parameter \<open>tag_new\<close> (\<open>None\<close>: accepted).  Durations are nanoseconds, bucket boundaries hundredths
  of a second.  The reporter's mutex makes every report atomic.
\<close>

section \<open>Names and measures\<close>

definition AdalTokenFromMSIOperationName :: string where "AdalTokenFromMSIOperationName = ''adal_token_msi''"
definition AdalTokenFromMSIWithUserAssignedIDOperationName :: string where "AdalTokenFromMSIWithUserAssignedIDOperationName = ''adal_token_msi_userassignedid''"
definition AdalTokenOperationName :: string where "AdalTokenOperationName = ''adal_token''"
definition GetVmssOperationName :: string where "GetVmssOperationName = ''vmss_get''"
definition UpdateVMSSOperationName :: string where "UpdateVMSSOperationName = ''vmss_update''"
definition GetVMOperationName :: string where "GetVMOperationName = ''vm_get''"
definition UpdateVMOperationName :: string where "UpdateVMOperationName = ''vm_update''"
definition AssignedIdentityDeletionOperationName :: string where "AssignedIdentityDeletionOperationName = ''assigned_identity_deletion''"
definition AssignedIdentityAdditionOperationName :: string where "AssignedIdentityAdditionOperationName = ''assigned_identity_addition''"
definition AssignedIdentityUpdateOperationName :: string where "AssignedIdentityUpdateOperationName = ''assigned_identity_update''"
definition UpdateAzureAssignedIdentityStatusOperationName :: string where "UpdateAzureAssignedIdentityStatusOperationName = ''update_azure_assigned_identity_status''"
definition GetPodListOperationName :: string where "GetPodListOperationName = ''get_pod_list''"
definition GetSecretOperationName :: string where "GetSecretOperationName = ''get_secret''"

lemmas operation_name_defs =
  AdalTokenFromMSIOperationName_def
  AdalTokenFromMSIWithUserAssignedIDOperationName_def
  AdalTokenOperationName_def
  GetVmssOperationName_def
  UpdateVMSSOperationName_def
  GetVMOperationName_def
  UpdateVMOperationName_def
  AssignedIdentityDeletionOperationName_def
  AssignedIdentityAdditionOperationName_def
  AssignedIdentityUpdateOperationName_def
  UpdateAzureAssignedIdentityStatusOperationName_def
  GetPodListOperationName_def
  GetSecretOperationName_def

datatype Measure =
    AssignedIdentityAdditionDurationM
  | AssignedIdentityAdditionCountM
  | AssignedIdentityDeletionDurationM
  | AssignedIdentityDeletionCountM
  | NMIOperationsDurationM
  | MICCycleDurationM
  | MICCycleCountM
  | MICNewLeaderElectionCountM
  | CloudProviderOperationsErrorsCountM
  | CloudProviderOperationsDurationM
  | KubernetesAPIOperationsErrorsCountM
  | ImdsOperationsErrorsCountM
  | ImdsOperationsDurationM
  | AssignedIdentityUpdateDurationM
  | AssignedIdentityUpdateCountM

fun measure_name :: "Measure \<Rightarrow> string" where
  "measure_name AssignedIdentityAdditionDurationM = ''assigned_identity_addition_duration_seconds''"
| "measure_name AssignedIdentityAdditionCountM = ''assigned_identity_addition_count''"
| "measure_name AssignedIdentityDeletionDurationM = ''assigned_identity_deletion_duration_seconds''"
| "measure_name AssignedIdentityDeletionCountM = ''assigned_identity_deletion_count''"
| "measure_name NMIOperationsDurationM = ''nmi_operations_duration_seconds''"
| "measure_name MICCycleDurationM = ''mic_cycle_duration_seconds''"
| "measure_name MICCycleCountM = ''mic_cycle_count''"
| "measure_name MICNewLeaderElectionCountM = ''mic_new_leader_election_count''"
| "measure_name CloudProviderOperationsErrorsCountM = ''cloud_provider_operations_errors_count''"
| "measure_name CloudProviderOperationsDurationM = ''cloud_provider_operations_duration_seconds''"
| "measure_name KubernetesAPIOperationsErrorsCountM = ''kubernetes_api_operations_errors_count''"
| "measure_name ImdsOperationsErrorsCountM = ''imds_operations_errors_count''"
| "measure_name ImdsOperationsDurationM = ''imds_operations_duration_seconds''"
| "measure_name AssignedIdentityUpdateDurationM = ''assigned_identity_update_duration_seconds''"
| "measure_name AssignedIdentityUpdateCountM = ''assigned_identity_update_count''"

definition operationTypeKey :: string where "operationTypeKey = ''operation_type''"
definition statusCodeKey :: string where "statusCodeKey = ''status_code''"
definition namespaceKey :: string where "namespaceKey = ''namespace''"
definition resourceKey :: string where "resourceKey = ''resource''"

lemmas tag_key_defs = operationTypeKey_def statusCodeKey_def namespaceKey_def resourceKey_def

section \<open>Views\<close>

datatype Aggregation = Count | Distribution "int list"

record View =
  v_Measure :: Measure
  v_Aggregation :: Aggregation
  v_TagKeys :: "string list"

definition fine_buckets :: "int list" where
  "fine_buckets = [1, 2, 5, 10, 20, 30, 40, 50, 60, 70, 80, 90, 100, 200, 300, 400, 500, 1000]"

definition nmi_buckets :: "int list" where
  "nmi_buckets = [50, 100, 200, 300, 400, 500, 1000, 1500, 2000, 2500, 3000, 4000, 5000, 6000, 7000, 8000, 9000, 10000]"

definition cycle_buckets :: "int list" where
  "cycle_buckets = [50, 100, 500, 1000, 3000, 6000, 12000, 30000, 60000, 90000, 120000]"

definition registerViews :: "View list" where
  "registerViews =
     [\<lparr>v_Measure = AssignedIdentityAdditionDurationM, v_Aggregation = Distribution fine_buckets,
       v_TagKeys = []\<rparr>,
      \<lparr>v_Measure = AssignedIdentityAdditionCountM, v_Aggregation = Count,
       v_TagKeys = []\<rparr>,
      \<lparr>v_Measure = AssignedIdentityDeletionDurationM, v_Aggregation = Distribution fine_buckets,
       v_TagKeys = []\<rparr>,
      \<lparr>v_Measure = AssignedIdentityDeletionCountM, v_Aggregation = Count,
       v_TagKeys = []\<rparr>,
      \<lparr>v_Measure = NMIOperationsDurationM, v_Aggregation = Distribution nmi_buckets,
       v_TagKeys = [operationTypeKey, statusCodeKey, namespaceKey, resourceKey]\<rparr>,
      \<lparr>v_Measure = MICCycleDurationM, v_Aggregation = Distribution cycle_buckets,
       v_TagKeys = []\<rparr>,
      \<lparr>v_Measure = MICCycleCountM, v_Aggregation = Count,
       v_TagKeys = []\<rparr>,
      \<lparr>v_Measure = MICNewLeaderElectionCountM, v_Aggregation = Count,
       v_TagKeys = []\<rparr>,
      \<lparr>v_Measure = CloudProviderOperationsErrorsCountM, v_Aggregation = Count,
       v_TagKeys = [operationTypeKey]\<rparr>,
      \<lparr>v_Measure = CloudProviderOperationsDurationM, v_Aggregation = Distribution cycle_buckets,
       v_TagKeys = [operationTypeKey]\<rparr>,
      \<lparr>v_Measure = KubernetesAPIOperationsErrorsCountM, v_Aggregation = Count,
       v_TagKeys = [operationTypeKey]\<rparr>,
      \<lparr>v_Measure = ImdsOperationsErrorsCountM, v_Aggregation = Count,
       v_TagKeys = [operationTypeKey]\<rparr>,
      \<lparr>v_Measure = ImdsOperationsDurationM, v_Aggregation = Distribution fine_buckets,
       v_TagKeys = [operationTypeKey]\<rparr>,
      \<lparr>v_Measure = AssignedIdentityUpdateDurationM, v_Aggregation = Distribution fine_buckets,
       v_TagKeys = []\<rparr>,
      \<lparr>v_Measure = AssignedIdentityUpdateCountM, v_Aggregation = Count,
       v_TagKeys = []\<rparr>]"

section \<open>The reporter\<close>

record Measurement =
  ms_Measure :: Measure
  ms_Value :: int
  ms_Tags :: "(string, string) gomap"

type_synonym recorded = "Measurement list"
type_synonym tag_new = "(string \<times> string) list \<Rightarrow> string option"

definition M :: "Measure \<Rightarrow> int \<Rightarrow> Measurement" where
  "M m v = \<lparr>ms_Measure = m, ms_Value = v, ms_Tags = []\<rparr>"

definition metrics_record :: "(string, string) gomap \<Rightarrow> Measurement list \<Rightarrow> recorded \<Rightarrow> recorded" where
  "metrics_record tags ms rec = rec @ map (\<lambda>m. m\<lparr>ms_Tags := tags\<rparr>) ms"

text \<open>A new reporter: the context without tags, or the error of \<^verbatim>\<open>tag.New\<close>.\<close>

definition NewReporter :: "tag_new \<Rightarrow> (string, (string, string) gomap) result" where
  "NewReporter tagNew = (case tagNew [] of Some err \<Rightarrow> Inl err | None \<Rightarrow> Inr [])"

definition Report :: "Measurement list \<Rightarrow> recorded \<Rightarrow> recorded" where
  "Report ms rec = metrics_record [] ms rec"

definition ReportOperationAndStatus ::
  "tag_new \<Rightarrow> string \<Rightarrow> string \<Rightarrow> string \<Rightarrow> string \<Rightarrow> Measurement list \<Rightarrow> recorded \<Rightarrow> string option \<times> recorded" where
  "ReportOperationAndStatus tag_new operationType statusCode namespace resource ms rec =
     (let tags = [(operationTypeKey, operationType), (statusCodeKey, statusCode),
                  (namespaceKey, namespace), (resourceKey, resource)] in
      case tag_new tags of
        Some err \<Rightarrow> (Some err, rec)
      | None \<Rightarrow> (None, metrics_record tags ms rec))"

definition ReportOperation :: "tag_new \<Rightarrow> string \<Rightarrow> Measurement \<Rightarrow> recorded \<Rightarrow> string option \<times> recorded" where
  "ReportOperation tag_new operationType measurement rec =
     (let tags = [(operationTypeKey, operationType)] in
      case tag_new tags of
        Some err \<Rightarrow> (Some err, rec)
      | None \<Rightarrow> (None, metrics_record tags [measurement] rec))"

definition ReportIMDSOperationError :: "tag_new \<Rightarrow> string \<Rightarrow> recorded \<Rightarrow> string option \<times> recorded" where
  "ReportIMDSOperationError tag_new operation rec =
     ReportOperation tag_new operation (M ImdsOperationsErrorsCountM 1) rec"

definition ReportIMDSOperationDuration :: "tag_new \<Rightarrow> string \<Rightarrow> Duration \<Rightarrow> recorded \<Rightarrow> string option \<times> recorded" where
  "ReportIMDSOperationDuration tag_new operation d rec =
     ReportOperation tag_new operation (M ImdsOperationsDurationM d) rec"

definition ReportCloudProviderOperationError :: "tag_new \<Rightarrow> string \<Rightarrow> recorded \<Rightarrow> string option \<times> recorded" where
  "ReportCloudProviderOperationError tag_new operation rec =
     ReportOperation tag_new operation (M CloudProviderOperationsErrorsCountM 1) rec"

definition ReportCloudProviderOperationDuration ::
  "tag_new \<Rightarrow> string \<Rightarrow> Duration \<Rightarrow> recorded \<Rightarrow> string option \<times> recorded" where
  "ReportCloudProviderOperationDuration tag_new operation d rec =
     ReportOperation tag_new operation (M CloudProviderOperationsDurationM d) rec"

definition ReportKubernetesAPIOperationError :: "tag_new \<Rightarrow> string \<Rightarrow> recorded \<Rightarrow> string option \<times> recorded" where
  "ReportKubernetesAPIOperationError tag_new operation rec =
     ReportOperation tag_new operation (M KubernetesAPIOperationsErrorsCountM 1) rec"

lemmas report_defs = ReportIMDSOperationError_def ReportIMDSOperationDuration_def
  ReportCloudProviderOperationError_def ReportCloudProviderOperationDuration_def
  ReportKubernetesAPIOperationError_def

section \<open>Views and reports fit\<close>

text \<open>The view that collects a measure.\<close>

definition view_of :: "Measure \<Rightarrow> View option" where
  "view_of m = find (\<lambda>v. v_Measure v = m) registerViews"

text \<open>
  The views cover the measures: every measure has exactly one view, no two views share an exported
  name, and the bucket boundaries of every distribution are strictly increasing.
\<close>

theorem registerViews_cover:
  "length (filter (\<lambda>v. v_Measure v = m) registerViews) = 1 \<and>
   distinct (map (measure_name \<circ> v_Measure) registerViews) \<and>
   list_all (\<lambda>v. case v_Aggregation v of Count \<Rightarrow> True | Distribution bs \<Rightarrow> sorted_wrt (<) bs) registerViews"
proof (intro conjI)
  show "length (filter (\<lambda>v. v_Measure v = m) registerViews) = 1"
    by (cases m) (simp_all add: registerViews_def)
  show "distinct (map (measure_name \<circ> v_Measure) registerViews)"
    by (simp add: registerViews_def)
  show "list_all (\<lambda>v. case v_Aggregation v of Count \<Rightarrow> True | Distribution bs \<Rightarrow> sorted_wrt (<) bs) registerViews"
    by (simp add: registerViews_def fine_buckets_def nmi_buckets_def cycle_buckets_def)
qed

definition view_tags_of :: "Measure \<Rightarrow> string list option" where
  "view_tags_of m = map_option v_TagKeys (view_of m)"

lemma view_tags:
  "view_tags_of ImdsOperationsErrorsCountM = Some [operationTypeKey]"
  "view_tags_of ImdsOperationsDurationM = Some [operationTypeKey]"
  "view_tags_of CloudProviderOperationsErrorsCountM = Some [operationTypeKey]"
  "view_tags_of CloudProviderOperationsDurationM = Some [operationTypeKey]"
  "view_tags_of KubernetesAPIOperationsErrorsCountM = Some [operationTypeKey]"
  "view_tags_of NMIOperationsDurationM =
     Some [operationTypeKey, statusCodeKey, namespaceKey, resourceKey]"
  by (simp_all add: view_tags_of_def view_of_def registerViews_def)

lemma reported_operation:
  "drop (length rec) (snd (ReportOperation tag_new op m rec)) =
     (if tag_new [(operationTypeKey, op)] = None then [m\<lparr>ms_Tags := [(operationTypeKey, op)]\<rparr>] else [])"
  by (simp add: ReportOperation_def metrics_record_def Let_def split: option.split)

lemma reported_status:
  "list_all (\<lambda>m. ms_Measure m = NMIOperationsDurationM \<and>
       map fst (ms_Tags m) = [operationTypeKey, statusCodeKey, namespaceKey, resourceKey])
     (drop (length rec) (snd (ReportOperationAndStatus tag_new op code ns res [M NMIOperationsDurationM d] rec)))"
  by (simp add: ReportOperationAndStatus_def metrics_record_def Let_def M_def split: option.split)

text \<open>
  Every report carries exactly the tags that the view of its measure breaks the data down by, so no
  recorded measurement is dropped from its view or merged into the wrong row.
\<close>

theorem reports_match_views:
  "list_all (\<lambda>report. list_all (\<lambda>m. view_tags_of (ms_Measure m) = Some (map fst (ms_Tags m)))
       (drop (length rec) (snd (report rec))))
     [ReportIMDSOperationError tag_new op, ReportIMDSOperationDuration tag_new op d,
      ReportCloudProviderOperationError tag_new op, ReportCloudProviderOperationDuration tag_new op d,
      ReportKubernetesAPIOperationError tag_new op,
      ReportOperationAndStatus tag_new op code ns res [M NMIOperationsDurationM d]]"
proof -
  have "list_all (\<lambda>m. view_tags_of (ms_Measure m) = Some (map fst (ms_Tags m)))
      (drop (length rec) (snd (ReportOperationAndStatus tag_new op code ns res [M NMIOperationsDurationM d] rec)))"
    by (rule list.pred_mono_strong[OF reported_status]) (simp only: view_tags)
  then show ?thesis by (simp add: report_defs reported_operation M_def view_tags)
qed

end
