(* ===== verification/Semaphore.thy ===== *)
theory Semaphore
  imports Prelude
begin

text \<open>
  Goroutines under a weighted semaphore, as \<^verbatim>\<open>updateUserMSI\<close> of \<^verbatim>\<open>pkg/mic/mic.go\<close> starts them: the loop takes a token
  (\<^verbatim>\<open>Acquire(ctx, 1)\<close>), starts the goroutine, whose deferred \<^verbatim>\<open>Release(1)\<close> gives the token back when its body is done, and
  the code after the loop waits for all of them by taking every token.

  The semaphore is that of \<^verbatim>\<open>golang.org/x/sync\<close>, and what it grants is a parameter: \<open>grants size held n\<close> says that \<^verbatim>\<open>Acquire(ctx, n)\<close>
  returns when \<open>held\<close> of \<open>size\<close> tokens are taken; otherwise the caller waits, as its context is never cancelled.
  \<open>weighted_semaphore\<close> is the documented behaviour: it is granted when the tokens are free.  The scheduler of the runtime
  is the parameter \<open>switch\<close>: at every \<^verbatim>\<open>Acquire\<close> it picks a running goroutine that finishes first (a number below that of the
  running goroutines) or lets the caller go on (any other number).  A caller that waits goes on only after a goroutine has finished; when none is
  running it waits for ever, and the result is \<open>None\<close>.
\<close>

section \<open>The semaphore and the goroutines\<close>

record Weighted =
  sem_size :: int
  sem_held :: int

definition NewWeighted :: "int \<Rightarrow> Weighted" where
  "NewWeighted n = \<lparr>sem_size = n, sem_held = 0\<rparr>"

definition sem_Acquire :: "(int \<Rightarrow> int \<Rightarrow> int \<Rightarrow> bool) \<Rightarrow> int \<Rightarrow> Weighted \<Rightarrow> Weighted option" where
  "sem_Acquire grants n sem =
     (if grants (sem_size sem) (sem_held sem) n then Some (sem\<lparr>sem_held := sem_held sem + n\<rparr>) else None)"

definition sem_Release :: "int \<Rightarrow> Weighted \<Rightarrow> Weighted" where
  "sem_Release n sem = sem\<lparr>sem_held := sem_held sem - n\<rparr>"

definition weighted_semaphore :: "(int \<Rightarrow> int \<Rightarrow> int \<Rightarrow> bool) \<Rightarrow> bool" where
  "weighted_semaphore grants \<longleftrightarrow> (\<forall>size held n. grants size held n \<longleftrightarrow> held + n \<le> size)"

text \<open>A goroutine that runs to its end: its body, then the deferred \<^verbatim>\<open>Release(1)\<close>.\<close>

definition goroutine :: "('s \<Rightarrow> 's) \<Rightarrow> Weighted \<times> 's \<Rightarrow> Weighted \<times> 's" where
  "goroutine body x = (case x of (sem, s) \<Rightarrow> (sem_Release 1 sem, body s))"

definition drop_nth :: "nat \<Rightarrow> 'a list \<Rightarrow> 'a list" where
  "drop_nth i xs = take i xs @ drop (Suc i) xs"

text \<open>\<^verbatim>\<open>Acquire(ctx, n)\<close> while the goroutines of a list are running; the result are those that still run.\<close>

function wait_Acquire ::
  "(int \<Rightarrow> int \<Rightarrow> int \<Rightarrow> bool) \<Rightarrow> ('s \<Rightarrow> nat \<Rightarrow> nat) \<Rightarrow> int \<Rightarrow> ('s \<Rightarrow> 's) list \<Rightarrow> Weighted \<times> 's \<Rightarrow>
     (('s \<Rightarrow> 's) list \<times> Weighted \<times> 's) option" where
  "wait_Acquire grants switch n running (sem, s) =
     (let next = switch s (length running) in
      if next < length running then
        wait_Acquire grants switch n (drop_nth next running) (goroutine (running ! next) (sem, s))
      else
        (case sem_Acquire grants n sem of
           Some sem' \<Rightarrow> Some (running, sem', s)
         | None \<Rightarrow>
             if running = [] then None
             else wait_Acquire grants switch n (drop_nth 0 running) (goroutine (running ! 0) (sem, s))))"
  by pat_completeness auto
termination
  by (relation "measure (\<lambda>(grants, switch, n, running, x). length running)") (auto simp: drop_nth_def)

declare wait_Acquire.simps [simp del]

text \<open>A loop that starts one goroutine per element.\<close>

fun go_each ::
  "(int \<Rightarrow> int \<Rightarrow> int \<Rightarrow> bool) \<Rightarrow> ('s \<Rightarrow> nat \<Rightarrow> nat) \<Rightarrow> ('a \<Rightarrow> 's \<Rightarrow> 's) \<Rightarrow> 'a list \<Rightarrow> ('s \<Rightarrow> 's) list \<Rightarrow> Weighted \<times> 's \<Rightarrow>
     (('s \<Rightarrow> 's) list \<times> Weighted \<times> 's) option" where
  "go_each grants switch body [] running x = Some (running, x)"
| "go_each grants switch body (a # as) running x =
     (case wait_Acquire grants switch 1 running x of
        None \<Rightarrow> None
      | Some (running, x) \<Rightarrow> go_each grants switch body as (running @ [body a]) x)"

section \<open>Every goroutine runs once, and the semaphore counts them\<close>

text \<open>The tokens taken are those of the running goroutines.\<close>

abbreviation counted :: "Weighted \<Rightarrow> ('s \<Rightarrow> 's) list \<Rightarrow> bool" where
  "counted sem running \<equiv> sem_held sem = int (length running)"

abbreviation run_all :: "('s \<Rightarrow> 's) list \<Rightarrow> 's \<Rightarrow> 's" where
  "run_all \<equiv> fold (\<lambda>f. f)"

lemma drop_nth_mset: "i < length xs \<Longrightarrow> mset xs = add_mset (xs ! i) (mset (drop_nth i xs))"
  by (metis add_mset_add_single drop_nth_def id_take_nth_drop mset.simps(2) mset_append union_mset_add_mset_right)

lemma drop_nth_length: "i < length xs \<Longrightarrow> length (drop_nth i xs) = length xs - 1"
  by (simp add: drop_nth_def)

lemma goroutine_counted:
  assumes "i < length running" "counted sem running"
  shows "goroutine (running ! i) (sem, s) = (sem_Release 1 sem, (running ! i) s)"
    "counted (sem_Release 1 sem) (drop_nth i running)" "sem_size (sem_Release 1 sem) = sem_size sem"
  using assms by (auto simp: goroutine_def sem_Release_def drop_nth_length)

lemma wait_Acquire_sound:
  assumes "wait_Acquire grants switch n running x = Some (running', x')" "weighted_semaphore grants" "counted (fst x) running"
  shows "\<exists>done. mset running = mset done + mset running' \<and> snd x' = run_all done (snd x) \<and>
    sem_size (fst x') = sem_size (fst x) \<and> sem_held (fst x') = int (length running') + n \<and> sem_held (fst x') \<le> sem_size (fst x)"
  using assms
proof (induction grants switch n running x arbitrary: rule: wait_Acquire.induct)
  case (1 grants switch n running sem s)
  have later: ?case if i: "i < length running"
    and run: "wait_Acquire grants switch n (drop_nth i running) (goroutine (running ! i) (sem, s)) = Some (running', x')"
    and IH: "wait_Acquire grants switch n (drop_nth i running) (goroutine (running ! i) (sem, s)) = Some (running', x') \<Longrightarrow>
      weighted_semaphore grants \<Longrightarrow> counted (fst (goroutine (running ! i) (sem, s))) (drop_nth i running) \<Longrightarrow>
      \<exists>done. mset (drop_nth i running) = mset done + mset running' \<and> snd x' = run_all done (snd (goroutine (running ! i) (sem, s))) \<and>
        sem_size (fst x') = sem_size (fst (goroutine (running ! i) (sem, s))) \<and> sem_held (fst x') = int (length running') + n \<and>
        sem_held (fst x') \<le> sem_size (fst (goroutine (running ! i) (sem, s)))" for i
  proof -
    have c: "counted sem running" using "1.prems"(3) by simp
    note g = goroutine_counted[OF i c]
    obtain "done" where d: "mset (drop_nth i running) = mset done + mset running'" "snd x' = run_all done ((running ! i) s)"
      "sem_size (fst x') = sem_size sem" "sem_held (fst x') = int (length running') + n" "sem_held (fst x') \<le> sem_size sem"
      using IH[OF run "1.prems"(2)] g by auto
    have "mset running = mset ((running ! i) # done) + mset running'" using drop_nth_mset[OF i] d(1) by simp
    then show ?thesis using d(2-5) by (intro exI[of _ "(running ! i) # done"]) simp
  qed
  show ?case
  proof (cases "switch s (length running) < length running")
    case True
    then have "wait_Acquire grants switch n (drop_nth (switch s (length running)) running) (goroutine (running ! switch s (length running)) (sem, s)) =
        Some (running', x')" using "1.prems"(1) by (simp add: wait_Acquire.simps Let_def)
    from later[OF True this] "1.IH"(1)[OF refl True] show ?thesis by blast
  next
    case False
    show ?thesis
    proof (cases "sem_Acquire grants n sem")
      case (Some sem')
      then have "running' = running" "x' = (sem', s)" using "1.prems"(1) False by (simp_all add: wait_Acquire.simps Let_def)
      moreover have "sem' = sem\<lparr>sem_held := sem_held sem + n\<rparr>" "sem_held sem + n \<le> sem_size sem"
        using Some "1.prems"(2) by (auto simp: sem_Acquire_def weighted_semaphore_def split: if_splits)
      ultimately show ?thesis using "1.prems"(3) by (intro exI[of _ "[]"]) simp
    next
      case None
      then have ne: "running \<noteq> []" and run: "wait_Acquire grants switch n (drop_nth 0 running) (goroutine (running ! 0) (sem, s)) = Some (running', x')"
        using "1.prems"(1) False by (simp_all add: wait_Acquire.simps Let_def split: if_splits)
      have "0 < length running" using ne by simp
      from later[OF this run] "1.IH"(2)[OF refl False None ne] show ?thesis by blast
    qed
  qed
qed

text \<open>A wait for tokens that can be free at all ends.\<close>

lemma wait_Acquire_returns:
  assumes "weighted_semaphore grants" "counted (fst x) running" "n \<le> sem_size (fst x)"
  shows "\<exists>y. wait_Acquire grants switch n running x = Some y"
  using assms
proof (induction grants switch n running x rule: wait_Acquire.induct)
  case (1 grants switch n running sem s)
  have c: "counted sem running" "n \<le> sem_size sem" using "1.prems" by simp_all
  show ?case
  proof (cases "switch s (length running) < length running")
    case True
    note g = goroutine_counted[OF True c(1)]
    have "\<exists>y. wait_Acquire grants switch n (drop_nth (switch s (length running)) running) (goroutine (running ! switch s (length running)) (sem, s)) = Some y"
      using "1.IH"(1)[OF refl True] "1.prems"(1) g c(2) by simp
    then show ?thesis using True by (simp add: wait_Acquire.simps[of grants switch n running] Let_def)
  next
    case False
    show ?thesis
    proof (cases "sem_Acquire grants n sem")
      case None
      then have ne: "running \<noteq> []" using c "1.prems"(1) by (auto simp: sem_Acquire_def weighted_semaphore_def split: if_splits)
      then have "0 < length running" by simp
      note g = goroutine_counted[OF this c(1)]
      have "\<exists>y. wait_Acquire grants switch n (drop_nth 0 running) (goroutine (running ! 0) (sem, s)) = Some y"
        using "1.IH"(2)[OF refl False None ne] "1.prems"(1) g c(2) by simp
      then show ?thesis using False None ne by (simp add: wait_Acquire.simps[of grants switch n running] Let_def)
    qed (use False in \<open>simp add: wait_Acquire.simps Let_def\<close>)
  qed
qed

text \<open>Without a token the first wait never ends.\<close>

lemma wait_Acquire_blocked:
  "weighted_semaphore grants \<Longrightarrow> sem_size sem < sem_held sem + n \<Longrightarrow> wait_Acquire grants switch n [] (sem, s) = None"
  by (simp add: wait_Acquire.simps sem_Acquire_def weighted_semaphore_def)

section \<open>Loops of goroutines\<close>

text \<open>\<open>loop_state batch jobs s running x\<close>: of the goroutines \<open>jobs\<close>, started in state \<open>s\<close>, those in \<open>running\<close> are not done yet, the others
  have run in some order and led to the state of \<open>x\<close>, and there is a token for each that runs.\<close>

definition loop_state :: "int \<Rightarrow> ('s \<Rightarrow> 's) list \<Rightarrow> 's \<Rightarrow> ('s \<Rightarrow> 's) list \<Rightarrow> Weighted \<times> 's \<Rightarrow> bool" where
  "loop_state batch jobs s running x \<longleftrightarrow>
     (\<exists>done. mset jobs = mset done + mset running \<and> snd x = run_all done s) \<and>
     counted (fst x) running \<and> sem_size (fst x) = batch \<and> (running \<noteq> [] \<longrightarrow> int (length running) \<le> batch)"

lemma loop_start: "loop_state batch [] s [] (NewWeighted batch, s)"
  by (simp add: loop_state_def NewWeighted_def)

lemma go_each_sound:
  assumes "weighted_semaphore grants" "loop_state batch jobs s running x" "go_each grants switch body as running x = Some (running', x')"
  shows "loop_state batch (jobs @ map body as) s running' x'"
  using assms(2,3)
proof (induction as arbitrary: jobs running x)
  case (Cons a as)
  obtain r y where w: "wait_Acquire grants switch 1 running x = Some (r, y)" and rest: "go_each grants switch body as (r @ [body a]) y = Some (running', x')"
    using Cons.prems(2) by (auto split: option.splits)
  obtain d0 where d0: "mset jobs = mset d0 + mset running" "snd x = run_all d0 s" "counted (fst x) running" "sem_size (fst x) = batch"
    using Cons.prems(1) by (auto simp: loop_state_def)
  obtain d1 where d1: "mset running = mset d1 + mset r" "snd y = run_all d1 (snd x)" "sem_size (fst y) = sem_size (fst x)"
    "sem_held (fst y) = int (length r) + 1" "sem_held (fst y) \<le> sem_size (fst x)"
    using wait_Acquire_sound[OF w assms(1) d0(3)] by blast
  have "mset (jobs @ [body a]) = mset (d0 @ d1) + mset (r @ [body a])" using d0(1) d1(1) by simp
  moreover have "snd y = run_all (d0 @ d1) s" using d0(2) d1(2) by simp
  ultimately have "loop_state batch (jobs @ [body a]) s (r @ [body a]) y"
    using d0(4) d1(3-5) unfolding loop_state_def by (intro conjI exI[of _ "d0 @ d1"]) simp_all
  from Cons.IH[OF this rest] show ?case by simp
qed simp

lemma go_each_returns:
  assumes "weighted_semaphore grants" "1 \<le> batch" "loop_state batch jobs s running x"
  shows "\<exists>y. go_each grants switch body as running x = Some y"
  using assms(3)
proof (induction as arbitrary: jobs running x)
  case (Cons a as)
  have x: "counted (fst x) running" "sem_size (fst x) = batch" using Cons.prems by (simp_all add: loop_state_def)
  then obtain r y where w: "wait_Acquire grants switch 1 running x = Some (r, y)"
    using wait_Acquire_returns[OF assms(1) x(1), of 1 switch] assms(2) by auto
  then have "go_each grants switch body [a] running x = Some (r @ [body a], y)" by simp
  from go_each_sound[OF assms(1) Cons.prems this] show ?case using Cons.IH w by simp
qed simp

text \<open>The wait at the end, for all tokens, leaves no goroutine running.\<close>

lemma wait_all_sound:
  assumes "weighted_semaphore grants" "loop_state batch jobs s running x" "wait_Acquire grants switch batch running x = Some (running', x')"
  shows "running' = [] \<and> (\<exists>order. mset order = mset jobs \<and> snd x' = run_all order s)"
proof -
  obtain d0 where d0: "mset jobs = mset d0 + mset running" "snd x = run_all d0 s" "counted (fst x) running" "sem_size (fst x) = batch"
    using assms(2) by (auto simp: loop_state_def)
  obtain d1 where d1: "mset running = mset d1 + mset running'" "snd x' = run_all d1 (snd x)"
    "sem_held (fst x') = int (length running') + batch" "sem_held (fst x') \<le> sem_size (fst x)"
    using wait_Acquire_sound[OF assms(3,1) d0(3)] by blast
  have none: "running' = []" using d0(4) d1(3,4) by simp
  moreover have "mset (d0 @ d1) = mset jobs" using d0(1) d1(1) none by simp
  moreover have "snd x' = run_all (d0 @ d1) s" using d0(2) d1(2) by simp
  ultimately show ?thesis by blast
qed

lemma wait_all_returns:
  assumes "weighted_semaphore grants" "loop_state batch jobs s running x"
  shows "\<exists>y. wait_Acquire grants switch batch running x = Some y"
  using wait_Acquire_returns[OF assms(1), of x running batch switch] assms(2) by (simp add: loop_state_def)

lemma go_each_blocked:
  assumes "weighted_semaphore grants" "batch < 1" "as \<noteq> []"
  shows "go_each grants switch body as [] (NewWeighted batch, s) = None"
  using assms by (cases as) (simp_all add: wait_Acquire_blocked NewWeighted_def)

text \<open>An order of the goroutines of a loop is an order of the elements of the list.\<close>

lemma order_of_elements:
  assumes "mset order = mset (map f xs)"
  shows "\<exists>ys. mset ys = mset xs \<and> order = map f ys"
  using assms
proof (induction order arbitrary: xs)
  case (Cons g order)
  have "g \<in> set (map f xs)" using Cons.prems by (metis list.set_intros(1) mset_eq_setD)
  then obtain x where x: "x \<in> set xs" "g = f x" by auto
  have "mset order = mset (map f (remove1 x xs))" using Cons.prems x
    by (simp add: image_mset_Diff) (metis add_mset_remove_trivial)
  then obtain ys where ys: "mset ys = mset (remove1 x xs)" "order = map f ys" using Cons.IH by blast
  have "mset (x # ys) = mset xs" using ys(1) x(1) by simp
  then show ?case using ys(2) x(2) by (intro exI[of _ "x # ys"]) simp
qed simp

lemma run_all_map: "run_all (map f xs) s = fold f xs s"
  by (simp add: fold_map comp_def)

end
