(* ===== verification/MicApply.thy ===== *)
theory MicApply
  imports MicConsolidate Stats Metrics Semaphore
begin

text \<open>
  The effects of a sync cycle on one node or scale set: \<^verbatim>\<open>updateUserMSI\<close>, \<^verbatim>\<open>updateNodeAndDeps\<close> and
  \<^verbatim>\<open>cleanUpAllAssignedIdentitiesOnNode\<close> of \<^verbatim>\<open>pkg/mic/mic.go\<close>.

  The controller reaches the rest of the system through the interfaces in its \<^verbatim>\<open>Client\<close> struct
  (\<^verbatim>\<open>crd.ClientInt\<close>, \<^verbatim>\<open>cloudprovider.ClientInt\<close>, \<^verbatim>\<open>pod.ClientInt\<close>, \<^verbatim>\<open>NodeGetter\<close>), the reporter and the clock;
  \<open>mic_env\<close> is the record of those methods over a world \<open>'w\<close>.  \<open>MicState\<close> is the world, the statistics that
  the controller itself keeps (the keys of the other components are disjoint and part of the world;
  \<open>env_StatsInit\<close> is \<^verbatim>\<open>stats.Init\<close> there), and the history of the calls made so far, events included; the code does not read the
  history, the properties do.

  A loop that starts goroutines under a semaphore of \<^verbatim>\<open>createDeleteBatch\<close> tokens is \<open>go_each\<close> of \<open>Semaphore\<close>: what \<^verbatim>\<open>Acquire\<close> grants
  (\<open>env_Grants\<close>) and which goroutine the scheduler lets finish next (\<open>env_Switch\<close>) are part of the environment.  Each body works on an
  assigned identity of its own and its calls stay in order.  \<^verbatim>\<open>Acquire\<close> fails only when its context is cancelled, which
  \<^verbatim>\<open>context.TODO()\<close> never is, so the code after such a failure is not reachable; an \<^verbatim>\<open>Acquire\<close> that waits for ever is the result \<open>None\<close>.
\<close>

section \<open>Environment and state\<close>

datatype ev_object = EvBinding AzureIdentityBinding | EvAssigned AzureAssignedIdentity

datatype mic_call =
    CallCreate AzureAssignedIdentity bool
  | CallUpdate AzureAssignedIdentity bool
  | CallRemove AzureAssignedIdentity bool
  | CallStatus AzureAssignedIdentity string bool
  | CallUpdateUserMSI "string list" "string list" string bool bool
  | CallGetUserMSIs string bool "string list option"
  | CallEvent ev_object string string string

record 'w mic_env =
  env_CreateAssignedIdentity :: "AzureAssignedIdentity \<Rightarrow> 'w \<Rightarrow> string option \<times> 'w"
  env_RemoveAssignedIdentity :: "AzureAssignedIdentity \<Rightarrow> 'w \<Rightarrow> string option \<times> 'w"
  env_UpdateAssignedIdentity :: "AzureAssignedIdentity \<Rightarrow> 'w \<Rightarrow> string option \<times> 'w"
  env_UpdateStatus :: "AzureAssignedIdentity \<Rightarrow> string \<Rightarrow> 'w \<Rightarrow> string option \<times> 'w"
  env_UpdateUserMSI :: "string list \<Rightarrow> string list \<Rightarrow> string \<Rightarrow> bool \<Rightarrow> 'w \<Rightarrow> string option \<times> 'w"
  env_GetUserMSIs :: "string \<Rightarrow> bool \<Rightarrow> 'w \<Rightarrow> (string, string list) result \<times> 'w"
  env_ListBindings :: "'w \<Rightarrow> (string, AzureIdentityBinding list) result \<times> 'w"
  env_ListIds :: "'w \<Rightarrow> (string, AzureIdentity list) result \<times> 'w"
  env_ListAssignedIDs :: "'w \<Rightarrow> (string, AzureAssignedIdentity list) result \<times> 'w"
  env_ListAssignedIDsInMap :: "'w \<Rightarrow> (string, assigned_map) result \<times> 'w"
  env_SyncCacheAll :: "'w \<Rightarrow> 'w"
  env_GetPods :: "'w \<Rightarrow> (string, Pod list) result \<times> 'w"
  env_NodeGet :: "'w \<Rightarrow> node_getter"
  env_StatsInit :: "'w \<Rightarrow> 'w"
  env_Report :: "Measurement list \<Rightarrow> 'w \<Rightarrow> 'w"
  env_Now :: "'w \<Rightarrow> Time \<times> 'w"
  env_Grants :: "int \<Rightarrow> int \<Rightarrow> int \<Rightarrow> bool"
  env_Switch :: "'w \<Rightarrow> nat \<Rightarrow> nat"

record 'w MicState =
  ms_world :: 'w
  ms_stats :: stats
  ms_calls :: "mic_call list"

definition say :: "mic_call \<Rightarrow> 'w MicState \<Rightarrow> 'w MicState" where
  "say x s = s\<lparr>ms_calls := ms_calls s @ [x]\<rparr>"

definition mic_Now :: "'w mic_env \<Rightarrow> 'w MicState \<Rightarrow> Time \<times> 'w MicState" where
  "mic_Now env s = (case env_Now env (ms_world s) of (t, w) \<Rightarrow> (t, s\<lparr>ms_world := w\<rparr>))"

definition createAssignedIdentity :: "'w mic_env \<Rightarrow> AzureAssignedIdentity \<Rightarrow> 'w MicState \<Rightarrow> string option \<times> 'w MicState" where
  "createAssignedIdentity env a s =
     (case env_CreateAssignedIdentity env a (ms_world s) of (e, w) \<Rightarrow> (e, say (CallCreate a (e = None)) (s\<lparr>ms_world := w\<rparr>)))"

definition removeAssignedIdentity :: "'w mic_env \<Rightarrow> AzureAssignedIdentity \<Rightarrow> 'w MicState \<Rightarrow> string option \<times> 'w MicState" where
  "removeAssignedIdentity env a s =
     (case env_RemoveAssignedIdentity env a (ms_world s) of (e, w) \<Rightarrow> (e, say (CallRemove a (e = None)) (s\<lparr>ms_world := w\<rparr>)))"

definition updateAssignedIdentity :: "'w mic_env \<Rightarrow> AzureAssignedIdentity \<Rightarrow> 'w MicState \<Rightarrow> string option \<times> 'w MicState" where
  "updateAssignedIdentity env a s =
     (case env_UpdateAssignedIdentity env a (ms_world s) of (e, w) \<Rightarrow> (e, say (CallUpdate a (e = None)) (s\<lparr>ms_world := w\<rparr>)))"

definition updateAssignedIdentityStatus ::
  "'w mic_env \<Rightarrow> AzureAssignedIdentity \<Rightarrow> string \<Rightarrow> 'w MicState \<Rightarrow> string option \<times> 'w MicState" where
  "updateAssignedIdentityStatus env a status s =
     (case env_UpdateStatus env a status (ms_world s) of (e, w) \<Rightarrow> (e, say (CallStatus a status (e = None)) (s\<lparr>ms_world := w\<rparr>)))"

definition cloud_UpdateUserMSI ::
  "'w mic_env \<Rightarrow> string list \<Rightarrow> string list \<Rightarrow> string \<Rightarrow> bool \<Rightarrow> 'w MicState \<Rightarrow> string option \<times> 'w MicState" where
  "cloud_UpdateUserMSI env add remove node is_vmss s =
     (case env_UpdateUserMSI env add remove node is_vmss (ms_world s) of (e, w) \<Rightarrow>
        (e, say (CallUpdateUserMSI add remove node is_vmss (e = None)) (s\<lparr>ms_world := w\<rparr>)))"

definition getUserMSIListForNode ::
  "'w mic_env \<Rightarrow> string \<Rightarrow> bool \<Rightarrow> 'w MicState \<Rightarrow> (string, string list) result \<times> 'w MicState" where
  "getUserMSIListForNode env nodeOrVMSSName is_vmss s =
     (case env_GetUserMSIs env nodeOrVMSSName is_vmss (ms_world s) of (r, w) \<Rightarrow>
        (r, say (CallGetUserMSIs nodeOrVMSSName is_vmss (case r of Inl _ \<Rightarrow> None | Inr l \<Rightarrow> Some l)) (s\<lparr>ms_world := w\<rparr>)))"

definition mic_Put :: "StatType \<Rightarrow> Duration \<Rightarrow> 'w MicState \<Rightarrow> 'w MicState" where
  "mic_Put k d s = s\<lparr>ms_stats := the (stats_Put k d (Some (ms_stats s)))\<rparr>"

definition mic_Increment :: "StatType \<Rightarrow> int \<Rightarrow> 'w MicState \<Rightarrow> 'w MicState" where
  "mic_Increment k n s = s\<lparr>ms_stats := increment_count k n (ms_stats s)\<rparr>"

section \<open>Helpers\<close>

text \<open>The order of the result is that of one iteration over the set.\<close>

definition getUniqueIDs :: "string list \<Rightarrow> string list" where
  "getUniqueIDs idList = map fst (fold (\<lambda>i m. mput i () m) idList [])"

fun checkIfMSIExistsOnNode :: "AzureIdentity \<Rightarrow> string list \<Rightarrow> bool" where
  "checkIfMSIExistsOnNode i [] = False"
| "checkIfMSIExistsOnNode i (userAssignedMSI # rest) =
     (if strings_EqualFold userAssignedMSI (id_ResourceID i) then True else checkIfMSIExistsOnNode i rest)"

definition with_status :: "string \<Rightarrow> AzureAssignedIdentity \<Rightarrow> AzureAssignedIdentity" where
  "with_status t a = a\<lparr>a_Status := (a_Status a)\<lparr>ast_Status := t\<rparr>\<rparr>"

text \<open>Loops of goroutines and \<^verbatim>\<open>Acquire\<close> in the environment of the controller.\<close>

abbreviation go_loop where
  "go_loop env \<equiv> go_each (env_Grants env) (\<lambda>s. env_Switch env (ms_world s))"

abbreviation wait_tokens where
  "wait_tokens env \<equiv> wait_Acquire (env_Grants env) (\<lambda>s. env_Switch env (ms_world s))"

section \<open>Creation and update of the assigned identities\<close>

definition create_body :: "'w mic_env \<Rightarrow> AzureAssignedIdentity \<Rightarrow> 'w MicState \<Rightarrow> 'w MicState" where
  "create_body env a s =
     (if a_StatusText a = [] then
        (let a = with_status AssignedIDCreated a in
         case createAssignedIdentity env a s of
           (None, s) \<Rightarrow> s
         | (Some err, s) \<Rightarrow>
             say (CallEvent (EvBinding (a_Binding a)) ''Warning'' ''binding apply error''
               (''failed to create AzureAssignedIdentity '' @ a_Name a @ ''/'' @ a_Namespace a @ '' for pod '' @
                a_PodNamespace a @ ''/'' @ a_Pod a @ '', error: '' @ err)) s)
      else s)"

definition update_body :: "'w mic_env \<Rightarrow> AzureAssignedIdentity \<Rightarrow> 'w MicState \<Rightarrow> 'w MicState" where
  "update_body env a s =
     (if a_StatusText a = [] then
        (let a = with_status AssignedIDCreated a in
         case updateAssignedIdentity env a s of
           (None, s) \<Rightarrow> s
         | (Some err, s) \<Rightarrow>
             say (CallEvent (EvBinding (a_Binding a)) ''Warning'' ''binding apply error''
               (''failed to update AzureAssignedIdentity '' @ a_Namespace a @ ''/'' @ a_Name a @ '' for pod '' @
                a_Pod a @ ''/'' @ a_PodNamespace a @ '', error: '' @ err)) s)
      else s)"

section \<open>After a failed \<^verbatim>\<open>UpdateUserMSI\<close>\<close>

definition failed_create_step ::
  "'w mic_env \<Rightarrow> string \<Rightarrow> string list \<Rightarrow> trackUserAssignedMSIIds \<Rightarrow> AzureAssignedIdentity \<Rightarrow> 'w MicState \<Rightarrow> 'w MicState" where
  "failed_create_step env err idList track a s =
     (let i = a_Identity a; b = a_Binding a in
      if checkIfUserAssignedMSI i \<and> \<not> checkIfMSIExistsOnNode i idList then
        say (CallEvent (EvBinding b) ''Warning'' ''binding apply error''
          (''failed to apply binding '' @ b_Namespace b @ ''/'' @ b_Name b @ '' node '' @ a_NodeName a @ '' for pod '' @
           a_PodNamespace a @ ''/'' @ a_Pod a @ '', error: '' @ err)) s
      else
        (let s = say (CallEvent (EvBinding b) ''Normal'' ''binding applied''
                   (''binding '' @ b_Name b @ '' applied on node '' @ a_NodeName a @ '' for pod '' @ a_Name a)) s;
             s = (case updateAssignedIdentityStatus env a AssignedIDAssigned s of
                    (None, s) \<Rightarrow> s
                  | (Some updateErr, s) \<Rightarrow>
                      say (CallEvent (EvAssigned a) ''Warning'' ''status update error''
                        (''failed to update AzureAssignedIdentity '' @ a_Namespace a @ ''/'' @ a_Name a @ '' status to '' @
                         AssignedIDAssigned @ '' for pod '' @ a_PodNamespace a @ ''/'' @ a_Pod a @ '', error: '' @ updateErr)) s);
             isCreateOperation = (\<exists>i \<in> set (assignedIDsToCreate track). a = i)
         in if isCreateOperation then mic_Increment TotalAzureAssignedIdentitiesCreated 1 s
            else mic_Increment TotalAzureAssignedIdentitiesUpdated 1 s))"

definition failed_delete_step ::
  "'w mic_env \<Rightarrow> string list \<Rightarrow> assigned_map \<Rightarrow> (string, bool) gomap \<Rightarrow> AzureAssignedIdentity \<Rightarrow> 'w MicState \<Rightarrow> 'w MicState" where
  "failed_delete_step env idList newAssignedIDs nodeRefs a s =
     (let nc = env_NodeGet env (ms_world s) in
      case getVMSSGroups nc nodeRefs of
        Inl _ \<Rightarrow> s
      | Inr vmssGroups \<Rightarrow>
          (case fst (checkIfInUse nc a newAssignedIDs vmssGroups) of
             Inl _ \<Rightarrow> s
           | Inr inUse \<Rightarrow>
               if checkIfUserAssignedMSI (a_Identity a) \<and> \<not> inUse \<and> checkIfMSIExistsOnNode (a_Identity a) idList then s
               else
                 (case removeAssignedIdentity env a s of
                    (Some _, s) \<Rightarrow> s
                  | (None, s) \<Rightarrow> mic_Increment TotalAzureAssignedIdentitiesDeleted 1 s)))"

definition after_failure ::
  "'w mic_env \<Rightarrow> string \<Rightarrow> assigned_map \<Rightarrow> string \<Rightarrow> trackUserAssignedMSIIds \<Rightarrow> (string, bool) gomap \<Rightarrow> Time \<Rightarrow>
     'w MicState \<Rightarrow> 'w MicState" where
  "after_failure env err newAssignedIDs nodeOrVMSSName track nodeRefs beginAdding s =
     (case getUserMSIListForNode env nodeOrVMSSName (isvmss track) s of
        (Inl _, s) \<Rightarrow> s
      | (Inr idList, s) \<Rightarrow>
          (let s = fold (failed_create_step env err idList track) (assignedIDsToCreate track @ assignedIDsToUpdate track) s;
               s = fold (failed_delete_step env idList newAssignedIDs nodeRefs) (assignedIDsToDelete track) s;
               (t, s) = mic_Now env s
           in mic_Put TotalAzureAssignedIdentitiesCreateOrUpdate (time_Sub t beginAdding) s))"

section \<open>After a successful \<^verbatim>\<open>UpdateUserMSI\<close>\<close>

definition assigned_body :: "'w mic_env \<Rightarrow> AzureAssignedIdentity \<Rightarrow> 'w MicState \<Rightarrow> 'w MicState" where
  "assigned_body env a s =
     (case updateAssignedIdentityStatus env a AssignedIDAssigned s of
        (Some err, s) \<Rightarrow>
          say (CallEvent (EvAssigned a) ''Warning'' ''status update error''
            (''failed to update AzureAssignedIdentity '' @ a_Namespace a @ ''/'' @ a_Name a @ '' status to '' @
             AssignedIDAssigned @ '' for pod '' @ a_Pod a @ '', error: '' @ err)) s
      | (None, s) \<Rightarrow>
          say (CallEvent (EvBinding (a_Binding a)) ''Normal'' ''binding applied''
            (''Binding '' @ b_Name (a_Binding a) @ '' applied on node '' @ a_NodeName a @ '' for pod '' @ a_Name a)) s)"

definition unassign_body :: "'w mic_env \<Rightarrow> AzureAssignedIdentity \<Rightarrow> 'w MicState \<Rightarrow> 'w MicState" where
  "unassign_body env a s =
     (case updateAssignedIdentityStatus env a AssignedIDUnAssigned s of
        (Some err, s) \<Rightarrow>
          say (CallEvent (EvAssigned a) ''Warning'' ''status update error''
            (''failed to update AzureAssignedIdentity '' @ a_Namespace a @ ''/'' @ a_Name a @ '' status to '' @
             AssignedIDUnAssigned @ '' for pod '' @ a_PodNamespace a @ ''/'' @ a_Pod a @ '', error: '' @ err)) s
      | (None, s) \<Rightarrow> snd (removeAssignedIdentity env a s))"

definition record_success :: "'w mic_env \<Rightarrow> trackUserAssignedMSIIds \<Rightarrow> Time \<Rightarrow> 'w MicState \<Rightarrow> 'w MicState" where
  "record_success env track beginAdding s =
     (let s = mic_Increment TotalAzureAssignedIdentitiesCreated (int (length (assignedIDsToCreate track))) s;
          s = mic_Increment TotalAzureAssignedIdentitiesUpdated (int (length (assignedIDsToUpdate track))) s;
          s = mic_Increment TotalAzureAssignedIdentitiesDeleted (int (length (assignedIDsToDelete track))) s;
          (t, s) = mic_Now env s
      in mic_Put TotalAzureAssignedIdentitiesCreateOrUpdate (time_Sub t beginAdding) s)"

definition after_success ::
  "mic_client \<Rightarrow> 'w mic_env \<Rightarrow> trackUserAssignedMSIIds \<Rightarrow> Time \<Rightarrow> 'w MicState \<Rightarrow> 'w MicState option" where
  "after_success c env track beginAdding s =
     (let createOrUpdateList = assignedIDsToCreate track @ assignedIDsToUpdate track;
          semUpdate = NewWeighted (mic_createDeleteBatch c)
      in
      Option.bind (go_loop env (assigned_body env) createOrUpdateList [] (semUpdate, s)) (\<lambda>(running, x).
      Option.bind (wait_tokens env (mic_createDeleteBatch c) running x) (\<lambda>(_, _, s).
      let semDel = NewWeighted (mic_createDeleteBatch c) in
      Option.bind (go_loop env (unassign_body env) (assignedIDsToDelete track) [] (semDel, s)) (\<lambda>(running, x).
      Option.bind (wait_tokens env (mic_createDeleteBatch c) running x) (\<lambda>(_, _, s).
        Some (record_success env track beginAdding s))))))"

section \<open>\<^verbatim>\<open>updateUserMSI\<close>\<close>

definition updateUserMSI ::
  "mic_client \<Rightarrow> 'w mic_env \<Rightarrow> assigned_map \<Rightarrow> string \<Rightarrow> trackUserAssignedMSIIds \<Rightarrow> (string, bool) gomap \<Rightarrow>
     'w MicState \<Rightarrow> 'w MicState option" where
  "updateUserMSI c env newAssignedIDs nodeOrVMSSName track nodeRefs s =
     (let (beginAdding, s) = mic_Now env s;
          semCreateOrUpdate = NewWeighted (mic_createDeleteBatch c)
      in
      Option.bind (go_loop env (create_body env) (assignedIDsToCreate track) [] (semCreateOrUpdate, s)) (\<lambda>(running, x).
      Option.bind (go_loop env (update_body env) (assignedIDsToUpdate track) running x) (\<lambda>(running, x).
      Option.bind (wait_tokens env (mic_createDeleteBatch c) running x) (\<lambda>(_, _, s).
        let add = getUniqueIDs (addUserAssignedMSIIDs track);
            remove = getUniqueIDs (removeUserAssignedMSIIDs track)
        in case cloud_UpdateUserMSI env add remove nodeOrVMSSName (isvmss track) s of
             (Some err, s) \<Rightarrow> Some (after_failure env err newAssignedIDs nodeOrVMSSName track nodeRefs beginAdding s)
           | (None, s) \<Rightarrow> after_success c env track beginAdding s))))"

text \<open>The goroutines of the nodes, in the order of the node map.\<close>

fun updateNodeAndDeps ::
  "mic_client \<Rightarrow> 'w mic_env \<Rightarrow> assigned_map \<Rightarrow> node_map \<Rightarrow> (string, bool) gomap \<Rightarrow> 'w MicState \<Rightarrow> 'w MicState option" where
  "updateNodeAndDeps c env newAssignedIDs [] nodeRefs s = Some s"
| "updateNodeAndDeps c env newAssignedIDs ((nodeName, track) # rest) nodeRefs s =
     Option.bind (updateUserMSI c env newAssignedIDs nodeName track nodeRefs s)
       (updateNodeAndDeps c env newAssignedIDs rest nodeRefs)"

definition cleanup_step :: "'w mic_env \<Rightarrow> AzureAssignedIdentity \<Rightarrow> 'w MicState \<Rightarrow> 'w MicState" where
  "cleanup_step env a s =
     (let b = a_Binding a in
      case removeAssignedIdentity env a s of
        (Some err, s) \<Rightarrow>
          say (CallEvent (EvBinding b) ''Warning'' ''binding remove error''
            (''failed to remove AzureIdentityBinding '' @ b_Namespace b @ ''/'' @ b_Name b @ '' from node '' @ a_NodeName a @
             '' for pod '' @ a_PodNamespace a @ ''/'' @ a_Pod a @ '', error: '' @ err)) s
      | (None, s) \<Rightarrow>
          say (CallEvent (EvBinding b) ''Normal'' ''binding removed''
            (''Binding '' @ b_Name b @ '' removed from node '' @ a_NodeName a @ '' for pod '' @ a_Pod a)) s)"

definition cleanUpAllAssignedIdentitiesOnNode :: "'w mic_env \<Rightarrow> cleanup \<Rightarrow> 'w MicState \<Rightarrow> 'w MicState" where
  "cleanUpAllAssignedIdentitiesOnNode env entry s = fold (cleanup_step env) (assignedIDsToDelete (snd entry)) s"

end
