(* ===== verification/MicApplyCalls.thy ===== *)
theory MicApplyCalls
  imports MicApply
begin

text \<open>
  Which calls \<^verbatim>\<open>updateUserMSI\<close> makes, in which order, and under which conditions.  All statements hold for
  every behaviour of the API server and of the cloud.
\<close>

section \<open>A calculus of calls\<close>

text \<open>\<open>makes P s s'\<close>: from \<open>s\<close> to \<open>s'\<close> the controller made only calls that satisfy \<open>P\<close>.\<close>

definition makes :: "(mic_call \<Rightarrow> bool) \<Rightarrow> 'w MicState \<Rightarrow> 'w MicState \<Rightarrow> bool" where
  "makes P s s' \<longleftrightarrow> (\<exists>xs. ms_calls s' = ms_calls s @ xs \<and> list_all P xs)"

lemma makes_same: "ms_calls s' = ms_calls s \<Longrightarrow> makes P s s'"
  by (auto simp: makes_def)

lemma makes_refl: "makes P s s"
  by (rule makes_same) (rule refl)

lemma makes_trans: "makes P s1 s2 \<Longrightarrow> makes P s2 s3 \<Longrightarrow> makes P s1 s3"
  by (auto simp: makes_def)

lemma makes_mono: "makes P s s' \<Longrightarrow> (\<And>x. P x \<Longrightarrow> Q x) \<Longrightarrow> makes Q s s'"
  by (auto simp: makes_def list_all_iff)

lemma makes_say: "makes P s s' \<Longrightarrow> P x \<Longrightarrow> makes P s (say x s')"
  by (auto simp: makes_def say_def)

lemma makes_world [simp]: "makes P s (s'\<lparr>ms_world := w\<rparr>) = makes P s s'"
  by (simp add: makes_def)

lemma makes_stats [simp]: "makes P s (mic_Increment k n s') = makes P s s'" "makes P s (mic_Put k d s') = makes P s s'"
  by (simp_all add: makes_def mic_Increment_def mic_Put_def)

lemma makes_fold:
  assumes "\<And>a s. a \<in> set as \<Longrightarrow> makes P s (f a s)"
  shows "makes P s (fold f as s)"
  using assms
proof (induction as arbitrary: s)
  case (Cons a as)
  have "makes P s (f a s)" "makes P (f a s) (fold f as (f a s))" using Cons by simp_all
  then show ?case by (simp add: makes_trans)
qed (simp add: makes_refl)

text \<open>What an operation returns and the call it makes.\<close>

lemma call_eqs:
  "createAssignedIdentity env a s = (e, s') \<Longrightarrow> ms_calls s' = ms_calls s @ [CallCreate a (e = None)]"
  "updateAssignedIdentity env a s = (e, s') \<Longrightarrow> ms_calls s' = ms_calls s @ [CallUpdate a (e = None)]"
  "removeAssignedIdentity env a s = (e, s') \<Longrightarrow> ms_calls s' = ms_calls s @ [CallRemove a (e = None)]"
  "updateAssignedIdentityStatus env a st s = (e, s') \<Longrightarrow> ms_calls s' = ms_calls s @ [CallStatus a st (e = None)]"
  "cloud_UpdateUserMSI env add remove n v s = (e, s') \<Longrightarrow>
     ms_calls s' = ms_calls s @ [CallUpdateUserMSI add remove n v (e = None)]"
  "getUserMSIListForNode env n v s = (r, s') \<Longrightarrow>
     ms_calls s' = ms_calls s @ [CallGetUserMSIs n v (case r of Inl _ \<Rightarrow> None | Inr l \<Rightarrow> Some l)]"
  "mic_Now env s = (t, s') \<Longrightarrow> ms_calls s' = ms_calls s"
  by (auto simp: createAssignedIdentity_def updateAssignedIdentity_def removeAssignedIdentity_def
      updateAssignedIdentityStatus_def cloud_UpdateUserMSI_def getUserMSIListForNode_def mic_Now_def say_def
      split: prod.splits)

lemma ms_calls_say [simp]: "ms_calls (say x s) = ms_calls s @ [x]"
  by (simp add: say_def)

section \<open>The phases\<close>

fun creation_call :: "trackUserAssignedMSIIds \<Rightarrow> mic_call \<Rightarrow> bool" where
  "creation_call track (CallCreate a _) =
     (\<exists>x \<in> set (assignedIDsToCreate track). a_StatusText x = [] \<and> a = with_status AssignedIDCreated x)"
| "creation_call track (CallUpdate a _) =
     (\<exists>x \<in> set (assignedIDsToUpdate track). a_StatusText x = [] \<and> a = with_status AssignedIDCreated x)"
| "creation_call track (CallEvent _ t r _) = (t = ''Warning'' \<and> r = ''binding apply error'')"
| "creation_call track _ = False"

fun failure_call ::
  "'w mic_env \<Rightarrow> assigned_map \<Rightarrow> (string, bool) gomap \<Rightarrow> string list \<Rightarrow> trackUserAssignedMSIIds \<Rightarrow> mic_call \<Rightarrow> bool" where
  "failure_call env new refs idList track (CallStatus a st _) =
     (st = AssignedIDAssigned \<and> a \<in> set (assignedIDsToCreate track @ assignedIDsToUpdate track) \<and>
      (id_Type (a_Identity a) = UserAssignedMSI \<longrightarrow>
         (\<exists>x \<in> set idList. strings_EqualFold x (id_ResourceID (a_Identity a)))))"
| "failure_call env new refs idList track (CallRemove a _) =
     (a \<in> set (assignedIDsToDelete track) \<and>
      (id_Type (a_Identity a) = UserAssignedMSI \<longrightarrow>
         (\<exists>x \<in> set idList. strings_EqualFold x (id_ResourceID (a_Identity a))) \<longrightarrow>
         (\<exists>w ls. getVMSSGroups (env_NodeGet env w) refs = Inr ls \<and>
                 fst (checkIfInUse (env_NodeGet env w) a new ls) = Inr True)))"
| "failure_call env new refs idList track (CallEvent _ _ _ _) = True"
| "failure_call env new refs idList track _ = False"

fun success_call :: "trackUserAssignedMSIIds \<Rightarrow> mic_call \<Rightarrow> bool" where
  "success_call track (CallStatus a st _) =
     (st = AssignedIDAssigned \<and> a \<in> set (assignedIDsToCreate track @ assignedIDsToUpdate track) \<or>
      st = AssignedIDUnAssigned \<and> a \<in> set (assignedIDsToDelete track))"
| "success_call track (CallRemove a _) = (a \<in> set (assignedIDsToDelete track))"
| "success_call track (CallEvent _ _ _ _) = True"
| "success_call track _ = False"

lemma checkIfMSIExistsOnNode_iff:
  "checkIfMSIExistsOnNode i l \<longleftrightarrow> (\<exists>x \<in> set l. strings_EqualFold x (id_ResourceID i))"
  by (induction l) auto

lemma create_body_calls:
  assumes "a \<in> set (assignedIDsToCreate track)"
  shows "makes (creation_call track) s (create_body env a s)"
proof -
  obtain e s' where c: "createAssignedIdentity env (with_status AssignedIDCreated a) s = (e, s')" by fastforce
  show ?thesis
    using assms call_eqs(1)[OF c] c by (auto simp: create_body_def Let_def makes_def split: option.splits)
qed

lemma update_body_calls:
  assumes "a \<in> set (assignedIDsToUpdate track)"
  shows "makes (creation_call track) s (update_body env a s)"
proof -
  obtain e s' where c: "updateAssignedIdentity env (with_status AssignedIDCreated a) s = (e, s')" by fastforce
  show ?thesis
    using assms call_eqs(2)[OF c] c by (auto simp: update_body_def Let_def makes_def split: option.splits)
qed

lemma failed_create_calls:
  assumes "a \<in> set (assignedIDsToCreate track @ assignedIDsToUpdate track)"
  shows "makes (failure_call env new refs idList track) s (failed_create_step env err idList track a s)"
proof -
  obtain e s' where c: "updateAssignedIdentityStatus env a AssignedIDAssigned
      (say (CallEvent (EvBinding (a_Binding a)) ''Normal'' ''binding applied''
         (''binding '' @ b_Name (a_Binding a) @ '' applied on node '' @ a_NodeName a @ '' for pod '' @ a_Name a)) s) = (e, s')"
    by fastforce
  show ?thesis
    using assms call_eqs(4)[OF c] c
    by (auto simp: failed_create_step_def Let_def makes_def checkIfUserAssignedMSI_def checkIfMSIExistsOnNode_iff
        mic_Increment_def split: option.splits)
qed

lemma failed_delete_calls:
  assumes "a \<in> set (assignedIDsToDelete track)"
  shows "makes (failure_call env new refs idList track) s (failed_delete_step env idList new refs a s)"
proof -
  obtain e s' where c: "removeAssignedIdentity env a s = (e, s')" by fastforce
  show ?thesis
    using assms call_eqs(3)[OF c] c
    by (auto simp: failed_delete_step_def Let_def makes_def checkIfUserAssignedMSI_def checkIfMSIExistsOnNode_iff
        mic_Increment_def split: option.splits sum.splits) blast+
qed

lemma assigned_body_calls:
  assumes "a \<in> set (assignedIDsToCreate track @ assignedIDsToUpdate track)"
  shows "makes (success_call track) s (assigned_body env a s)"
proof -
  obtain e s' where c: "updateAssignedIdentityStatus env a AssignedIDAssigned s = (e, s')" by fastforce
  show ?thesis
    using assms call_eqs(4)[OF c] c by (auto simp: assigned_body_def makes_def split: option.splits)
qed

lemma unassign_body_calls:
  assumes "a \<in> set (assignedIDsToDelete track)"
  shows "makes (success_call track) s (unassign_body env a s)"
proof -
  obtain e s1 where c: "updateAssignedIdentityStatus env a AssignedIDUnAssigned s = (e, s1)" by fastforce
  obtain e' s2 where d: "removeAssignedIdentity env a s1 = (e', s2)" by fastforce
  show ?thesis
    using assms call_eqs(4)[OF c] call_eqs(3)[OF d] c d by (auto simp: unassign_body_def makes_def split: option.splits)
qed

section \<open>The whole operation\<close>

text \<open>The loops that share one semaphore: both lists of goroutines have run, in some order, when the wait for all tokens ends.\<close>

lemma loops_sound:
  assumes "weighted_semaphore (env_Grants env)" "go_loop env f xs [] (NewWeighted n, s) = Some (r1, x1)"
    "go_loop env g ys r1 x1 = Some (r2, x2)" "wait_tokens env n r2 x2 = Some (r3, x3)"
  shows "\<exists>order. mset order = mset (map f xs @ map g ys) \<and> snd x3 = run_all order s"
  using wait_all_sound[OF assms(1) go_each_sound[OF assms(1) go_each_sound[OF assms(1) loop_start assms(2)] assms(3)] assms(4)] by simp

lemma loops_return:
  assumes "weighted_semaphore (env_Grants env)" "1 \<le> n"
  shows "\<exists>r1 x1 r2 x2 r3 sem s'. go_loop env f xs [] (NewWeighted n, s) = Some (r1, x1) \<and> go_loop env g ys r1 x1 = Some (r2, x2) \<and>
    wait_tokens env n r2 x2 = Some (r3, sem, s')"
proof -
  obtain r1 x1 where 1: "go_loop env f xs [] (NewWeighted n, s) = Some (r1, x1)"
    using go_each_returns[OF assms loop_start] by (metis surj_pair)
  note l1 = go_each_sound[OF assms(1) loop_start 1]
  obtain r2 x2 where 2: "go_loop env g ys r1 x1 = Some (r2, x2)" using go_each_returns[OF assms l1] by (metis surj_pair)
  obtain y where "wait_tokens env n r2 x2 = Some y" using wait_all_returns[OF assms(1) go_each_sound[OF assms(1) l1 2]] by blast
  then show ?thesis using 1 2 by (metis prod_cases3)
qed

lemma makes_run_all: "(\<And>f s. f \<in> set order \<Longrightarrow> makes P s (f s)) \<Longrightarrow> makes P s (run_all order s)"
  by (rule makes_fold)

lemma after_failure_calls:
  "ms_calls (after_failure env err new n track refs b s) = ms_calls s @ [CallGetUserMSIs n (isvmss track) None] \<or>
   (\<exists>idList xs. ms_calls (after_failure env err new n track refs b s) =
       ms_calls s @ CallGetUserMSIs n (isvmss track) (Some idList) # xs \<and>
     list_all (failure_call env new refs idList track) xs)"
proof -
  obtain r s1 where g: "getUserMSIListForNode env n (isvmss track) s = (r, s1)" by fastforce
  show ?thesis
  proof (cases r)
    case (Inl e)
    then show ?thesis using call_eqs(6)[OF g] g by (simp add: after_failure_def)
  next
    case (Inr idList)
    define s2 where "s2 = fold (failed_create_step env err idList track) (assignedIDsToCreate track @ assignedIDsToUpdate track) s1"
    define s3 where "s3 = fold (failed_delete_step env idList new refs) (assignedIDsToDelete track) s2"
    obtain t s4 where t: "mic_Now env s3 = (t, s4)" by fastforce
    have "makes (failure_call env new refs idList track) s1 s2"
      unfolding s2_def by (intro makes_fold failed_create_calls)
    moreover have "makes (failure_call env new refs idList track) s2 s3"
      unfolding s3_def by (intro makes_fold failed_delete_calls)
    moreover have "makes (failure_call env new refs idList track) s3 s4"
      by (rule makes_same) (rule call_eqs(7)[OF t])
    ultimately have "makes (failure_call env new refs idList track) s1 (after_failure env err new n track refs b s)"
      using g Inr t by (simp add: after_failure_def Let_def flip: s2_def s3_def del: fold_append) (meson makes_trans)
    then show ?thesis using call_eqs(6)[OF g] Inr by (auto simp: makes_def)
  qed
qed

lemma record_success_calls: "ms_calls (record_success env track b s) = ms_calls s"
  by (simp add: record_success_def mic_Now_def mic_Increment_def mic_Put_def Let_def split: prod.splits)

lemma after_success_phases:
  assumes "weighted_semaphore (env_Grants env)" "after_success c env track b s = Some s'"
  obtains order1 order2 where
    "mset order1 = mset (map (assigned_body env) (assignedIDsToCreate track @ assignedIDsToUpdate track))"
    "mset order2 = mset (map (unassign_body env) (assignedIDsToDelete track))"
    "s' = record_success env track b (run_all order2 (run_all order1 s))"
proof -
  let ?n = "mic_createDeleteBatch c"
  obtain r1 x1 r2 sem2 s2 where 1: "go_loop env (assigned_body env) (assignedIDsToCreate track @ assignedIDsToUpdate track) [] (NewWeighted ?n, s) = Some (r1, x1)"
      "wait_tokens env ?n r1 x1 = Some (r2, sem2, s2)"
    and rest: "Option.bind (go_loop env (unassign_body env) (assignedIDsToDelete track) [] (NewWeighted ?n, s2)) (\<lambda>(running, x).
      Option.bind (wait_tokens env ?n running x) (\<lambda>(_, _, s). Some (record_success env track b s))) = Some s'"
    using assms(2) by (auto simp: after_success_def Let_def bind_eq_Some_conv)
  obtain r3 x3 r4 sem4 s4 where 2: "go_loop env (unassign_body env) (assignedIDsToDelete track) [] (NewWeighted ?n, s2) = Some (r3, x3)"
      "wait_tokens env ?n r3 x3 = Some (r4, sem4, s4)" "s' = record_success env track b s4"
    using rest by (auto simp: bind_eq_Some_conv)
  obtain order1 where o1: "mset order1 = mset (map (assigned_body env) (assignedIDsToCreate track @ assignedIDsToUpdate track))" "s2 = run_all order1 s"
    using loops_sound[OF assms(1) 1(1), of undefined "[]", OF _ 1(2)] by auto
  obtain order2 where "mset order2 = mset (map (unassign_body env) (assignedIDsToDelete track))" "s4 = run_all order2 s2"
    using loops_sound[OF assms(1) 2(1), of undefined "[]", OF _ 2(2)] by auto
  then show ?thesis using that o1 2(3) by blast
qed

lemma after_success_calls:
  assumes "weighted_semaphore (env_Grants env)" "after_success c env track b s = Some s'"
  shows "makes (success_call track) s s'"
  using assms
proof (rule after_success_phases)
  fix o1 o2
  assume o: "mset o1 = mset (map (assigned_body env) (assignedIDsToCreate track @ assignedIDsToUpdate track))"
    "mset o2 = mset (map (unassign_body env) (assignedIDsToDelete track))" and s': "s' = record_success env track b (run_all o2 (run_all o1 s))"
  have "makes (success_call track) s (run_all o1 s)"
    by (rule makes_run_all) (use mset_eq_setD[OF o(1)] in \<open>auto intro!: assigned_body_calls\<close>)
  moreover have "makes (success_call track) (run_all o1 s) (run_all o2 (run_all o1 s))"
    by (rule makes_run_all) (use mset_eq_setD[OF o(2)] in \<open>auto intro!: unassign_body_calls\<close>)
  ultimately show ?thesis using s' record_success_calls by (metis makes_same makes_trans)
qed

lemma updateUserMSI_phases:
  assumes "weighted_semaphore (env_Grants env)" "updateUserMSI c env new n track refs s = Some s'"
  obtains b s0 order e s3 where
    "mic_Now env s = (b, s0)"
    "mset order = mset (map (create_body env) (assignedIDsToCreate track) @ map (update_body env) (assignedIDsToUpdate track))"
    "cloud_UpdateUserMSI env (getUniqueIDs (addUserAssignedMSIIDs track)) (getUniqueIDs (removeUserAssignedMSIIDs track)) n
       (isvmss track) (run_all order s0) = (e, s3)"
    "case e of Some err \<Rightarrow> s' = after_failure env err new n track refs b s3 | None \<Rightarrow> after_success c env track b s3 = Some s'"
proof -
  let ?n = "mic_createDeleteBatch c" and ?add = "getUniqueIDs (addUserAssignedMSIIDs track)" and ?rem = "getUniqueIDs (removeUserAssignedMSIIDs track)"
  obtain b s0 where b: "mic_Now env s = (b, s0)" by fastforce
  obtain r1 x1 r2 x2 r3 sem3 s2 where 1: "go_loop env (create_body env) (assignedIDsToCreate track) [] (NewWeighted ?n, s0) = Some (r1, x1)"
      "go_loop env (update_body env) (assignedIDsToUpdate track) r1 x1 = Some (r2, x2)" "wait_tokens env ?n r2 x2 = Some (r3, sem3, s2)"
    and rest: "(case cloud_UpdateUserMSI env ?add ?rem n (isvmss track) s2 of
             (Some err, s) \<Rightarrow> Some (after_failure env err new n track refs b s)
           | (None, s) \<Rightarrow> after_success c env track b s) = Some s'"
    using assms(2) b by (auto simp: updateUserMSI_def Let_def bind_eq_Some_conv)
  obtain order where order: "mset order = mset (map (create_body env) (assignedIDsToCreate track) @ map (update_body env) (assignedIDsToUpdate track))"
    "s2 = run_all order s0" using loops_sound[OF assms(1) 1] by auto
  obtain e s3 where e: "cloud_UpdateUserMSI env ?add ?rem n (isvmss track) s2 = (e, s3)" by fastforce
  show ?thesis
    by (rule that[OF b order(1) e[unfolded order(2)]]) (use rest e in \<open>auto split: option.splits\<close>)
qed


text \<open>
  A small environment: a clock that stands still, a node of a VM, and a cloud whose update succeeds or
  fails as told; the identities of the node are known.
\<close>

definition still_env :: "bool \<Rightarrow> string list \<Rightarrow> unit mic_env" where
  "still_env ok ids =
     \<lparr>env_CreateAssignedIdentity = (\<lambda>a w. (None, w)), env_RemoveAssignedIdentity = (\<lambda>a w. (None, w)),
      env_UpdateAssignedIdentity = (\<lambda>a w. (None, w)), env_UpdateStatus = (\<lambda>a st w. (None, w)),
      env_UpdateUserMSI = (\<lambda>add remove n v w. (if ok then None else Some ''failed'', w)),
      env_GetUserMSIs = (\<lambda>n v w. (Inr ids, w)), env_ListBindings = (\<lambda>w. (Inr [], w)), env_ListIds = (\<lambda>w. (Inr [], w)),
      env_ListAssignedIDs = (\<lambda>w. (Inr [], w)), env_ListAssignedIDsInMap = (\<lambda>w. (Inr [], w)), env_SyncCacheAll = (\<lambda>w. w),
      env_GetPods = (\<lambda>w. (Inr [], w)), env_NodeGet = (\<lambda>w n. Inl \<lparr>ne_IsNotFound = True, ne_Text = ''not found''\<rparr>),
      env_StatsInit = (\<lambda>w. w), env_Report = (\<lambda>ms w. w), env_Now = (\<lambda>w. (0, w)), env_Grants = (\<lambda>size held n. held + n \<le> size),
      env_Switch = (\<lambda>w running. running - 1)\<rparr>"

definition start_state :: "unit MicState" where
  "start_state = \<lparr>ms_world = (), ms_stats = stats_Init, ms_calls = []\<rparr>"

lemma still_env_semaphore [simp]: "weighted_semaphore (env_Grants (still_env ok ids))"
  by (simp add: weighted_semaphore_def still_env_def)

definition create_track :: trackUserAssignedMSIIds where
  "create_track = zero_track\<lparr>addUserAssignedMSIIDs := [''rid'', ''rid''],
     assignedIDsToCreate := [sample_assigned ''n1'' [], sample_assigned ''n2'' []]\<rparr>"

lemma updateUserMSI_total:
  assumes "weighted_semaphore (env_Grants env)" "1 \<le> mic_createDeleteBatch c"
  shows "\<exists>s'. updateUserMSI c env new n track refs s = Some s'"
proof -
  have "\<exists>s'. after_success c env track b s = Some s'" for b s
  proof -
    let ?n = "mic_createDeleteBatch c"
    obtain r1 x1 r2 sem2 s2 where 1: "go_loop env (assigned_body env) (assignedIDsToCreate track @ assignedIDsToUpdate track) [] (NewWeighted ?n, s) = Some (r1, x1)"
      "wait_tokens env ?n r1 x1 = Some (r2, sem2, s2)"
      using loops_return[OF assms, of "assigned_body env" _ s undefined "[]"] by fastforce
    obtain r3 x3 y where 2: "go_loop env (unassign_body env) (assignedIDsToDelete track) [] (NewWeighted ?n, s2) = Some (r3, x3)"
      "wait_tokens env ?n r3 x3 = Some y"
      using loops_return[OF assms, of "unassign_body env" _ s2 undefined "[]"] by fastforce
    show ?thesis using 1 2 by (simp add: after_success_def Let_def split: prod.splits)
  qed
  moreover obtain b s0 where b: "mic_Now env s = (b, s0)" by fastforce
  moreover obtain r1 x1 r2 x2 r3 sem3 s3 where
    "go_loop env (create_body env) (assignedIDsToCreate track) [] (NewWeighted (mic_createDeleteBatch c), s0) = Some (r1, x1)"
    "go_loop env (update_body env) (assignedIDsToUpdate track) r1 x1 = Some (r2, x2)" "wait_tokens env (mic_createDeleteBatch c) r2 x2 = Some (r3, sem3, s3)"
    using loops_return[OF assms, of "create_body env" _ s0 "update_body env"] by blast
  ultimately show ?thesis
    by (simp add: updateUserMSI_def Let_def split: prod.splits option.splits)
qed


text \<open>
  (C30) \<^verbatim>\<open>updateUserMSI\<close> returns whenever \<^verbatim>\<open>createDeleteBatch\<close> is positive, however the scheduler interleaves the goroutines: every
  goroutine gives its token back, so no \<^verbatim>\<open>Acquire\<close> of the loops and none at their end waits for ever.  Without a token it never returns
  as soon as there is an assigned identity to create or update.  The semaphore is assumed to grant what is free.
\<close>

theorem updateUserMSI_returns:
  assumes "weighted_semaphore (env_Grants env)"
  shows "(1 \<le> mic_createDeleteBatch c \<longrightarrow> (\<exists>s'. updateUserMSI c env new n track refs s = Some s')) \<and>
   (mic_createDeleteBatch c < 1 \<and> (assignedIDsToCreate track \<noteq> [] \<or> assignedIDsToUpdate track \<noteq> []) \<longrightarrow>
      updateUserMSI c env new n track refs s = None)"
proof -
  have "updateUserMSI c env new n track refs s = None"
    if "mic_createDeleteBatch c < 1" "assignedIDsToCreate track \<noteq> [] \<or> assignedIDsToUpdate track \<noteq> []"
  proof (cases "assignedIDsToCreate track")
    case Nil
    then show ?thesis using that(2) by (simp add: updateUserMSI_def Let_def go_each_blocked[OF assms that(1)] split: prod.splits)
  next
    case (Cons a as)
    then show ?thesis by (simp add: updateUserMSI_def Let_def go_each_blocked[OF assms that(1)] del: go_each.simps split: prod.splits)
  qed
  then show ?thesis using updateUserMSI_total[OF assms, of c new n track refs s] by blast
qed

theorem updateUserMSI_returns_witness:
  "\<exists>s'. updateUserMSI sample_client (still_env True []) [] ''n'' create_track [] start_state = Some s'"
proof -
  have "1 \<le> mic_createDeleteBatch sample_client" by code_simp
  then show ?thesis using updateUserMSI_returns[OF still_env_semaphore, of sample_client True "[]" "[]" "''n''" create_track "[]" start_state] by blast
qed



end
