(* ===== verification/MicSync.thy ===== *)
theory MicSync
  imports MicApplyCalls
begin

text \<open>
  The sync loop of \<^verbatim>\<open>pkg/mic/mic.go\<close>: one cycle from the listings to the updates of all nodes, the periodic
  reconciliation with Azure, and the loop that serves events, ticks and the exit signal.

  The node cache is read many times while a cycle is planned; the plan takes one state of the cache.
\<close>

section \<open>One cycle\<close>

definition put_since :: "'w mic_env \<Rightarrow> StatType \<Rightarrow> Time \<Rightarrow> 'w MicState \<Rightarrow> 'w MicState" where
  "put_since env key begin_t s = (case mic_Now env s of (t, s) \<Rightarrow> mic_Put key (time_Sub t begin_t) s)"

definition mic_call_env :: "('w \<Rightarrow> 'a \<times> 'w) \<Rightarrow> 'w MicState \<Rightarrow> 'a \<times> 'w MicState" where
  "mic_call_env f s = (case f (ms_world s) of (x, w) \<Rightarrow> (x, s\<lparr>ms_world := w\<rparr>))"

record cycle_plan =
  pl_workDone :: bool
  pl_newAssignedIDs :: assigned_map
  pl_nodeRefs :: "(string, bool) gomap"
  pl_nodeMap :: node_map
  pl_cleanups :: "cleanup list"

text \<open>The decisions of the cycle.\<close>

definition plan_lists ::
  "mic_client \<Rightarrow> node_getter \<Rightarrow> assigned_map \<Rightarrow> assigned_map \<Rightarrow> (string, bool) gomap \<Rightarrow> bool \<times> node_map" where
  "plan_lists c nc currentAssignedIDs newAssignedIDs nodeRefs =
     (let (beforeUpdateList, afterUpdateList, addList, deleteList) = mic_diff currentAssignedIDs newAssignedIDs;
          nodeMap = convertAssignedIDListToMap addList deleteList afterUpdateList [];
          removing = length deleteList > 0 \<or> length beforeUpdateList > 0;
          nodeMap = (if removing
                     then getListOfIdsToDelete c nc deleteList beforeUpdateList afterUpdateList newAssignedIDs nodeMap nodeRefs
                     else nodeMap);
          adding = length addList > 0 \<or> length afterUpdateList > 0;
          nodeMap = (if adding then getListOfIdsToAssign addList afterUpdateList nodeMap else nodeMap)
      in (removing \<or> adding, nodeMap))"

definition plan_cycle ::
  "mic_client \<Rightarrow> node_getter \<Rightarrow> Pod list \<Rightarrow> AzureIdentityBinding list \<Rightarrow> AzureIdentity list \<Rightarrow> assigned_map \<Rightarrow> cycle_plan" where
  "plan_cycle c nc listPods listBindings listIDs currentAssignedIDs =
     (let idMap = convertIDListToMap listIDs;
          (newAssignedIDs, nodeRefs) = createDesiredAssignedIdentityList c listPods listBindings idMap;
          (workDone, nodeMap) = plan_lists c nc currentAssignedIDs newAssignedIDs nodeRefs;
          (nodeMap, cleanups) = consolidateVMSSNodes nc nodeMap
      in \<lparr>pl_workDone = workDone, pl_newAssignedIDs = newAssignedIDs, pl_nodeRefs = nodeRefs,
          pl_nodeMap = nodeMap, pl_cleanups = cleanups\<rparr>)"

text \<open>Its effects: the clean-ups, then the nodes.\<close>

definition apply_plan :: "mic_client \<Rightarrow> 'w mic_env \<Rightarrow> cycle_plan \<Rightarrow> 'w MicState \<Rightarrow> 'w MicState option" where
  "apply_plan c env p s =
     updateNodeAndDeps c env (pl_newAssignedIDs p) (pl_nodeMap p) (pl_nodeRefs p)
       (fold (cleanUpAllAssignedIdentitiesOnNode env) (pl_cleanups p) s)"

text \<open>The times that \<^verbatim>\<open>getAzureAssignedIDsToCreate\<close> and \<^verbatim>\<open>getAzureAssignedIDsToDelete\<close> put, unless they return early.\<close>

definition put_find_times :: "'w mic_env \<Rightarrow> assigned_map \<Rightarrow> assigned_map \<Rightarrow> 'w MicState \<Rightarrow> 'w MicState" where
  "put_find_times env current new s =
     (let s = (if length current = 0 then s
               else case mic_Now env s of (t, s) \<Rightarrow> put_since env FindAzureAssignedIdentitiesToCreate t s)
      in if length current = 0 \<or> length new = 0 then s
         else case mic_Now env s of (t, s) \<Rightarrow> put_since env FindAzureAssignedIdentitiesToDelete t s)"

text \<open>
  The listings at the start of a cycle; an error of any of them ends the cycle.
\<close>

definition list_cluster ::
  "'w mic_env \<Rightarrow> 'w MicState \<Rightarrow>
     (string, Pod list \<times> AzureIdentityBinding list \<times> AzureIdentity list \<times> assigned_map) result \<times> 'w MicState" where
  "list_cluster env s =
     (case mic_call_env (env_GetPods env) s of
        (Inl err, s) \<Rightarrow> (Inl err, s)
      | (Inr listPods, s) \<Rightarrow>
     (case mic_call_env (env_ListBindings env) s of
        (Inl err, s) \<Rightarrow> (Inl err, s)
      | (Inr listBindings, s) \<Rightarrow>
     (case mic_call_env (env_ListIds env) s of
        (Inl err, s) \<Rightarrow> (Inl err, s)
      | (Inr listIDs, s) \<Rightarrow>
     (case mic_call_env (env_ListAssignedIDsInMap env) s of
        (Inl err, s) \<Rightarrow> (Inl err, s)
      | (Inr currentAssignedIDs, s) \<Rightarrow> (Inr (listPods, listBindings, listIDs, currentAssignedIDs), s)))))"

text \<open>The result of a cycle: whether it did work, unless it ended early.\<close>

definition sync_cycle ::
  "mic_client \<Rightarrow> 'w mic_env \<Rightarrow> 'w MicState \<Rightarrow> (Time \<times> bool option \<times> 'w MicState) option" where
  "sync_cycle c env s =
     (let s = s\<lparr>ms_stats := stats_Init, ms_world := env_StatsInit env (ms_world s)\<rparr>;
          (begin_t, s) = mic_Now env s;
          (cacheTime, s) = mic_Now env s;
          s = s\<lparr>ms_world := env_SyncCacheAll env (ms_world s)\<rparr>;
          s = put_since env CacheSync cacheTime s;
          (systemTime, s) = mic_Now env s
      in case list_cluster env s of
           (Inl err, s) \<Rightarrow> Some (begin_t, None, s)
         | (Inr (listPods, listBindings, listIDs, currentAssignedIDs), s) \<Rightarrow>
             (let s = put_since env System systemTime s;
                  (beginNewListTime, s) = mic_Now env s;
                  s = put_since env CurrentState beginNewListTime s;
                  p = plan_cycle c (env_NodeGet env (ms_world s)) listPods listBindings listIDs currentAssignedIDs;
                  s = put_find_times env currentAssignedIDs (pl_newAssignedIDs p) s
              in map_option (\<lambda>s. (begin_t, Some (pl_workDone p), s)) (apply_plan c env p s)))"

section \<open>The loop\<close>

datatype SyncSignal = Exit | Event EventType | Tick | ReconcileTick

record 'w SyncLoop =
  sl_state :: "'w MicState"
  sl_syncing :: int
  sl_SyncLoopStarted :: bool
  sl_totalWorkDoneCycles :: int
  sl_totalSyncCycles :: int

definition sync_stopped :: int where "sync_stopped = 0"
definition sync_running :: int where "sync_running = 1"

text \<open>\<^verbatim>\<open>atomic.CompareAndSwapInt32\<close>\<close>

definition canSync :: "'w SyncLoop \<Rightarrow> bool \<times> 'w SyncLoop" where
  "canSync l = (if sl_syncing l = sync_stopped then (True, l\<lparr>sl_syncing := sync_running\<rparr>) else (False, l))"

definition setStopped :: "'w SyncLoop \<Rightarrow> 'w SyncLoop" where
  "setStopped l = l\<lparr>sl_syncing := sync_stopped\<rparr>"

definition finish_cycle :: "'w mic_env \<Rightarrow> Time \<Rightarrow> bool \<Rightarrow> 'w SyncLoop \<Rightarrow> 'w SyncLoop" where
  "finish_cycle env begin_t workDone l =
     (if workDone \<or> sl_totalSyncCycles l mod 1000 = 0 then
        (let l = (if workDone then l\<lparr>sl_totalWorkDoneCycles := sl_totalWorkDoneCycles l + 1\<rparr> else l);
             s = put_since env Total begin_t (sl_state l);
             (t, s) = mic_Now env s;
             s = s\<lparr>ms_world := env_Report env [M MICCycleCountM 1, M MICCycleDurationM (time_Sub t begin_t)] (ms_world s)\<rparr>
         in l\<lparr>sl_state := s\<rparr>)
      else l)"

text \<open>The identity assignment of every node: what is on Azure, what should be there, and which nodes are scale sets.\<close>

type_synonym assignment = "(string, (string, bool) gomap) gomap"

record assignment_state =
  as_cache :: "(string, string \<times> bool) gomap"
  as_current :: assignment
  as_desired :: assignment
  as_isVMSS :: "(string, bool) gomap"

definition node_metadata :: "node_getter \<Rightarrow> string \<Rightarrow> (string, string \<times> bool) result" where
  "node_metadata nc nodeName =
     (case nc nodeName of
        Inl err \<Rightarrow> Inl (''failed to get node '' @ nodeName @ '', error: '' @ ne_Text err)
      | Inr node \<Rightarrow>
          (case isVMSS node of
             Inl err \<Rightarrow> Inl (''failed to check if node '' @ nodeName @ '' is VMSS, error: '' @ err)
           | Inr (name, is_vmss) \<Rightarrow> Inr (if is_vmss then getVMSSName name else nodeName, is_vmss)))"

definition assignment_step ::
  "'w mic_env \<Rightarrow> AzureAssignedIdentity \<Rightarrow> assignment_state \<Rightarrow> 'w MicState \<Rightarrow> (string, assignment_state) result \<times> 'w MicState" where
  "assignment_step env a st s =
     (case (case map_of (as_cache st) (a_NodeName a) of
              Some m \<Rightarrow> Inr m
            | None \<Rightarrow> node_metadata (env_NodeGet env (ms_world s)) (a_NodeName a)) of
        Inl err \<Rightarrow> (Inl err, s)
      | Inr (nodeName, is_vmss) \<Rightarrow>
          (let st = st\<lparr>as_cache := mput (a_NodeName a) (nodeName, is_vmss) (as_cache st),
                       as_isVMSS := mput nodeName is_vmss (as_isVMSS st)\<rparr>;
               st = (if a_StatusText a = AssignedIDAssigned \<and> id_Type (a_Identity a) = UserAssignedMSI
                     then st\<lparr>as_desired := mput nodeName
                              (mput (id_ResourceID (a_Identity a)) True (mget0 [] (as_desired st) nodeName)) (as_desired st)\<rparr>
                     else st)
           in case map_of (as_current st) nodeName of
                Some _ \<Rightarrow> (Inr st, s)
              | None \<Rightarrow>
                  (case getUserMSIListForNode env nodeName is_vmss s of
                     (Inl err, s) \<Rightarrow>
                       (Inl (''failed to get a list of user-assigned identites from node '' @ nodeName @ '', error: '' @ err), s)
                   | (Inr idList, s) \<Rightarrow>
                       (Inr (st\<lparr>as_current := mput nodeName (fold (\<lambda>i m. mput i True m) idList []) (as_current st)\<rparr>), s))))"

fun assignment_loop ::
  "'w mic_env \<Rightarrow> AzureAssignedIdentity list \<Rightarrow> assignment_state \<Rightarrow> 'w MicState \<Rightarrow> (string, assignment_state) result \<times> 'w MicState" where
  "assignment_loop env [] st s = (Inr st, s)"
| "assignment_loop env (a # as) st s =
     (case assignment_step env a st s of
        (Inl err, s) \<Rightarrow> (Inl err, s)
      | (Inr st, s) \<Rightarrow> assignment_loop env as st s)"

definition generateIdentityAssignmentState ::
  "'w mic_env \<Rightarrow> 'w MicState \<Rightarrow> (string, assignment \<times> assignment \<times> (string, bool) gomap) result \<times> 'w MicState" where
  "generateIdentityAssignmentState env s =
     (case mic_call_env (env_ListAssignedIDs env) s of
        (Inl err, s) \<Rightarrow> (Inl (''failed to list AzureAssignedIdentities, error: '' @ err), s)
      | (Inr assignedIDs, s) \<Rightarrow>
          (case assignment_loop env assignedIDs \<lparr>as_cache = [], as_current = [], as_desired = [], as_isVMSS = []\<rparr> s of
             (Inl err, s) \<Rightarrow> (Inl err, s)
           | (Inr st, s) \<Rightarrow> (Inr (as_current st, as_desired st, as_isVMSS st), s)))"

definition identities_to_assign :: "assignment \<Rightarrow> string \<Rightarrow> (string, bool) gomap \<Rightarrow> string list" where
  "identities_to_assign currentState nodeName identityResourceIDs =
     filter (\<lambda>i. \<not> (case map_of currentState nodeName of None \<Rightarrow> False | Some m \<Rightarrow> mget0 False m i)) (map fst identityResourceIDs)"

definition generateIdentityAssignmentDiff :: "assignment \<Rightarrow> assignment \<Rightarrow> (string, string list) gomap" where
  "generateIdentityAssignmentDiff currentState desiredState =
     fold (\<lambda>(nodeName, ids) diff.
             let identitiesToAssign = identities_to_assign currentState nodeName ids
             in if length identitiesToAssign > 0 then mput nodeName identitiesToAssign diff else diff)
       desiredState []"

definition reconcile_step ::
  "'w mic_env \<Rightarrow> (string, bool) gomap \<Rightarrow> string \<times> string list \<Rightarrow> 'w MicState \<Rightarrow> 'w MicState" where
  "reconcile_step env isVMSSMap entry s =
     snd (cloud_UpdateUserMSI env (snd entry) [] (fst entry) (mget0 False isVMSSMap (fst entry)) s)"

definition reconcileIdentityAssignment :: "'w mic_env \<Rightarrow> 'w MicState \<Rightarrow> 'w MicState" where
  "reconcileIdentityAssignment env s =
     (case generateIdentityAssignmentState env s of
        (Inl err, s) \<Rightarrow> s
      | (Inr (currentState, desiredState, isVMSSMap), s) \<Rightarrow>
          fold (reconcile_step env isVMSSMap) (generateIdentityAssignmentDiff currentState desiredState) s)"

text \<open>One turn of the loop for a signal other than the exit signal.\<close>

definition sync_turn :: "mic_client \<Rightarrow> 'w mic_env \<Rightarrow> SyncSignal \<Rightarrow> 'w SyncLoop \<Rightarrow> 'w SyncLoop option" where
  "sync_turn c env sig l =
     (if sig = ReconcileTick then Some (l\<lparr>sl_state := reconcileIdentityAssignment env (sl_state l)\<rparr>)
      else
        (let l = l\<lparr>sl_totalSyncCycles := sl_totalSyncCycles l + 1\<rparr> in
         case sync_cycle c env (sl_state l) of
           None \<Rightarrow> None
         | Some (begin_t, None, s) \<Rightarrow> Some (l\<lparr>sl_state := s\<rparr>)
         | Some (begin_t, Some workDone, s) \<Rightarrow> Some (finish_cycle env begin_t workDone (l\<lparr>sl_state := s\<rparr>))))"

text \<open>
  \<^verbatim>\<open>Sync\<close> on the signals it receives; after the last of a finite list it waits.  \<open>Inl\<close> is the panic, \<open>None\<close> a
  turn that never ends.
\<close>

fun sync_loop :: "mic_client \<Rightarrow> 'w mic_env \<Rightarrow> SyncSignal list \<Rightarrow> 'w SyncLoop \<Rightarrow> 'w SyncLoop option" where
  "sync_loop c env [] l = Some l"
| "sync_loop c env (sig # sigs) l =
     (if sig = Exit then Some (setStopped l)
      else Option.bind (sync_turn c env sig l) (sync_loop c env sigs))"

definition Sync ::
  "mic_client \<Rightarrow> 'w mic_env \<Rightarrow> Duration \<Rightarrow> Duration \<Rightarrow> SyncSignal list \<Rightarrow> 'w SyncLoop \<Rightarrow> (string, 'w SyncLoop option) result" where
  "Sync c env syncRetryInterval identityAssignmentReconcileInterval sigs l =
     (case canSync l of
        (False, l) \<Rightarrow> Inl ''concurrent syncs''
      | (True, l) \<Rightarrow>
          if syncRetryInterval \<le> 0 \<or> identityAssignmentReconcileInterval \<le> 0 then Inl ''non-positive interval for NewTicker''
          else Inr (sync_loop c env sigs (l\<lparr>sl_SyncLoopStarted := True, sl_totalWorkDoneCycles := 0, sl_totalSyncCycles := 0\<rparr>)))"

end
