(* ===== verification/MicStore.thy ===== *)
theory MicStore
  imports MicSync
begin

text \<open>
  What the calls of the controller do to the assigned identities in the cluster, when they succeed.
  A store maps the name of an assigned identity to the object; the successful calls of a history,
  replayed on it, give the store after them.
\<close>

section \<open>Stores\<close>

type_synonym store = "string \<Rightarrow> AzureAssignedIdentity option"

fun apply_call :: "mic_call \<Rightarrow> store \<Rightarrow> store" where
  "apply_call (CallCreate a True) m = m(a_Name a \<mapsto> a)"
| "apply_call (CallUpdate a True) m = m(a_Name a \<mapsto> a)"
| "apply_call (CallRemove a True) m = m(a_Name a := None)"
| "apply_call (CallStatus a t True) m = m(a_Name a := map_option (with_status t) (m (a_Name a)))"
| "apply_call _ m = m"

text \<open>A call that changes something reports success.\<close>

fun call_ok :: "mic_call \<Rightarrow> bool" where
  "call_ok (CallCreate _ ok) = ok"
| "call_ok (CallUpdate _ ok) = ok"
| "call_ok (CallRemove _ ok) = ok"
| "call_ok (CallStatus _ _ ok) = ok"
| "call_ok (CallUpdateUserMSI _ _ _ _ ok) = ok"
| "call_ok _ = True"

text \<open>\<open>effect F s s'\<close>: if the calls from \<open>s\<close> to \<open>s'\<close> succeeded, they turn a store \<open>m\<close> into \<open>F m\<close>.\<close>

definition effect :: "(store \<Rightarrow> store) \<Rightarrow> 'w MicState \<Rightarrow> 'w MicState \<Rightarrow> bool" where
  "effect F s s' \<longleftrightarrow> (\<exists>xs. ms_calls s' = ms_calls s @ xs \<and> (list_all call_ok xs \<longrightarrow> fold apply_call xs = F))"

lemma effect_id: "ms_calls s' = ms_calls s \<Longrightarrow> effect id s s'"
  by (auto simp: effect_def fun_eq_iff intro: exI[of _ "[]"])

lemma effect_comp:
  assumes "effect F s1 s2" "effect G s2 s3"
  shows "effect (G \<circ> F) s1 s3"
proof -
  obtain xs ys where "ms_calls s2 = ms_calls s1 @ xs" "list_all call_ok xs \<longrightarrow> fold apply_call xs = F"
    "ms_calls s3 = ms_calls s2 @ ys" "list_all call_ok ys \<longrightarrow> fold apply_call ys = G"
    using assms unfolding effect_def by blast
  then show ?thesis unfolding effect_def by (intro exI[of _ "xs @ ys"]) auto
qed

lemma effect_call: "ms_calls s' = ms_calls s @ xs \<Longrightarrow> (list_all call_ok xs \<Longrightarrow> fold apply_call xs = F) \<Longrightarrow> effect F s s'"
  by (auto simp: effect_def)

lemma effect_failed: "ms_calls s' = ms_calls s @ xs \<Longrightarrow> \<not> list_all call_ok xs \<Longrightarrow> effect F s s'"
  by (auto simp: effect_def)

lemma effect_fold:
  assumes "\<And>a s. effect (F a) s (f a s)"
  shows "effect (fold F as) s (fold f as s)"
proof (induction as arbitrary: s)
  case (Cons a as)
  then show ?case using effect_comp[OF assms[of a s] Cons[of "f a s"]] by (simp add: comp_def)
qed (simp add: effect_id flip: id_def)

text \<open>A loop over assigned identities with distinct names that changes only the entry of each.\<close>

definition on_name :: "(AzureAssignedIdentity \<Rightarrow> AzureAssignedIdentity option \<Rightarrow> AzureAssignedIdentity option) \<Rightarrow>
    AzureAssignedIdentity \<Rightarrow> store \<Rightarrow> store" where
  "on_name h a m = m(a_Name a := h a (m (a_Name a)))"

lemma on_name_at: "on_name h a m k = (if k = a_Name a then h a (m k) else m k)"
  by (simp add: on_name_def)

lemma on_name_other: "k \<notin> a_Name ` set as \<Longrightarrow> fold (on_name h) as m k = m k"
  by (induction as arbitrary: m) (auto simp: on_name_at)

lemma on_name_hit:
  "distinct (map a_Name as) \<Longrightarrow> a \<in> set as \<Longrightarrow> fold (on_name h) as m (a_Name a) = h a (m (a_Name a))"
proof (induction as arbitrary: m)
  case (Cons x xs)
  show ?case
  proof (cases "a = x")
    case True
    then show ?thesis using Cons.prems on_name_other[of "a_Name x" xs h "on_name h x m"] on_name_at[of h x m "a_Name x"] by simp
  next
    case False
    then have mem: "a_Name a \<in> a_Name ` set xs" using Cons.prems(2) by (intro imageI) simp
    have "a_Name x \<notin> a_Name ` set xs" using Cons.prems(1) by simp
    then have "a_Name a \<noteq> a_Name x" by (rule contrapos_nn) (use mem in simp)
    then show ?thesis using Cons.IH[of "on_name h x m"] Cons.prems False on_name_at[of h x m "a_Name a"] by simp
  qed
qed simp

section \<open>The operations when their calls succeed\<close>

definition create_at :: "AzureAssignedIdentity \<Rightarrow> AzureAssignedIdentity option \<Rightarrow> AzureAssignedIdentity option" where
  "create_at a x = (if a_StatusText a = [] then Some (with_status AssignedIDCreated a) else x)"

definition assign_at :: "AzureAssignedIdentity \<Rightarrow> AzureAssignedIdentity option \<Rightarrow> AzureAssignedIdentity option" where
  "assign_at a x = map_option (with_status AssignedIDAssigned) x"

definition delete_at :: "AzureAssignedIdentity \<Rightarrow> AzureAssignedIdentity option \<Rightarrow> AzureAssignedIdentity option" where
  "delete_at a x = None"

lemma with_status_simps [simp]: "a_ObjectMeta (with_status t a) = a_ObjectMeta a" "a_Spec (with_status t a) = a_Spec a"
  "a_StatusText (with_status t a) = t" "with_status t (with_status u a) = with_status t a"
  by (simp_all add: with_status_def)

lemma matchAssignedID_status [simp]: "matchAssignedID (with_status t a) b = matchAssignedID a b"
  by (simp add: matchAssignedID_def)

lemma create_body_effect:
  "effect (on_name create_at a) s (create_body env a s)" "effect (on_name create_at a) s (update_body env a s)"
proof -
  obtain e1 s1 where c: "createAssignedIdentity env (with_status AssignedIDCreated a) s = (e1, s1)" by fastforce
  obtain e2 s2 where u: "updateAssignedIdentity env (with_status AssignedIDCreated a) s = (e2, s2)" by fastforce
  have skip: "on_name create_at a = id" if "a_StatusText a \<noteq> []"
    using that by (simp add: on_name_def create_at_def fun_eq_iff)
  have make: "fold apply_call [CallCreate (with_status AssignedIDCreated a) True] = on_name create_at a"
    "fold apply_call [CallUpdate (with_status AssignedIDCreated a) True] = on_name create_at a" if "a_StatusText a = []"
    using that by (simp_all add: on_name_def create_at_def fun_eq_iff)
  show "effect (on_name create_at a) s (create_body env a s)"
    using effect_call[OF call_eqs(1)[OF c], of "on_name create_at a"] make(1) c skip call_eqs(1)[OF c]
    by (cases "a_StatusText a = []"; cases e1) (auto simp: create_body_def Let_def effect_id intro: effect_failed)
  show "effect (on_name create_at a) s (update_body env a s)"
    using effect_call[OF call_eqs(2)[OF u], of "on_name create_at a"] make(2) u skip call_eqs(2)[OF u]
    by (cases "a_StatusText a = []"; cases e2) (auto simp: update_body_def Let_def effect_id intro: effect_failed)
qed

lemma assigned_body_effect: "effect (on_name assign_at a) s (assigned_body env a s)"
proof -
  obtain e s1 where u: "updateAssignedIdentityStatus env a AssignedIDAssigned s = (e, s1)" by fastforce
  show ?thesis
    using call_eqs(4)[OF u] u
    by (cases e) (auto simp: assigned_body_def effect_def on_name_def assign_at_def fun_eq_iff)
qed

lemma unassign_body_effect: "effect (on_name delete_at a) s (unassign_body env a s)"
proof -
  obtain e1 s1 where u: "updateAssignedIdentityStatus env a AssignedIDUnAssigned s = (e1, s1)" by fastforce
  obtain e2 s2 where r: "removeAssignedIdentity env a s1 = (e2, s2)" by fastforce
  show ?thesis
    using call_eqs(4)[OF u] call_eqs(3)[OF r] u r
    by (cases e1; cases e2) (auto simp: unassign_body_def effect_def on_name_def delete_at_def fun_eq_iff)
qed

lemma cleanup_effect:
  "effect (fold (on_name delete_at) (assignedIDsToDelete (snd e))) s (cleanUpAllAssignedIdentitiesOnNode env e s)"
  unfolding cleanUpAllAssignedIdentitiesOnNode_def
proof (rule effect_fold)
  fix a s
  obtain e s1 where r: "removeAssignedIdentity env a s = (e, s1)" by fastforce
  show "effect (on_name delete_at a) s (cleanup_step env a s)"
    using call_eqs(3)[OF r] r by (cases e) (auto simp: cleanup_step_def Let_def effect_def on_name_def delete_at_def fun_eq_iff)
qed

section \<open>One node\<close>

text \<open>Goroutines on assigned identities of different names may run in any order.\<close>

lemma on_name_commute: "a = b \<or> a_Name a \<noteq> a_Name b \<Longrightarrow> on_name h a \<circ> on_name h b = on_name h b \<circ> on_name h a"
  by (auto simp: on_name_def fun_eq_iff)

lemma order_effect:
  assumes "\<And>x s. effect (on_name h (id_of x)) s (f x s)" "mset order = mset (map f xs)" "distinct (map a_Name (map id_of xs))"
  shows "effect (fold (on_name h) (map id_of xs)) s (run_all order s)"
proof -
  obtain ys where ys: "mset ys = mset xs" "order = map f ys" using order_of_elements[OF assms(2)] by blast
  have "id_of x = id_of y \<or> a_Name (id_of x) \<noteq> a_Name (id_of y)" if "x \<in> set ys" "y \<in> set ys" for x y
    using assms(3) that mset_eq_setD[OF ys(1)] by (auto simp: distinct_map inj_on_def)
  then have "fold (\<lambda>x. on_name h (id_of x)) ys = fold (\<lambda>x. on_name h (id_of x)) xs"
    by (intro fold_multiset_equiv[OF on_name_commute] ys(1)) blast
  moreover have "effect (fold (\<lambda>x. on_name h (id_of x)) ys) s (fold f ys s)" by (rule effect_fold) (rule assms(1))
  ultimately show ?thesis by (simp add: ys(2) run_all_map fold_map comp_def)
qed

definition track_ids :: "trackUserAssignedMSIIds \<Rightarrow> AzureAssignedIdentity list" where
  "track_ids t = assignedIDsToCreate t @ assignedIDsToUpdate t @ assignedIDsToDelete t"

definition track_effect :: "trackUserAssignedMSIIds \<Rightarrow> store \<Rightarrow> store" where
  "track_effect t =
     fold (on_name delete_at) (assignedIDsToDelete t) \<circ>
     fold (on_name assign_at) (assignedIDsToCreate t @ assignedIDsToUpdate t) \<circ>
     fold (on_name create_at) (assignedIDsToCreate t @ assignedIDsToUpdate t)"

lemma created_effect:
  assumes "mset order = mset (map (create_body env) C @ map (update_body env) U)" "distinct (map a_Name (C @ U))"
  shows "effect (fold (on_name create_at) (C @ U)) s (run_all order s)"
proof -
  let ?f = "case_sum (create_body env) (update_body env)" and ?xs = "map Inl C @ map Inr U"
  have ids: "map (case_sum id id) ?xs = C @ U" by (simp add: comp_def)
  have "effect (on_name create_at (case_sum id id x)) s (?f x s)" for x s by (cases x) (simp_all add: create_body_effect)
  moreover have "mset order = mset (map ?f ?xs)" using assms(1) by (simp add: comp_def)
  ultimately have "effect (fold (on_name create_at) (map (case_sum id id) ?xs)) s (run_all order s)"
    by (rule order_effect) (use assms(2) ids in simp)
  then show ?thesis unfolding ids .
qed

lemma after_success_effect:
  assumes "weighted_semaphore (env_Grants env)" "after_success c env t b s = Some s'" "distinct (map a_Name (track_ids t))"
  shows "effect (fold (on_name delete_at) (assignedIDsToDelete t) \<circ> fold (on_name assign_at) (assignedIDsToCreate t @ assignedIDsToUpdate t)) s s'"
  using assms(1,2)
proof (rule after_success_phases)
  fix o1 o2
  assume o: "mset o1 = mset (map (assigned_body env) (assignedIDsToCreate t @ assignedIDsToUpdate t))"
    "mset o2 = mset (map (unassign_body env) (assignedIDsToDelete t))" and s': "s' = record_success env t b (run_all o2 (run_all o1 s))"
  have d: "distinct (map a_Name (assignedIDsToCreate t @ assignedIDsToUpdate t))" "distinct (map a_Name (assignedIDsToDelete t))"
    using assms(3) by (auto simp: track_ids_def)
  have 1: "effect (fold (on_name assign_at) (assignedIDsToCreate t @ assignedIDsToUpdate t)) s (run_all o1 s)"
    using order_effect[where id_of = "\<lambda>x. x", OF assigned_body_effect o(1), of s] d(1) by simp
  have "effect (fold (on_name delete_at) (assignedIDsToDelete t)) (run_all o1 s) (run_all o2 (run_all o1 s))"
    using order_effect[where id_of = "\<lambda>x. x", OF unassign_body_effect o(2), of "run_all o1 s"] d(2) by simp
  from effect_comp[OF effect_comp[OF 1 this] effect_id[OF record_success_calls]] show ?thesis using s' by simp
qed

lemma after_failure_grows: "\<exists>xs. ms_calls (after_failure env err new n t refs b s) = ms_calls s @ xs"
  using after_failure_calls[of env err new n t refs b s] by auto

lemma updateUserMSI_effect:
  assumes sem: "weighted_semaphore (env_Grants env)" and run: "updateUserMSI c env new n t refs s = Some s'"
    and d: "distinct (map a_Name (track_ids t))"
  shows "effect (track_effect t) s s'"
  using sem run
proof (rule updateUserMSI_phases)
  fix b s0 order e s3
  assume b: "mic_Now env s = (b, s0)"
    and order: "mset order = mset (map (create_body env) (assignedIDsToCreate t) @ map (update_body env) (assignedIDsToUpdate t))"
    and s3: "cloud_UpdateUserMSI env (getUniqueIDs (addUserAssignedMSIIDs t)) (getUniqueIDs (removeUserAssignedMSIIDs t)) n (isvmss t)
      (run_all order s0) = (e, s3)"
    and s': "case e of Some err \<Rightarrow> s' = after_failure env err new n t refs b s3 | None \<Rightarrow> after_success c env t b s3 = Some s'"
  let ?finish = "fold (on_name delete_at) (assignedIDsToDelete t) \<circ> fold (on_name assign_at) (assignedIDsToCreate t @ assignedIDsToUpdate t)"
  have "distinct (map a_Name (assignedIDsToCreate t @ assignedIDsToUpdate t))" using d by (auto simp: track_ids_def)
  from created_effect[OF order this, of s0]
  have start: "effect (fold (on_name create_at) (assignedIDsToCreate t @ assignedIDsToUpdate t)) s (run_all order s0)"
    using effect_comp[OF effect_id[OF call_eqs(7)[OF b]]] by fastforce
  have "effect ?finish (run_all order s0) s'"
  proof (cases e)
    case (Some err)
    obtain xs where "ms_calls s' = ms_calls (run_all order s0) @
        CallUpdateUserMSI (getUniqueIDs (addUserAssignedMSIIDs t)) (getUniqueIDs (removeUserAssignedMSIIDs t)) n (isvmss t) False # xs"
      using after_failure_grows[of env err new n t refs b s3] call_eqs(5)[OF s3] Some s' by auto
    then show ?thesis by (auto intro: effect_failed)
  next
    case None
    have "effect id (run_all order s0) s3" by (rule effect_call[OF call_eqs(5)[OF s3]]) (simp add: fun_eq_iff None)
    moreover have "effect ?finish s3 s'" using after_success_effect[OF sem _ d] s' None by simp
    ultimately show ?thesis using effect_comp by fastforce
  qed
  from effect_comp[OF start this] show ?thesis by (simp add: track_effect_def comp_assoc)
qed

lemma updateUserMSI_one_call:
  assumes "weighted_semaphore (env_Grants env)" "updateUserMSI c env new n t refs s = Some s'"
  shows "\<exists>xs. ms_calls s' = ms_calls s @ xs \<and> (\<exists>ok. CallUpdateUserMSI (getUniqueIDs (addUserAssignedMSIIDs t))
    (getUniqueIDs (removeUserAssignedMSIIDs t)) n (isvmss t) ok \<in> set xs)"
  using assms
proof (rule updateUserMSI_phases)
  fix b s0 order e s3
  assume b: "mic_Now env s = (b, s0)"
    and order: "mset order = mset (map (create_body env) (assignedIDsToCreate t) @ map (update_body env) (assignedIDsToUpdate t))"
    and s3: "cloud_UpdateUserMSI env (getUniqueIDs (addUserAssignedMSIIDs t)) (getUniqueIDs (removeUserAssignedMSIIDs t)) n (isvmss t)
      (run_all order s0) = (e, s3)"
    and s': "case e of Some err \<Rightarrow> s' = after_failure env err new n t refs b s3 | None \<Rightarrow> after_success c env t b s3 = Some s'"
  have "makes (creation_call t) s0 (run_all order s0)"
    by (rule makes_run_all) (use mset_eq_setD[OF order] in \<open>auto intro!: create_body_calls update_body_calls\<close>)
  then obtain pre where pre: "ms_calls (run_all order s0) = ms_calls s @ pre" using call_eqs(7)[OF b] by (auto simp: makes_def)
  obtain post where "ms_calls s' = ms_calls s3 @ post"
    using after_failure_grows[of env _ new n t refs b s3] after_success_calls[OF assms(1), of c t b s3 s'] s'
    by (cases e) (auto simp: makes_def)
  then show ?thesis using pre call_eqs(5)[OF s3] by auto
qed

lemma updateNodeAndDeps_effect:
  assumes "weighted_semaphore (env_Grants env)" "1 \<le> mic_createDeleteBatch c" "\<And>e. e \<in> set m \<Longrightarrow> distinct (map a_Name (track_ids (snd e)))"
  shows "\<exists>s'. updateNodeAndDeps c env new m refs s = Some s' \<and> effect (fold (\<lambda>e. track_effect (snd e)) m) s s'"
  using assms(3)
proof (induction m arbitrary: s)
  case (Cons e m)
  obtain n t where e: "e = (n, t)" by fastforce
  obtain s1 where s1: "updateUserMSI c env new n t refs s = Some s1" using updateUserMSI_total[OF assms(1,2)] by blast
  have "effect (track_effect t) s s1" using updateUserMSI_effect[OF assms(1) s1] Cons.prems[of e] e by simp
  then show ?case using Cons.IH[of s1] Cons.prems effect_comp[of "track_effect t" s s1] s1 by (fastforce simp: e comp_def)
qed (simp add: effect_id flip: id_def)

lemma apply_plan_effect:
  assumes "weighted_semaphore (env_Grants env)" "1 \<le> mic_createDeleteBatch c"
    "\<And>e. e \<in> set (pl_nodeMap p) \<Longrightarrow> distinct (map a_Name (track_ids (snd e)))"
  shows "\<exists>s'. apply_plan c env p s = Some s' \<and>
    effect (fold (\<lambda>e. track_effect (snd e)) (pl_nodeMap p) \<circ>
            fold (\<lambda>e. fold (on_name delete_at) (assignedIDsToDelete (snd e))) (pl_cleanups p)) s s'"
  using updateNodeAndDeps_effect[OF assms] effect_fold[of "\<lambda>e. fold (on_name delete_at) (assignedIDsToDelete (snd e))"
      "cleanUpAllAssignedIdentitiesOnNode env", OF cleanup_effect] effect_comp
  unfolding apply_plan_def by blast

text \<open>Every node is updated in the cloud, with the identities of its work.\<close>

lemma updateNodeAndDeps_cloud:
  assumes sem: "weighted_semaphore (env_Grants env)" and run: "updateNodeAndDeps c env new m refs s = Some s'"
  shows "\<exists>xs. ms_calls s' = ms_calls s @ xs \<and> (\<forall>(n, t) \<in> set m. \<exists>ok. CallUpdateUserMSI (getUniqueIDs (addUserAssignedMSIIDs t))
    (getUniqueIDs (removeUserAssignedMSIIDs t)) n (isvmss t) ok \<in> set xs)"
  using run
proof (induction m arbitrary: s)
  case (Cons e m)
  obtain n t where e: "e = (n, t)" by fastforce
  obtain s1 where s1: "updateUserMSI c env new n t refs s = Some s1" "updateNodeAndDeps c env new m refs s1 = Some s'"
    using Cons.prems by (auto simp: e bind_eq_Some_conv)
  obtain xs where xs: "ms_calls s1 = ms_calls s @ xs"
    "\<exists>ok. CallUpdateUserMSI (getUniqueIDs (addUserAssignedMSIIDs t)) (getUniqueIDs (removeUserAssignedMSIIDs t)) n (isvmss t) ok \<in> set xs"
    using updateUserMSI_one_call[OF sem s1(1)] by blast
  obtain ys where "ms_calls s' = ms_calls s1 @ ys" "\<forall>(n, t) \<in> set m. \<exists>ok. CallUpdateUserMSI (getUniqueIDs (addUserAssignedMSIIDs t))
    (getUniqueIDs (removeUserAssignedMSIIDs t)) n (isvmss t) ok \<in> set ys"
    using Cons.IH[OF s1(2)] by blast
  then show ?case using xs e by (intro exI[of _ "xs @ ys"]) auto
qed simp

section \<open>An environment in which every call succeeds\<close>

definition all_succeed :: "'w mic_env \<Rightarrow> bool" where
  "all_succeed env \<longleftrightarrow>
     (\<forall>a w. fst (env_CreateAssignedIdentity env a w) = None) \<and> (\<forall>a w. fst (env_RemoveAssignedIdentity env a w) = None) \<and>
     (\<forall>a w. fst (env_UpdateAssignedIdentity env a w) = None) \<and> (\<forall>a t w. fst (env_UpdateStatus env a t w) = None) \<and>
     (\<forall>add remove n v w. fst (env_UpdateUserMSI env add remove n v w) = None)"

lemma calls_succeed:
  assumes "all_succeed env"
  shows "\<exists>s'. createAssignedIdentity env a s = (None, s')" "\<exists>s'. updateAssignedIdentity env a s = (None, s')"
    "\<exists>s'. removeAssignedIdentity env a s = (None, s')" "\<exists>s'. updateAssignedIdentityStatus env a t s = (None, s')"
    "\<exists>s'. cloud_UpdateUserMSI env add remove n v s = (None, s')"
  using assms
  by (simp_all add: all_succeed_def createAssignedIdentity_def updateAssignedIdentity_def removeAssignedIdentity_def
      updateAssignedIdentityStatus_def cloud_UpdateUserMSI_def split: prod.splits) (metis fst_conv)+

lemma bodies_ok:
  assumes "all_succeed env"
  shows "makes call_ok s (create_body env a s)" "makes call_ok s (update_body env a s)" "makes call_ok s (assigned_body env a s)"
    "makes call_ok s (unassign_body env a s)" "makes call_ok s (cleanup_step env a s)"
proof -
  obtain s1 where c: "createAssignedIdentity env (with_status AssignedIDCreated a) s = (None, s1)" using calls_succeed(1)[OF assms] by blast
  obtain s2 where u: "updateAssignedIdentity env (with_status AssignedIDCreated a) s = (None, s2)" using calls_succeed(2)[OF assms] by blast
  obtain s3 where t: "updateAssignedIdentityStatus env a AssignedIDAssigned s = (None, s3)" using calls_succeed(4)[OF assms] by blast
  obtain s4 where t': "updateAssignedIdentityStatus env a AssignedIDUnAssigned s = (None, s4)" using calls_succeed(4)[OF assms] by blast
  obtain s5 where r: "removeAssignedIdentity env a s4 = (None, s5)" using calls_succeed(3)[OF assms] by blast
  obtain s6 where r': "removeAssignedIdentity env a s = (None, s6)" using calls_succeed(3)[OF assms] by blast
  note calls = call_eqs(1)[OF c] call_eqs(2)[OF u] call_eqs(4)[OF t] call_eqs(4)[OF t'] call_eqs(3)[OF r] call_eqs(3)[OF r']
  show "makes call_ok s (create_body env a s)" "makes call_ok s (update_body env a s)" "makes call_ok s (assigned_body env a s)"
    "makes call_ok s (unassign_body env a s)" "makes call_ok s (cleanup_step env a s)"
    using calls
    by (simp_all add: makes_def c u t t' r r' create_body_def update_body_def assigned_body_def unassign_body_def cleanup_step_def Let_def)
qed

lemma updateUserMSI_ok:
  assumes "weighted_semaphore (env_Grants env)" "all_succeed env" "updateUserMSI c env new n t refs s = Some s'"
  shows "makes call_ok s s'"
  using assms(1,3)
proof (rule updateUserMSI_phases)
  fix b s0 order e s3
  assume b: "mic_Now env s = (b, s0)"
    and order: "mset order = mset (map (create_body env) (assignedIDsToCreate t) @ map (update_body env) (assignedIDsToUpdate t))"
    and s3: "cloud_UpdateUserMSI env (getUniqueIDs (addUserAssignedMSIIDs t)) (getUniqueIDs (removeUserAssignedMSIIDs t)) n (isvmss t)
      (run_all order s0) = (e, s3)"
    and s': "case e of Some err \<Rightarrow> s' = after_failure env err new n t refs b s3 | None \<Rightarrow> after_success c env t b s3 = Some s'"
  note bodies = bodies_ok[OF assms(2)]
  have "e = None" using calls_succeed(5)[OF assms(2)] s3 by (metis prod.inject)
  then have call: "makes call_ok (run_all order s0) s3" and success: "after_success c env t b s3 = Some s'"
    using call_eqs(5)[OF s3] s' by (simp_all add: makes_def)
  have "makes call_ok s0 (run_all order s0)"
    by (rule makes_run_all) (use mset_eq_setD[OF order] bodies(1,2) in auto)
  with makes_same[OF call_eqs(7)[OF b]] have before: "makes call_ok s s3" using call makes_trans by blast
  show ?thesis
    using assms(1) success
  proof (rule after_success_phases)
    fix o1 o2
    assume o: "mset o1 = mset (map (assigned_body env) (assignedIDsToCreate t @ assignedIDsToUpdate t))"
      "mset o2 = mset (map (unassign_body env) (assignedIDsToDelete t))" and s'': "s' = record_success env t b (run_all o2 (run_all o1 s3))"
    have "makes call_ok s3 (run_all o1 s3)" by (rule makes_run_all) (use mset_eq_setD[OF o(1)] bodies(3) in auto)
    moreover have "makes call_ok (run_all o1 s3) (run_all o2 (run_all o1 s3))" by (rule makes_run_all) (use mset_eq_setD[OF o(2)] bodies(4) in auto)
    ultimately show ?thesis using before s'' record_success_calls by (metis makes_same makes_trans)
  qed
qed

lemma apply_plan_ok:
  assumes "all_succeed env" "weighted_semaphore (env_Grants env)" "apply_plan c env p s = Some s'"
  shows "makes call_ok s s'"
proof -
  have nodes: "makes call_ok s s'" if "updateNodeAndDeps c env new m refs s = Some s'" for new m refs s
    using that
  proof (induction m arbitrary: s)
    case (Cons e m)
    then obtain s1 where "updateUserMSI c env new (fst e) (snd e) refs s = Some s1" "updateNodeAndDeps c env new m refs s1 = Some s'"
      by (cases e) (auto simp: bind_eq_Some_conv)
    then show ?case using updateUserMSI_ok[OF assms(2,1)] Cons.IH makes_trans by blast
  qed (simp add: makes_refl)
  have "makes call_ok s (cleanUpAllAssignedIdentitiesOnNode env e s)" for e s
    unfolding cleanUpAllAssignedIdentitiesOnNode_def by (rule makes_fold) (rule bodies_ok(5)[OF assms(1)])
  then have "makes call_ok s (fold (cleanUpAllAssignedIdentitiesOnNode env) (pl_cleanups p) s)" by (intro makes_fold)
  then show ?thesis using nodes assms(3) makes_trans unfolding apply_plan_def by blast
qed

end
