(* ===== verification/MicConverge.thy ===== *)
theory MicConverge
  imports MicStore
begin

text \<open>
  A sync cycle converges: when the calls of a cycle succeed, the assigned identities in the cluster are
  afterwards the desired ones, all in state Assigned.
\<close>

section \<open>Which node or scale set gets an assigned identity\<close>

definition owner :: "node_getter \<Rightarrow> string \<Rightarrow> string" where
  "owner nc n = (case node_vmss nc n of Some v \<Rightarrow> getVMSSName v | None \<Rightarrow> n)"

lemma aggregate_vmss_wf: "wf_map m \<Longrightarrow> wf_map (aggregate_vmss e m)"
proof -
  have "wf_map (fst acc) \<Longrightarrow> wf_map (fst (fold (aggregate_node v) ns acc))" for v ns acc
    by (induction ns arbitrary: acc) (auto simp: aggregate_node_def Let_def split: prod.splits)
  from this[of "(m, zero_track)"] show "wf_map m \<Longrightarrow> wf_map (aggregate_vmss e m)"
    by (cases e) (simp add: aggregate_vmss_def)
qed

lemma consolidate_wf:
  assumes "wf_map m" "consolidateVMSSNodes nc m = (m', cl)"
  shows "wf_map m'"
proof -
  obtain m1 vm cl1 where scan: "fold (consolidate_scan nc) m (m, [], []) = (m1, vm, cl1)" by (metis prod_cases3)
  have "wf_map m1" using scan_fold[OF scan] assms(1) by blast
  moreover have "wf_map x \<Longrightarrow> wf_map (fold aggregate_vmss vm x)" for x
    by (induction vm arbitrary: x) (auto simp: aggregate_vmss_wf)
  ultimately show ?thesis using assms(2) scan by (auto simp: consolidateVMSSNodes_def)
qed

lemma distinct_names_by_node:
  assumes "distinct (map a_Name xs)" "distinct ns"
  shows "distinct (map a_Name (concat (map (\<lambda>n. filter (\<lambda>a. a_NodeName a = n) xs) ns)))"
  using assms(2)
proof (induction ns)
  case (Cons n ns)
  have inj: "a = b" if "a \<in> set xs" "b \<in> set xs" "a_Name a = a_Name b" for a b
    using assms(1) that by (auto simp: distinct_map inj_on_def)
  have "distinct (map a_Name (filter (\<lambda>a. a_NodeName a = n) xs))" using assms(1) by (rule distinct_map_filter)
  moreover have "a_Name a \<noteq> a_Name b"
    if "a \<in> set (filter (\<lambda>a. a_NodeName a = n) xs)" "b \<in> set (concat (map (\<lambda>n. filter (\<lambda>a. a_NodeName a = n) xs) ns))" for a b
    using that inj[of a b] Cons.prems by auto
  ultimately show ?case using Cons by (auto simp: distinct_append)
qed simp

lemma vmss_names_okD:
  assumes "vmss_names_ok nc m" "n \<in> fst ` set m" "node_vmss nc n = Some v"
  shows "getVMSSName v \<notin> fst ` set m"
    and "n' \<in> fst ` set m \<Longrightarrow> node_vmss nc n' = Some v' \<Longrightarrow> getVMSSName v = getVMSSName v' \<Longrightarrow> v = v'"
  using assms unfolding vmss_names_ok_def by blast+

lemma consolidate_entry:
  assumes wf: "wf_map m" and names: "vmss_names_ok nc m" and cons: "consolidateVMSSNodes nc m = (m', cl)"
    and entry: "(k, t) \<in> set m'"
  obtains (VMSS) n v where "n \<in> fst ` set m" "node_vmss nc n = Some v" "k = getVMSSName v"
      "t = vmss_track (map snd (filter (\<lambda>e. node_vmss nc (fst e) = Some v) m))"
    | (VM) "(k, t) \<in> set m" "\<not> node_gone nc k" "node_vmss nc k = None"
      "\<And>n. n \<in> fst ` set m \<Longrightarrow> map_option getVMSSName (node_vmss nc n) \<noteq> Some k"
proof -
  have look: "map_of m' k = Some t" using entry map_of_mem_iff[OF consolidate_wf[OF wf cons]] by blast
  note exact = conjunct1[OF consolidate_map[OF wf names cons], of k]
  show thesis
  proof (cases "List.find (\<lambda>n. map_option getVMSSName (node_vmss nc n) = Some k) (map fst m)")
    case None
    then have "map_option getVMSSName (node_vmss nc n) \<noteq> Some k" if "n \<in> fst ` set m" for n
      using that unfolding find_None_iff by auto
    then show ?thesis
      using VM exact None look map_of_SomeD[of m k t] by (auto split: if_splits)
  next
    case (Some n)
    then have n: "n \<in> fst ` set m" "map_option getVMSSName (node_vmss nc n) = Some k"
      by (auto simp: find_Some_iff)
    then show ?thesis using VMSS[of n] exact Some look by auto
  qed
qed

text \<open>One of the lists of a node's work, through the consolidation.\<close>

lemma consolidated_list:
  fixes f :: "trackUserAssignedMSIIds \<Rightarrow> AzureAssignedIdentity list"
  assumes wf: "wf_map m" and names: "vmss_names_ok nc m" and cons: "consolidateVMSSNodes nc m = (m', cl)"
    and f: "\<And>ts. f (vmss_track ts) = concat (map f ts)"
    and lists: "\<And>n. f (mget0 zero_track m n) = filter (\<lambda>a. a_NodeName a = n) xs"
    and keys: "a_NodeName ` set xs \<subseteq> fst ` set m"
    and entry: "(k, t) \<in> set m'"
  shows "a \<in> set (f t) \<longleftrightarrow> a \<in> set xs \<and> owner nc (a_NodeName a) = k \<and> \<not> node_gone nc (a_NodeName a)"
    and "distinct (map a_Name xs) \<Longrightarrow> distinct (map a_Name (f t))"
proof -
  have get: "f u = filter (\<lambda>a. a_NodeName a = n) xs" if "(n, u) \<in> set m" for n u
    using lists[of n] that map_of_mem_iff[OF wf, of n u] by (simp add: mget0_def)
  have vm_list: "f (vmss_track (map snd (filter (\<lambda>e. node_vmss nc (fst e) = Some v) m))) =
      concat (map (\<lambda>n. filter (\<lambda>a. a_NodeName a = n) xs) (nodes_of nc m v))" for v
  proof -
    have "map (f \<circ> snd) es = map (\<lambda>e. filter (\<lambda>a. a_NodeName a = fst e) xs) es" if "set es \<subseteq> set m" for es
      using that get by (auto simp: subset_iff)
    from this[of "filter (\<lambda>e. node_vmss nc (fst e) = Some v) m"]
    show ?thesis by (simp add: f nodes_of_def filter_map comp_def del: map_eq_conv)
  qed
  show "a \<in> set (f t) \<longleftrightarrow> a \<in> set xs \<and> owner nc (a_NodeName a) = k \<and> \<not> node_gone nc (a_NodeName a)"
    using wf names cons entry
  proof (cases rule: consolidate_entry)
    case (VMSS n v)
    have "owner nc (a_NodeName a) = k \<longleftrightarrow> node_vmss nc (a_NodeName a) = Some v" if "a_NodeName a \<in> fst ` set m"
    proof (cases "node_vmss nc (a_NodeName a)")
      case None
      moreover have "a_NodeName a \<noteq> k" using that VMSS(3) vmss_names_okD(1)[OF names VMSS(1,2)] by metis
      ultimately show ?thesis by (simp add: owner_def)
    next
      case (Some v')
      then show ?thesis using VMSS(3) vmss_names_okD(2)[OF names that Some VMSS(1,2)] by (auto simp: owner_def)
    qed
    then show ?thesis
      using VMSS(4) vm_list[of v] keys gone_no_vmss[of nc "a_NodeName a"] nodes_of_mem[of "a_NodeName a" nc m v] by auto
  next
    case VM
    have "owner nc (a_NodeName a) = k \<longleftrightarrow> a_NodeName a = k" if "a_NodeName a \<in> fst ` set m"
      using VM(4)[OF that] VM(3) by (auto simp: owner_def split: option.splits)
    then show ?thesis using get[OF VM(1)] keys VM(2) by auto
  qed
  show "distinct (map a_Name (f t))" if d: "distinct (map a_Name xs)"
    using wf names cons entry
  proof (cases rule: consolidate_entry)
    case (VMSS n v)
    have "distinct (nodes_of nc m v)" using wf by (simp add: nodes_of_def)
    then show ?thesis using VMSS(4) vm_list[of v] distinct_names_by_node[OF d] by simp
  next
    case VM
    then show ?thesis using get[OF VM(1)] distinct_map_filter[OF d] by simp
  qed
qed

lemma consolidated_owner:
  assumes wf: "wf_map m" and names: "vmss_names_ok nc m" and cons: "consolidateVMSSNodes nc m = (m', cl)"
    and n: "n \<in> fst ` set m" "\<not> node_gone nc n"
  shows "owner nc n \<in> fst ` set m'"
proof -
  note exact = conjunct1[OF consolidate_map[OF wf names cons], of "owner nc n"]
  have "map_of m' (owner nc n) \<noteq> None"
  proof (cases "node_vmss nc n")
    case None
    then have "List.find (\<lambda>n'. map_option getVMSSName (node_vmss nc n') = Some n) (map fst m) = None"
      using vmss_names_okD(1)[OF names] n(1) unfolding find_None_iff by force
    then show ?thesis using exact None n by (auto simp: owner_def map_of_None_iff)
  next
    case (Some v)
    then have "List.find (\<lambda>n'. map_option getVMSSName (node_vmss nc n') = Some (getVMSSName v)) (map fst m) \<noteq> None"
      using n(1) unfolding find_None_iff by auto
    then show ?thesis using exact Some by (auto simp: owner_def)
  qed
  then show ?thesis by (simp add: map_of_None_iff)
qed

section \<open>The work of the nodes of a cycle\<close>

text \<open>Planning removals and additions of identities leaves the assigned identities of every node alone.\<close>

definition same_work :: "node_map \<Rightarrow> node_map \<Rightarrow> bool" where
  "same_work m m' \<longleftrightarrow>
     (\<forall>n. assignedIDsToCreate (mget0 zero_track m' n) = assignedIDsToCreate (mget0 zero_track m n) \<and>
          assignedIDsToUpdate (mget0 zero_track m' n) = assignedIDsToUpdate (mget0 zero_track m n) \<and>
          assignedIDsToDelete (mget0 zero_track m' n) = assignedIDsToDelete (mget0 zero_track m n) \<and>
          isvmss (mget0 zero_track m' n) = isvmss (mget0 zero_track m n)) \<and>
     fst ` set m \<subseteq> fst ` set m' \<and> (wf_map m \<longrightarrow> wf_map m')"

lemma same_work_refl [simp]: "same_work m m"
  by (simp add: same_work_def)

lemma same_work_trans: "same_work m1 m2 \<Longrightarrow> same_work m2 m3 \<Longrightarrow> same_work m1 m3"
  unfolding same_work_def by (elim conjE, intro conjI) (simp, rule subset_trans, blast+)

lemma same_work_append:
  "same_work m (appendToRemoveListForNode r n m)" "same_work m (appendToAddListForNode r n m)"
  by (auto simp: same_work_def track_at_eqs track_at_get) (simp_all add: track_at_def wf_map_mput)

lemma shouldAssignID_work: "same_work m (fold (\<lambda>(_, a). shouldAssignID a) xs m)"
proof (induction xs arbitrary: m)
  case (Cons x xs)
  have "same_work m (shouldAssignID (snd x) m)" by (simp add: shouldAssignID_def same_work_append)
  then show ?case using Cons[of "shouldAssignID (snd x) m"] same_work_trans by (cases x) auto
qed simp

lemma remove_fold_work: "same_work m (fst (fold (remove_step c nc chk) xs (m, ls)))"
proof (induction xs arbitrary: m ls)
  case (Cons x xs)
  obtain m1 ls1 where s: "remove_step c nc chk x (m, ls) = (m1, ls1)" by fastforce
  then have "same_work m m1"
    by (auto simp: remove_step_def shouldRemoveID_def same_work_append split: prod.splits sum.splits if_splits)
  then show ?case using Cons[of m1 ls1] same_work_trans s by auto
qed simp

lemma getListOfIdsToDelete_work: "same_work m (getListOfIdsToDelete c nc del before after new m refs)"
proof (cases "getVMSSGroups nc refs")
  case (Inr ls)
  let ?chk = "fold (\<lambda>(name, a) m. mput name a m) after (fold (\<lambda>(name, a) m. mput name a m) new [])"
  obtain m1 ls1 where s: "fold (remove_step c nc ?chk) del (m, ls) = (m1, ls1)" by fastforce
  have "same_work m m1" using remove_fold_work[of m c nc ?chk del ls] s by simp
  moreover have "same_work m1 (fst (fold (remove_step c nc ?chk) before (m1, ls1)))" by (rule remove_fold_work)
  ultimately show ?thesis using Inr s by (simp add: getListOfIdsToDelete_def Let_def same_work_trans)
qed (simp add: getListOfIdsToDelete_def)

lemma getListOfIdsToAssign_work: "same_work m (getListOfIdsToAssign add after m)"
  unfolding getListOfIdsToAssign_def by (rule same_work_trans[OF shouldAssignID_work shouldAssignID_work])

lemma track_at_wf: "wf_map m \<Longrightarrow> wf_map (track_at n f m)"
  by (simp add: track_at_def wf_map_mput)

lemma fold_wf: "(\<And>x m. wf_map m \<Longrightarrow> wf_map (g x m)) \<Longrightarrow> wf_map m \<Longrightarrow> wf_map (fold g xs m)"
  by (induction xs arbitrary: m) simp_all

lemma convert_wf: "wf_map (convertAssignedIDListToMap add del after [])"
  unfolding convertAssignedIDListToMap_def track_at_eqs
  by (intro fold_wf) (simp_all add: track_at_wf case_prod_unfold)

lemma plan_lists_work:
  assumes "mic_diff cur new = (before, after, add, del)" "plan_lists c nc cur new refs = (work, m)"
  shows "assignedIDsToCreate (mget0 zero_track m n) = filter (\<lambda>a. a_NodeName a = n) (map snd add)"
    "assignedIDsToUpdate (mget0 zero_track m n) = filter (\<lambda>a. a_NodeName a = n) (map snd after)"
    "assignedIDsToDelete (mget0 zero_track m n) = filter (\<lambda>a. a_NodeName a = n) (map snd del)"
    "a_NodeName ` snd ` (set add \<union> set del \<union> set after) \<subseteq> fst ` set m" "wf_map m" "\<not> isvmss (mget0 zero_track m n)"
proof -
  let ?m0 = "convertAssignedIDListToMap add del after []"
  have "same_work ?m0 m"
    using assms getListOfIdsToDelete_work[of ?m0] getListOfIdsToAssign_work same_work_trans
    by (auto simp: plan_lists_def Let_def split: if_splits) blast+
  then show "assignedIDsToCreate (mget0 zero_track m n) = filter (\<lambda>a. a_NodeName a = n) (map snd add)"
    "assignedIDsToUpdate (mget0 zero_track m n) = filter (\<lambda>a. a_NodeName a = n) (map snd after)"
    "assignedIDsToDelete (mget0 zero_track m n) = filter (\<lambda>a. a_NodeName a = n) (map snd del)"
    "a_NodeName ` snd ` (set add \<union> set del \<union> set after) \<subseteq> fst ` set m" "wf_map m" "\<not> isvmss (mget0 zero_track m n)"
    using convertAssignedIDListToMap_lists[of add del after] convert_wf[of add del after]
    unfolding same_work_def by (simp_all add: zero_track_def)
qed

section \<open>The effect of all nodes\<close>

text \<open>What a cycle does to an entry of the store for an assigned identity to create or update.\<close>

abbreviation made_at :: "AzureAssignedIdentity \<Rightarrow> AzureAssignedIdentity option \<Rightarrow> AzureAssignedIdentity option" where
  "made_at a x \<equiv> assign_at a (create_at a x)"

lemma track_effect_at:
  assumes d: "distinct (map a_Name (track_ids t))"
  shows "k \<notin> a_Name ` set (track_ids t) \<Longrightarrow> track_effect t m k = m k"
    and "a \<in> set (assignedIDsToCreate t @ assignedIDsToUpdate t) \<Longrightarrow> track_effect t m (a_Name a) = made_at a (m (a_Name a))"
    and "a \<in> set (assignedIDsToDelete t) \<Longrightarrow> track_effect t m (a_Name a) = None"
proof -
  let ?CU = "assignedIDsToCreate t @ assignedIDsToUpdate t" and ?D = "assignedIDsToDelete t"
  have dd: "distinct (map a_Name ?CU)" "distinct (map a_Name ?D)" using d by (auto simp: track_ids_def)
  have apart: "a_Name a \<notin> a_Name ` set ?D" if "a \<in> set ?CU" for a using that d by (auto simp: track_ids_def image_iff)
  have eff: "track_effect t m k = fold (on_name delete_at) ?D (fold (on_name assign_at) ?CU (fold (on_name create_at) ?CU m)) k" for m k
    by (simp only: track_effect_def comp_apply)
  show "track_effect t m k = m k" if "k \<notin> a_Name ` set (track_ids t)"
  proof -
    have "k \<notin> a_Name ` set ?CU" "k \<notin> a_Name ` set ?D" using that by (auto simp: track_ids_def)
    then show ?thesis unfolding eff by (simp only: on_name_other not_False_eq_True)
  qed
  show "track_effect t m (a_Name a) = None" if "a \<in> set ?D"
    unfolding eff on_name_hit[OF dd(2) that] by (simp add: delete_at_def)
  show "track_effect t m (a_Name a) = made_at a (m (a_Name a))" if "a \<in> set ?CU"
    unfolding eff on_name_other[OF apart[OF that]] on_name_hit[OF dd(1) that] ..
qed

lemma tracks_effect_other:
  assumes "distinct (map a_Name (concat (map track_ids ts)))" "k \<notin> a_Name ` set (concat (map track_ids ts))"
  shows "fold track_effect ts m k = m k"
  using assms
proof (induction ts arbitrary: m)
  case (Cons t ts)
  then have "track_effect t m k = m k" using track_effect_at(1)[of t k m] by (simp add: image_Un)
  then show ?case using Cons by (simp add: image_Un)
qed simp

lemma tracks_effect_hit:
  assumes "distinct (map a_Name (concat (map track_ids ts)))" "t \<in> set ts" "a \<in> set (track_ids t)"
    and g: "\<And>m. track_effect t m (a_Name a) = g (m (a_Name a))"
  shows "fold track_effect ts m (a_Name a) = g (m (a_Name a))"
  using assms(1,2)
proof (induction ts arbitrary: m)
  case (Cons u ts)
  have mem: "a_Name a \<in> a_Name ` set (track_ids t)" using assms(3) by (rule imageI)
  have d: "distinct (map a_Name (concat (map track_ids ts)))" "distinct (map a_Name (track_ids u))"
    "a_Name ` set (track_ids u) \<inter> a_Name ` set (concat (map track_ids ts)) = {}"
    using Cons.prems(1) by simp_all
  show ?case
  proof (cases "t \<in> set ts")
    case True
    then have "a_Name a \<in> a_Name ` set (concat (map track_ids ts))" using assms(3) by auto
    then have "a_Name a \<notin> a_Name ` set (track_ids u)" using d(3) by blast
    then have "track_effect u m (a_Name a) = m (a_Name a)" by (rule track_effect_at(1)[OF d(2)])
    then show ?thesis using Cons.IH[OF d(1) True, of "track_effect u m"] by simp
  next
    case False
    then have "t = u" using Cons.prems(2) by simp
    moreover from this have "a_Name a \<notin> a_Name ` set (concat (map track_ids ts))" using mem d(3) by blast
    ultimately show ?thesis using tracks_effect_other[OF d(1), of "a_Name a" "track_effect u m"] g[of m] by simp
  qed
qed simp

lemma tracks_distinct: "distinct (map a_Name (concat (map track_ids ts))) \<Longrightarrow> t \<in> set ts \<Longrightarrow> distinct (map a_Name (track_ids t))"
  by (induction ts) auto

lemma tracks_effect_at:
  assumes d: "distinct (map a_Name (concat (map track_ids ts)))" and t: "t \<in> set ts"
  shows "a \<in> set (assignedIDsToCreate t @ assignedIDsToUpdate t) \<Longrightarrow>
      fold track_effect ts m (a_Name a) = made_at a (m (a_Name a))"
    and "a \<in> set (assignedIDsToDelete t) \<Longrightarrow> fold track_effect ts m (a_Name a) = None"
proof -
  note one = track_effect_at[OF tracks_distinct[OF d t]]
  show "fold track_effect ts m (a_Name a) = made_at a (m (a_Name a))"
    if "a \<in> set (assignedIDsToCreate t @ assignedIDsToUpdate t)"
    by (rule tracks_effect_hit[OF d t, where g="made_at a"]) (use that one(2) in \<open>auto simp: track_ids_def\<close>)
  show "fold track_effect ts m (a_Name a) = None" if "a \<in> set (assignedIDsToDelete t)"
    by (rule tracks_effect_hit[OF d t, where g="\<lambda>_. None"]) (use that one(3) in \<open>auto simp: track_ids_def\<close>)
qed

lemma distinct_concat_names:
  assumes "distinct es" "\<And>e. e \<in> set es \<Longrightarrow> distinct (map a_Name (f e))"
    "\<And>e e' a b. e \<in> set es \<Longrightarrow> e' \<in> set es \<Longrightarrow> a \<in> set (f e) \<Longrightarrow> b \<in> set (f e') \<Longrightarrow> a_Name a = a_Name b \<Longrightarrow> e = e'"
  shows "distinct (map a_Name (concat (map f es)))"
  using assms
proof (induction es)
  case (Cons e es)
  have "distinct (map a_Name (concat (map f es)))" using Cons by (intro Cons.IH) auto
  moreover have "distinct (map a_Name (f e))" using Cons.prems(2) by simp
  moreover have "a_Name ` set (f e) \<inter> a_Name ` set (concat (map f es)) = {}"
  proof (rule ccontr)
    assume "a_Name ` set (f e) \<inter> a_Name ` set (concat (map f es)) \<noteq> {}"
    then obtain a b e' where "a \<in> set (f e)" "e' \<in> set es" "b \<in> set (f e')" "a_Name a = a_Name b" by auto
    then have "e = e'" using Cons.prems(3)[of e e' a b] by simp
    then show False using \<open>e' \<in> set es\<close> Cons.prems(1) by simp
  qed
  ultimately show ?case by simp
qed simp

section \<open>The tracks of a cycle\<close>

lemma update_fold_wf:
  "wf_map (fst (snd acc)) \<and> wf_map (fst (snd (snd acc))) \<and> wf_map (snd (snd (snd acc))) \<Longrightarrow>
   fold update_step xs acc = (before, after, add, del) \<Longrightarrow> wf_map after \<and> wf_map add \<and> wf_map del"
proof (induction xs arbitrary: acc)
  case (Cons x xs)
  obtain k v where x: "x = (k, v)" by fastforce
  obtain B A D E where acc: "acc = (B, A, D, E)" by (metis prod_cases4)
  have "wf_map (fst (snd (update_step x acc))) \<and> wf_map (fst (snd (snd (update_step x acc)))) \<and> wf_map (snd (snd (snd (update_step x acc))))"
    using Cons.prems(1) by (auto simp: update_step_def x acc split: option.splits)
  then show ?case using Cons.IH[of "update_step x acc"] Cons.prems(2) by simp
qed simp

lemma mic_diff_wf:
  assumes "wf_map old" "wf_map new" "mic_diff old new = (before, after, add, del)"
  shows "wf_map after \<and> wf_map add \<and> wf_map del"
proof -
  let ?C = "getAzureAssignedIDsToCreate old new" and ?D = "getAzureAssignedIDsToDelete old new"
  have wf: "wf_map ?C" "wf_map ?D" using toCreate_map(2)[OF assms(2)] toDelete_map(2)[OF assms(1)] by auto
  show ?thesis
    using assms(3) wf update_fold_wf[of "([], [], ?C, ?D)" ?C before after add del]
    by (auto simp: mic_diff_def getAzureAssignedIdentitiesToUpdate_def split: if_splits)
qed

text \<open>The entries of the three lists are stored under their names, and no name occurs twice.\<close>

definition named :: "assigned_map \<Rightarrow> bool" where
  "named m \<longleftrightarrow> wf_map m \<and> (\<forall>n a. map_of m n = Some a \<longrightarrow> a_Name a = n)"

lemma namedD: "named m \<Longrightarrow> map_of m n = Some a \<Longrightarrow> a_Name a = n" "named m \<Longrightarrow> wf_map m"
  by (simp_all add: named_def)

lemma named_mem: "named m \<Longrightarrow> a \<in> snd ` set m \<longleftrightarrow> map_of m (a_Name a) = Some a"
proof
  assume m: "named m" and "a \<in> snd ` set m"
  then obtain n where "map_of m n = Some a" using map_of_mem_iff[OF namedD(2)[OF m]] by auto
  then show "map_of m (a_Name a) = Some a" using namedD(1)[OF m] by simp
next
  assume "named m" and "map_of m (a_Name a) = Some a"
  then show "a \<in> snd ` set m" using map_of_SomeD[of m "a_Name a" a] by force
qed

lemma named_names: "named m \<Longrightarrow> n \<in> a_Name ` snd ` set m \<longleftrightarrow> map_of m n \<noteq> None"
proof
  assume m: "named m" and "n \<in> a_Name ` snd ` set m"
  then obtain a where "a \<in> snd ` set m" "n = a_Name a" by blast
  then show "map_of m n \<noteq> None" using named_mem[OF m, of a] by simp
next
  assume m: "named m" and "map_of m n \<noteq> None"
  then obtain a where a: "map_of m n = Some a" by blast
  then have "a_Name a = n" by (rule namedD(1)[OF m])
  moreover from this have "a \<in> snd ` set m" using a named_mem[OF m, of a] by simp
  ultimately show "n \<in> a_Name ` snd ` set m" by blast
qed

lemma mic_diff_named:
  assumes "named old" "named new" "mic_diff old new = (before, after, add, del)"
  shows "named add" "named after" "named del"
    "\<And>n. map_of add n = None \<or> map_of after n = None" "\<And>n. map_of add n = None \<or> map_of del n = None"
    "\<And>n. map_of after n = None \<or> map_of del n = None"
proof -
  note wf = mic_diff_wf[OF namedD(2)[OF assms(1)] namedD(2)[OF assms(2)] assms(3)]
  note d = mic_diff_map[OF namedD(2)[OF assms(1)] namedD(2)[OF assms(2)] assms(3)]
  have "a_Name a = n" if "map_of add n = Some a" for n a
    using that d(1)[of n] namedD(1)[OF assms(1), of n] namedD(1)[OF assms(2), of n] by (auto split: option.splits if_splits)
  then show "named add" using wf by (simp add: named_def)
  have "a_Name a = n" if "map_of after n = Some a" for n a
    using that d(4)[of n] namedD(1)[OF assms(1), of n] by (auto simp: updated_assigned_def split: option.splits if_splits)
  then show "named after" using wf by (simp add: named_def)
  have "a_Name a = n" if "map_of del n = Some a" for n a
    using that d(2)[of n] namedD(1)[OF assms(1), of n] by (auto split: option.splits if_splits)
  then show "named del" using wf by (simp add: named_def)
  show "map_of add n = None \<or> map_of after n = None" "map_of add n = None \<or> map_of del n = None"
    "map_of after n = None \<or> map_of del n = None" for n
    using d(1,2,4)[of n] by (auto split: option.splits if_splits)
qed

lemma named_distinct: "named m \<Longrightarrow> distinct (map a_Name (map snd m))"
proof -
  assume m: "named m"
  have "map a_Name (map snd m) = map fst m"
    using namedD[OF m] map_of_mem_iff[OF namedD(2)[OF m]] by (auto simp: comp_def)
  then show ?thesis using namedD(2)[OF m] by metis
qed

lemma named_apart:
  assumes "named x" "named y" "\<And>n. map_of x n = None \<or> map_of y n = None"
  shows "a_Name ` snd ` set x \<inter> a_Name ` snd ` set y = {}"
proof (rule ccontr)
  assume "a_Name ` snd ` set x \<inter> a_Name ` snd ` set y \<noteq> {}"
  then obtain a b where "a \<in> snd ` set x" "b \<in> snd ` set y" "a_Name a = a_Name b" by blast
  then have "map_of x (a_Name a) \<noteq> None" "map_of y (a_Name a) \<noteq> None"
    using named_mem[OF assms(1), of a] named_mem[OF assms(2), of b] by simp_all
  then show False using assms(3)[of "a_Name a"] by auto
qed

lemma cycle_lists:
  assumes named: "named cur" "named new" and diff: "mic_diff cur new = (before, after, add, del)"
    and lists: "plan_lists c nc cur new refs = (work, m)" and names: "vmss_names_ok nc m"
    and cons: "consolidateVMSSNodes nc m = (m', cl)" and t: "(k, t) \<in> set m'"
  shows "a \<in> set (assignedIDsToCreate t) \<longleftrightarrow> a \<in> snd ` set add \<and> owner nc (a_NodeName a) = k \<and> \<not> node_gone nc (a_NodeName a)"
    "distinct (map a_Name (assignedIDsToCreate t))"
    "a \<in> set (assignedIDsToUpdate t) \<longleftrightarrow> a \<in> snd ` set after \<and> owner nc (a_NodeName a) = k \<and> \<not> node_gone nc (a_NodeName a)"
    "distinct (map a_Name (assignedIDsToUpdate t))"
    "a \<in> set (assignedIDsToDelete t) \<longleftrightarrow> a \<in> snd ` set del \<and> owner nc (a_NodeName a) = k \<and> \<not> node_gone nc (a_NodeName a)"
    "distinct (map a_Name (assignedIDsToDelete t))"
proof -
  note dn = mic_diff_named[OF named diff]
  note w = plan_lists_work[OF diff lists]
  have keys: "a_NodeName ` set (map snd add) \<subseteq> fst ` set m" "a_NodeName ` set (map snd after) \<subseteq> fst ` set m"
    "a_NodeName ` set (map snd del) \<subseteq> fst ` set m" using w(4) by auto
  note C = consolidated_list[OF w(5) names cons _ w(1) keys(1)]
  note U = consolidated_list[OF w(5) names cons _ w(2) keys(2)]
  note D = consolidated_list[OF w(5) names cons _ w(3) keys(3)]
  show "a \<in> set (assignedIDsToCreate t) \<longleftrightarrow> a \<in> snd ` set add \<and> owner nc (a_NodeName a) = k \<and> \<not> node_gone nc (a_NodeName a)"
    "distinct (map a_Name (assignedIDsToCreate t))"
    using C(1)[OF _ t, of a] C(2)[OF _ t] named_distinct[OF dn(1)] by (simp_all add: vmss_track_def)
  show "a \<in> set (assignedIDsToUpdate t) \<longleftrightarrow> a \<in> snd ` set after \<and> owner nc (a_NodeName a) = k \<and> \<not> node_gone nc (a_NodeName a)"
    "distinct (map a_Name (assignedIDsToUpdate t))"
    using U(1)[OF _ t, of a] U(2)[OF _ t] named_distinct[OF dn(2)] by (simp_all add: vmss_track_def)
  show "a \<in> set (assignedIDsToDelete t) \<longleftrightarrow> a \<in> snd ` set del \<and> owner nc (a_NodeName a) = k \<and> \<not> node_gone nc (a_NodeName a)"
    "distinct (map a_Name (assignedIDsToDelete t))"
    using D(1)[OF _ t, of a] D(2)[OF _ t] named_distinct[OF dn(3)] by (simp_all add: vmss_track_def)
qed

lemma cycle_tracks:
  assumes named: "named cur" "named new" and diff: "mic_diff cur new = (before, after, add, del)"
    and lists: "plan_lists c nc cur new refs = (work, m)" and names: "vmss_names_ok nc m"
    and cons: "consolidateVMSSNodes nc m = (m', cl)"
  shows "distinct (map a_Name (concat (map track_ids (map snd m'))))"
    and "a \<in> snd ` set add \<or> a \<in> snd ` set after \<Longrightarrow> \<not> node_gone nc (a_NodeName a) \<Longrightarrow>
      \<exists>t \<in> snd ` set m'. a \<in> set (assignedIDsToCreate t @ assignedIDsToUpdate t)"
    and "a \<in> snd ` set del \<Longrightarrow> \<not> node_gone nc (a_NodeName a) \<Longrightarrow> \<exists>t \<in> snd ` set m'. a \<in> set (assignedIDsToDelete t)"
    and "t \<in> snd ` set m' \<Longrightarrow> a \<in> set (track_ids t) \<Longrightarrow> a \<in> snd ` (set add \<union> set after \<union> set del)"
    and "t \<in> snd ` set m' \<Longrightarrow> a \<in> set (track_ids t) \<Longrightarrow> \<not> node_gone nc (a_NodeName a)"
proof -
  note dn = mic_diff_named[OF named diff]
  note w = plan_lists_work[OF diff lists]
  note cl = cycle_lists[OF named diff lists names cons]
  have C': "a \<in> set (assignedIDsToCreate t) \<longleftrightarrow> a \<in> snd ` set add \<and> owner nc (a_NodeName a) = k \<and> \<not> node_gone nc (a_NodeName a)"
    "distinct (map a_Name (assignedIDsToCreate t))" if "(k, t) \<in> set m'" for a k t using cl(1,2)[OF that] by simp_all
  have U': "a \<in> set (assignedIDsToUpdate t) \<longleftrightarrow> a \<in> snd ` set after \<and> owner nc (a_NodeName a) = k \<and> \<not> node_gone nc (a_NodeName a)"
    "distinct (map a_Name (assignedIDsToUpdate t))" if "(k, t) \<in> set m'" for a k t using cl(3,4)[OF that] by simp_all
  have D': "a \<in> set (assignedIDsToDelete t) \<longleftrightarrow> a \<in> snd ` set del \<and> owner nc (a_NodeName a) = k \<and> \<not> node_gone nc (a_NodeName a)"
    "distinct (map a_Name (assignedIDsToDelete t))" if "(k, t) \<in> set m'" for a k t using cl(5,6)[OF that] by simp_all
  have same: "a = b" if "a \<in> snd ` (set add \<union> set after \<union> set del)" "b \<in> snd ` (set add \<union> set after \<union> set del)" "a_Name a = a_Name b" for a b
    using that dn(4,5,6)[of "a_Name a"] named_mem[OF dn(1)] named_mem[OF dn(2)] named_mem[OF dn(3)]
    by (simp add: image_Un) (metis option.distinct(1) option.inject)
  show from_lists: "a \<in> snd ` (set add \<union> set after \<union> set del)" if "t \<in> snd ` set m'" "a \<in> set (track_ids t)" for t a
    using that C'(1) U'(1) D'(1) by (auto simp: track_ids_def image_Un)
  show "\<not> node_gone nc (a_NodeName a)" if "t \<in> snd ` set m'" "a \<in> set (track_ids t)" for t a
    using that C'(1) U'(1) D'(1) by (auto simp: track_ids_def)
  have key: "owner nc (a_NodeName a) = k" if "(k, t) \<in> set m'" "a \<in> set (track_ids t)" for k t a
    using that C'(1) U'(1) D'(1) by (auto simp: track_ids_def)
  note apart = named_apart[OF dn(1,2,4)] named_apart[OF dn(1,3,5)] named_apart[OF dn(2,3,6)]
  have inner: "distinct (map a_Name (track_ids t))" if "(k, t) \<in> set m'" for k t
  proof -
    have "set (assignedIDsToCreate t) \<subseteq> snd ` set add" by (rule subsetI) (simp only: C'(1)[OF that])
    moreover have "set (assignedIDsToUpdate t) \<subseteq> snd ` set after" by (rule subsetI) (simp only: U'(1)[OF that])
    moreover have "set (assignedIDsToDelete t) \<subseteq> snd ` set del" by (rule subsetI) (simp only: D'(1)[OF that])
    ultimately have "a_Name ` set (assignedIDsToCreate t) \<inter> a_Name ` set (assignedIDsToUpdate t) = {}"
      "a_Name ` set (assignedIDsToCreate t) \<inter> a_Name ` set (assignedIDsToDelete t) = {}"
      "a_Name ` set (assignedIDsToUpdate t) \<inter> a_Name ` set (assignedIDsToDelete t) = {}"
      using apart by (meson disjoint_iff image_mono subsetD)+
    then show ?thesis using C'(2)[OF that] U'(2)[OF that] D'(2)[OF that] by (simp add: track_ids_def image_Un Int_Un_distrib)
  qed
  have "distinct (map a_Name (concat (map (\<lambda>e. track_ids (snd e)) m')))"
  proof (rule distinct_concat_names)
    have wf': "wf_map m'" by (rule consolidate_wf[OF w(5) cons])
    then show "distinct m'" by (simp add: distinct_map)
    show "distinct (map a_Name (track_ids (snd e)))" if "e \<in> set m'" for e using inner[of "fst e" "snd e"] that by simp
    fix e e' a b
    assume e: "e \<in> set m'" "e' \<in> set m'" "a \<in> set (track_ids (snd e))" "b \<in> set (track_ids (snd e'))" "a_Name a = a_Name b"
    then have "a = b" using from_lists[of "snd e" a] from_lists[of "snd e'" b] same[of a b] by simp
    then have "fst e = fst e'" using key[of "fst e" "snd e" a] key[of "fst e'" "snd e'" b] e by simp
    then show "e = e'" using e(1,2) wf' map_of_mem_iff[OF wf', of "fst e"] by (metis option.inject prod.collapse)
  qed
  then show "distinct (map a_Name (concat (map track_ids (map snd m'))))" by (simp add: comp_def)
  show "\<exists>t \<in> snd ` set m'. a \<in> set (assignedIDsToCreate t @ assignedIDsToUpdate t)"
    if a: "a \<in> snd ` set add \<or> a \<in> snd ` set after" "\<not> node_gone nc (a_NodeName a)" for a
  proof -
    have "a_NodeName a \<in> fst ` set m" using a(1) w(4) by auto
    then obtain t where "(owner nc (a_NodeName a), t) \<in> set m'"
      using consolidated_owner[OF w(5) names cons _ a(2)] by auto
    then show ?thesis using a C'(1) U'(1) by (metis Un_iff image_eqI set_append snd_conv)
  qed
  show "\<exists>t \<in> snd ` set m'. a \<in> set (assignedIDsToDelete t)"
    if a: "a \<in> snd ` set del" "\<not> node_gone nc (a_NodeName a)" for a
  proof -
    have "a_NodeName a \<in> fst ` set m" using a(1) w(4) by auto
    then obtain t where "(owner nc (a_NodeName a), t) \<in> set m'"
      using consolidated_owner[OF w(5) names cons _ a(2)] by auto
    then show ?thesis using a D'(1) by (metis image_eqI snd_conv)
  qed
qed

section \<open>Convergence\<close>

lemma delete_all_at:
  "fold (on_name delete_at) as m k = (if k \<in> a_Name ` set as then None else m k)"
  by (induction as arbitrary: m) (auto simp: on_name_at delete_at_def)

lemma cleanups_at:
  "fold (\<lambda>e. fold (on_name delete_at) (f e)) es m k = (if k \<in> a_Name ` set (concat (map f es)) then None else m k)"
  by (induction es arbitrary: m) (auto simp: delete_all_at)

text \<open>The store after a cycle, by name.\<close>

lemma cycle_store:
  assumes named: "named cur" "named new" and diff: "mic_diff cur new = (before, after, add, del)"
    and lists: "plan_lists c nc cur new refs = (work, m)" and names: "vmss_names_ok nc m"
    and cons: "consolidateVMSSNodes nc m = (m', cl)"
    and final: "final = fold track_effect (map snd m')
      (fold (\<lambda>e. fold (on_name delete_at) (assignedIDsToDelete (snd e))) cl st)"
  shows "map_of add n = Some a \<or> map_of after n = Some a \<Longrightarrow> \<not> node_gone nc (a_NodeName a) \<Longrightarrow> final n = made_at a (st n)"
    and "map_of del n = Some a \<Longrightarrow> final n = None"
    and "map_of add n = None \<Longrightarrow> map_of after n = None \<Longrightarrow> map_of del n = None \<Longrightarrow> final n = st n"
proof -
  note dn = mic_diff_named[OF named diff]
  note tr = cycle_tracks[OF named diff lists names cons]
  note w = plan_lists_work[OF diff lists]
  define st1 where "st1 = fold (\<lambda>e. fold (on_name delete_at) (assignedIDsToDelete (snd e))) cl st"
  have cl: "cl = filter (\<lambda>e. node_gone nc (fst e)) m" using conjunct2[OF consolidate_map[OF w(5) names cons]] .
  have cleaned: "a \<in> set (assignedIDsToDelete (snd e)) \<longleftrightarrow> a \<in> snd ` set del \<and> a_NodeName a = fst e" if "e \<in> set m" for a e
    using w(3)[of "fst e"] that map_of_mem_iff[OF w(5), of "fst e" "snd e"] by (auto simp: mget0_def)
  have keep: "st1 n = st n" if "map_of del n = None" for n
  proof -
    have "n \<notin> a_Name ` set (concat (map (\<lambda>e. assignedIDsToDelete (snd e)) cl))"
      using that cleaned named_mem[OF dn(3)] by (auto simp: cl)
    then show ?thesis unfolding st1_def cleanups_at by simp
  qed
  have off: "final n = st1 n" if "map_of add n = None" "map_of after n = None" "map_of del n = None" for n
  proof -
    have "n \<notin> a_Name ` snd ` (set add \<union> set after \<union> set del)"
      using that named_names[OF dn(1), of n] named_names[OF dn(2), of n] named_names[OF dn(3), of n] by (simp add: image_Un)
    then have "n \<notin> a_Name ` set (concat (map track_ids (map snd m')))" using tr(4) by (auto simp: image_iff)
    then show ?thesis unfolding final st1_def by (rule tracks_effect_other[OF tr(1)])
  qed
  show "final n = st n" if "map_of add n = None" "map_of after n = None" "map_of del n = None"
    using off[OF that] keep[OF that(3)] by simp
  show "final n = made_at a (st n)" if a: "map_of add n = Some a \<or> map_of after n = Some a" "\<not> node_gone nc (a_NodeName a)"
  proof -
    have n: "a_Name a = n" "map_of del n = None" using a(1) namedD(1)[OF dn(1)] namedD(1)[OF dn(2)] dn(5,6)[of n] by auto
    have "a \<in> snd ` set add \<or> a \<in> snd ` set after" using a(1) named_mem[OF dn(1), of a] named_mem[OF dn(2), of a] n(1) by auto
    then obtain t where t: "t \<in> set (map snd m')" "a \<in> set (assignedIDsToCreate t @ assignedIDsToUpdate t)"
      using tr(2)[OF _ a(2)] by auto
    from tracks_effect_at(1)[OF tr(1) t, of st1] show ?thesis
      unfolding final st1_def[symmetric] using n keep[OF n(2)] by simp
  qed
  show "final n = None" if a: "map_of del n = Some a"
  proof -
    have n: "a_Name a = n" "a \<in> snd ` set del" using a namedD(1)[OF dn(3)] named_mem[OF dn(3), of a] by auto
    show ?thesis
    proof (cases "node_gone nc (a_NodeName a)")
      case False
      then obtain t where "t \<in> set (map snd m')" "a \<in> set (assignedIDsToDelete t)" using tr(3)[OF n(2)] by auto
      from tracks_effect_at(2)[OF tr(1) this, of st1] show ?thesis unfolding final st1_def[symmetric] using n by simp
    next
      case True
      have "a_NodeName a \<in> fst ` set m" using w(4) n(2) by auto
      then obtain e where e: "e \<in> set m" "fst e = a_NodeName a" by auto
      then have "a \<in> set (assignedIDsToDelete (snd e))" "e \<in> set cl" using cleaned[of e a] n(2) True by (auto simp: cl)
      then have "a \<in> set (concat (map (\<lambda>e. assignedIDsToDelete (snd e)) cl))" by auto
      then have "a_Name a \<in> a_Name ` set (concat (map (\<lambda>e. assignedIDsToDelete (snd e)) cl))" by (rule imageI)
      then have st1: "st1 n = None" unfolding st1_def cleanups_at n(1)[symmetric] by (rule if_P)
      have "n \<notin> a_Name ` set (concat (map track_ids (map snd m')))"
      proof
        assume "n \<in> a_Name ` set (concat (map track_ids (map snd m')))"
        then obtain b t where b: "b \<in> set (track_ids t)" "t \<in> snd ` set m'" "a_Name b = n" by auto
        have "b \<in> snd ` set add \<or> b \<in> snd ` set after \<or> b \<in> snd ` set del" using tr(4)[OF b(2,1)] by (simp add: image_Un)
        then have "map_of del n = Some b"
          using dn(5,6)[of n] a named_mem[OF dn(1), of b] named_mem[OF dn(2), of b] named_mem[OF dn(3), of b] b(3) by auto
        then show False using a tr(5)[OF b(2,1)] True by simp
      qed
      from tracks_effect_other[OF tr(1) this, of st1] show ?thesis unfolding final st1_def[symmetric] using st1 by simp
    qed
  qed
qed

lemma desired_fields:
  assumes "createDesiredAssignedIdentityList c pods bindings idMap = (new, refs)" "map_of new n = Some a"
  shows "a_Name a = n \<and> a_StatusText a = []"
  using assms by (rule desired_entry) simp

text \<open>An entry of the store that is as desired.\<close>

definition converged :: "AzureAssignedIdentity option \<Rightarrow> AzureAssignedIdentity option \<Rightarrow> bool" where
  "converged got want \<longleftrightarrow>
     (case (got, want) of
        (None, None) \<Rightarrow> True
      | (Some a, Some x) \<Rightarrow> matchAssignedID a x \<and> a_StatusText a = AssignedIDAssigned
      | _ \<Rightarrow> False)"

text \<open>Its specification is the desired one, or that of a matching entry that was there before.\<close>

definition spec_from :: "AzureAssignedIdentity option \<Rightarrow> AzureAssignedIdentity option \<Rightarrow> AzureAssignedIdentity option \<Rightarrow> bool" where
  "spec_from old got want \<longleftrightarrow>
     (\<forall>a x. got = Some a \<longrightarrow> want = Some x \<longrightarrow>
        a_Spec a = a_Spec x \<or> (\<exists>y. old = Some y \<and> matchAssignedID y x \<and> a_Spec a = a_Spec y))"

lemma converged_cases:
  assumes "\<And>y. old = Some y \<Longrightarrow> a_StatusText y \<in> {AssignedIDCreated, AssignedIDAssigned}"
    "\<And>x. want = Some x \<Longrightarrow> a_StatusText x = []"
    "(case (old, want) of (None, None) \<Rightarrow> True
      | (Some y, Some x) \<Rightarrow> matchAssignedID y x \<and> a_StatusText y \<noteq> AssignedIDCreated | _ \<Rightarrow> False) \<Longrightarrow> got = old"
    "\<And>y. old = Some y \<Longrightarrow> want = None \<Longrightarrow> got = None"
    "\<And>x. old = None \<Longrightarrow> want = Some x \<Longrightarrow> got = made_at x None"
    "\<And>x y. old = Some y \<Longrightarrow> want = Some x \<Longrightarrow> matchAssignedID y x \<Longrightarrow> a_StatusText y = AssignedIDCreated \<Longrightarrow> got = made_at y (Some y)"
    "\<And>x y. old = Some y \<Longrightarrow> want = Some x \<Longrightarrow> \<not> matchAssignedID y x \<Longrightarrow> got = made_at (updated_assigned y x) (Some y)"
  shows "converged got want \<and> spec_from old got want"
proof (cases old; cases want)
  fix y x assume o: "old = Some y" and w: "want = Some x"
  have "a_StatusText (updated_assigned y x) = []" "a_Spec (updated_assigned y x) = a_Spec x" using assms(2)[OF w] by (simp_all add: updated_assigned_def)
  then show ?thesis
    using assms(1)[OF o] assms(3) assms(6)[OF o w] assms(7)[OF o w] o w
    by (cases "matchAssignedID y x"; cases "a_StatusText y = AssignedIDCreated")
      (auto simp: converged_def spec_from_def create_at_def assign_at_def status_defs)
qed (use assms(2-5) in \<open>auto simp: converged_def spec_from_def create_at_def assign_at_def\<close>)

lemma cycle_effect:
  assumes sem: "weighted_semaphore (env_Grants env)" "1 \<le> mic_createDeleteBatch c" and cur: "named cur"
    and desired: "createDesiredAssignedIdentityList c pods bindings (convertIDListToMap ids) = (new, refs)"
    and names: "vmss_names_ok nc (snd (plan_lists c nc cur new refs))"
  shows "\<exists>s'. apply_plan c env (plan_cycle c nc pods bindings ids cur) s = Some s' \<and>
    effect (fold (\<lambda>e. track_effect (snd e)) (pl_nodeMap (plan_cycle c nc pods bindings ids cur)) \<circ>
      fold (\<lambda>e. fold (on_name delete_at) (assignedIDsToDelete (snd e))) (pl_cleanups (plan_cycle c nc pods bindings ids cur))) s s'"
proof (rule apply_plan_effect[OF sem])
  obtain work m where lists: "plan_lists c nc cur new refs = (work, m)" by fastforce
  obtain m' cl where cons: "consolidateVMSSNodes nc m = (m', cl)" by fastforce
  obtain before after add del where diff: "mic_diff cur new = (before, after, add, del)" by (metis prod_cases4)
  have new: "named new" using desired_wf[OF desired] desired_fields[OF desired] by (auto simp: named_def)
  fix e
  assume "e \<in> set (pl_nodeMap (plan_cycle c nc pods bindings ids cur))"
  then have "snd e \<in> set (map snd m')" by (simp add: plan_cycle_def desired lists cons)
  then show "distinct (map a_Name (track_ids (snd e)))"
    by (rule tracks_distinct[OF cycle_tracks(1)[OF cur new diff lists names[unfolded lists snd_conv] cons]])
qed

text \<open>The calls of a cycle that succeeded, replayed.\<close>

lemma cycle_replay:
  assumes sem: "weighted_semaphore (env_Grants env)" "1 \<le> mic_createDeleteBatch c" and cur: "named cur"
    and desired: "createDesiredAssignedIdentityList c pods bindings (convertIDListToMap ids) = (new, refs)"
    and names: "vmss_names_ok nc (snd (plan_lists c nc cur new refs))"
    and run: "apply_plan c env (plan_cycle c nc pods bindings ids cur) s = Some s'" "ms_calls s' = ms_calls s @ calls" "list_all call_ok calls"
  shows "fold apply_call calls (map_of cur) = fold track_effect (map snd (pl_nodeMap (plan_cycle c nc pods bindings ids cur)))
      (fold (\<lambda>e. fold (on_name delete_at) (assignedIDsToDelete (snd e))) (pl_cleanups (plan_cycle c nc pods bindings ids cur)) (map_of cur))"
proof -
  have "effect (fold (\<lambda>e. track_effect (snd e)) (pl_nodeMap (plan_cycle c nc pods bindings ids cur)) \<circ>
      fold (\<lambda>e. fold (on_name delete_at) (assignedIDsToDelete (snd e))) (pl_cleanups (plan_cycle c nc pods bindings ids cur))) s s'"
    using cycle_effect[OF sem cur desired names, of s] run(1) by simp
  then have "fold apply_call calls = fold (\<lambda>e. track_effect (snd e)) (pl_nodeMap (plan_cycle c nc pods bindings ids cur)) \<circ>
      fold (\<lambda>e. fold (on_name delete_at) (assignedIDsToDelete (snd e))) (pl_cleanups (plan_cycle c nc pods bindings ids cur))"
    using run(2,3) by (auto simp: effect_def)
  then show ?thesis by (simp add: fold_map comp_def)
qed

lemma cycle_outcome:
  assumes "weighted_semaphore (env_Grants env)" "1 \<le> mic_createDeleteBatch c"
    and cur: "named cur" "\<And>n a. map_of cur n = Some a \<Longrightarrow> a_StatusText a \<in> {AssignedIDCreated, AssignedIDAssigned}"
    and desired: "createDesiredAssignedIdentityList c pods bindings (convertIDListToMap ids) = (new, refs)"
    and names: "vmss_names_ok nc (snd (plan_lists c nc cur new refs))"
    and nodes: "\<And>n a. map_of new n = Some a \<Longrightarrow> \<not> node_gone nc (a_NodeName a)"
  shows "\<exists>s' calls. apply_plan c env (plan_cycle c nc pods bindings ids cur) s = Some s' \<and> ms_calls s' = ms_calls s @ calls \<and>
    (list_all call_ok calls \<longrightarrow> (\<forall>n. converged (fold apply_call calls (map_of cur) n) (map_of new n) \<and>
      spec_from (map_of cur n) (fold apply_call calls (map_of cur) n) (map_of new n)))"
proof -
  obtain work m where lists: "plan_lists c nc cur new refs = (work, m)" by fastforce
  obtain m' cl where cons: "consolidateVMSSNodes nc m = (m', cl)" by fastforce
  obtain before after add del where diff: "mic_diff cur new = (before, after, add, del)" by (metis prod_cases4)
  let ?p = "plan_cycle c nc pods bindings ids cur"
  have p: "pl_nodeMap ?p = m'" "pl_cleanups ?p = cl" by (simp_all add: plan_cycle_def desired lists cons)
  have new: "named new" "\<And>n x. map_of new n = Some x \<Longrightarrow> a_StatusText x = []"
    using desired_wf[OF desired] desired_fields[OF desired] by (auto simp: named_def)
  obtain s' calls where s': "apply_plan c env ?p s = Some s'" and calls: "ms_calls s' = ms_calls s @ calls"
    using cycle_effect[OF assms(1,2) cur(1) desired names, of s] by (auto simp: effect_def)
  define final where "final = fold apply_call calls (map_of cur)"
  have final: "list_all call_ok calls \<Longrightarrow> final = fold track_effect (map snd m')
      (fold (\<lambda>e. fold (on_name delete_at) (assignedIDsToDelete (snd e))) cl (map_of cur))"
    using cycle_replay[OF assms(1,2) cur(1) desired names s' calls] by (simp add: final_def p)
  note d = mic_diff_map[OF namedD(2)[OF cur(1)] namedD(2)[OF new(1)] diff]
  note st = cycle_store[OF cur(1) new(1) diff lists names[unfolded lists snd_conv] cons final]
  have "converged (final n) (map_of new n) \<and> spec_from (map_of cur n) (final n) (map_of new n)" if ok: "list_all call_ok calls" for n
  proof (rule converged_cases[of "map_of cur n" "map_of new n"])
    show "a_StatusText y \<in> {AssignedIDCreated, AssignedIDAssigned}" if "map_of cur n = Some y" for y using cur(2)[OF that] .
    show "a_StatusText x = []" if "map_of new n = Some x" for x using new(2)[OF that] .
    show "final n = map_of cur n"
      if "(case (map_of cur n, map_of new n) of (None, None) \<Rightarrow> True
         | (Some y, Some x) \<Rightarrow> matchAssignedID y x \<and> a_StatusText y \<noteq> AssignedIDCreated | _ \<Rightarrow> False)"
      using that d(1,2,4)[of n] st(3)[OF ok, of n] by (auto split: option.splits if_splits)
    show "final n = None" if "map_of cur n = Some y" "map_of new n = None" for y
      using that d(2)[of n] st(2)[OF ok, of n y] by simp
    show "final n = made_at x None" if "map_of cur n = None" "map_of new n = Some x" for x
      using that d(1)[of n] st(1)[OF ok, of n x] nodes[of n x] by simp
    show "final n = made_at y (Some y)"
      if "map_of cur n = Some y" "map_of new n = Some x" "matchAssignedID y x" "a_StatusText y = AssignedIDCreated" for x y
      using that d(1)[of n] st(1)[OF ok, of n y] nodes[of n x] by (simp add: matchAssignedID_def)
    show "final n = made_at (updated_assigned y x) (Some y)"
      if "map_of cur n = Some y" "map_of new n = Some x" "\<not> matchAssignedID y x" for x y
      using that d(4)[of n] st(1)[OF ok, of n "updated_assigned y x"] nodes[of n x] by (simp add: updated_assigned_def)
  qed
  then show ?thesis using s' calls unfolding final_def by blast
qed

text \<open>
  The identity of an assigned identity has been put on its node: a call of the cloud for the node, or for the scale set of the node, succeeded, and the
  identity was among those to add.
\<close>

definition put_on_node :: "node_getter \<Rightarrow> mic_call list \<Rightarrow> AzureAssignedIdentity \<Rightarrow> bool" where
  "put_on_node nc calls a \<longleftrightarrow>
     (\<exists>add remove. CallUpdateUserMSI add remove (owner nc (a_NodeName a)) (node_vmss nc (a_NodeName a) \<noteq> None) True \<in> set calls \<and>
        id_ResourceID (a_Identity a) \<in> set add)"

lemma getUniqueIDs_set: "set (getUniqueIDs l) = set l"
proof -
  have "fst ` set (fold (\<lambda>i m. mput i () m) l m) = fst ` set m \<union> set l" for m :: "(string, unit) gomap"
    by (induction l arbitrary: m) (auto simp: keys_mput)
  from this[of "[]"] show ?thesis by (simp add: getUniqueIDs_def)
qed

lemma planned_identity:
  assumes "mic_diff cur new = (before, after, add, del)" "plan_lists c nc cur new refs = (work, m)"
    and a: "a \<in> snd ` set add \<or> a \<in> snd ` set after" "a_StatusText a \<in> {[], AssignedIDCreated}" "id_Type (a_Identity a) = UserAssignedMSI"
  shows "id_ResourceID (a_Identity a) \<in> set (addUserAssignedMSIIDs (mget0 zero_track m (a_NodeName a)))"
proof -
  have "add \<noteq> [] \<or> after \<noteq> []" using a(1) by auto
  then obtain m1 where "m = getListOfIdsToAssign add after m1" using assms(1,2) by (auto simp: plan_lists_def Let_def)
  then show ?thesis using a by (auto simp: getListOfIdsToAssign_def shouldAssignID_fold to_assign_def)
qed

lemma consolidated_adds:
  assumes wf: "wf_map m" and names: "vmss_names_ok nc m" and cons: "consolidateVMSSNodes nc m = (m', cl)"
    and n: "n \<in> fst ` set m" and entry: "(owner nc n, t) \<in> set m'" and vms: "\<And>k. \<not> isvmss (mget0 zero_track m k)"
  shows "set (addUserAssignedMSIIDs (mget0 zero_track m n)) \<subseteq> set (addUserAssignedMSIIDs t) \<and> isvmss t = (node_vmss nc n \<noteq> None)"
  using wf names cons entry
proof (cases rule: consolidate_entry)
  case (VMSS n' v)
  have v: "node_vmss nc n = Some v"
  proof (cases "node_vmss nc n")
    case None
    then show ?thesis using VMSS(3) n vmss_names_okD(1)[OF names VMSS(1,2)] by (simp add: owner_def)
  next
    case (Some v')
    then show ?thesis using VMSS(3) vmss_names_okD(2)[OF names n Some VMSS(1,2)] by (simp add: owner_def)
  qed
  obtain u where u: "(n, u) \<in> set m" using n by auto
  then have "mget0 zero_track m n = u" using map_of_mem_iff[OF wf, of n u] by (simp add: mget0_def)
  then show ?thesis using u v by (auto simp: VMSS(4) vmss_track_def)
next
  case VM
  have vm: "node_vmss nc n = None" using VM(4)[OF n] by (auto simp: owner_def split: option.splits)
  then have "mget0 zero_track m n = t" using VM(1) map_of_mem_iff[OF wf, of n t] by (simp add: mget0_def owner_def)
  then show ?thesis using vm vms[of n] by auto
qed

lemma cycle_puts:
  assumes sem: "weighted_semaphore (env_Grants env)" and named: "named cur" "named new" and diff: "mic_diff cur new = (before, after, add, del)"
    and lists: "plan_lists c nc cur new refs = (work, m)" and names: "vmss_names_ok nc m" and cons: "consolidateVMSSNodes nc m = (m', cl)"
    and plan: "pl_nodeMap p = m'" and run: "apply_plan c env p s = Some s'" "ms_calls s' = ms_calls s @ calls" "list_all call_ok calls"
    and a: "a \<in> snd ` set add \<or> a \<in> snd ` set after" "a_StatusText a \<in> {[], AssignedIDCreated}" "id_Type (a_Identity a) = UserAssignedMSI"
    and node: "\<not> node_gone nc (a_NodeName a)"
  shows "put_on_node nc calls a"
proof -
  note w = plan_lists_work[OF diff lists]
  have n: "a_NodeName a \<in> fst ` set m" using a(1) w(4) by auto
  obtain t where t: "(owner nc (a_NodeName a), t) \<in> set m'" using consolidated_owner[OF w(5) names cons n node] by auto
  have r: "id_ResourceID (a_Identity a) \<in> set (getUniqueIDs (addUserAssignedMSIIDs t))" "isvmss t = (node_vmss nc (a_NodeName a) \<noteq> None)"
    using consolidated_adds[OF w(5) names cons n t w(6)] planned_identity[OF diff lists a] unfolding getUniqueIDs_set by blast+
  let ?s1 = "fold (cleanUpAllAssignedIdentitiesOnNode env) (pl_cleanups p) s"
  have "effect (fold (\<lambda>e. fold (on_name delete_at) (assignedIDsToDelete (snd e))) (pl_cleanups p)) s ?s1"
    by (rule effect_fold) (rule cleanup_effect)
  then obtain xs where xs: "ms_calls ?s1 = ms_calls s @ xs" by (auto simp: effect_def)
  obtain ys where ys: "ms_calls s' = ms_calls ?s1 @ ys" "\<forall>(n, t) \<in> set m'. \<exists>ok. CallUpdateUserMSI (getUniqueIDs (addUserAssignedMSIIDs t))
      (getUniqueIDs (removeUserAssignedMSIIDs t)) n (isvmss t) ok \<in> set ys"
    using updateNodeAndDeps_cloud[OF sem, of c _ m'] run(1) plan unfolding apply_plan_def by blast
  obtain ok where "CallUpdateUserMSI (getUniqueIDs (addUserAssignedMSIIDs t)) (getUniqueIDs (removeUserAssignedMSIIDs t))
      (owner nc (a_NodeName a)) (isvmss t) ok \<in> set calls"
    using ys t xs run(2) by fastforce
  moreover from this have ok using run(3) by (auto simp: list_all_iff)
  ultimately show ?thesis using r unfolding put_on_node_def by auto
qed

text \<open>An entry of the store after a cycle that was not there before comes from a list of the cycle.\<close>

lemma cycle_assigns:
  assumes sem: "weighted_semaphore (env_Grants env)" "1 \<le> mic_createDeleteBatch c"
    and cur: "named cur" "\<And>n a. map_of cur n = Some a \<Longrightarrow> a_StatusText a \<in> {AssignedIDCreated, AssignedIDAssigned}"
    and desired: "createDesiredAssignedIdentityList c pods bindings (convertIDListToMap ids) = (new, refs)"
    and names: "vmss_names_ok nc (snd (plan_lists c nc cur new refs))"
    and nodes: "\<And>n a. map_of new n = Some a \<Longrightarrow> \<not> node_gone nc (a_NodeName a)"
    and run: "apply_plan c env (plan_cycle c nc pods bindings ids cur) s = Some s'" "ms_calls s' = ms_calls s @ calls" "list_all call_ok calls"
    and a: "fold apply_call calls (map_of cur) n = Some a" "map_of cur n \<noteq> Some a" "id_Type (a_Identity a) = UserAssignedMSI"
  shows "put_on_node nc calls a"
proof -
  obtain work m where lists: "plan_lists c nc cur new refs = (work, m)" by fastforce
  obtain m' cl where cons: "consolidateVMSSNodes nc m = (m', cl)" by fastforce
  obtain before after add del where diff: "mic_diff cur new = (before, after, add, del)" by (metis prod_cases4)
  let ?p = "plan_cycle c nc pods bindings ids cur"
  have p: "pl_nodeMap ?p = m'" "pl_cleanups ?p = cl" by (simp_all add: plan_cycle_def desired lists cons)
  have new: "named new" "\<And>n x. map_of new n = Some x \<Longrightarrow> a_StatusText x = []"
    using desired_wf[OF desired] desired_fields[OF desired] by (auto simp: named_def)
  note nm = names[unfolded lists snd_conv]
  note d = mic_diff_map[OF namedD(2)[OF cur(1)] namedD(2)[OF new(1)] diff]
  note dn = mic_diff_named[OF cur(1) new(1) diff]
  have final: "fold apply_call calls (map_of cur) = fold track_effect (map snd m')
      (fold (\<lambda>e. fold (on_name delete_at) (assignedIDsToDelete (snd e))) cl (map_of cur))"
    by (rule cycle_replay[OF sem cur(1) desired names run, unfolded p])
  note st = cycle_store[OF cur(1) new(1) diff lists nm cons final]
  have "map_of del n = None" using st(2)[of n] a(1) by (cases "map_of del n") auto
  then obtain b where b: "map_of add n = Some b \<or> map_of after n = Some b" using st(3)[of n] a(1,2) by (cases "map_of add n"; cases "map_of after n") auto
  have mem: "b \<in> snd ` set add \<or> b \<in> snd ` set after"
    using b named_mem[OF dn(1), of b] named_mem[OF dn(2), of b] namedD(1)[OF dn(1)] namedD(1)[OF dn(2)] by metis
  have fields: "a_StatusText b \<in> {[], AssignedIDCreated} \<and> \<not> node_gone nc (a_NodeName b) \<and> (map_of cur n = None \<or> a_StatusText b = [] \<or> map_of cur n = Some b)"
    using b d(1)[of n] d(4)[of n] new(2)[of n] nodes[of n]
    by (auto simp: updated_assigned_def matchAssignedID_def split: option.splits if_splits)
  then have "a = with_status AssignedIDAssigned b \<or> (\<exists>y. a = with_status AssignedIDAssigned (with_status y b))"
    using st(1)[OF b] a(1) by (auto simp: assign_at_def create_at_def status_defs split: if_splits)
  then have spec: "a_Identity a = a_Identity b" "a_NodeName a = a_NodeName b" by auto
  have "put_on_node nc calls b"
    using cycle_puts[OF sem(1) cur(1) new(1) diff lists nm cons p(1) run mem] fields a(3) spec(1) by simp
  then show ?thesis by (simp add: put_on_node_def spec)
qed

text \<open>
  (C3) A cycle converges.  Suppose the assigned identities of the cluster are in state Created or Assigned, the
  desired ones are on existing nodes, scale sets are told apart by their names, the batch is positive, and the semaphore is the documented one.  Whatever the
  API server and the cloud answer, the cycle ends.  If the calls it made succeeded, replaying them on the cluster gives exactly the
  desired assigned identities, each of them matching and in state Assigned; and for each of them that was not there in this form before the cycle, with a
  user-assigned identity, a successful call of the cloud for its node, or for the scale set of the node, had the identity among those to add.
\<close>

theorem cycle_converges:
  assumes "weighted_semaphore (env_Grants env)" "1 \<le> mic_createDeleteBatch c"
    and cur: "named cur" "\<And>n a. map_of cur n = Some a \<Longrightarrow> a_StatusText a \<in> {AssignedIDCreated, AssignedIDAssigned}"
    and desired: "createDesiredAssignedIdentityList c pods bindings (convertIDListToMap ids) = (new, refs)"
    and names: "vmss_names_ok nc (snd (plan_lists c nc cur new refs))"
    and nodes: "\<And>n a. map_of new n = Some a \<Longrightarrow> \<not> node_gone nc (a_NodeName a)"
  shows "\<exists>s' calls. apply_plan c env (plan_cycle c nc pods bindings ids cur) s = Some s' \<and> ms_calls s' = ms_calls s @ calls \<and>
    (list_all call_ok calls \<longrightarrow> (\<forall>n. converged (fold apply_call calls (map_of cur) n) (map_of new n) \<and>
      (\<forall>a. fold apply_call calls (map_of cur) n = Some a \<longrightarrow> map_of cur n \<noteq> Some a \<longrightarrow> id_Type (a_Identity a) = UserAssignedMSI \<longrightarrow>
         put_on_node nc calls a)))"
proof -
  have "\<exists>s' calls. apply_plan c env (plan_cycle c nc pods bindings ids cur) s = Some s' \<and> ms_calls s' = ms_calls s @ calls \<and>
    (list_all call_ok calls \<longrightarrow> (\<forall>n. converged (fold apply_call calls (map_of cur) n) (map_of new n) \<and>
      spec_from (map_of cur n) (fold apply_call calls (map_of cur) n) (map_of new n)))"
    by (rule cycle_outcome[OF assms(1-3) _ desired names]) (use cur(2) nodes in blast)+
  then obtain s' calls where run: "apply_plan c env (plan_cycle c nc pods bindings ids cur) s = Some s'" "ms_calls s' = ms_calls s @ calls"
    and conv: "list_all call_ok calls \<Longrightarrow> converged (fold apply_call calls (map_of cur) n) (map_of new n)" for n by blast
  have "put_on_node nc calls a" if "list_all call_ok calls" "fold apply_call calls (map_of cur) n = Some a" "map_of cur n \<noteq> Some a"
    "id_Type (a_Identity a) = UserAssignedMSI" for n a
    by (rule cycle_assigns[OF assms(1-3) _ desired names _ run that]) (use cur(2) nodes in blast)+
  then show ?thesis using run conv by blast
qed

text \<open>A cycle of a small cluster whose calls succeed.\<close>

definition sample_cycle :: "unit MicState option" where
  "sample_cycle = apply_plan sample_client (still_env True []) (plan_cycle sample_client sample_nodes [sample_pod]
      [sample_binding ''other'' ''b2'', sample_binding ''ns'' ''b1''] [sample_id ''ns'' ''id'', sample_id ''other'' ''id''] []) start_state"

lemma sample_cycle_ok: "sample_cycle = Some s' \<Longrightarrow> ms_calls s' = ms_calls start_state @ calls \<Longrightarrow> list_all call_ok calls"
  using apply_plan_ok[of "still_env True []", OF _ still_env_semaphore] unfolding sample_cycle_def
  by (fastforce simp: makes_def all_succeed_def still_env_def)

lemma sample_batch: "1 \<le> mic_createDeleteBatch sample_client"
  by code_simp

lemma sample_names: "vmss_names_ok sample_nodes (snd (plan_lists sample_client sample_nodes [] (fst sample_desired) (snd sample_desired)))"
proof -
  have "map fst (snd (plan_lists sample_client sample_nodes [] (fst sample_desired) (snd sample_desired))) = [''node'']"
    unfolding sample_desired_eq by code_simp
  then have "fst ` set (snd (plan_lists sample_client sample_nodes [] (fst sample_desired) (snd sample_desired))) = {''node''}"
    by (metis list.set(1) list.set(2) list.set_map)
  then show ?thesis unfolding vmss_names_ok_def by (simp add: sample_nodes_vmss sample_vmss_names)
qed

lemma sample_nodes_exist: "map_of (fst sample_desired) n = Some a \<Longrightarrow> \<not> node_gone sample_nodes (a_NodeName a)"
  by (auto simp: sample_desired_eq sample_nodes_vmss split: if_splits)

theorem cycle_converges_witness:
  "\<exists>s' calls. sample_cycle = Some s' \<and> ms_calls s' = ms_calls start_state @ calls \<and> list_all call_ok calls \<and>
    (\<forall>n. converged (fold apply_call calls (map_of []) n) (map_of (fst sample_desired) n) \<and>
      (\<forall>a. fold apply_call calls (map_of []) n = Some a \<longrightarrow> map_of [] n \<noteq> Some a \<longrightarrow> id_Type (a_Identity a) = UserAssignedMSI \<longrightarrow>
         put_on_node sample_nodes calls a))"
proof -
  have "\<exists>s' calls. sample_cycle = Some s' \<and> ms_calls s' = ms_calls start_state @ calls \<and>
    (list_all call_ok calls \<longrightarrow> (\<forall>n. converged (fold apply_call calls (map_of []) n) (map_of (fst sample_desired) n) \<and>
      (\<forall>a. fold apply_call calls (map_of []) n = Some a \<longrightarrow> map_of [] n \<noteq> Some a \<longrightarrow> id_Type (a_Identity a) = UserAssignedMSI \<longrightarrow>
         put_on_node sample_nodes calls a)))"
    unfolding sample_cycle_def by (rule cycle_converges[OF still_env_semaphore sample_batch _ _ sample_desired_run sample_names])
      (simp_all add: named_def sample_nodes_exist)
  then show ?thesis using sample_cycle_ok by blast
qed

end
