(* ===== verification/GoRuntime.thy ===== *)
theory GoRuntime
  imports Prelude
begin

text \<open>
  Panics.  A Go call either returns or panics; \<^verbatim>\<open>appHandler.ServeHTTP\<close> recovers from panics and reports
  their text, so the text is kept.  The sources of panics in this program are a nil pointer or interface
  that is used, an index out of range, a failed type assertion and an explicit \<^verbatim>\<open>panic\<close>.
\<close>

section \<open>Definitions\<close>

datatype 'a outcome = Returned 'a | Panicked string

definition nil_dereference :: string where
  "nil_dereference = ''runtime error: invalid memory address or nil pointer dereference''"

definition index_out_of_range_0 :: string where
  "index_out_of_range_0 = ''runtime error: index out of range [0] with length 0''"

definition conversion_panic :: "string \<Rightarrow> string \<Rightarrow> string" where
  "conversion_panic actual wanted = ''interface conversion: '' @ actual @ '' is not '' @ wanted"

text \<open>The value of a pointer that is used.\<close>

definition deref :: "'a option \<Rightarrow> 'a outcome" where
  "deref p = (case p of None \<Rightarrow> Panicked nil_dereference | Some x \<Rightarrow> Returned x)"

text \<open>Element 0 of a slice.\<close>

definition index_0 :: "'a list \<Rightarrow> 'a outcome" where
  "index_0 xs = (case xs of [] \<Rightarrow> Panicked index_out_of_range_0 | x # _ \<Rightarrow> Returned x)"

definition returns :: "'a outcome \<Rightarrow> bool" where
  "returns x = (case x of Returned _ \<Rightarrow> True | Panicked _ \<Rightarrow> False)"

section \<open>Lemmas\<close>

lemma returns_simps [simp]: "returns (Returned x)" "\<not> returns (Panicked t)"
  by (simp_all add: returns_def)

lemma returns_iff: "returns x \<longleftrightarrow> (\<exists>y. x = Returned y)"
  by (cases x) simp_all

lemma deref_simps [simp]: "deref (Some x) = Returned x" "deref None = Panicked nil_dereference"
  by (simp_all add: deref_def)

lemma deref_Returned_iff [simp]: "deref p = Returned x \<longleftrightarrow> p = Some x"
  by (cases p) simp_all

lemma index_0_simps [simp]: "index_0 (x # xs) = Returned x" "index_0 [] = Panicked index_out_of_range_0"
  by (simp_all add: index_0_def)

lemma index_0_Returned_iff: "index_0 xs = Returned x \<longleftrightarrow> (\<exists>ys. xs = x # ys)"
  by (cases xs) auto

end
