(* ===== verification/Crd.thy ===== *)
theory Crd
  imports AadTypes GoRuntime Stats Metrics
begin

text \<open>
  \<^verbatim>\<open>pkg/crd/crd.go\<close>: the client for the custom resources.

  client-go (the REST client, the informers, apimachinery's \<^verbatim>\<open>meta\<close> helpers), the clock and JSON are the
  record \<open>CrdEnv\<close> of functions over a world \<open>'w\<close> (the API server).  An error of the REST client is its
  text and whether \<^verbatim>\<open>IsNotFound\<close> holds of it.  A cached object is a \<open>v1Object\<close>; the list of a store is in
  the order in which \<^verbatim>\<open>List\<close> returns it.  An informer the constructor does not create is nil, \<open>None\<close>;
  using it panics.

  \<open>CrdState\<close> is the client with its caches, the package \<^verbatim>\<open>stats\<close>, the reporter and the world.  The objects in
  a cache are shared by pointer, and the list functions set their group, version and kind in place,
  so they change the cache.
\<close>

section \<open>Objects and environment\<close>

definition finalizerName :: string where
  "finalizerName = ''azureassignedidentity.finalizers.aadpodidentity.k8s.io''"

definition AzureIDResource :: string where "AzureIDResource = ''azureidentities''"
definition AzureIDBindingResource :: string where "AzureIDBindingResource = ''azureidentitybindings''"
definition AzureAssignedIDResource :: string where "AzureAssignedIDResource = ''azureassignedidentities''"
definition AzurePodIdentityExceptionResource :: string where
  "AzurePodIdentityExceptionResource = ''azurepodidentityexceptions''"

lemmas resource_defs = AzureIDResource_def AzureIDBindingResource_def AzureAssignedIDResource_def
  AzurePodIdentityExceptionResource_def

datatype v1Object =
    ObjIdentity v1AzureIdentity
  | ObjBinding v1AzureIdentityBinding
  | ObjAssigned v1AzureAssignedIdentity
  | ObjException v1AzurePodIdentityException
  | ObjPod Pod
  | ObjOther string ObjectMeta

text \<open>What the verb \<^verbatim>\<open>%T\<close> prints of a pointer to the object, and the object's metadata.\<close>

fun obj_type :: "v1Object \<Rightarrow> string" where
  "obj_type (ObjIdentity _) = ''*v1.AzureIdentity''"
| "obj_type (ObjBinding _) = ''*v1.AzureIdentityBinding''"
| "obj_type (ObjAssigned _) = ''*v1.AzureAssignedIdentity''"
| "obj_type (ObjException _) = ''*v1.AzurePodIdentityException''"
| "obj_type (ObjPod _) = ''*v1.Pod''"
| "obj_type (ObjOther t _) = t"

fun obj_meta :: "v1Object \<Rightarrow> ObjectMeta" where
  "obj_meta (ObjIdentity o1) = v1id_ObjectMeta o1"
| "obj_meta (ObjBinding o1) = v1b_ObjectMeta o1"
| "obj_meta (ObjAssigned o1) = v1a_ObjectMeta o1"
| "obj_meta (ObjException o1) = v1e_ObjectMeta o1"
| "obj_meta (ObjPod o1) = pod_ObjectMeta o1"
| "obj_meta (ObjOther _ m) = m"

datatype api_error = ApiError (IsNotFound: bool) (ae_Error: string)

record patchStatusOps =
  ps_Op :: string
  ps_Path :: string
  ps_Value :: string

datatype InformerEvent = AddFunc v1Object | DeleteFunc v1Object | UpdateFunc v1Object v1Object

record Informer =
  inf_Resource :: string
  inf_LabelSelector :: string
  inf_Handler :: "InformerEvent \<Rightarrow> EventType list"
  inf_Store :: "v1Object list"

record 'w CrdEnv =
  ce_Now :: "'w \<Rightarrow> Time \<times> 'w"
  ce_TagNew :: tag_new
  ce_SetGVK :: setGVK
  ce_Marshal :: "patchStatusOps list \<Rightarrow> (string, string) result"
  ce_Unmarshal :: "string \<Rightarrow> string \<Rightarrow> (string, v1Object list) result"
  ce_ExtractList :: "v1Object list \<Rightarrow> (string, v1Object list) result"
  ce_Accessor :: "v1Object \<Rightarrow> string option"
  ce_Delete :: "string \<Rightarrow> string \<Rightarrow> 'w \<Rightarrow> (api_error, v1AzureAssignedIdentity) result \<times> 'w"
  ce_Post :: "string \<Rightarrow> v1AzureAssignedIdentity \<Rightarrow> 'w \<Rightarrow> (api_error, v1AzureAssignedIdentity) result \<times> 'w"
  ce_Put :: "string \<Rightarrow> string \<Rightarrow> string \<Rightarrow> v1Object \<Rightarrow> 'w \<Rightarrow> (api_error, unit) result \<times> 'w"
  ce_PutIdentity :: "string \<Rightarrow> string \<Rightarrow> string \<Rightarrow> v1Object \<Rightarrow> 'w \<Rightarrow> (api_error, v1AzureIdentity) result \<times> 'w"
  ce_PutBinding :: "string \<Rightarrow> string \<Rightarrow> string \<Rightarrow> v1Object \<Rightarrow> 'w \<Rightarrow> (api_error, v1AzureIdentityBinding) result \<times> 'w"
  ce_Patch :: "string \<Rightarrow> string \<Rightarrow> string \<Rightarrow> 'w \<Rightarrow> api_error option \<times> 'w"
  ce_GetRaw :: "string \<Rightarrow> 'w \<Rightarrow> (api_error, string) result \<times> 'w"
  ce_WaitForCacheSync :: "string list \<Rightarrow> 'w \<Rightarrow> bool \<times> 'w"
  ce_NewRestClient :: "string option"
  ce_NewReporter :: "string option"

record crd_client =
  crd_BindingInformer :: "Informer option"
  crd_IDInformer :: "Informer option"
  crd_AssignedIDInformer :: "Informer option"
  crd_PodIdentityExceptionInformer :: "Informer option"

record 'w CrdState =
  cs_client :: crd_client
  cs_stats :: "stats option"
  cs_metrics :: recorded
  cs_world :: 'w

definition crd_Now :: "'w CrdEnv \<Rightarrow> 'w CrdState \<Rightarrow> Time \<times> 'w CrdState" where
  "crd_Now env s = (case ce_Now env (cs_world s) of (t, w) \<Rightarrow> (t, s\<lparr>cs_world := w\<rparr>))"

definition crd_world_call :: "('w \<Rightarrow> 'a \<times> 'w) \<Rightarrow> 'w CrdState \<Rightarrow> 'a \<times> 'w CrdState" where
  "crd_world_call f s = (case f (cs_world s) of (r, w) \<Rightarrow> (r, s\<lparr>cs_world := w\<rparr>))"

section \<open>Construction\<close>

definition NodeNameFilter :: "string \<Rightarrow> string \<Rightarrow> string" where
  "NodeNameFilter nodeName labelSelector = labelSelector @ ''nodename='' @ nodeName"

text \<open>
  A list watch is the resource it lists in all namespaces and its label selector.  \<^verbatim>\<open>cache.NewSharedInformer\<close> returns an
  informer with an empty store (never nil, so the nil checks after it have no branch here).
\<close>

definition newListWatch :: "string \<Rightarrow> string \<times> string" where
  "newListWatch resource = (resource, [])"

definition newBindingListWatch :: "string \<times> string" where "newBindingListWatch = newListWatch AzureIDBindingResource"
definition newIDListWatch :: "string \<times> string" where "newIDListWatch = newListWatch AzureIDResource"
definition newAssignedIDListWatch :: "string \<times> string" where "newAssignedIDListWatch = newListWatch AzureAssignedIDResource"
definition newPodIdentityExceptionListWatch :: "string \<times> string" where
  "newPodIdentityExceptionListWatch = newListWatch AzurePodIdentityExceptionResource"

definition newAssignedIDNodeListWatch :: "string \<Rightarrow> string \<times> string" where
  "newAssignedIDNodeListWatch nodeName = (AzureAssignedIDResource, NodeNameFilter nodeName [])"

definition newInformer :: "(InformerEvent \<Rightarrow> EventType list) \<Rightarrow> string \<times> string \<Rightarrow> Informer" where
  "newInformer handler lw = \<lparr>inf_Resource = fst lw, inf_LabelSelector = snd lw, inf_Handler = handler, inf_Store = []\<rparr>"

fun binding_handler :: "InformerEvent \<Rightarrow> EventType list" where
  "binding_handler (AddFunc _) = [BindingCreated]"
| "binding_handler (DeleteFunc _) = [BindingDeleted]"
| "binding_handler (UpdateFunc _ _) = [BindingUpdated]"

fun id_handler :: "InformerEvent \<Rightarrow> EventType list" where
  "id_handler (AddFunc _) = [IdentityCreated]"
| "id_handler (DeleteFunc _) = [IdentityDeleted]"
| "id_handler (UpdateFunc _ _) = [IdentityUpdated]"

definition no_handler :: "InformerEvent \<Rightarrow> EventType list" where
  "no_handler e = []"

definition newBindingInformer :: "string \<times> string \<Rightarrow> Informer" where "newBindingInformer = newInformer binding_handler"
definition newIDInformer :: "string \<times> string \<Rightarrow> Informer" where "newIDInformer = newInformer id_handler"
definition newAssignedIDInformer :: "string \<times> string \<Rightarrow> Informer" where "newAssignedIDInformer = newInformer no_handler"
definition newBindingInformerLite :: "string \<times> string \<Rightarrow> Informer" where "newBindingInformerLite = newInformer no_handler"
definition newIDInformerLite :: "string \<times> string \<Rightarrow> Informer" where "newIDInformerLite = newInformer no_handler"
definition newPodIdentityExceptionInformer :: "string \<times> string \<Rightarrow> Informer" where
  "newPodIdentityExceptionInformer = newInformer no_handler"

definition NewCRDClientLite :: "'w CrdEnv \<Rightarrow> string \<Rightarrow> bool \<Rightarrow> bool \<Rightarrow> (string, crd_client) result" where
  "NewCRDClientLite env nodeName scale isStandardMode =
     (case ce_NewRestClient env of
        Some err \<Rightarrow> Inl err
      | None \<Rightarrow>
          (let assignedIDListWatch = (if scale then newAssignedIDNodeListWatch nodeName else newAssignedIDListWatch);
               (assignedInformer, bindingInformer, idInformer) =
                 (if isStandardMode then (Some (newAssignedIDInformer assignedIDListWatch), None, None)
                  else (None, Some (newBindingInformerLite newBindingListWatch),
                        Some (newIDInformerLite newIDListWatch)));
               exceptionInformer = newPodIdentityExceptionInformer newPodIdentityExceptionListWatch
           in case ce_NewReporter env of
                Some err \<Rightarrow> Inl (''failed to create reporter for metrics, error: '' @ err)
              | None \<Rightarrow> Inr \<lparr>crd_BindingInformer = bindingInformer, crd_IDInformer = idInformer,
                             crd_AssignedIDInformer = assignedInformer,
                             crd_PodIdentityExceptionInformer = Some exceptionInformer\<rparr>))"

definition NewCRDClient :: "'w CrdEnv \<Rightarrow> (string, crd_client) result" where
  "NewCRDClient env =
     (case ce_NewRestClient env of
        Some err \<Rightarrow> Inl err
      | None \<Rightarrow>
          (case ce_NewReporter env of
             Some err \<Rightarrow> Inl (''failed to create reporter for metrics, error: '' @ err)
           | None \<Rightarrow> Inr
               \<lparr>crd_BindingInformer = Some (newBindingInformer newBindingListWatch),
                crd_IDInformer = Some (newIDInformer newIDListWatch),
                crd_AssignedIDInformer = Some (newAssignedIDInformer newAssignedIDListWatch),
                crd_PodIdentityExceptionInformer = None\<rparr>))"

definition SyncCache :: "'w CrdEnv \<Rightarrow> bool \<Rightarrow> string list \<Rightarrow> 'w CrdState \<Rightarrow> unit outcome \<times> 'w CrdState" where
  "SyncCache env initial cacheSyncs s =
     (case crd_world_call (ce_WaitForCacheSync env cacheSyncs) s of (synced, s) \<Rightarrow>
        if \<not> synced \<and> initial then (Panicked ''Cache failed to be synchronized'', s) else (Returned (), s))"

definition StartLite :: "'w CrdEnv \<Rightarrow> 'w CrdState \<Rightarrow> unit outcome \<times> 'w CrdState" where
  "StartLite env s =
     (let c = cs_client s;
          running = [crd_AssignedIDInformer c, crd_BindingInformer c, crd_IDInformer c, crd_PodIdentityExceptionInformer c]
      in SyncCache env True (map (inf_Resource \<circ> the) (filter (\<lambda>i. i \<noteq> None) running)) s)"

text \<open>The three informers of the controller, which \<^verbatim>\<open>Start\<close> and \<^verbatim>\<open>SyncCacheAll\<close> use; a nil one panics.\<close>

definition sync_three :: "'w CrdEnv \<Rightarrow> bool \<Rightarrow> 'w CrdState \<Rightarrow> unit outcome \<times> 'w CrdState" where
  "sync_three env initial s =
     (case (crd_BindingInformer (cs_client s), crd_IDInformer (cs_client s), crd_AssignedIDInformer (cs_client s)) of
        (Some b, Some i, Some a) \<Rightarrow> SyncCache env initial [inf_Resource b, inf_Resource i, inf_Resource a] s
      | _ \<Rightarrow> (Panicked nil_dereference, s))"

definition crd_Start :: "'w CrdEnv \<Rightarrow> 'w CrdState \<Rightarrow> unit outcome \<times> 'w CrdState" where
  "crd_Start env s = sync_three env True s"

definition SyncCacheAll :: "'w CrdEnv \<Rightarrow> bool \<Rightarrow> 'w CrdState \<Rightarrow> unit outcome \<times> 'w CrdState" where
  "SyncCacheAll env initial s = sync_three env initial s"

section \<open>Finalizers and keys\<close>

definition getMapKey :: "string \<Rightarrow> string \<Rightarrow> string" where
  "getMapKey ns name = strings_Join [ns, name] ''/''"

fun containsString :: "string \<Rightarrow> string list \<Rightarrow> bool" where
  "containsString s [] = False"
| "containsString s (item # items) = (if item = s then True else containsString s items)"

fun removeString :: "string \<Rightarrow> string list \<Rightarrow> string list" where
  "removeString s [] = []"
| "removeString s (item # items) = (if item \<noteq> s then item # removeString s items else removeString s items)"

definition SetFinalizers :: "string list \<Rightarrow> v1AzureAssignedIdentity \<Rightarrow> v1AzureAssignedIdentity" where
  "SetFinalizers fs a = a\<lparr>v1a_ObjectMeta := (v1a_ObjectMeta a)\<lparr>om_Finalizers := fs\<rparr>\<rparr>"

abbreviation GetFinalizers :: "v1AzureAssignedIdentity \<Rightarrow> string list" where
  "GetFinalizers a \<equiv> om_Finalizers (v1a_ObjectMeta a)"

definition removeFinalizer :: "v1AzureAssignedIdentity \<Rightarrow> v1AzureAssignedIdentity" where
  "removeFinalizer a = SetFinalizers (removeString finalizerName (GetFinalizers a)) a"

definition hasFinalizer :: "v1AzureAssignedIdentity \<Rightarrow> bool" where
  "hasFinalizer a = containsString finalizerName (GetFinalizers a)"

section \<open>Assigned identities\<close>

definition report_api_error :: "'w CrdEnv \<Rightarrow> string \<Rightarrow> 'w CrdState \<Rightarrow> 'w CrdState" where
  "report_api_error env operation s =
     s\<lparr>cs_metrics := snd (ReportKubernetesAPIOperationError (ce_TagNew env) operation (cs_metrics s))\<rparr>"

text \<open>The deferred function of an operation that counts and times its successes.\<close>

definition report_operation ::
  "'w CrdEnv \<Rightarrow> string \<Rightarrow> Measure \<Rightarrow> Measure \<Rightarrow> Time \<Rightarrow> string option \<times> 'w CrdState \<Rightarrow> string option \<times> 'w CrdState" where
  "report_operation env operation counter duration start r =
     (case r of
        (Some err, s) \<Rightarrow> (Some err, report_api_error env operation s)
      | (None, s) \<Rightarrow>
          (case crd_Now env s of (now, s) \<Rightarrow>
             (None, s\<lparr>cs_metrics := Report [M counter 1, M duration (time_Sub now start)] (cs_metrics s)\<rparr>)))"

definition aggregate_since :: "'w CrdEnv \<Rightarrow> StatType \<Rightarrow> Time \<Rightarrow> 'w CrdState \<Rightarrow> 'w CrdState" where
  "aggregate_since env key start s =
     (case crd_Now env s of (now, s) \<Rightarrow> s\<lparr>cs_stats := stats_AggregateConcurrent key start now (cs_stats s)\<rparr>)"

definition RemoveAssignedIdentity :: "'w CrdEnv \<Rightarrow> AzureAssignedIdentity \<Rightarrow> 'w CrdState \<Rightarrow> string option \<times> 'w CrdState" where
  "RemoveAssignedIdentity env a s =
     (case crd_Now env s of (start, s) \<Rightarrow>
        report_operation env AssignedIdentityDeletionOperationName AssignedIdentityDeletionCountM
          AssignedIdentityDeletionDurationM start
          (case crd_world_call (ce_Delete env (a_Namespace a) (a_Name a)) s of
             (Inl err, s) \<Rightarrow> if IsNotFound err then (None, s) else (Some (ae_Error err), s)
           | (Inr res, s) \<Rightarrow>
               (let (err, s) =
                      (if hasFinalizer res then
                         (case crd_world_call (ce_Put env AzureAssignedIDResource (a_Namespace a) (a_Name a)
                                                 (ObjAssigned (removeFinalizer res))) s of
                            (Inl err, s) \<Rightarrow> (Some (ae_Error err), s)
                          | (Inr _, s) \<Rightarrow> (None, s))
                       else (None, s))
                in (err, aggregate_since env DeleteAzureAssignedIdentity start s))))"

definition CreateAssignedIdentity :: "'w CrdEnv \<Rightarrow> AzureAssignedIdentity \<Rightarrow> 'w CrdState \<Rightarrow> string option \<times> 'w CrdState" where
  "CreateAssignedIdentity env a s =
     (case crd_Now env s of (start, s) \<Rightarrow>
        report_operation env AssignedIdentityAdditionOperationName AssignedIdentityAdditionCountM
          AssignedIdentityAdditionDurationM start
          (let v1AssignedID = ConvertInternalAssignedIdentityToV1AssignedIdentity (ce_SetGVK env) a;
               v1AssignedID = (if \<not> hasFinalizer v1AssignedID
                 then SetFinalizers (GetFinalizers v1AssignedID @ [finalizerName]) v1AssignedID else v1AssignedID)
           in case crd_world_call (ce_Post env (a_Namespace a) v1AssignedID) s of
                (Inl err, s) \<Rightarrow> (Some (ae_Error err), s)
              | (Inr res, s) \<Rightarrow> (None, aggregate_since env CreateAzureAssignedIdentity start s)))"

definition UpdateAssignedIdentity :: "'w CrdEnv \<Rightarrow> AzureAssignedIdentity \<Rightarrow> 'w CrdState \<Rightarrow> string option \<times> 'w CrdState" where
  "UpdateAssignedIdentity env a s =
     (case crd_Now env s of (start, s) \<Rightarrow>
        report_operation env AssignedIdentityUpdateOperationName AssignedIdentityUpdateCountM
          AssignedIdentityUpdateDurationM start
          (let v1AssignedID = ConvertInternalAssignedIdentityToV1AssignedIdentity (ce_SetGVK env) a
           in case crd_world_call (ce_Put env AzureAssignedIDResource (a_Namespace a) (a_Name a) (ObjAssigned v1AssignedID)) s of
                (Inl err, s) \<Rightarrow> (Some (''failed to update AzureAssignedIdentity, error: '' @ ae_Error err), s)
              | (Inr _, s) \<Rightarrow> (None, aggregate_since env UpdateAzureAssignedIdentity start s)))"

definition UpdateAzureAssignedIdentityStatus ::
  "'w CrdEnv \<Rightarrow> AzureAssignedIdentity \<Rightarrow> string \<Rightarrow> 'w CrdState \<Rightarrow> string option \<times> 'w CrdState" where
  "UpdateAzureAssignedIdentityStatus env a status s =
     (let ops = [\<lparr>ps_Op = ''replace'', ps_Path = ''/status/status'', ps_Value = status\<rparr>];
          (err, s) =
            (case ce_Marshal env ops of
               Inl err \<Rightarrow> (Some err, s)
             | Inr patchBytes \<Rightarrow>
                 (case crd_Now env s of (start, s) \<Rightarrow>
                    (case crd_world_call (ce_Patch env (a_Namespace a) (a_Name a) patchBytes) s of
                       (err, s) \<Rightarrow> (map_option ae_Error err, s))))
      in case err of
           Some e \<Rightarrow> (Some e, report_api_error env UpdateAzureAssignedIdentityStatusOperationName s)
         | None \<Rightarrow> (None, s))"

end
