(* ===== verification/CrdList.thy ===== *)
theory CrdList
  imports Crd
begin

text \<open>
  The reading operations of \<^verbatim>\<open>pkg/crd/crd.go\<close>: the list functions over the informer caches, the identities of a
  pod by state and by binding, and what they return.
\<close>

section \<open>Definitions\<close>

text \<open>
  A loop over a store.  \<open>f\<close> is the body of the loop: it fails, or gives the object as it is left in the
  cache and what is appended to the result.
\<close>

fun list_store :: "(v1Object \<Rightarrow> (string, v1Object \<times> 'a list) result) \<Rightarrow> v1Object list \<Rightarrow> (string, 'a list) result \<times> v1Object list" where
  "list_store f [] = (Inr [], [])"
| "list_store f (x # xs) =
     (case f x of
        Inl err \<Rightarrow> (Inl err, x # xs)
      | Inr (x', ys) \<Rightarrow>
          (case list_store f xs of
             (Inl err, xs') \<Rightarrow> (Inl err, x' # xs')
           | (Inr zs, xs') \<Rightarrow> (Inr (ys @ zs), x' # xs')))"

definition cast_error :: "v1Object \<Rightarrow> string \<Rightarrow> string" where
  "cast_error x resource = ''failed to cast '' @ obj_type x @ '' to '' @ resource"

definition binding_item :: "setGVK \<Rightarrow> v1Object \<Rightarrow> (string, v1Object \<times> AzureIdentityBinding list) result" where
  "binding_item setGVK x =
     (case x of
        ObjBinding b \<Rightarrow>
          (let b = b\<lparr>v1b_TypeMeta := setGVK CRDGroup CRDVersion ''v1.AzureIdentityBinding'' (v1b_TypeMeta b)\<rparr>
           in Inr (ObjBinding b, [ConvertV1BindingToInternalBinding b]))
      | _ \<Rightarrow> Inl (cast_error x AzureIDBindingResource))"

definition identity_item :: "setGVK \<Rightarrow> v1Object \<Rightarrow> (string, v1Object \<times> AzureIdentity list) result" where
  "identity_item setGVK x =
     (case x of
        ObjIdentity i \<Rightarrow>
          (let i = i\<lparr>v1id_TypeMeta := setGVK CRDGroup CRDVersion ''v1.AzureIdentity'' (v1id_TypeMeta i)\<rparr>
           in Inr (ObjIdentity i, [ConvertV1IdentityToInternalIdentity i]))
      | _ \<Rightarrow> Inl (cast_error x AzureIDResource))"

definition assigned_item :: "setGVK \<Rightarrow> v1Object \<Rightarrow> (string, v1Object \<times> AzureAssignedIdentity list) result" where
  "assigned_item setGVK x =
     (case x of
        ObjAssigned a \<Rightarrow>
          (let a = a\<lparr>v1a_TypeMeta := setGVK CRDGroup CRDVersion ''v1.AzureAssignedIdentity'' (v1a_TypeMeta a)\<rparr>
           in Inr (ObjAssigned a, [ConvertV1AssignedIdentityToInternalAssignedIdentity a]))
      | _ \<Rightarrow> Inl (cast_error x AzureAssignedIDResource))"

definition exception_item :: "setGVK \<Rightarrow> string \<Rightarrow> v1Object \<Rightarrow> (string, v1Object \<times> AzurePodIdentityException list) result" where
  "exception_item setGVK ns x =
     (case x of
        ObjException e \<Rightarrow>
          (if om_Namespace (v1e_ObjectMeta e) = ns then
             (let e = e\<lparr>v1e_TypeMeta := setGVK CRDGroup CRDVersion ''v1.AzurePodIdentityException'' (v1e_TypeMeta e)\<rparr>
              in Inr (ObjException e, [ConvertV1PodIdentityExceptionToInternalPodIdentityException e]))
           else Inr (ObjException e, []))
      | _ \<Rightarrow> Inl (cast_error x AzurePodIdentityExceptionResource))"

text \<open>
  The common frame of the list functions: the informer (nil: panic), the loop, which changes the cached objects, and
  the time it took.
\<close>

definition list_informer ::
  "'w CrdEnv \<Rightarrow> (crd_client \<Rightarrow> Informer option) \<Rightarrow> ((Informer option \<Rightarrow> Informer option) \<Rightarrow> crd_client \<Rightarrow> crd_client) \<Rightarrow>
   (v1Object \<Rightarrow> (string, v1Object \<times> 'a list) result) \<Rightarrow> StatType \<Rightarrow> 'w CrdState \<Rightarrow>
   (string, 'a list) result outcome \<times> 'w CrdState" where
  "list_informer env get upd f key s =
     (case crd_Now env s of (start, s) \<Rightarrow>
        (case get (cs_client s) of
           None \<Rightarrow> (Panicked nil_dereference, s)
         | Some informer \<Rightarrow>
             (let (r, store) = list_store f (inf_Store informer);
                  s = s\<lparr>cs_client := upd (\<lambda>_. Some (informer\<lparr>inf_Store := store\<rparr>)) (cs_client s)\<rparr>
              in case r of
                   Inl err \<Rightarrow> (Returned (Inl err), s)
                 | Inr l \<Rightarrow>
                     (case crd_Now env s of (now, s) \<Rightarrow>
                        (Returned (Inr l), s\<lparr>cs_stats := stats_Aggregate key (time_Sub now start) (cs_stats s)\<rparr>)))))"

definition ListBindings :: "'w CrdEnv \<Rightarrow> 'w CrdState \<Rightarrow> (string, AzureIdentityBinding list) result outcome \<times> 'w CrdState" where
  "ListBindings env s =
     list_informer env crd_BindingInformer crd_BindingInformer_update (binding_item (ce_SetGVK env)) AzureIdentityBindingList s"

definition ListAssignedIDs :: "'w CrdEnv \<Rightarrow> 'w CrdState \<Rightarrow> (string, AzureAssignedIdentity list) result outcome \<times> 'w CrdState" where
  "ListAssignedIDs env s =
     list_informer env crd_AssignedIDInformer crd_AssignedIDInformer_update (assigned_item (ce_SetGVK env)) AzureAssignedIdentityList s"

definition ListAssignedIDsInMap ::
  "'w CrdEnv \<Rightarrow> 'w CrdState \<Rightarrow> (string, (string, AzureAssignedIdentity) gomap) result outcome \<times> 'w CrdState" where
  "ListAssignedIDsInMap env s =
     (case list_informer env crd_AssignedIDInformer crd_AssignedIDInformer_update (assigned_item (ce_SetGVK env))
             AzureAssignedIdentityList s of
        (r, s) \<Rightarrow> (map_outcome (map_sum (\<lambda>e. e) (\<lambda>l. fold (\<lambda>a m. mput (a_Name a) a m) l [])) r, s))"

definition ListIds :: "'w CrdEnv \<Rightarrow> 'w CrdState \<Rightarrow> (string, AzureIdentity list) result outcome \<times> 'w CrdState" where
  "ListIds env s =
     list_informer env crd_IDInformer crd_IDInformer_update (identity_item (ce_SetGVK env)) AzureIdentityList s"

definition ListPodIdentityExceptions ::
  "'w CrdEnv \<Rightarrow> string \<Rightarrow> 'w CrdState \<Rightarrow> (string, AzurePodIdentityException list) result outcome \<times> 'w CrdState" where
  "ListPodIdentityExceptions env ns s =
     list_informer env crd_PodIdentityExceptionInformer crd_PodIdentityExceptionInformer_update
       (exception_item (ce_SetGVK env) ns) AzurePodIdentityExceptionList s"

definition add_pod_id ::
  "string \<Rightarrow> string \<Rightarrow> AzureAssignedIdentity \<Rightarrow> (string, AzureIdentity list) gomap \<Rightarrow> (string, AzureIdentity list) gomap" where
  "add_pod_id podns podname v m =
     (if a_Pod v = podname \<and> a_PodNamespace v = podns
      then mput (a_StatusText v) (mget0 [] m (a_StatusText v) @ [a_Identity v]) m else m)"

definition ListPodIds ::
  "'w CrdEnv \<Rightarrow> string \<Rightarrow> string \<Rightarrow> 'w CrdState \<Rightarrow> (string, (string, AzureIdentity list) gomap) result outcome \<times> 'w CrdState" where
  "ListPodIds env podns podname s =
     (case ListAssignedIDs env s of
        (Panicked t, s) \<Rightarrow> (Panicked t, s)
      | (Returned (Inl err), s) \<Rightarrow> (Returned (Inl err), s)
      | (Returned (Inr l), s) \<Rightarrow> (Returned (Inr (fold (add_pod_id podns podname) l [])), s))"

definition matching_ids :: "string \<Rightarrow> string \<Rightarrow> AzureIdentityBinding list \<Rightarrow> (string, bool) gomap" where
  "matching_ids namespace podLabel bindings =
     fold (\<lambda>binding m. if podLabel = b_Selector binding \<and> b_Namespace binding = namespace
                       then mput (b_AzureIdentity binding) True m else m) bindings []"

definition GetPodIDsWithBinding ::
  "'w CrdEnv \<Rightarrow> string \<Rightarrow> (string, string) gomap \<Rightarrow> 'w CrdState \<Rightarrow> (string, AzureIdentity list) result outcome \<times> 'w CrdState" where
  "GetPodIDsWithBinding env namespace labels s =
     (case ListBindings env s of
        (Panicked t, s) \<Rightarrow> (Panicked t, s)
      | (Returned (Inl err), s) \<Rightarrow> (Returned (Inl err), s)
      | (Returned (Inr bindings), s) \<Rightarrow>
          (let matchingIds = matching_ids namespace (mget0 [] labels CRDLabelKey) bindings in
           case ListIds env s of
             (Panicked t, s) \<Rightarrow> (Panicked t, s)
           | (Returned (Inl err), s) \<Rightarrow> (Returned (Inl err), s)
           | (Returned (Inr azIdentities), s) \<Rightarrow>
               (Returned (Inr (filter (\<lambda>i. map_of matchingIds (id_Name i) \<noteq> None \<and> id_Namespace i = namespace) azIdentities)), s)))"

section \<open>The store loop\<close>

text \<open>The loop over objects the body accepts, and over a store with one it does not accept.\<close>

lemma list_store_map:
  assumes "\<And>a. f (C a) = Inr (h a, g a)"
  shows "list_store f (map C as) = (Inr (concat (map g as)), map h as)"
  by (induction as) (simp_all add: assms)

lemma list_store_fails: "x \<in> set xs \<Longrightarrow> f x = Inl e \<Longrightarrow> \<exists>e'. fst (list_store f xs) = Inl e'"
  by (induction xs) (auto split: sum.splits prod.splits)

lemma list_store_Inr:
  "list_store f xs = (Inr l, xs') \<Longrightarrow> \<exists>rs. map f xs = map Inr rs \<and> l = concat (map snd rs) \<and> xs' = map fst rs"
proof (induction xs arbitrary: l xs')
  case (Cons x xs)
  then obtain x' ys zs xs'' where x: "f x = Inr (x', ys)" "list_store f xs = (Inr zs, xs'')" "l = ys @ zs" "xs' = x' # xs''"
    by (auto split: sum.splits prod.splits)
  from Cons.IH[OF x(2)] obtain rs where "map f xs = map Inr rs" "zs = concat (map snd rs)" "xs'' = map fst rs" by blast
  then show ?case using x by (intro exI[of _ "(x', ys) # rs"]) simp
qed simp

lemma list_store_length [simp]: "length (snd (list_store f xs)) = length xs"
  by (induction xs) (auto split: sum.splits prod.splits)


text \<open>One equation for the frame: how it runs when the informer is there.\<close>

lemma list_informer_Some:
  assumes "get (cs_client s) = Some informer"
  shows "\<exists>s'. list_informer env get upd f key s = (Returned (fst (list_store f (inf_Store informer))), s') \<and>
    cs_client s' = upd (\<lambda>_. Some (informer\<lparr>inf_Store := snd (list_store f (inf_Store informer))\<rparr>)) (cs_client s)"
  using assms
  by (auto simp: list_informer_def crd_Now_def Let_def split: prod.splits sum.splits)

lemma list_informer_None:
  assumes "get (cs_client s) = None"
  shows "\<exists>s'. list_informer env get upd f key s = (Panicked nil_dereference, s') \<and> cs_client s' = cs_client s"
  using assms by (auto simp: list_informer_def crd_Now_def split: prod.splits)

text \<open>What the list of assigned identities shows of a cached object.\<close>

definition listed_assigned :: "setGVK \<Rightarrow> v1AzureAssignedIdentity \<Rightarrow> AzureAssignedIdentity" where
  "listed_assigned setGVK a = ConvertV1AssignedIdentityToInternalAssignedIdentity
     (a\<lparr>v1a_TypeMeta := setGVK CRDGroup CRDVersion ''v1.AzureAssignedIdentity'' (v1a_TypeMeta a)\<rparr>)"

definition listed_identity :: "setGVK \<Rightarrow> v1AzureIdentity \<Rightarrow> AzureIdentity" where
  "listed_identity setGVK i = ConvertV1IdentityToInternalIdentity
     (i\<lparr>v1id_TypeMeta := setGVK CRDGroup CRDVersion ''v1.AzureIdentity'' (v1id_TypeMeta i)\<rparr>)"

definition listed_binding :: "setGVK \<Rightarrow> v1AzureIdentityBinding \<Rightarrow> AzureIdentityBinding" where
  "listed_binding setGVK b = ConvertV1BindingToInternalBinding
     (b\<lparr>v1b_TypeMeta := setGVK CRDGroup CRDVersion ''v1.AzureIdentityBinding'' (v1b_TypeMeta b)\<rparr>)"

lemma item_simps [simp]:
  "assigned_item g (ObjAssigned a) = Inr (ObjAssigned (a\<lparr>v1a_TypeMeta := g CRDGroup CRDVersion ''v1.AzureAssignedIdentity'' (v1a_TypeMeta a)\<rparr>), [listed_assigned g a])"
  "identity_item g (ObjIdentity i) = Inr (ObjIdentity (i\<lparr>v1id_TypeMeta := g CRDGroup CRDVersion ''v1.AzureIdentity'' (v1id_TypeMeta i)\<rparr>), [listed_identity g i])"
  "binding_item g (ObjBinding b) = Inr (ObjBinding (b\<lparr>v1b_TypeMeta := g CRDGroup CRDVersion ''v1.AzureIdentityBinding'' (v1b_TypeMeta b)\<rparr>), [listed_binding g b])"
  by (simp_all add: assigned_item_def identity_item_def binding_item_def listed_assigned_def listed_identity_def
      listed_binding_def Let_def)

lemma list_store_objects:
  "fst (list_store (assigned_item g) (map ObjAssigned as)) = Inr (map (listed_assigned g) as)"
  "fst (list_store (identity_item g) (map ObjIdentity is)) = Inr (map (listed_identity g) is)"
  "fst (list_store (binding_item g) (map ObjBinding bs)) = Inr (map (listed_binding g) bs)"
  by (simp_all add: list_store_map)

lemma lists_all:
  "crd_AssignedIDInformer (cs_client s) = Some informer \<Longrightarrow> inf_Store informer = map ObjAssigned as \<Longrightarrow>
     \<exists>s'. ListAssignedIDs env s = (Returned (Inr (map (listed_assigned (ce_SetGVK env)) as)), s')"
  "crd_IDInformer (cs_client s) = Some informer \<Longrightarrow> inf_Store informer = map ObjIdentity is \<Longrightarrow>
     \<exists>s'. ListIds env s = (Returned (Inr (map (listed_identity (ce_SetGVK env)) is)), s')"
  "crd_BindingInformer (cs_client s) = Some informer \<Longrightarrow> inf_Store informer = map ObjBinding bs \<Longrightarrow>
     \<exists>s'. ListBindings env s = (Returned (Inr (map (listed_binding (ce_SetGVK env)) bs)), s') \<and>
       crd_IDInformer (cs_client s') = crd_IDInformer (cs_client s)"
  subgoal using list_informer_Some[of crd_AssignedIDInformer s informer env crd_AssignedIDInformer_update "assigned_item (ce_SetGVK env)" AzureAssignedIdentityList]
    by (fastforce simp: ListAssignedIDs_def list_store_objects)
  subgoal using list_informer_Some[of crd_IDInformer s informer env crd_IDInformer_update "identity_item (ce_SetGVK env)" AzureIdentityList]
    by (fastforce simp: ListIds_def list_store_objects)
  subgoal using list_informer_Some[of crd_BindingInformer s informer env crd_BindingInformer_update "binding_item (ce_SetGVK env)" AzureIdentityBindingList]
    by (fastforce simp: ListBindings_def list_store_objects)
  done

lemma add_pod_id_fold:
  "mget0 [] (fold (add_pod_id podns podname) l m) st =
     mget0 [] m st @ map a_Identity (filter (\<lambda>v. a_Pod v = podname \<and> a_PodNamespace v = podns \<and> a_StatusText v = st) l)"
  by (induction l arbitrary: m) (auto simp: add_pod_id_def)


lemma matching_ids_iff:
  "map_of (matching_ids namespace lbl bs) n \<noteq> None \<longleftrightarrow>
     (\<exists>b \<in> set bs. b_Selector b = lbl \<and> b_Namespace b = namespace \<and> b_AzureIdentity b = n)"
proof -
  have "map_of (fold (\<lambda>b m. if lbl = b_Selector b \<and> b_Namespace b = namespace then mput (b_AzureIdentity b) True m else m) bs m) n \<noteq> None
    \<longleftrightarrow> map_of m n \<noteq> None \<or> (\<exists>b \<in> set bs. b_Selector b = lbl \<and> b_Namespace b = namespace \<and> b_AzureIdentity b = n)" for m
    by (induction bs arbitrary: m) auto
  from this[of "[]"] show ?thesis by (simp add: matching_ids_def)
qed

section \<open>What a successful listing says of the caches\<close>

text \<open>The cached object after a listing.\<close>

definition stamp_assigned :: "setGVK \<Rightarrow> v1AzureAssignedIdentity \<Rightarrow> v1AzureAssignedIdentity" where
  "stamp_assigned g a = a\<lparr>v1a_TypeMeta := g CRDGroup CRDVersion ''v1.AzureAssignedIdentity'' (v1a_TypeMeta a)\<rparr>"

definition stamp_identity :: "setGVK \<Rightarrow> v1AzureIdentity \<Rightarrow> v1AzureIdentity" where
  "stamp_identity g i = i\<lparr>v1id_TypeMeta := g CRDGroup CRDVersion ''v1.AzureIdentity'' (v1id_TypeMeta i)\<rparr>"

definition stamp_binding :: "setGVK \<Rightarrow> v1AzureIdentityBinding \<Rightarrow> v1AzureIdentityBinding" where
  "stamp_binding g b = b\<lparr>v1b_TypeMeta := g CRDGroup CRDVersion ''v1.AzureIdentityBinding'' (v1b_TypeMeta b)\<rparr>"

lemma list_store_typed:
  "list_store (assigned_item g) xs = (Inr l, xs') \<Longrightarrow> \<exists>as. l = map (listed_assigned g) as \<and> xs' = map (ObjAssigned \<circ> stamp_assigned g) as"
  "list_store (identity_item g) xs = (Inr l1, xs') \<Longrightarrow> \<exists>is. l1 = map (listed_identity g) is \<and> xs' = map (ObjIdentity \<circ> stamp_identity g) is"
  "list_store (binding_item g) xs = (Inr l2, xs') \<Longrightarrow> \<exists>bs. l2 = map (listed_binding g) bs \<and> xs' = map (ObjBinding \<circ> stamp_binding g) bs"
proof -
  have typed: "\<exists>as. l = map h as \<and> xs' = map k as"
    if run: "list_store f xs = (Inr l, xs')" and item: "\<And>x r. f x = Inr r \<Longrightarrow> \<exists>a. r = (k a, [h a])" for f l h k
  proof -
    obtain rs where rs: "map f xs = map Inr rs" "l = concat (map snd rs)" "xs' = map fst rs" using list_store_Inr[OF run] by blast
    have "\<exists>a. r = (k a, [h a])" if r: "r \<in> set rs" for r
    proof -
      have "Inr r \<in> set (map f xs)" unfolding rs(1) using r by simp
      then obtain x where "f x = Inr r" by auto
      then show ?thesis by (rule item)
    qed
    then have "\<exists>as. rs = map (\<lambda>a. (k a, [h a])) as" unfolding ex_map_conv by blast
    then obtain as where "rs = map (\<lambda>a. (k a, [h a])) as" by blast
    then show ?thesis using rs(2,3) by (intro exI[of _ as]) (simp add: comp_def)
  qed
  show "list_store (assigned_item g) xs = (Inr l, xs') \<Longrightarrow> \<exists>as. l = map (listed_assigned g) as \<and> xs' = map (ObjAssigned \<circ> stamp_assigned g) as"
    by (erule typed) (auto simp: assigned_item_def listed_assigned_def stamp_assigned_def Let_def split: v1Object.splits)
  show "list_store (identity_item g) xs = (Inr l1, xs') \<Longrightarrow> \<exists>is. l1 = map (listed_identity g) is \<and> xs' = map (ObjIdentity \<circ> stamp_identity g) is"
    by (erule typed) (auto simp: identity_item_def listed_identity_def stamp_identity_def Let_def split: v1Object.splits)
  show "list_store (binding_item g) xs = (Inr l2, xs') \<Longrightarrow> \<exists>bs. l2 = map (listed_binding g) bs \<and> xs' = map (ObjBinding \<circ> stamp_binding g) bs"
    by (erule typed) (auto simp: binding_item_def listed_binding_def stamp_binding_def Let_def split: v1Object.splits)
qed

lemma list_informer_Inr:
  assumes "list_informer env get upd f key s = (Returned (Inr l), s')"
  obtains informer store where "get (cs_client s) = Some informer" "list_store f (inf_Store informer) = (Inr l, store)"
    "cs_client s' = upd (\<lambda>_. Some (informer\<lparr>inf_Store := store\<rparr>)) (cs_client s)"
proof (cases "get (cs_client s)")
  case None
  then show ?thesis using list_informer_None[of get s env upd f key] assms None by auto
next
  case (Some informer)
  obtain r store where st: "list_store f (inf_Store informer) = (r, store)" by fastforce
  show ?thesis using that[OF Some] list_informer_Some[of get s informer env upd f key] Some st assms by auto
qed

lemma ListPodIds_success:
  assumes "ListPodIds env podns podname s = (Returned (Inr m), s')"
  shows "\<exists>informer as. crd_AssignedIDInformer (cs_client s') = Some informer \<and>
    inf_Store informer = map (ObjAssigned \<circ> stamp_assigned (ce_SetGVK env)) as \<and>
    (\<forall>st. mget0 [] m st = map a_Identity (filter (\<lambda>v. a_Pod v = podname \<and> a_PodNamespace v = podns \<and> a_StatusText v = st)
       (map (listed_assigned (ce_SetGVK env)) as)))"
proof -
  obtain l where l: "ListAssignedIDs env s = (Returned (Inr l), s')" and m: "m = fold (add_pod_id podns podname) l []"
    using assms by (auto simp: ListPodIds_def split: prod.splits outcome.splits sum.splits)
  obtain informer store where st: "list_store (assigned_item (ce_SetGVK env)) (inf_Store informer) = (Inr l, store)"
    "cs_client s' = crd_AssignedIDInformer_update (\<lambda>_. Some (informer\<lparr>inf_Store := store\<rparr>)) (cs_client s)"
    using list_informer_Inr[OF l[unfolded ListAssignedIDs_def]] by metis
  obtain as where "l = map (listed_assigned (ce_SetGVK env)) as" "store = map (ObjAssigned \<circ> stamp_assigned (ce_SetGVK env)) as"
    using list_store_typed(1)[OF st(1)] by blast
  then show ?thesis using st(2) m add_pod_id_fold[of podns podname l "[]"]
    by (intro exI[of _ "informer\<lparr>inf_Store := store\<rparr>"] exI[of _ as]) (simp add: mget0_def)
qed

lemma GetPodIDsWithBinding_success:
  assumes "GetPodIDsWithBinding env ns labels s = (Returned (Inr l), s')"
  shows "\<exists>bi ii bs is. crd_BindingInformer (cs_client s') = Some bi \<and> inf_Store bi = map (ObjBinding \<circ> stamp_binding (ce_SetGVK env)) bs \<and>
    crd_IDInformer (cs_client s') = Some ii \<and> inf_Store ii = map (ObjIdentity \<circ> stamp_identity (ce_SetGVK env)) is \<and>
    l = filter (\<lambda>i. (\<exists>b \<in> set bs. v1bs_Selector (v1b_Spec b) = mget0 [] labels CRDLabelKey \<and> om_Namespace (v1b_ObjectMeta b) = ns \<and>
        v1bs_AzureIdentity (v1b_Spec b) = id_Name i) \<and> id_Namespace i = ns) (map (listed_identity (ce_SetGVK env)) is)"
proof -
  obtain lb s1 li where b: "ListBindings env s = (Returned (Inr lb), s1)" and i: "ListIds env s1 = (Returned (Inr li), s')"
    and l: "l = filter (\<lambda>i. map_of (matching_ids ns (mget0 [] labels CRDLabelKey) lb) (id_Name i) \<noteq> None \<and> id_Namespace i = ns) li"
    using assms by (auto simp: GetPodIDsWithBinding_def Let_def split: prod.splits outcome.splits sum.splits)
  obtain bi store where bi: "list_store (binding_item (ce_SetGVK env)) (inf_Store bi) = (Inr lb, store)"
    "cs_client s1 = crd_BindingInformer_update (\<lambda>_. Some (bi\<lparr>inf_Store := store\<rparr>)) (cs_client s)"
    using list_informer_Inr[OF b[unfolded ListBindings_def]] by metis
  obtain ii istore where ii: "list_store (identity_item (ce_SetGVK env)) (inf_Store ii) = (Inr li, istore)"
    "cs_client s' = crd_IDInformer_update (\<lambda>_. Some (ii\<lparr>inf_Store := istore\<rparr>)) (cs_client s1)"
    using list_informer_Inr[OF i[unfolded ListIds_def]] by metis
  obtain bs where bs: "lb = map (listed_binding (ce_SetGVK env)) bs" "store = map (ObjBinding \<circ> stamp_binding (ce_SetGVK env)) bs"
    using list_store_typed(3)[OF bi(1)] by blast
  obtain "is" where is': "li = map (listed_identity (ce_SetGVK env)) is" "istore = map (ObjIdentity \<circ> stamp_identity (ce_SetGVK env)) is"
    using list_store_typed(2)[OF ii(1)] by blast
  have sel: "map_of (matching_ids ns lbl lb) n \<noteq> None \<longleftrightarrow>
      (\<exists>b \<in> set bs. v1bs_Selector (v1b_Spec b) = lbl \<and> om_Namespace (v1b_ObjectMeta b) = ns \<and> v1bs_AzureIdentity (v1b_Spec b) = n)" for lbl n
    unfolding matching_ids_iff bs(1) by (simp add: listed_binding_def conversion_defs)
  have "cs_client s' = (cs_client s)\<lparr>crd_BindingInformer := Some (bi\<lparr>inf_Store := store\<rparr>), crd_IDInformer := Some (ii\<lparr>inf_Store := istore\<rparr>)\<rparr>"
    using bi(2) ii(2) by simp
  then have "crd_BindingInformer (cs_client s') = Some (bi\<lparr>inf_Store := store\<rparr>)"
    "crd_IDInformer (cs_client s') = Some (ii\<lparr>inf_Store := istore\<rparr>)" by simp_all
  moreover have "inf_Store (bi\<lparr>inf_Store := store\<rparr>) = map (ObjBinding \<circ> stamp_binding (ce_SetGVK env)) bs"
    "inf_Store (ii\<lparr>inf_Store := istore\<rparr>) = map (ObjIdentity \<circ> stamp_identity (ce_SetGVK env)) is" using bs(2) is'(2) by simp_all
  ultimately show ?thesis using l unfolding sel is'(1) by blast
qed

end
