(* ===== verification/CrdStore.thy ===== *)
theory CrdStore
  imports CrdList
begin

text \<open>
  The operations of \<^verbatim>\<open>pkg/crd/crd.go\<close> that change assigned identities, as a client of the API server.  The
  controller relies on a plain contract: a successful operation has the effect its name says and a failed one has
  none (locale \<open>assigned_store\<close>).  \<^verbatim>\<open>CreateAssignedIdentity\<close>, \<^verbatim>\<open>UpdateAssignedIdentity\<close>,
  \<^verbatim>\<open>RemoveAssignedIdentity\<close> and \<^verbatim>\<open>UpdateAzureAssignedIdentityStatus\<close> satisfy it against every API server
  that follows the documented semantics of create, replace, patch, delete and finalizers
  (\<open>api_honest\<close>): deletion of an object with finalizers only marks it, and it goes away with
  the last finalizer.
\<close>

section \<open>The contract\<close>

definition assigned_key :: "AzureAssignedIdentity \<Rightarrow> string \<times> string" where
  "assigned_key a = (a_Namespace a, a_Name a)"

definition set_status :: "string \<Rightarrow> AzureAssignedIdentity \<Rightarrow> AzureAssignedIdentity" where
  "set_status t a = a\<lparr>a_Status := (a_Status a)\<lparr>ast_Status := t\<rparr>\<rparr>"

text \<open>An assigned identity without what the API server and the client manage: types, resource version and finalizers.\<close>

definition plain :: "AzureAssignedIdentity \<Rightarrow> AzureAssignedIdentity" where
  "plain a = a\<lparr>a_TypeMeta := zero_TypeMeta,
     a_ObjectMeta := (a_ObjectMeta a)\<lparr>om_ResourceVersion := [], om_Finalizers := []\<rparr>,
     a_Spec := (a_Spec a)\<lparr>as_AzureIdentityRef := (a_Identity a)\<lparr>id_TypeMeta := zero_TypeMeta\<rparr>,
       as_AzureBindingRef := (a_Binding a)\<lparr>b_TypeMeta := zero_TypeMeta\<rparr>\<rparr>\<rparr>"

locale assigned_store =
  fixes create update remove :: "AzureAssignedIdentity \<Rightarrow> 's \<Rightarrow> string option \<times> 's"
    and status :: "AzureAssignedIdentity \<Rightarrow> string \<Rightarrow> 's \<Rightarrow> string option \<times> 's"
    and view :: "'s \<Rightarrow> string \<times> string \<Rightarrow> AzureAssignedIdentity option"
    and inv :: "'s \<Rightarrow> bool"
    and fresh held :: "AzureAssignedIdentity \<Rightarrow> bool"
  assumes create_ok: "inv s \<Longrightarrow> fresh a \<Longrightarrow> create a s = (None, s') \<Longrightarrow> inv s' \<and> view s' = (view s)(assigned_key a \<mapsto> plain a)"
    and update_ok: "inv s \<Longrightarrow> held a \<Longrightarrow> update a s = (None, s') \<Longrightarrow> inv s' \<and> view s' = (view s)(assigned_key a \<mapsto> plain a)"
    and remove_ok: "inv s \<Longrightarrow> remove a s = (None, s') \<Longrightarrow> inv s' \<and> view s' = (view s)(assigned_key a := None)"
    and status_ok: "inv s \<Longrightarrow> status a t s = (None, s') \<Longrightarrow>
      inv s' \<and> view s' = (view s)(assigned_key a := map_option (set_status t) (view s (assigned_key a)))"
    and create_failed: "inv s \<Longrightarrow> create a s = (Some e, s') \<Longrightarrow> inv s' \<and> view s' = view s"
    and update_failed: "inv s \<Longrightarrow> update a s = (Some e, s') \<Longrightarrow> inv s' \<and> view s' = view s"
    and remove_failed: "inv s \<Longrightarrow> remove a s = (Some e, s') \<Longrightarrow> inv s' \<and> view s' = view s"
    and status_failed: "inv s \<Longrightarrow> status a t s = (Some e, s') \<Longrightarrow> inv s' \<and> view s' = view s"
begin

text \<open>The life of an assigned identity: created, set to a state, removed.\<close>

lemma created_then_status:
  assumes "inv s" "fresh a" "create a s = (None, s1)" "status a t s1 = (None, s2)"
  shows "inv s2 \<and> view s2 = (view s)(assigned_key a \<mapsto> set_status t (plain a))"
  using create_ok[OF assms(1,2,3)] status_ok[OF _ assms(4)] by simp

lemma created_then_removed:
  assumes "inv s" "fresh a" "create a s = (None, s1)" "remove a s1 = (None, s2)" "view s (assigned_key a) = None"
  shows "inv s2 \<and> view s2 = view s"
  using create_ok[OF assms(1,2,3)] remove_ok[OF _ assms(4)] assms(5) by auto

lemma removed_twice:
  assumes "inv s" "remove a s = (r, s1)" "remove a s1 = (None, s2)"
  shows "inv s2 \<and> view s2 = (view s)(assigned_key a := None)"
  using assms remove_ok[of s a s1] remove_failed[of s a _ s1] remove_ok[of s1 a s2] by (cases r) auto

end

section \<open>The API server as the code relies on it\<close>

type_synonym api_store = "string \<times> string \<Rightarrow> (v1AzureAssignedIdentity \<times> bool) option"

text \<open>The stored assigned identities by namespace and name, each with whether it is being deleted.\<close>

definition set_version :: "string \<Rightarrow> v1AzureAssignedIdentity \<Rightarrow> v1AzureAssignedIdentity" where
  "set_version rv a = a\<lparr>v1a_ObjectMeta := (v1a_ObjectMeta a)\<lparr>om_ResourceVersion := rv\<rparr>\<rparr>"

definition v1_set_status :: "string \<Rightarrow> v1AzureAssignedIdentity \<Rightarrow> v1AzureAssignedIdentity" where
  "v1_set_status t a = a\<lparr>v1a_Status := (v1a_Status a)\<lparr>ast_Status := t\<rparr>\<rparr>"

definition posted :: "string \<Rightarrow> v1AzureAssignedIdentity \<Rightarrow> (api_error, 'r) result \<Rightarrow> api_store \<Rightarrow> api_store \<Rightarrow> bool" where
  "posted ns a r m m' \<longleftrightarrow> (case r of Inl _ \<Rightarrow> m' = m
     | Inr _ \<Rightarrow> \<exists>rv. m' = m((ns, om_Name (v1a_ObjectMeta a)) \<mapsto> (set_version rv a, False)))"

definition replaced :: "string \<Rightarrow> string \<Rightarrow> v1AzureAssignedIdentity \<Rightarrow> (api_error, 'r) result \<Rightarrow> api_store \<Rightarrow> api_store \<Rightarrow> bool" where
  "replaced ns n a r m m' \<longleftrightarrow> (case r of Inl _ \<Rightarrow> m' = m
     | Inr _ \<Rightarrow> \<exists>rv x b. m (ns, n) = Some (x, b) \<and>
         m' = m((ns, n) := if b \<and> GetFinalizers a = [] then None else Some (set_version rv a, b)))"

definition deleted :: "string \<Rightarrow> string \<Rightarrow> (api_error, v1AzureAssignedIdentity) result \<Rightarrow> api_store \<Rightarrow> api_store \<Rightarrow> bool" where
  "deleted ns n r m m' \<longleftrightarrow> (case r of Inl e \<Rightarrow> m' = m \<and> (IsNotFound e \<longrightarrow> m (ns, n) = None)
     | Inr res \<Rightarrow> \<exists>x b rv. m (ns, n) = Some (x, b) \<and>
         (if GetFinalizers x = [] then GetFinalizers res = [] \<and> m' = m((ns, n) := None)
          else res = set_version rv x \<and> m' = m((ns, n) \<mapsto> (res, True))))"

definition patched :: "string \<Rightarrow> string \<Rightarrow> string \<Rightarrow> api_error option \<Rightarrow> api_store \<Rightarrow> api_store \<Rightarrow> bool" where
  "patched ns n t e m m' \<longleftrightarrow> (case e of Some _ \<Rightarrow> m' = m
     | None \<Rightarrow> \<exists>x b rv. m (ns, n) = Some (x, b) \<and> m' = m((ns, n) \<mapsto> (set_version rv (v1_set_status t x), b)))"

definition api_honest :: "'w CrdEnv \<Rightarrow> ('w \<Rightarrow> api_store) \<Rightarrow> bool" where
  "api_honest env st \<longleftrightarrow>
     (\<forall>w. st (snd (ce_Now env w)) = st w) \<and>
     (\<forall>ns a w. posted ns a (fst (ce_Post env ns a w)) (st w) (st (snd (ce_Post env ns a w)))) \<and>
     (\<forall>ns n a w. replaced ns n a (fst (ce_Put env AzureAssignedIDResource ns n (ObjAssigned a) w)) (st w)
        (st (snd (ce_Put env AzureAssignedIDResource ns n (ObjAssigned a) w)))) \<and>
     (\<forall>ns n w. deleted ns n (fst (ce_Delete env ns n w)) (st w) (st (snd (ce_Delete env ns n w)))) \<and>
     (\<forall>ns n t bytes w. ce_Marshal env [\<lparr>ps_Op = ''replace'', ps_Path = ''/status/status'', ps_Value = t\<rparr>] = Inr bytes \<longrightarrow>
        patched ns n t (fst (ce_Patch env ns n bytes w)) (st w) (st (snd (ce_Patch env ns n bytes w))))"

lemma api_honestD:
  assumes "api_honest env st"
  shows "ce_Now env w = (t, w1) \<Longrightarrow> st w1 = st w"
    and "ce_Post env ns a w = (r, w1) \<Longrightarrow> posted ns a r (st w) (st w1)"
    and "ce_Put env AzureAssignedIDResource ns n (ObjAssigned a) w = (r', w1) \<Longrightarrow> replaced ns n a r' (st w) (st w1)"
    and "ce_Delete env ns n w = (r'', w1) \<Longrightarrow> deleted ns n r'' (st w) (st w1)"
    and "ce_Marshal env [\<lparr>ps_Op = ''replace'', ps_Path = ''/status/status'', ps_Value = st1\<rparr>] = Inr bytes \<Longrightarrow>
      ce_Patch env ns n bytes w = (e, w1) \<Longrightarrow> patched ns n st1 e (st w) (st w1)"
  using assms unfolding api_honest_def by (metis fst_conv snd_conv)+

text \<open>What a client sees, and the invariant: no finalizers but the client's own.\<close>

definition crd_view :: "('w \<Rightarrow> api_store) \<Rightarrow> 'w CrdState \<Rightarrow> string \<times> string \<Rightarrow> AzureAssignedIdentity option" where
  "crd_view st s k = map_option (\<lambda>(a, _). plain (ConvertV1AssignedIdentityToInternalAssignedIdentity a)) (st (cs_world s) k)"

definition own_finalizers :: "('w \<Rightarrow> api_store) \<Rightarrow> 'w CrdState \<Rightarrow> bool" where
  "own_finalizers st s \<longleftrightarrow> (\<forall>k a b. st (cs_world s) k = Some (a, b) \<longrightarrow> set (GetFinalizers a) \<subseteq> {finalizerName})"

lemma own_finalizersD: "own_finalizers st s \<Longrightarrow> st (cs_world s) k = Some (a, b) \<Longrightarrow> set (GetFinalizers a) \<subseteq> {finalizerName}"
  unfolding own_finalizers_def by blast

definition fresh_assigned :: "AzureAssignedIdentity \<Rightarrow> bool" where
  "fresh_assigned a \<longleftrightarrow> set (om_Finalizers (a_ObjectMeta a)) \<subseteq> {finalizerName}"

definition held_assigned :: "AzureAssignedIdentity \<Rightarrow> bool" where
  "held_assigned a \<longleftrightarrow> set (om_Finalizers (a_ObjectMeta a)) = {finalizerName}"

section \<open>The operations\<close>

lemma containsString_iff: "containsString s items \<longleftrightarrow> s \<in> set items"
  by (induction items) auto

lemma removeString_filter: "removeString s items = filter (\<lambda>x. x \<noteq> s) items"
  by (induction items) auto

lemma removeFinalizer_hasFinalizer: "\<not> hasFinalizer (removeFinalizer a)"
  by (simp add: hasFinalizer_def removeFinalizer_def SetFinalizers_def containsString_iff removeString_filter)

lemma plain_convert [simp]:
  "plain (ConvertV1AssignedIdentityToInternalAssignedIdentity (ConvertInternalAssignedIdentityToV1AssignedIdentity g a)) = plain a"
  "plain (ConvertV1AssignedIdentityToInternalAssignedIdentity (SetFinalizers fs x)) = plain (ConvertV1AssignedIdentityToInternalAssignedIdentity x)"
  "plain (ConvertV1AssignedIdentityToInternalAssignedIdentity (set_version rv x)) = plain (ConvertV1AssignedIdentityToInternalAssignedIdentity x)"
  "plain (ConvertV1AssignedIdentityToInternalAssignedIdentity (v1_set_status t x)) =
     set_status t (plain (ConvertV1AssignedIdentityToInternalAssignedIdentity x))"
  by (simp_all add: plain_def conversion_defs SetFinalizers_def set_version_def v1_set_status_def set_status_def Let_def)

lemma v1_meta_simps [simp]:
  "v1a_ObjectMeta (ConvertInternalAssignedIdentityToV1AssignedIdentity g a) = a_ObjectMeta a"
  "GetFinalizers (SetFinalizers fs x) = fs" "GetFinalizers (set_version rv x) = GetFinalizers x"
  "om_Name (v1a_ObjectMeta (SetFinalizers fs x)) = om_Name (v1a_ObjectMeta x)"
  "GetFinalizers (v1_set_status t x) = GetFinalizers x"
  by (simp_all add: conversion_defs SetFinalizers_def set_version_def v1_set_status_def Let_def)

text \<open>Reporting and statistics do not touch the stored objects.\<close>

lemma report_operation_store:
  assumes "api_honest env st" "report_operation env op c d start (e, s) = (e', s')"
  shows "e' = e \<and> st (cs_world s') = st (cs_world s)"
  using assms(2) api_honestD(1)[OF assms(1)]
  by (auto simp: report_operation_def crd_Now_def report_api_error_def split: option.splits prod.splits)

lemma aggregate_since_store: "api_honest env st \<Longrightarrow> st (cs_world (aggregate_since env key start s)) = st (cs_world s)"
  using api_honestD(1)[of env st] by (auto simp: aggregate_since_def crd_Now_def split: prod.splits)

lemma crd_Now_store: "api_honest env st \<Longrightarrow> crd_Now env s = (t, s') \<Longrightarrow> st (cs_world s') = st (cs_world s)"
  using api_honestD(1)[of env st] by (auto simp: crd_Now_def split: prod.splits)

text \<open>Each operation is one or two calls of the API server.\<close>

lemma world_callE:
  assumes "crd_world_call f s = (r, s')"
  obtains w where "f (cs_world s) = (r, w)" "cs_world s' = w"
  using assms by (auto simp: crd_world_call_def split: prod.splits)

lemma SetFinalizers_same: "SetFinalizers (GetFinalizers x) x = x"
  by (simp add: SetFinalizers_def)

lemma Create_calls:
  assumes h: "api_honest env st" and run: "CreateAssignedIdentity env a s = (e, s')"
  shows "\<exists>r fs. posted (a_Namespace a) (SetFinalizers fs (ConvertInternalAssignedIdentityToV1AssignedIdentity (ce_SetGVK env) a))
      (r :: (api_error, v1AzureAssignedIdentity) result) (st (cs_world s)) (st (cs_world s')) \<and> (e = None \<longleftrightarrow> \<not> isl r) \<and>
      set fs = set (om_Finalizers (a_ObjectMeta a)) \<union> {finalizerName}"
proof -
  let ?v = "ConvertInternalAssignedIdentityToV1AssignedIdentity (ce_SetGVK env) a"
  define fs where "fs = (if hasFinalizer ?v then GetFinalizers ?v else GetFinalizers ?v @ [finalizerName])"
  have body: "(if \<not> hasFinalizer ?v then SetFinalizers (GetFinalizers ?v @ [finalizerName]) ?v else ?v) = SetFinalizers fs ?v"
    using SetFinalizers_same[of ?v] by (simp add: fs_def)
  have fs: "set fs = set (om_Finalizers (a_ObjectMeta a)) \<union> {finalizerName}"
    by (auto simp: fs_def hasFinalizer_def containsString_iff)
  obtain start s1 where s1: "crd_Now env s = (start, s1)" by fastforce
  obtain r s2 where s2: "crd_world_call (ce_Post env (a_Namespace a) (SetFinalizers fs ?v)) s1 = (r, s2)" by fastforce
  from s2 obtain w where "ce_Post env (a_Namespace a) (SetFinalizers fs ?v) (cs_world s1) = (r, w)" "cs_world s2 = w"
    by (rule world_callE)
  then have post: "posted (a_Namespace a) (SetFinalizers fs ?v) r (st (cs_world s)) (st (cs_world s2))"
    using api_honestD(2)[OF h] crd_Now_store[OF h s1] by metis
  obtain e1 s3 where fin: "report_operation env AssignedIdentityAdditionOperationName AssignedIdentityAdditionCountM
        AssignedIdentityAdditionDurationM start (e1, s3) = (e, s')"
    and s3: "e1 = None \<longleftrightarrow> \<not> isl r" "st (cs_world s3) = st (cs_world s2)"
    using run aggregate_since_store[OF h, of CreateAzureAssignedIdentity start s2]
    by (cases r) (auto simp: CreateAssignedIdentity_def Let_def s1 body s2)
  show ?thesis using report_operation_store[OF h fin] s3 post fs by auto
qed

lemma Update_calls:
  assumes h: "api_honest env st" and run: "UpdateAssignedIdentity env a s = (e, s')"
  shows "\<exists>r. replaced (a_Namespace a) (a_Name a) (ConvertInternalAssignedIdentityToV1AssignedIdentity (ce_SetGVK env) a)
      (r :: (api_error, unit) result) (st (cs_world s)) (st (cs_world s')) \<and> (e = None \<longleftrightarrow> \<not> isl r)"
proof -
  let ?v = "ConvertInternalAssignedIdentityToV1AssignedIdentity (ce_SetGVK env) a"
  obtain start s1 where s1: "crd_Now env s = (start, s1)" by fastforce
  obtain r s2 where s2: "crd_world_call (ce_Put env AzureAssignedIDResource (a_Namespace a) (a_Name a) (ObjAssigned ?v)) s1 = (r, s2)"
    by fastforce
  from s2 obtain w where "ce_Put env AzureAssignedIDResource (a_Namespace a) (a_Name a) (ObjAssigned ?v) (cs_world s1) = (r, w)"
    "cs_world s2 = w" by (rule world_callE)
  then have put: "replaced (a_Namespace a) (a_Name a) ?v r (st (cs_world s)) (st (cs_world s2))"
    using api_honestD(3)[OF h] crd_Now_store[OF h s1] by metis
  obtain e1 s3 where fin: "report_operation env AssignedIdentityUpdateOperationName AssignedIdentityUpdateCountM
        AssignedIdentityUpdateDurationM start (e1, s3) = (e, s')"
    and s3: "e1 = None \<longleftrightarrow> \<not> isl r" "st (cs_world s3) = st (cs_world s2)"
    using run aggregate_since_store[OF h, of UpdateAzureAssignedIdentity start s2]
    by (cases r) (auto simp: UpdateAssignedIdentity_def Let_def s1 s2)
  show ?thesis using report_operation_store[OF h fin] s3 put by auto
qed

lemma Status_calls:
  assumes h: "api_honest env st" and run: "UpdateAzureAssignedIdentityStatus env a t s = (e, s')"
  shows "st (cs_world s') = st (cs_world s) \<and> e \<noteq> None \<or>
    (\<exists>r. patched (a_Namespace a) (a_Name a) t r (st (cs_world s)) (st (cs_world s')) \<and> (e = None \<longleftrightarrow> r = None))"
proof (cases "ce_Marshal env [\<lparr>ps_Op = ''replace'', ps_Path = ''/status/status'', ps_Value = t\<rparr>]")
  case (Inl x)
  then show ?thesis using run by (auto simp: UpdateAzureAssignedIdentityStatus_def report_api_error_def)
next
  case (Inr bytes)
  obtain start s1 where s1: "crd_Now env s = (start, s1)" by fastforce
  obtain r s2 where s2: "crd_world_call (ce_Patch env (a_Namespace a) (a_Name a) bytes) s1 = (r, s2)" by fastforce
  from s2 obtain w where "ce_Patch env (a_Namespace a) (a_Name a) bytes (cs_world s1) = (r, w)" "cs_world s2 = w"
    by (rule world_callE)
  then have "patched (a_Namespace a) (a_Name a) t r (st (cs_world s)) (st (cs_world s2))"
    using api_honestD(5)[OF h Inr] crd_Now_store[OF h s1] by metis
  then show ?thesis using run Inr
    by (cases r) (auto simp: UpdateAzureAssignedIdentityStatus_def report_api_error_def s1 s2)
qed

lemma Remove_calls:
  assumes h: "api_honest env st" and run: "RemoveAssignedIdentity env a s = (e, s')"
  shows "\<exists>r m. deleted (a_Namespace a) (a_Name a) r (st (cs_world s)) m \<and>
    (case r of
       Inl err \<Rightarrow> st (cs_world s') = m \<and> (e = None \<longleftrightarrow> IsNotFound err)
     | Inr res \<Rightarrow> if hasFinalizer res
         then (\<exists>r'. replaced (a_Namespace a) (a_Name a) (removeFinalizer res) (r' :: (api_error, unit) result) m (st (cs_world s')) \<and>
                 (e = None \<longleftrightarrow> \<not> isl r'))
         else e = None \<and> st (cs_world s') = m)"
proof -
  obtain start s1 where s1: "crd_Now env s = (start, s1)" by fastforce
  obtain r s2 where s2: "crd_world_call (ce_Delete env (a_Namespace a) (a_Name a)) s1 = (r, s2)" by fastforce
  from s2 obtain w where "ce_Delete env (a_Namespace a) (a_Name a) (cs_world s1) = (r, w)" "cs_world s2 = w"
    by (rule world_callE)
  then have del: "deleted (a_Namespace a) (a_Name a) r (st (cs_world s)) (st (cs_world s2))"
    using api_honestD(4)[OF h] crd_Now_store[OF h s1] by metis
  define P where "P e1 s3 \<longleftrightarrow> report_operation env AssignedIdentityDeletionOperationName AssignedIdentityDeletionCountM
      AssignedIdentityDeletionDurationM start (e1, s3) = (e, s')" for e1 s3
  have P: "e = e1" "st (cs_world s') = st (cs_world s3)" if "P e1 s3" for e1 s3
    using report_operation_store[OF h] that by (auto simp: P_def)
  show ?thesis
  proof (cases r)
    case (Inl err)
    then have "P (if IsNotFound err then None else Some (ae_Error err)) s2"
      using run by (auto simp: P_def RemoveAssignedIdentity_def s1 s2)
    from P[OF this] show ?thesis using del Inl by (intro exI[of _ r] exI[of _ "st (cs_world s2)"]) auto
  next
    case (Inr res)
    show ?thesis
    proof (cases "hasFinalizer res")
      case True
      obtain r' s3 where s3: "crd_world_call (ce_Put env AzureAssignedIDResource (a_Namespace a) (a_Name a)
          (ObjAssigned (removeFinalizer res))) s2 = (r', s3)" by fastforce
      from s3 obtain w where "ce_Put env AzureAssignedIDResource (a_Namespace a) (a_Name a)
          (ObjAssigned (removeFinalizer res)) (cs_world s2) = (r', w)" "cs_world s3 = w" by (rule world_callE)
      then have put: "replaced (a_Namespace a) (a_Name a) (removeFinalizer res) r' (st (cs_world s2)) (st (cs_world s3))"
        using api_honestD(3)[OF h] by metis
      have "P (case r' of Inl err \<Rightarrow> Some (ae_Error err) | Inr _ \<Rightarrow> None) (aggregate_since env DeleteAzureAssignedIdentity start s3)"
        using run True by (auto simp: P_def RemoveAssignedIdentity_def s1 s2 s3 Inr split: sum.splits)
      from P[OF this] show ?thesis
        using del put Inr True aggregate_since_store[OF h, of DeleteAzureAssignedIdentity start s3]
        by (intro exI[of _ r] exI[of _ "st (cs_world s2)"]) (auto split: sum.splits)
    next
      case False
      then have "P None (aggregate_since env DeleteAzureAssignedIdentity start s2)"
        using run by (auto simp: P_def RemoveAssignedIdentity_def s1 s2 Inr)
      from P[OF this] show ?thesis
        using del Inr False aggregate_since_store[OF h, of DeleteAzureAssignedIdentity start s2]
        by (intro exI[of _ r] exI[of _ "st (cs_world s2)"]) auto
    qed
  qed
qed


section \<open>The contract holds\<close>

locale honest_api =
  fixes env :: "'w CrdEnv" and st :: "'w \<Rightarrow> api_store"
  assumes honest: "api_honest env st"
begin

lemma view_put:
  assumes "st (cs_world s') = (st (cs_world s))(k \<mapsto> (x, b))"
  shows "crd_view st s' = (crd_view st s)(k \<mapsto> plain (ConvertV1AssignedIdentityToInternalAssignedIdentity x))"
    and "own_finalizers st s \<Longrightarrow> set (GetFinalizers x) \<subseteq> {finalizerName} \<Longrightarrow> own_finalizers st s'"
  by (simp add: fun_eq_iff crd_view_def assms) (auto simp: own_finalizers_def assms)

lemma view_del:
  assumes "st (cs_world s') = (st (cs_world s))(k := None)"
  shows "crd_view st s' = (crd_view st s)(k := None)" "own_finalizers st s \<Longrightarrow> own_finalizers st s'"
  by (simp add: fun_eq_iff crd_view_def assms) (auto simp: own_finalizers_def assms split: if_splits)

lemma view_same:
  assumes "st (cs_world s') = st (cs_world s)"
  shows "crd_view st s' = crd_view st s" "own_finalizers st s \<Longrightarrow> own_finalizers st s'"
  by (simp add: fun_eq_iff crd_view_def assms) (simp add: own_finalizers_def assms)

text \<open>A marked object: the view is the same, since the mark and the version are not visible.\<close>

lemma view_mark:
  assumes "st (cs_world s) k = Some (x, b)" "st (cs_world s') = (st (cs_world s))(k \<mapsto> (set_version rv x, b'))"
  shows "crd_view st s' = crd_view st s" "own_finalizers st s \<Longrightarrow> own_finalizers st s'"
proof -
  have "crd_view st s k = Some (plain (ConvertV1AssignedIdentityToInternalAssignedIdentity x))"
    using assms(1) by (simp add: crd_view_def)
  then show "crd_view st s' = crd_view st s" using view_put(1)[OF assms(2)] by (simp add: fun_upd_idem)
  show "own_finalizers st s \<Longrightarrow> own_finalizers st s'"
    using view_put(2)[OF assms(2)] own_finalizersD[of st s k x b] assms(1) by simp
qed

lemma create_refines:
  assumes "CreateAssignedIdentity env a s = (e, s')" "own_finalizers st s"
  shows "e = None \<Longrightarrow> fresh_assigned a \<Longrightarrow> own_finalizers st s' \<and> crd_view st s' = (crd_view st s)(assigned_key a \<mapsto> plain a)"
    and "e \<noteq> None \<Longrightarrow> own_finalizers st s' \<and> crd_view st s' = crd_view st s"
proof -
  let ?v = "ConvertInternalAssignedIdentityToV1AssignedIdentity (ce_SetGVK env) a"
  obtain r :: "(api_error, v1AzureAssignedIdentity) result" and fs where
    post: "posted (a_Namespace a) (SetFinalizers fs ?v) r (st (cs_world s)) (st (cs_world s'))"
    and r: "e = None \<longleftrightarrow> \<not> isl r" and fs: "set fs = set (om_Finalizers (a_ObjectMeta a)) \<union> {finalizerName}"
    using Create_calls[OF honest assms(1)] by blast
  { assume "e = None" "fresh_assigned a"
    then obtain x rv where "r = Inr x"
      and s': "st (cs_world s') = (st (cs_world s))(assigned_key a \<mapsto> (set_version rv (SetFinalizers fs ?v), False))"
      using post r by (cases r) (auto simp: posted_def assigned_key_def)
    show "own_finalizers st s' \<and> crd_view st s' = (crd_view st s)(assigned_key a \<mapsto> plain a)"
      using view_put[OF s'] assms(2) fs \<open>fresh_assigned a\<close> by (auto simp: fresh_assigned_def) }
  { assume "e \<noteq> None"
    then have "st (cs_world s') = st (cs_world s)" using post r by (cases r) (auto simp: posted_def)
    from view_same[OF this] assms(2) show "own_finalizers st s' \<and> crd_view st s' = crd_view st s" by simp }
qed

lemma update_refines:
  assumes "UpdateAssignedIdentity env a s = (e, s')" "own_finalizers st s"
  shows "e = None \<Longrightarrow> held_assigned a \<Longrightarrow> own_finalizers st s' \<and> crd_view st s' = (crd_view st s)(assigned_key a \<mapsto> plain a)"
    and "e \<noteq> None \<Longrightarrow> own_finalizers st s' \<and> crd_view st s' = crd_view st s"
proof -
  let ?v = "ConvertInternalAssignedIdentityToV1AssignedIdentity (ce_SetGVK env) a"
  obtain r :: "(api_error, unit) result" where
    put: "replaced (a_Namespace a) (a_Name a) ?v r (st (cs_world s)) (st (cs_world s'))" and r: "e = None \<longleftrightarrow> \<not> isl r"
    using Update_calls[OF honest assms(1)] by blast
  { assume "e = None" and held: "held_assigned a"
    have "GetFinalizers ?v \<noteq> []"
      using held unfolding held_assigned_def v1_meta_simps(1) by (metis empty_not_insert list.set(1))
    moreover obtain u where "r = Inr u" using r \<open>e = None\<close> by (cases r) auto
    moreover have "replaced (a_Namespace a) (a_Name a) ?v r (st (cs_world s)) (st (cs_world s'))" by (rule put)
    ultimately obtain rv b where s': "st (cs_world s') = (st (cs_world s))(assigned_key a \<mapsto> (set_version rv ?v, b))"
      unfolding replaced_def assigned_key_def[symmetric] by auto
    show "own_finalizers st s' \<and> crd_view st s' = (crd_view st s)(assigned_key a \<mapsto> plain a)"
      using view_put[OF s'] assms(2) held by (simp add: held_assigned_def) }
  { assume "e \<noteq> None"
    then have "st (cs_world s') = st (cs_world s)" using put r by (cases r) (auto simp: replaced_def)
    from view_same[OF this] assms(2) show "own_finalizers st s' \<and> crd_view st s' = crd_view st s" by simp }
qed

lemma status_refines:
  assumes "UpdateAzureAssignedIdentityStatus env a t s = (e, s')" "own_finalizers st s"
  shows "e = None \<Longrightarrow> own_finalizers st s' \<and>
      crd_view st s' = (crd_view st s)(assigned_key a := map_option (set_status t) (crd_view st s (assigned_key a)))"
    and "e \<noteq> None \<Longrightarrow> own_finalizers st s' \<and> crd_view st s' = crd_view st s"
proof -
  note calls = Status_calls[OF honest assms(1)]
  { assume "e = None"
    then obtain x b rv where x: "st (cs_world s) (assigned_key a) = Some (x, b)"
      and s': "st (cs_world s') = (st (cs_world s))(assigned_key a \<mapsto> (set_version rv (v1_set_status t x), b))"
      using calls by (auto simp: patched_def assigned_key_def)
    have "crd_view st s (assigned_key a) = Some (plain (ConvertV1AssignedIdentityToInternalAssignedIdentity x))"
      using x by (simp add: crd_view_def)
    then show "own_finalizers st s' \<and>
        crd_view st s' = (crd_view st s)(assigned_key a := map_option (set_status t) (crd_view st s (assigned_key a)))"
      using view_put[OF s'] assms(2) own_finalizersD[OF assms(2) x] by simp }
  { assume "e \<noteq> None"
    then have "st (cs_world s') = st (cs_world s)" using calls by (auto simp: patched_def)
    from view_same[OF this] assms(2) show "own_finalizers st s' \<and> crd_view st s' = crd_view st s" by simp }
qed

text \<open>
  Removal.  With the client's own finalizer, deletion marks the object and the client then takes the finalizer away, which
  removes it; if that second step fails, the object is still visible.
\<close>

lemma remove_refines:
  assumes "RemoveAssignedIdentity env a s = (e, s')" "own_finalizers st s"
  shows "e = None \<Longrightarrow> own_finalizers st s' \<and> crd_view st s' = (crd_view st s)(assigned_key a := None)"
    and "e \<noteq> None \<Longrightarrow> own_finalizers st s' \<and> crd_view st s' = crd_view st s"
proof -
  let ?k = "assigned_key a"
  obtain r m where del: "deleted (a_Namespace a) (a_Name a) r (st (cs_world s)) m" and
    after: "case r of Inl err \<Rightarrow> st (cs_world s') = m \<and> (e = None \<longleftrightarrow> IsNotFound err)
      | Inr res \<Rightarrow> if hasFinalizer res
          then (\<exists>r'. replaced (a_Namespace a) (a_Name a) (removeFinalizer res) (r' :: (api_error, unit) result) m (st (cs_world s')) \<and>
             (e = None \<longleftrightarrow> \<not> isl r')) else e = None \<and> st (cs_world s') = m"
    using Remove_calls[OF honest assms(1)] by blast
  have gone: "own_finalizers st s' \<and> crd_view st s' = (crd_view st s)(?k := None)"
    if "st (cs_world s') = (st (cs_world s))(?k := None)"
    using view_del[OF that] assms(2) by simp
  have "(e = None \<longrightarrow> st (cs_world s') = (st (cs_world s))(?k := None)) \<and>
    (e \<noteq> None \<longrightarrow> (st (cs_world s') = st (cs_world s) \<or> (\<exists>x b rv b'. st (cs_world s) ?k = Some (x, b) \<and>
       st (cs_world s') = (st (cs_world s))(?k \<mapsto> (set_version rv x, b')))))"
  proof (cases r)
    case (Inl err)
    then show ?thesis using del after by (auto simp: deleted_def assigned_key_def)
  next
    case (Inr res)
    then obtain x b rv where x: "st (cs_world s) ?k = Some (x, b)"
      and m: "if GetFinalizers x = [] then GetFinalizers res = [] \<and> m = (st (cs_world s))(?k := None)
        else res = set_version rv x \<and> m = (st (cs_world s))(?k \<mapsto> (res, True))"
      using del unfolding deleted_def Inr sum.case assigned_key_def[symmetric] by blast
    show ?thesis
    proof (cases "GetFinalizers x = []")
      case True
      then show ?thesis using m after Inr by (auto simp: hasFinalizer_def containsString_iff)
    next
      case False
      then have res: "res = set_version rv x" "m = (st (cs_world s))(?k \<mapsto> (res, True))" using m by simp_all
      have own: "set (GetFinalizers x) \<subseteq> {finalizerName}" using own_finalizersD[OF assms(2) x] .
      then have "finalizerName \<in> set (GetFinalizers x)" using False by (cases "GetFinalizers x") auto
      then have has: "hasFinalizer res" by (simp add: res hasFinalizer_def containsString_iff)
      have none: "GetFinalizers (removeFinalizer res) = []"
        using own by (auto simp: removeFinalizer_def removeString_filter res filter_empty_conv)
      obtain r' :: "(api_error, unit) result" where
        put: "replaced (a_Namespace a) (a_Name a) (removeFinalizer res) r' m (st (cs_world s'))" and e: "e = None \<longleftrightarrow> \<not> isl r'"
        using after Inr has by auto
      show ?thesis using put e x none res by (cases r') (auto simp: replaced_def assigned_key_def)
    qed
  qed
  then show "e = None \<Longrightarrow> own_finalizers st s' \<and> crd_view st s' = (crd_view st s)(?k := None)"
    and "e \<noteq> None \<Longrightarrow> own_finalizers st s' \<and> crd_view st s' = crd_view st s"
    using gone view_same[of s' s] view_mark[of s ?k _ _ s'] assms(2) by blast+
qed

end

sublocale honest_api \<subseteq> crd: assigned_store "CreateAssignedIdentity env" "UpdateAssignedIdentity env" "RemoveAssignedIdentity env"
  "UpdateAzureAssignedIdentityStatus env" "crd_view st" "own_finalizers st" fresh_assigned held_assigned
proof (unfold_locales, goal_cases)
  case (1 s a s')
  then show ?case using create_refines(1)[of a s None s'] by simp
next
  case (2 s a s')
  then show ?case using update_refines(1)[of a s None s'] by simp
next
  case (3 s a s')
  then show ?case using remove_refines(1)[of a s None s'] by simp
next
  case (4 s a t s')
  then show ?case using status_refines(1)[of a t s None s'] by simp
next
  case (5 s a e s')
  then show ?case using create_refines(2)[of a s "Some e" s'] by simp
next
  case (6 s a e s')
  then show ?case using update_refines(2)[of a s "Some e" s'] by simp
next
  case (7 s a e s')
  then show ?case using remove_refines(2)[of a s "Some e" s'] by simp
next
  case (8 s a t e s')
  then show ?case using status_refines(2)[of a t s "Some e" s'] by simp
qed


context honest_api
begin

lemmas created_then_removed = crd.created_then_removed
lemmas created_then_status = crd.created_then_status

end

section \<open>An API server in memory\<close>

type_synonym mem_api = "(string \<times> string, v1AzureAssignedIdentity \<times> bool) gomap"

definition mem_Post :: "string \<Rightarrow> v1AzureAssignedIdentity \<Rightarrow> mem_api \<Rightarrow> (api_error, v1AzureAssignedIdentity) result \<times> mem_api" where
  "mem_Post ns a w =
     (case map_of w (ns, om_Name (v1a_ObjectMeta a)) of
        Some _ \<Rightarrow> (Inl (ApiError False ''already exists''), w)
      | None \<Rightarrow> (Inr (set_version ''1'' a), mput (ns, om_Name (v1a_ObjectMeta a)) (set_version ''1'' a, False) w))"

definition mem_Put :: "string \<Rightarrow> string \<Rightarrow> string \<Rightarrow> v1Object \<Rightarrow> mem_api \<Rightarrow> (api_error, unit) result \<times> mem_api" where
  "mem_Put resource ns n obj w =
     (case (obj, map_of w (ns, n)) of
        (ObjAssigned a, Some (x, b)) \<Rightarrow>
          (Inr (), if b \<and> GetFinalizers a = [] then mdel (ns, n) w else mput (ns, n) (set_version ''2'' a, b) w)
      | _ \<Rightarrow> (Inl (ApiError True ''not found''), w))"

definition mem_Delete :: "string \<Rightarrow> string \<Rightarrow> mem_api \<Rightarrow> (api_error, v1AzureAssignedIdentity) result \<times> mem_api" where
  "mem_Delete ns n w =
     (case map_of w (ns, n) of
        None \<Rightarrow> (Inl (ApiError True ''not found''), w)
      | Some (x, b) \<Rightarrow>
          if GetFinalizers x = [] then (Inr x, mdel (ns, n) w)
          else (Inr (set_version ''3'' x), mput (ns, n) (set_version ''3'' x, True) w))"

definition mem_Patch :: "string \<Rightarrow> string \<Rightarrow> string \<Rightarrow> mem_api \<Rightarrow> api_error option \<times> mem_api" where
  "mem_Patch ns n body w =
     (case map_of w (ns, n) of
        None \<Rightarrow> (Some (ApiError True ''not found''), w)
      | Some (x, b) \<Rightarrow> (None, mput (ns, n) (set_version ''4'' (v1_set_status body x), b) w))"

definition keep_GVK :: setGVK where
  "keep_GVK grp version kind t = \<lparr>tm_Kind = kind, tm_APIVersion = grp @ ''/'' @ version\<rparr>"

definition mem_env :: "mem_api CrdEnv" where
  "mem_env = \<lparr>ce_Now = (\<lambda>w. (0, w)), ce_TagNew = (\<lambda>_. None), ce_SetGVK = keep_GVK,
     ce_Marshal = (\<lambda>ops. Inr (concat (map ps_Value ops))), ce_Unmarshal = (\<lambda>_ _. Inr []), ce_ExtractList = Inr,
     ce_Accessor = (\<lambda>_. None), ce_Delete = mem_Delete, ce_Post = mem_Post, ce_Put = mem_Put,
     ce_PutIdentity = (\<lambda>_ _ _ obj w. (case obj of ObjIdentity i \<Rightarrow> Inr i | _ \<Rightarrow> Inl (ApiError False []), w)),
     ce_PutBinding = (\<lambda>_ _ _ obj w. (case obj of ObjBinding b \<Rightarrow> Inr b | _ \<Rightarrow> Inl (ApiError False []), w)),
     ce_Patch = mem_Patch, ce_GetRaw = (\<lambda>_ w. (Inr [], w)), ce_WaitForCacheSync = (\<lambda>_ w. (True, w)),
     ce_NewRestClient = None, ce_NewReporter = None\<rparr>"

lemma mem_env_honest: "api_honest mem_env map_of"
proof -
  have put: "replaced ns n a (fst (mem_Put r ns n (ObjAssigned a) w)) (map_of w) (map_of (snd (mem_Put r ns n (ObjAssigned a) w)))" for r ns n a w
    by (auto simp: mem_Put_def replaced_def split: option.splits)
  have del: "deleted ns n (fst (mem_Delete ns n w)) (map_of w) (map_of (snd (mem_Delete ns n w)))" for ns n w
    by (auto simp: mem_Delete_def deleted_def split: option.splits)
  have post: "posted ns a (fst (mem_Post ns a w)) (map_of w) (map_of (snd (mem_Post ns a w)))" for ns a w
    by (auto simp: mem_Post_def posted_def split: option.splits)
  have pat: "patched ns n t (fst (mem_Patch ns n t w)) (map_of w) (map_of (snd (mem_Patch ns n t w)))" for ns n t w
    by (auto simp: mem_Patch_def patched_def split: option.splits)
  show ?thesis by (simp add: api_honest_def mem_env_def put del post pat)
qed

interpretation mem: honest_api mem_env map_of
  by unfold_locales (rule mem_env_honest)

definition no_informers :: crd_client where
  "no_informers = \<lparr>crd_BindingInformer = None, crd_IDInformer = None, crd_AssignedIDInformer = None,
     crd_PodIdentityExceptionInformer = None\<rparr>"

definition crd_start :: "mem_api CrdState" where
  "crd_start = \<lparr>cs_client = no_informers, cs_stats = Some stats_Init, cs_metrics = [], cs_world = []\<rparr>"

definition crd_sample :: AzureAssignedIdentity where
  "crd_sample = \<lparr>a_TypeMeta = zero_TypeMeta, a_ObjectMeta = zero_ObjectMeta\<lparr>om_Name := ''a'', om_Namespace := ''ns''\<rparr>,
     a_Spec = \<lparr>as_ObjectMeta = zero_ObjectMeta, as_AzureIdentityRef = zero_AzureIdentity,
       as_AzureBindingRef = zero_AzureIdentityBinding, as_Pod = ''pod'', as_PodNamespace = ''ns'', as_NodeName = ''node'',
       as_Replicas = None\<rparr>,
     a_Status = \<lparr>ast_ObjectMeta = zero_ObjectMeta, ast_Status = AssignedIDCreated, ast_AvailableReplicas = 0\<rparr>\<rparr>"

section \<open>Properties\<close>

text \<open>
  (C10) The client refines a plain store of assigned identities.  Against every API server with the documented semantics, on
  which assigned identities carry no foreign finalizers: creation, removal, a change of status, and
  the update of an object that holds the client's finalizer, have exactly the effect their name
  says when they succeed and no visible effect when they fail, and keep foreign finalizers out.
  In particular a removal that reports success leaves no object behind, though deletion takes two requests.
\<close>

theorem crd_operations_refine:
  assumes "api_honest env st" "own_finalizers st s" "fresh_assigned a"
  shows "(case CreateAssignedIdentity env a s of (e, s') \<Rightarrow> own_finalizers st s' \<and>
      crd_view st s' = (if e = None then (crd_view st s)(assigned_key a \<mapsto> plain a) else crd_view st s)) \<and>
    (case RemoveAssignedIdentity env a s of (e, s') \<Rightarrow> own_finalizers st s' \<and>
      crd_view st s' = (if e = None then (crd_view st s)(assigned_key a := None) else crd_view st s)) \<and>
    (case UpdateAzureAssignedIdentityStatus env a t s of (e, s') \<Rightarrow> own_finalizers st s' \<and>
      crd_view st s' = (if e = None then (crd_view st s)(assigned_key a := map_option (set_status t) (crd_view st s (assigned_key a)))
        else crd_view st s)) \<and>
    (held_assigned a \<longrightarrow> (case UpdateAssignedIdentity env a s of (e, s') \<Rightarrow> own_finalizers st s' \<and>
      crd_view st s' = (if e = None then (crd_view st s)(assigned_key a \<mapsto> plain a) else crd_view st s)))"
proof -
  note api = honest_api.intro[OF assms(1)]
  show ?thesis
    using honest_api.create_refines[OF api _ assms(2), of a] honest_api.remove_refines[OF api _ assms(2), of a]
      honest_api.status_refines[OF api _ assms(2), of a t] honest_api.update_refines[OF api _ assms(2), of a] assms(3)
    by (simp split: prod.split)
qed

lemma crd_start_own [simp]: "own_finalizers map_of crd_start"
  by (simp add: own_finalizers_def crd_start_def)

lemma crd_sample_fresh [simp]: "fresh_assigned crd_sample"
  by (simp add: fresh_assigned_def crd_sample_def zero_ObjectMeta_def)

theorem crd_operations_refine_witness:
  "case CreateAssignedIdentity mem_env crd_sample crd_start of (e, s') \<Rightarrow>
     e = None \<and> crd_view map_of s' = (crd_view map_of crd_start)(assigned_key crd_sample \<mapsto> plain crd_sample)"
proof -
  have "fst (CreateAssignedIdentity mem_env crd_sample crd_start) = None" by code_simp
  then show ?thesis
    using crd_operations_refine[OF mem_env_honest crd_start_own crd_sample_fresh, of "[]"] by (simp split: prod.splits)
qed

lemma set_version_simps [simp]:
  "GetFinalizers (set_version rv x) = GetFinalizers x"
  "plain (ConvertV1AssignedIdentityToInternalAssignedIdentity (set_version rv x)) = plain (ConvertV1AssignedIdentityToInternalAssignedIdentity x)"
  by (simp_all add: set_version_def plain_def ConvertV1AssignedIdentityToInternalAssignedIdentity_def Let_def)

text \<open>
  (C25) The finalizer protects what the client created.  After a successful \<^verbatim>\<open>CreateAssignedIdentity\<close> the stored object carries the client's finalizer.
  Whatever other program then asks the API server to delete the assigned identity, it stays there for the clients to see; and once
  \<^verbatim>\<open>RemoveAssignedIdentity\<close> of the client reports success it is gone, whether or not someone had asked before.
\<close>

theorem finalizer_protects:
  assumes "api_honest env st" "own_finalizers st s" "fresh_assigned a" "CreateAssignedIdentity env a s = (None, s1)"
    and delete: "ce_Delete env (a_Namespace a) (a_Name a) (cs_world s1) = (r, w)"
  shows "(\<exists>x. st (cs_world s1) (assigned_key a) = Some (x, False) \<and> finalizerName \<in> set (GetFinalizers x)) \<and>
    crd_view st (s1\<lparr>cs_world := w\<rparr>) (assigned_key a) = Some (plain a) \<and>
    (\<forall>s2 \<in> {s1, s1\<lparr>cs_world := w\<rparr>}. \<forall>s3. RemoveAssignedIdentity env a s2 = (None, s3) \<longrightarrow> st (cs_world s3) (assigned_key a) = None)"
proof -
  note api = honest_api.intro[OF assms(1)]
  let ?v = "ConvertInternalAssignedIdentityToV1AssignedIdentity (ce_SetGVK env) a" and ?k = "assigned_key a"
  obtain r0 :: "(api_error, v1AzureAssignedIdentity) result" and fs where
    post: "posted (a_Namespace a) (SetFinalizers fs ?v) r0 (st (cs_world s)) (st (cs_world s1))"
    and r0: "\<not> isl r0" and fs: "set fs = set (om_Finalizers (a_ObjectMeta a)) \<union> {finalizerName}"
    using Create_calls[OF assms(1,4)] by blast
  then obtain rv where s1: "st (cs_world s1) ?k = Some (set_version rv (SetFinalizers fs ?v), False)"
    by (cases r0) (auto simp: posted_def assigned_key_def)
  define x where "x = set_version rv (SetFinalizers fs ?v)"
  have x: "finalizerName \<in> set (GetFinalizers x)" "GetFinalizers x \<noteq> []" using fs by (auto simp: x_def)
  have created: "own_finalizers st s1" "crd_view st s1 ?k = Some (plain a)"
    using honest_api.create_refines(1)[OF api assms(4,2)] assms(3) by simp_all
  have del: "deleted (a_Namespace a) (a_Name a) r (st (cs_world s1)) (st w)" by (rule api_honestD(4)[OF assms(1) delete])
  have after: "own_finalizers st (s1\<lparr>cs_world := w\<rparr>) \<and> crd_view st (s1\<lparr>cs_world := w\<rparr>) ?k = Some (plain a)"
  proof (cases r)
    case (Inl e)
    then have "st w = st (cs_world s1)" using del by (simp add: deleted_def)
    then show ?thesis using created by (simp add: own_finalizers_def crd_view_def)
  next
    case (Inr res)
    then obtain rv' where w: "st w = (st (cs_world s1))(?k \<mapsto> (set_version rv' x, True))"
      using del s1 x(2) by (auto simp: deleted_def assigned_key_def x_def)
    have "set (GetFinalizers (set_version rv' x)) \<subseteq> {finalizerName}" using own_finalizersD[OF created(1) s1] by (simp add: x_def)
    moreover have "st (cs_world (s1\<lparr>cs_world := w\<rparr>)) = (st (cs_world s1))(?k \<mapsto> (set_version rv' x, True))" using w by simp
    ultimately show ?thesis using honest_api.view_put[OF api, of "s1\<lparr>cs_world := w\<rparr>" s1 ?k "set_version rv' x" True] created s1 by (simp add: x_def crd_view_def)
  qed
  have gone: "st (cs_world s3) ?k = None" if "RemoveAssignedIdentity env a s2 = (None, s3)" "own_finalizers st s2" for s2 s3
  proof -
    have "crd_view st s3 ?k = None" using honest_api.remove_refines(1)[OF api that] by simp
    then show ?thesis by (simp add: crd_view_def)
  qed
  show ?thesis using s1 x(1) after gone created(1) unfolding x_def by blast
qed

theorem finalizer_protects_witness:
  "crd_view map_of ((snd (CreateAssignedIdentity mem_env crd_sample crd_start))\<lparr>cs_world := snd (ce_Delete mem_env (a_Namespace crd_sample) (a_Name crd_sample)
      (cs_world (snd (CreateAssignedIdentity mem_env crd_sample crd_start))))\<rparr>) (assigned_key crd_sample) = Some (plain crd_sample)"
proof -
  have "fst (CreateAssignedIdentity mem_env crd_sample crd_start) = None" by code_simp
  then have c: "CreateAssignedIdentity mem_env crd_sample crd_start = (None, snd (CreateAssignedIdentity mem_env crd_sample crd_start))"
    by (metis prod.collapse)
  from finalizer_protects[OF mem_env_honest crd_start_own crd_sample_fresh c, OF prod.collapse[symmetric]] show ?thesis by blast
qed

end
