(* ===== verification/MicCrd.thy ===== *)
theory MicCrd
  imports MicConverge CrdStore
begin

text \<open>
  The controller on the client of the custom resources.  \<open>MicConverge\<close> speaks of the calls that a cycle made; here the calls are those of
  \<^verbatim>\<open>pkg/crd/crd.go\<close>, and the statement is about the objects that the API server stores after the cycle.  A cycle is a sequence of
  steps (\<open>mic_step\<close>), and every step acts on the stored objects as the contract of the client says.
\<close>

section \<open>A cycle as a sequence of steps\<close>

text \<open>
  The steps of a cycle: the calls on the assigned identities to create (\<open>C\<close>), to update (\<open>U\<close>) and to delete (\<open>D\<close>), the calls of the
  cloud, the clock, events and statistics.
\<close>

inductive mic_step ::
  "'w mic_env \<Rightarrow> AzureAssignedIdentity set \<Rightarrow> AzureAssignedIdentity set \<Rightarrow> AzureAssignedIdentity set \<Rightarrow> 'w MicState \<Rightarrow> 'w MicState \<Rightarrow> bool"
  for env C U D where
  step_create: "x \<in> C \<Longrightarrow> a_StatusText x = [] \<Longrightarrow> createAssignedIdentity env (with_status AssignedIDCreated x) s = (e, s') \<Longrightarrow> mic_step env C U D s s'"
| step_update: "x \<in> U \<Longrightarrow> a_StatusText x = [] \<Longrightarrow> updateAssignedIdentity env (with_status AssignedIDCreated x) s = (e, s') \<Longrightarrow> mic_step env C U D s s'"
| step_status: "x \<in> C \<union> U \<union> D \<Longrightarrow> updateAssignedIdentityStatus env x t s = (e, s') \<Longrightarrow> mic_step env C U D s s'"
| step_remove: "x \<in> D \<Longrightarrow> removeAssignedIdentity env x s = (e, s') \<Longrightarrow> mic_step env C U D s s'"
| step_cloud: "cloud_UpdateUserMSI env add remove n v s = (e, s') \<Longrightarrow> mic_step env C U D s s'"
| step_list: "getUserMSIListForNode env n v s = (r, s') \<Longrightarrow> mic_step env C U D s s'"
| step_now: "mic_Now env s = (t, s') \<Longrightarrow> mic_step env C U D s s'"
| step_event: "mic_step env C U D s (say (CallEvent obj k reason msg) s)"
| step_stats: "mic_step env C U D s (s\<lparr>ms_stats := st\<rparr>)"

abbreviation mic_steps where "mic_steps env C U D \<equiv> (mic_step env C U D)\<^sup>*\<^sup>*"

lemma steps_fold:
  assumes "\<And>a s. a \<in> set as \<Longrightarrow> mic_steps env C U D s (f a s)"
  shows "mic_steps env C U D s (fold f as s)"
  using assms by (induction as arbitrary: s) (auto intro: rtranclp_trans)

lemma steps_event: "mic_steps env C U D s s' \<Longrightarrow> mic_steps env C U D s (say (CallEvent obj k reason msg) s')"
  by (erule rtranclp.rtrancl_into_rtrancl) (rule step_event)

lemma steps_stats:
  "mic_steps env C U D s s' \<Longrightarrow> mic_steps env C U D s (mic_Increment k n s')"
  "mic_steps env C U D s s' \<Longrightarrow> mic_steps env C U D s (mic_Put k d s')"
  unfolding mic_Increment_def mic_Put_def by (erule rtranclp.rtrancl_into_rtrancl, rule step_stats)+

lemmas steps_trans = rtranclp_trans[of "mic_step env C U D" for env C U D]
lemmas step_calls = step_create step_update step_status step_remove step_cloud step_list step_now

lemma bodies_steps:
  "a \<in> C \<Longrightarrow> mic_steps env C U D s (create_body env a s)"
  "a \<in> U \<Longrightarrow> mic_steps env C U D s (update_body env a s)"
  "a \<in> C \<union> U \<Longrightarrow> mic_steps env C U D s (assigned_body env a s)"
  "a \<in> D \<Longrightarrow> mic_steps env C U D s (unassign_body env a s)"
  "a \<in> D \<Longrightarrow> mic_steps env C U D s (cleanup_step env a s)"
  "a \<in> C \<union> U \<Longrightarrow> mic_steps env C U D s (failed_create_step env err idList track a s)"
  "a \<in> D \<Longrightarrow> mic_steps env C U D s (failed_delete_step env idList new refs a s)"
proof -
  obtain e1 s1 where c: "createAssignedIdentity env (with_status AssignedIDCreated a) s = (e1, s1)" by fastforce
  obtain e2 s2 where u: "updateAssignedIdentity env (with_status AssignedIDCreated a) s = (e2, s2)" by fastforce
  obtain e3 s3 where t: "updateAssignedIdentityStatus env a AssignedIDAssigned s = (e3, s3)" by fastforce
  obtain e4 s4 where t': "updateAssignedIdentityStatus env a AssignedIDUnAssigned s = (e4, s4)" by fastforce
  obtain e5 s5 where r: "removeAssignedIdentity env a s4 = (e5, s5)" by fastforce
  obtain e6 s6 where r': "removeAssignedIdentity env a s = (e6, s6)" by fastforce
  show "a \<in> C \<Longrightarrow> mic_steps env C U D s (create_body env a s)"
    using step_create[of a C env s e1 s1 U D] c by (auto simp: create_body_def Let_def intro!: steps_event split: option.splits)
  show "a \<in> U \<Longrightarrow> mic_steps env C U D s (update_body env a s)"
    using step_update[of a U env s e2 s2 C D] u by (auto simp: update_body_def Let_def intro!: steps_event split: option.splits)
  show "a \<in> C \<union> U \<Longrightarrow> mic_steps env C U D s (assigned_body env a s)"
    using step_status[of a C U D env AssignedIDAssigned s e3 s3] t
    by (auto simp: assigned_body_def intro!: steps_event split: option.splits)
  show "a \<in> D \<Longrightarrow> mic_steps env C U D s (unassign_body env a s)"
    using step_status[of a C U D env AssignedIDUnAssigned s e4 s4] step_remove[of a D env s4 e5 s5 C U] t' r
    by (auto simp: unassign_body_def intro!: steps_event split: option.splits)
  show "a \<in> D \<Longrightarrow> mic_steps env C U D s (cleanup_step env a s)"
    using step_remove[of a D env s e6 s6 C U] r' by (auto simp: cleanup_step_def Let_def intro!: steps_event split: option.splits)
  show "a \<in> D \<Longrightarrow> mic_steps env C U D s (failed_delete_step env idList new refs a s)"
    using step_remove[of a D env s e6 s6 C U] r'
    by (auto simp: failed_delete_step_def Let_def intro!: steps_stats split: option.splits sum.splits)
  have "mic_steps env C U D s (snd (updateAssignedIdentityStatus env a AssignedIDAssigned (say (CallEvent obj k rs msg) s)))"
    if "a \<in> C \<union> U" for obj k rs msg
    using rtranclp.rtrancl_into_rtrancl[OF steps_event[OF rtranclp.rtrancl_refl], OF step_status] that by (metis UnI1 prod.collapse)
  then show "a \<in> C \<union> U \<Longrightarrow> mic_steps env C U D s (failed_create_step env err idList track a s)"
    unfolding failed_create_step_def Let_def
    by (auto intro!: steps_event steps_stats split: prod.split option.split) (metis (no_types) snd_conv Un_iff)+
qed

lemma steps_run_all:
  "(\<And>f s. f \<in> set order \<Longrightarrow> mic_steps env C U D s (f s)) \<Longrightarrow> mic_steps env C U D s (run_all order s)"
  by (rule steps_fold)

definition within :: "AzureAssignedIdentity set \<Rightarrow> AzureAssignedIdentity set \<Rightarrow> AzureAssignedIdentity set \<Rightarrow> trackUserAssignedMSIIds \<Rightarrow> bool" where
  "within C U D t \<longleftrightarrow> set (assignedIDsToCreate t) \<subseteq> C \<and> set (assignedIDsToUpdate t) \<subseteq> U \<and> set (assignedIDsToDelete t) \<subseteq> D"

lemma after_failure_steps:
  assumes "within C U D t"
  shows "mic_steps env C U D s (after_failure env err new n t refs b s)"
proof -
  obtain r s1 where g: "getUserMSIListForNode env n (isvmss t) s = (r, s1)" by fastforce
  show ?thesis
  proof (cases r)
    case (Inl e)
    then show ?thesis using step_list[OF g, of C U D] g by (auto simp: after_failure_def)
  next
    case (Inr idList)
    define s2 where "s2 = fold (failed_create_step env err idList t) (assignedIDsToCreate t @ assignedIDsToUpdate t) s1"
    define s3 where "s3 = fold (failed_delete_step env idList new refs) (assignedIDsToDelete t) s2"
    obtain now s4 where now: "mic_Now env s3 = (now, s4)" by fastforce
    have "mic_steps env C U D s1 s2" unfolding s2_def using assms by (intro steps_fold bodies_steps(6)) (auto simp: within_def)
    moreover have "mic_steps env C U D s2 s3" unfolding s3_def using assms by (intro steps_fold bodies_steps(7)) (auto simp: within_def)
    ultimately have "mic_steps env C U D s s4"
      using step_list[OF g, of C U D] step_now[OF now, of C U D] by (meson converse_rtranclp_into_rtranclp rtranclp.rtrancl_into_rtrancl steps_trans)
    moreover have "after_failure env err new n t refs b s = mic_Put TotalAzureAssignedIdentitiesCreateOrUpdate (time_Sub now b) s4"
      using g Inr now by (simp add: after_failure_def Let_def flip: s2_def s3_def del: fold_append)
    ultimately show ?thesis by (simp add: steps_stats)
  qed
qed

lemma record_success_steps: "mic_steps env C U D s (record_success env t b s)"
proof -
  define s3 where "s3 = mic_Increment TotalAzureAssignedIdentitiesDeleted (int (length (assignedIDsToDelete t)))
    (mic_Increment TotalAzureAssignedIdentitiesUpdated (int (length (assignedIDsToUpdate t)))
      (mic_Increment TotalAzureAssignedIdentitiesCreated (int (length (assignedIDsToCreate t))) s))"
  obtain now s4 where now: "mic_Now env s3 = (now, s4)" by fastforce
  have "mic_steps env C U D s s3" unfolding s3_def by (intro steps_stats rtranclp.rtrancl_refl)
  then have "mic_steps env C U D s s4" by (rule rtranclp.rtrancl_into_rtrancl) (rule step_now[OF now])
  then show ?thesis using now by (simp add: record_success_def Let_def steps_stats flip: s3_def)
qed

lemma after_success_steps:
  assumes "weighted_semaphore (env_Grants env)" "within C U D t" "after_success c env t b s = Some s'"
  shows "mic_steps env C U D s s'"
  using assms(1,3)
proof (rule after_success_phases)
  fix o1 o2
  assume o: "mset o1 = mset (map (assigned_body env) (assignedIDsToCreate t @ assignedIDsToUpdate t))"
    "mset o2 = mset (map (unassign_body env) (assignedIDsToDelete t))" and s': "s' = record_success env t b (run_all o2 (run_all o1 s))"
  have "mic_steps env C U D s (run_all o1 s)"
    by (rule steps_run_all) (use mset_eq_setD[OF o(1)] assms(2) in \<open>auto simp: within_def intro!: bodies_steps(3)\<close>)
  moreover have "mic_steps env C U D (run_all o1 s) (run_all o2 (run_all o1 s))"
    by (rule steps_run_all) (use mset_eq_setD[OF o(2)] assms(2) in \<open>auto simp: within_def intro!: bodies_steps(4)\<close>)
  ultimately show ?thesis using record_success_steps unfolding s' by (blast intro: steps_trans)
qed

lemma updateUserMSI_steps:
  assumes "weighted_semaphore (env_Grants env)" "within C U D t" "updateUserMSI c env new n t refs s = Some s'"
  shows "mic_steps env C U D s s'"
  using assms(1,3)
proof (rule updateUserMSI_phases)
  fix b s0 order e s3
  assume b: "mic_Now env s = (b, s0)"
    and order: "mset order = mset (map (create_body env) (assignedIDsToCreate t) @ map (update_body env) (assignedIDsToUpdate t))"
    and e: "cloud_UpdateUserMSI env (getUniqueIDs (addUserAssignedMSIIDs t)) (getUniqueIDs (removeUserAssignedMSIIDs t)) n (isvmss t)
      (run_all order s0) = (e, s3)"
    and s': "case e of Some err \<Rightarrow> s' = after_failure env err new n t refs b s3 | None \<Rightarrow> after_success c env t b s3 = Some s'"
  have "mic_steps env C U D s0 (run_all order s0)"
    by (rule steps_run_all) (use mset_eq_setD[OF order] assms(2) in \<open>auto simp: within_def intro!: bodies_steps(1,2)\<close>)
  then have "mic_steps env C U D s s3"
    using step_now[OF b, of C U D] step_cloud[OF e, of C U D] by (meson converse_rtranclp_into_rtranclp rtranclp.rtrancl_into_rtrancl)
  moreover have "mic_steps env C U D s3 s'"
    using s' after_failure_steps[OF assms(2)] after_success_steps[OF assms(1,2)] by (auto split: option.splits)
  ultimately show ?thesis by (rule steps_trans)
qed

lemma apply_plan_steps:
  assumes "weighted_semaphore (env_Grants env)" "apply_plan c env p s = Some s'"
    and "\<And>e. e \<in> set (pl_nodeMap p) \<Longrightarrow> within C U D (snd e)" "\<And>e. e \<in> set (pl_cleanups p) \<Longrightarrow> set (assignedIDsToDelete (snd e)) \<subseteq> D"
  shows "mic_steps env C U D s s'"
proof -
  have nodes: "mic_steps env C U D s s'" if "updateNodeAndDeps c env new m refs s = Some s'" "\<And>e. e \<in> set m \<Longrightarrow> within C U D (snd e)" for new m refs s
    using that
  proof (induction m arbitrary: s)
    case (Cons e m)
    then obtain s1 where "updateUserMSI c env new (fst e) (snd e) refs s = Some s1" "updateNodeAndDeps c env new m refs s1 = Some s'"
      by (cases e) (auto simp: bind_eq_Some_conv)
    moreover have "within C U D (snd e)" "\<And>e'. e' \<in> set m \<Longrightarrow> within C U D (snd e')" using Cons.prems(2) by auto
    ultimately show ?case using updateUserMSI_steps[OF assms(1)] Cons.IH[of s1] steps_trans by blast
  qed simp
  have "mic_steps env C U D s (cleanUpAllAssignedIdentitiesOnNode env e s)" if "e \<in> set (pl_cleanups p)" for e s
    unfolding cleanUpAllAssignedIdentitiesOnNode_def using assms(4)[OF that] by (intro steps_fold bodies_steps(5)) auto
  then have "mic_steps env C U D s (fold (cleanUpAllAssignedIdentitiesOnNode env) (pl_cleanups p) s)" by (intro steps_fold)
  then show ?thesis using nodes[of _ "pl_nodeMap p"] assms(2,3) unfolding apply_plan_def by (blast intro: steps_trans)
qed

text \<open>The calls of the steps leave every other assigned identity alone.\<close>

lemma apply_call_elsewhere:
  assumes "mic_step env C U D s s'" "n \<notin> a_Name ` (C \<union> U \<union> D)"
  shows "\<exists>xs. ms_calls s' = ms_calls s @ xs \<and> (\<forall>m. fold apply_call xs m n = m n)"
proof -
  have one: "\<exists>xs. ms_calls s' = ms_calls s @ xs \<and> (\<forall>m. fold apply_call xs m n = m n)"
    if "ms_calls s' = ms_calls s @ [x]" "\<And>m. apply_call x m n = m n" for x
    using that by (intro exI[of _ "[x]"]) simp
  have other: "a_Name x \<noteq> n" if "x \<in> C \<union> U \<union> D" for x using assms(2) that by blast
  show ?thesis
    using assms(1)
  proof cases
    case (step_create x e)
    then show ?thesis using other[of x] by (intro one[OF call_eqs(1)[OF step_create(3)]]) (cases "e = None"; auto)
  next
    case (step_update x e)
    then show ?thesis using other[of x] by (intro one[OF call_eqs(2)[OF step_update(3)]]) (cases "e = None"; auto)
  next
    case (step_status x t e)
    then show ?thesis using other[of x] by (intro one[OF call_eqs(4)[OF step_status(2)]]) (cases "e = None"; auto)
  next
    case (step_remove x e)
    then show ?thesis using other[of x] by (intro one[OF call_eqs(3)[OF step_remove(2)]]) (cases "e = None"; auto)
  next
    case (step_cloud add remove k v e)
    then show ?thesis by (intro one[OF call_eqs(5)[OF step_cloud]]) simp
  next
    case (step_list k v r)
    then show ?thesis by (intro one[OF call_eqs(6)[OF step_list]]) simp
  next
    case (step_now t)
    then show ?thesis using call_eqs(7)[OF step_now] by (intro exI[of _ "[]"]) simp
  next
    case (step_event obj k reason msg)
    then show ?thesis by (intro one[of "CallEvent obj k reason msg"]) simp_all
  next
    case (step_stats x)
    then show ?thesis by (intro exI[of _ "[]"]) simp
  qed
qed

lemma steps_elsewhere:
  assumes "mic_steps env C U D s s'" "n \<notin> a_Name ` (C \<union> U \<union> D)"
  shows "\<exists>xs. ms_calls s' = ms_calls s @ xs \<and> (\<forall>m. fold apply_call xs m n = m n)"
  using assms(1)
proof induction
  case (step s1 s2)
  obtain xs ys where "ms_calls s1 = ms_calls s @ xs" "\<forall>m. fold apply_call xs m n = m n"
    "ms_calls s2 = ms_calls s1 @ ys" "\<forall>m. fold apply_call ys m n = m n"
    using step.IH apply_call_elsewhere[OF step.hyps(2) assms(2)] by blast
  then show ?case by (intro exI[of _ "xs @ ys"]) simp
qed (rule exI[of _ "[]"], simp)

section \<open>The controller on the client of the custom resources\<close>

text \<open>The controller's calls on assigned identities are those of \<^verbatim>\<open>crd.Client\<close>; the cloud and the clock do not touch the stored objects.\<close>

definition mic_on_crd :: "'v CrdState mic_env \<Rightarrow> 'v CrdEnv \<Rightarrow> ('v \<Rightarrow> api_store) \<Rightarrow> bool" where
  "mic_on_crd env cenv st \<longleftrightarrow>
     env_CreateAssignedIdentity env = CreateAssignedIdentity cenv \<and> env_UpdateAssignedIdentity env = UpdateAssignedIdentity cenv \<and>
     env_RemoveAssignedIdentity env = RemoveAssignedIdentity cenv \<and> env_UpdateStatus env = UpdateAzureAssignedIdentityStatus cenv \<and>
     (\<forall>add remove n v w. st (cs_world (snd (env_UpdateUserMSI env add remove n v w))) = st (cs_world w)) \<and>
     (\<forall>n v w. st (cs_world (snd (env_GetUserMSIs env n v w))) = st (cs_world w)) \<and>
     (\<forall>w. st (cs_world (snd (env_Now env w))) = st (cs_world w))"

type_synonym view = "string \<times> string \<Rightarrow> AzureAssignedIdentity option"

fun apply_view :: "mic_call \<Rightarrow> view \<Rightarrow> view" where
  "apply_view (CallCreate a True) v = v(assigned_key a \<mapsto> plain a)"
| "apply_view (CallUpdate a True) v = v(assigned_key a \<mapsto> plain a)"
| "apply_view (CallRemove a True) v = v(assigned_key a := None)"
| "apply_view (CallStatus a t True) v = v(assigned_key a := map_option (set_status t) (v (assigned_key a)))"
| "apply_view _ v = v"

text \<open>Calls on objects in the namespace that belongs to their name, with finalizers as the client needs them.\<close>

fun call_fits :: "(string \<Rightarrow> string) \<Rightarrow> mic_call \<Rightarrow> bool" where
  "call_fits ns (CallCreate a _) = (a_Namespace a = ns (a_Name a) \<and> fresh_assigned a)"
| "call_fits ns (CallUpdate a _) = (a_Namespace a = ns (a_Name a) \<and> held_assigned a)"
| "call_fits ns (CallRemove a _) = (a_Namespace a = ns (a_Name a))"
| "call_fits ns (CallStatus a _ _) = (a_Namespace a = ns (a_Name a))"
| "call_fits ns _ = True"

definition mirrored :: "(string \<Rightarrow> string) \<Rightarrow> ('v \<Rightarrow> api_store) \<Rightarrow> 'v CrdState MicState \<Rightarrow> 'v CrdState MicState \<Rightarrow> bool" where
  "mirrored ns st s s' \<longleftrightarrow>
     (own_finalizers st (ms_world s) \<longrightarrow> (\<exists>xs. ms_calls s' = ms_calls s @ xs \<and> list_all (call_fits ns) xs \<and>
        own_finalizers st (ms_world s') \<and> crd_view st (ms_world s') = fold apply_view xs (crd_view st (ms_world s))))"

lemma mirrored_trans:
  assumes "mirrored ns st s1 s2" "mirrored ns st s2 s3"
  shows "mirrored ns st s1 s3"
  unfolding mirrored_def
proof
  assume "own_finalizers st (ms_world s1)"
  then obtain xs ys where "ms_calls s2 = ms_calls s1 @ xs" "list_all (call_fits ns) xs" "own_finalizers st (ms_world s3)"
    "crd_view st (ms_world s2) = fold apply_view xs (crd_view st (ms_world s1))" "ms_calls s3 = ms_calls s2 @ ys" "list_all (call_fits ns) ys"
    "crd_view st (ms_world s3) = fold apply_view ys (crd_view st (ms_world s2))"
    using assms unfolding mirrored_def by blast
  then show "\<exists>xs. ms_calls s3 = ms_calls s1 @ xs \<and> list_all (call_fits ns) xs \<and> own_finalizers st (ms_world s3) \<and>
      crd_view st (ms_world s3) = fold apply_view xs (crd_view st (ms_world s1))"
    by (intro exI[of _ "xs @ ys"]) simp
qed

lemma mirrored_call:
  assumes "ms_calls s' = ms_calls s @ [x]" "call_fits ns x"
    "own_finalizers st (ms_world s) \<Longrightarrow> own_finalizers st (ms_world s') \<and> crd_view st (ms_world s') = apply_view x (crd_view st (ms_world s))"
  shows "mirrored ns st s s'"
  using assms by (auto simp: mirrored_def)

lemma same_store: "st (cs_world w') = st (cs_world w) \<Longrightarrow> own_finalizers st w' = own_finalizers st w \<and> crd_view st w' = crd_view st w"
  by (simp add: own_finalizers_def crd_view_def fun_eq_iff)

lemma step_mirrored:
  assumes "mic_step env C U D s s'" and on: "mic_on_crd env cenv st" and honest: "api_honest cenv st"
    and ns: "\<And>x. x \<in> C \<union> U \<union> D \<Longrightarrow> a_Namespace x = ns (a_Name x)"
    and fin: "\<And>x. x \<in> C \<Longrightarrow> a_StatusText x = [] \<Longrightarrow> fresh_assigned x" "\<And>x. x \<in> U \<Longrightarrow> held_assigned x"
  shows "mirrored ns st s s'"
  using assms(1)
proof cases
  note api = honest_api.intro[OF honest]
  case (step_create x e)
  let ?a = "with_status AssignedIDCreated x"
  have fits: "fresh_assigned ?a" "a_Namespace ?a = ns (a_Name ?a)" using ns[of x] fin(1) step_create(1,2) by (auto simp: fresh_assigned_def)
  have run: "CreateAssignedIdentity cenv ?a (ms_world s) = (e, ms_world s')"
    using step_create(3) on by (auto simp: createAssignedIdentity_def mic_on_crd_def say_def split: prod.splits)
  show ?thesis
    by (rule mirrored_call[OF call_eqs(1)[OF step_create(3)]])
      (use fits honest_api.create_refines[OF api run] in \<open>cases e; simp\<close>)+
next
  note api = honest_api.intro[OF honest]
  case (step_update x e)
  let ?a = "with_status AssignedIDCreated x"
  have fits: "held_assigned ?a" "a_Namespace ?a = ns (a_Name ?a)" using ns[of x] fin(2) step_update(1) by (auto simp: held_assigned_def)
  have run: "UpdateAssignedIdentity cenv ?a (ms_world s) = (e, ms_world s')"
    using step_update(3) on by (auto simp: updateAssignedIdentity_def mic_on_crd_def say_def split: prod.splits)
  show ?thesis
    by (rule mirrored_call[OF call_eqs(2)[OF step_update(3)]])
      (use fits honest_api.update_refines[OF api run] in \<open>cases e; simp\<close>)+
next
  note api = honest_api.intro[OF honest]
  case (step_status x t e)
  have run: "UpdateAzureAssignedIdentityStatus cenv x t (ms_world s) = (e, ms_world s')"
    using step_status(2) on by (auto simp: updateAssignedIdentityStatus_def mic_on_crd_def say_def split: prod.splits)
  show ?thesis
    by (rule mirrored_call[OF call_eqs(4)[OF step_status(2)]])
      (use ns[OF step_status(1)] honest_api.status_refines[OF api run] in \<open>cases e; simp\<close>)+
next
  note api = honest_api.intro[OF honest]
  case (step_remove x e)
  have run: "RemoveAssignedIdentity cenv x (ms_world s) = (e, ms_world s')"
    using step_remove(2) on by (auto simp: removeAssignedIdentity_def mic_on_crd_def say_def split: prod.splits)
  show ?thesis
    by (rule mirrored_call[OF call_eqs(3)[OF step_remove(2)]])
      (use ns[of x] step_remove(1) honest_api.remove_refines[OF api run] in \<open>cases e; simp\<close>)+
next
  case (step_cloud add remove n v e)
  have "ms_world s' = snd (env_UpdateUserMSI env add remove n v (ms_world s))"
    using step_cloud by (auto simp: cloud_UpdateUserMSI_def say_def split: prod.splits)
  then have "st (cs_world (ms_world s')) = st (cs_world (ms_world s))" using on by (simp add: mic_on_crd_def)
  from same_store[OF this] show ?thesis by (intro mirrored_call[OF call_eqs(5)[OF step_cloud]]) simp_all
next
  case (step_list n v r)
  have "ms_world s' = snd (env_GetUserMSIs env n v (ms_world s))"
    using step_list by (auto simp: getUserMSIListForNode_def say_def split: prod.splits)
  then have "st (cs_world (ms_world s')) = st (cs_world (ms_world s))" using on by (simp add: mic_on_crd_def)
  from same_store[OF this] show ?thesis by (intro mirrored_call[OF call_eqs(6)[OF step_list]]) simp_all
next
  case (step_now t)
  have "ms_world s' = snd (env_Now env (ms_world s))" using step_now by (auto simp: mic_Now_def split: prod.splits)
  then have "st (cs_world (ms_world s')) = st (cs_world (ms_world s))" using on by (simp add: mic_on_crd_def)
  from same_store[OF this] show ?thesis using call_eqs(7)[OF step_now] unfolding mirrored_def by (intro impI exI[of _ "[]"]) simp
next
  case (step_event obj k reason msg)
  then show ?thesis by (intro mirrored_call[where x = "CallEvent obj k reason msg"]) (simp_all add: say_def)
next
  case (step_stats x)
  then show ?thesis unfolding mirrored_def by (intro impI exI[of _ "[]"]) simp
qed

lemma steps_mirrored:
  assumes "mic_steps env C U D s s'" "mic_on_crd env cenv st" "api_honest cenv st"
    and "\<And>x. x \<in> C \<union> U \<union> D \<Longrightarrow> a_Namespace x = ns (a_Name x)"
    and "\<And>x. x \<in> C \<Longrightarrow> a_StatusText x = [] \<Longrightarrow> fresh_assigned x" "\<And>x. x \<in> U \<Longrightarrow> held_assigned x"
  shows "mirrored ns st s s'"
  using assms(1)
proof induction
  case base
  show ?case unfolding mirrored_def by (intro impI exI[of _ "[]"]) simp
next
  case (step s1 s2)
  have "mirrored ns st s1 s2" by (rule step_mirrored[OF step.hyps(2) assms(2,3)]) (use assms(4-6) in auto)
  with step.IH show ?case by (rule mirrored_trans)
qed

text \<open>The objects of the API server, when each name belongs to one namespace, and a store by name.\<close>

definition represents :: "(string \<Rightarrow> string) \<Rightarrow> view \<Rightarrow> store \<Rightarrow> bool" where
  "represents ns v m \<longleftrightarrow> (\<forall>k n. v (k, n) = (if k = ns n then map_option plain (m n) else None))"

lemma plain_with_status: "plain (with_status t a) = set_status t (plain a)"
  by (simp add: plain_def with_status_def set_status_def)

lemma represents_call:
  assumes "represents ns v m" "call_fits ns x"
  shows "represents ns (apply_view x v) (apply_call x m)"
  using assms
  by (cases "(x, m)" rule: apply_call.cases)
    (auto simp: represents_def assigned_key_def plain_with_status option.map_comp comp_def split: option.splits)

lemma represents_calls:
  "represents ns v m \<Longrightarrow> list_all (call_fits ns) xs \<Longrightarrow> represents ns (fold apply_view xs v) (fold apply_call xs m)"
  by (induction xs arbitrary: v m) (simp_all add: represents_call)

text \<open>The namespace of an assigned identity: that of the existing object, or else that of the desired one.\<close>

definition namespace_of :: "assigned_map \<Rightarrow> assigned_map \<Rightarrow> string \<Rightarrow> string" where
  "namespace_of cur new n = (case map_of cur n of Some y \<Rightarrow> a_Namespace y
     | None \<Rightarrow> (case map_of new n of Some x \<Rightarrow> a_Namespace x | None \<Rightarrow> []))"

section \<open>A cycle on the API server\<close>

lemma plan_fits:
  assumes named: "named cur" "named new" and diff: "mic_diff cur new = (before, after, add, del)"
    and held: "\<And>n y. map_of cur n = Some y \<Longrightarrow> held_assigned y" and fresh: "\<And>n x. map_of new n = Some x \<Longrightarrow> fresh_assigned x"
  shows "a \<in> snd ` set add \<union> snd ` set after \<union> snd ` set del \<Longrightarrow> a_Namespace a = namespace_of cur new (a_Name a)"
    and "a \<in> snd ` set add \<Longrightarrow> a_StatusText a = [] \<Longrightarrow> fresh_assigned a" and "a \<in> snd ` set after \<Longrightarrow> held_assigned a"
proof -
  note dn = mic_diff_named[OF named diff]
  note d = mic_diff_map[OF namedD(2)[OF named(1)] namedD(2)[OF named(2)] diff]
  have add: "map_of cur (a_Name a) = Some a \<and> a_StatusText a \<noteq> [] \<or> map_of cur (a_Name a) = None \<and> map_of new (a_Name a) = Some a"
    if "a \<in> snd ` set add" for a
    using that named_mem[OF dn(1), of a] d(1)[of "a_Name a"] by (auto simp: status_defs split: option.splits if_splits)
  have after: "\<exists>y x. map_of cur (a_Name a) = Some y \<and> a = updated_assigned y x" if "a \<in> snd ` set after" for a
    using that named_mem[OF dn(2), of a] d(4)[of "a_Name a"] by (auto split: option.splits if_splits)
  have del: "map_of cur (a_Name a) = Some a" if "a \<in> snd ` set del" for a
    using that named_mem[OF dn(3), of a] d(2)[of "a_Name a"] by (auto split: option.splits)
  show "a_Namespace a = namespace_of cur new (a_Name a)" if "a \<in> snd ` set add \<union> snd ` set after \<union> snd ` set del"
  proof -
    have "a \<in> snd ` set add \<or> a \<in> snd ` set after \<or> a \<in> snd ` set del" using that by blast
    then show ?thesis using add[of a] after[of a] del[of a] unfolding namespace_of_def updated_assigned_def by (elim disjE) force+
  qed
  show "fresh_assigned a" if "a \<in> snd ` set add" "a_StatusText a = []" using add[OF that(1)] that(2) fresh by blast
  show "held_assigned a" if up: "a \<in> snd ` set after"
  proof -
    obtain y x where "map_of cur (a_Name a) = Some y" "a = updated_assigned y x" using after[OF up] by blast
    then show ?thesis using held[of "a_Name a" y] by (simp add: held_assigned_def updated_assigned_def)
  qed
qed

lemma plan_within:
  assumes named: "named cur" "named new" and diff: "mic_diff cur new = (before, after, add, del)"
    and lists: "plan_lists c nc cur new refs = (work, m)" and names: "vmss_names_ok nc m"
    and cons: "consolidateVMSSNodes nc m = (m', cl)"
  shows "e \<in> set m' \<Longrightarrow> within (snd ` set add) (snd ` set after) (snd ` set del) (snd e)"
    and "e \<in> set cl \<Longrightarrow> set (assignedIDsToDelete (snd e)) \<subseteq> snd ` set del"
proof -
  show "within (snd ` set add) (snd ` set after) (snd ` set del) (snd e)" if "e \<in> set m'"
    using cycle_lists(1,3,5)[OF named diff lists names cons, of "fst e" "snd e"] that by (auto simp: within_def)
  note w = plan_lists_work[OF diff lists]
  have "cl = filter (\<lambda>e. node_gone nc (fst e)) m" using conjunct2[OF consolidate_map[OF w(5) names cons]] .
  then show "set (assignedIDsToDelete (snd e)) \<subseteq> snd ` set del" if "e \<in> set cl"
    using that w(3)[of "fst e"] map_of_mem_iff[OF w(5), of "fst e" "snd e"] by (auto simp: mget0_def)
qed

lemma desired_fresh:
  assumes "createDesiredAssignedIdentityList c pods bindings idMap = (new, refs)" "map_of new n = Some a"
  shows "fresh_assigned a"
  using assms by (rule desired_entry) (auto simp: fresh_assigned_def makeAssignedIDs_def zero_ObjectMeta_def)

text \<open>The assigned identities that the API server stores are those of the list.\<close>

definition stored_as :: "('v \<Rightarrow> api_store) \<Rightarrow> 'v CrdState \<Rightarrow> assigned_map \<Rightarrow> bool" where
  "stored_as st w cur \<longleftrightarrow> (\<forall>k n. crd_view st w (k, n) =
     (case map_of cur n of Some y \<Rightarrow> if a_Namespace y = k then Some (plain y) else None | None \<Rightarrow> None))"

lemma cycle_mirrored:
  assumes "mic_on_crd env cenv st" "api_honest cenv st" "own_finalizers st (ms_world s)" "stored_as st (ms_world s) cur"
    and "weighted_semaphore (env_Grants env)" "named cur" "\<And>n y. map_of cur n = Some y \<Longrightarrow> held_assigned y"
    and desired: "createDesiredAssignedIdentityList c pods bindings (convertIDListToMap ids) = (new, refs)"
    and names: "vmss_names_ok nc (snd (plan_lists c nc cur new refs))"
    and run: "apply_plan c env (plan_cycle c nc pods bindings ids cur) s = Some s'" "ms_calls s' = ms_calls s @ calls"
  shows "own_finalizers st (ms_world s') \<and> represents (namespace_of cur new) (crd_view st (ms_world s')) (fold apply_call calls (map_of cur))"
proof -
  obtain work m where lists: "plan_lists c nc cur new refs = (work, m)" by fastforce
  obtain m' cl where cons: "consolidateVMSSNodes nc m = (m', cl)" by fastforce
  obtain before after add del where diff: "mic_diff cur new = (before, after, add, del)" by (metis prod_cases4)
  let ?p = "plan_cycle c nc pods bindings ids cur" and ?ns = "namespace_of cur new"
  have p: "pl_nodeMap ?p = m'" "pl_cleanups ?p = cl" by (simp_all add: plan_cycle_def desired lists cons)
  have new: "named new" using desired_wf[OF desired] desired_fields[OF desired] by (auto simp: named_def)
  note wi = plan_within[OF assms(6) new diff lists names[unfolded lists snd_conv] cons]
  have fits: "a \<in> snd ` set add \<union> snd ` set after \<union> snd ` set del \<Longrightarrow> a_Namespace a = ?ns (a_Name a)"
    "a \<in> snd ` set add \<Longrightarrow> a_StatusText a = [] \<Longrightarrow> fresh_assigned a" "a \<in> snd ` set after \<Longrightarrow> held_assigned a" for a
    by (rule plan_fits[OF assms(6) new diff]; use assms(7) desired_fresh[OF desired] in blast)+
  have "mic_steps env (snd ` set add) (snd ` set after) (snd ` set del) s s'"
    by (rule apply_plan_steps[OF assms(5) run(1)]) (use wi p in auto)
  then have "mirrored ?ns st s s'" by (rule steps_mirrored[OF _ assms(1,2)]) (use fits in auto)
  then have "list_all (call_fits ?ns) calls" "own_finalizers st (ms_world s')" "crd_view st (ms_world s') = fold apply_view calls (crd_view st (ms_world s))"
    using assms(3) run(2) by (auto simp: mirrored_def)
  moreover have "represents ?ns (crd_view st (ms_world s)) (map_of cur)"
    using assms(4) by (auto simp: represents_def stored_as_def namespace_of_def split: option.splits)
  ultimately show ?thesis using represents_calls by auto
qed

text \<open>
  (C40) Outside the states Created and Assigned a cycle may leave an assigned identity behind.  One that is in state Unassigned (its identity was taken
  off the node, but the object could not be deleted), and that is desired again in the same form, stays as it is: whatever the rest of the cluster is
  and whatever the API server and the cloud answer, the calls of a whole cycle leave it in state Unassigned, so the agents do not serve it.  Scale
  sets are told apart by their names, and the semaphore is the documented one.
\<close>

theorem unassigned_stuck:
  assumes "weighted_semaphore (env_Grants env)" "named cur"
    and desired: "createDesiredAssignedIdentityList c pods bindings (convertIDListToMap ids) = (new, refs)"
    and names: "vmss_names_ok nc (snd (plan_lists c nc cur new refs))"
    and entry: "map_of cur n = Some a" "a_StatusText a = AssignedIDUnAssigned" "map_of new n = Some x" "matchAssignedID a x"
    and run: "apply_plan c env (plan_cycle c nc pods bindings ids cur) s = Some s'" "ms_calls s' = ms_calls s @ calls"
  shows "fold apply_call calls (map_of cur) n = Some a"
proof -
  obtain work m where lists: "plan_lists c nc cur new refs = (work, m)" by fastforce
  obtain m' cl where cons: "consolidateVMSSNodes nc m = (m', cl)" by fastforce
  obtain before after add del where diff: "mic_diff cur new = (before, after, add, del)" by (metis prod_cases4)
  let ?p = "plan_cycle c nc pods bindings ids cur"
  have p: "pl_nodeMap ?p = m'" "pl_cleanups ?p = cl" by (simp_all add: plan_cycle_def desired lists cons)
  have new: "named new" using desired_wf[OF desired] desired_fields[OF desired] by (auto simp: named_def)
  note wi = plan_within[OF assms(2) new diff lists names[unfolded lists snd_conv] cons]
  note dn = mic_diff_named[OF assms(2) new diff]
  have "map_of add n = None" "map_of after n = None" "map_of del n = None"
    using mic_diff_map(1,2,4)[OF namedD(2)[OF assms(2)] namedD(2)[OF new] diff, of n] entry by (simp_all add: status_defs)
  then have off: "n \<notin> a_Name ` (snd ` set add \<union> snd ` set after \<union> snd ` set del)"
    using named_names[OF dn(1), of n] named_names[OF dn(2), of n] named_names[OF dn(3), of n] by (simp add: image_Un)
  have "mic_steps env (snd ` set add) (snd ` set after) (snd ` set del) s s'"
    by (rule apply_plan_steps[OF assms(1) run(1)]) (use wi p in auto)
  from steps_elsewhere[OF this off] show ?thesis using run(2) entry(1) by auto
qed

definition left_over :: AzureAssignedIdentity where
  "left_over = with_status AssignedIDUnAssigned (snd (hd (fst sample_desired)))"

theorem unassigned_stuck_witness:
  "\<exists>s' calls. apply_plan sample_client (still_env True []) (plan_cycle sample_client sample_nodes [sample_pod]
      [sample_binding ''other'' ''b2'', sample_binding ''ns'' ''b1''] [sample_id ''ns'' ''id'', sample_id ''other'' ''id''] [(''pod-ns-id'', left_over)]) start_state = Some s' \<and>
    ms_calls s' = ms_calls start_state @ calls \<and> fold apply_call calls (map_of [(''pod-ns-id'', left_over)]) ''pod-ns-id'' = Some left_over \<and>
    a_StatusText left_over = AssignedIDUnAssigned"
proof -
  let ?p = "plan_cycle sample_client sample_nodes [sample_pod]
      [sample_binding ''other'' ''b2'', sample_binding ''ns'' ''b1''] [sample_id ''ns'' ''id'', sample_id ''other'' ''id''] [(''pod-ns-id'', left_over)]"
  define x where "x = snd (hd (fst sample_desired))"
  have x: "map_of (fst sample_desired) ''pod-ns-id'' = Some x" "a_Name x = ''pod-ns-id''"
    unfolding x_def sample_desired_eq by code_simp+
  have l: "left_over = with_status AssignedIDUnAssigned x" by (simp add: left_over_def x_def)
  have none: "snd (plan_lists sample_client sample_nodes [(''pod-ns-id'', left_over)] (fst sample_desired) (snd sample_desired)) = []"
    unfolding left_over_def sample_desired_eq by code_simp
  then have names: "vmss_names_ok sample_nodes (snd (plan_lists sample_client sample_nodes [(''pod-ns-id'', left_over)] (fst sample_desired) (snd sample_desired)))"
    by (simp add: vmss_names_ok_def)
  have nm: "named [(''pod-ns-id'', left_over)]" by (simp add: named_def l x(2))
  obtain s' calls where run: "apply_plan sample_client (still_env True []) ?p start_state = Some s'" "ms_calls s' = ms_calls start_state @ calls"
    using cycle_effect[OF still_env_semaphore sample_batch nm sample_desired_run names, of True "[]" start_state] by (auto simp: effect_def)
  have "fold apply_call calls (map_of [(''pod-ns-id'', left_over)]) ''pod-ns-id'' = Some left_over"
    by (rule unassigned_stuck[OF still_env_semaphore nm sample_desired_run names _ _ x(1) _ run]) (simp_all add: l matchAssignedID_def)
  moreover have "a_StatusText left_over = AssignedIDUnAssigned" by (simp add: l)
  ultimately show ?thesis using run by blast
qed

text \<open>
  (C4) A cycle converges on the API server.  The controller works through the client of the custom resources on any API server with the documented
  semantics of create, replace, patch, delete and finalizers.  At the start the server stores the assigned identities of the list, which carry the client's
  finalizer and are in state Created or Assigned; desired ones are on existing nodes, and scale sets are told apart by their names.  If the
  calls of the cycle succeeded, the server stores afterwards exactly one object for every desired assigned identity, which matches it and is
  in state Assigned, and no other assigned identity; foreign finalizers stay out.
\<close>

theorem api_cycle_converges:
  assumes api: "mic_on_crd env cenv st" "api_honest cenv st" "own_finalizers st (ms_world s)" "stored_as st (ms_world s) cur"
    and cluster: "weighted_semaphore (env_Grants env)" "1 \<le> mic_createDeleteBatch c"
    and cur: "named cur" "\<And>n a. map_of cur n = Some a \<Longrightarrow> held_assigned a \<and> a_StatusText a \<in> {AssignedIDCreated, AssignedIDAssigned}"
    and desired: "createDesiredAssignedIdentityList c pods bindings (convertIDListToMap ids) = (new, refs)"
    and names: "vmss_names_ok nc (snd (plan_lists c nc cur new refs))"
    and nodes: "\<And>n a. map_of new n = Some a \<Longrightarrow> \<not> node_gone nc (a_NodeName a)"
    and run: "apply_plan c env (plan_cycle c nc pods bindings ids cur) s = Some s'" "ms_calls s' = ms_calls s @ calls" "list_all call_ok calls"
  shows "own_finalizers st (ms_world s') \<and> (\<forall>n. case map_of new n of
      None \<Rightarrow> (\<forall>k. crd_view st (ms_world s') (k, n) = None)
    | Some x \<Rightarrow> (\<exists>a ns. matchAssignedID a x \<and> a_StatusText a = AssignedIDAssigned \<and>
        (\<forall>k. crd_view st (ms_world s') (k, n) = (if k = ns then Some (plain a) else None))))"
proof -
  let ?m = "fold apply_call calls (map_of cur)" and ?ns = "namespace_of cur new"
  have own: "own_finalizers st (ms_world s')" and rep: "represents ?ns (crd_view st (ms_world s')) ?m"
    using cycle_mirrored[OF api cluster(1) cur(1) _ desired names run(1,2)] cur(2) by blast+
  have "\<exists>s' calls. apply_plan c env (plan_cycle c nc pods bindings ids cur) s = Some s' \<and> ms_calls s' = ms_calls s @ calls \<and>
    (list_all call_ok calls \<longrightarrow> (\<forall>n. converged (fold apply_call calls (map_of cur) n) (map_of new n) \<and>
      spec_from (map_of cur n) (fold apply_call calls (map_of cur) n) (map_of new n)))"
    by (rule cycle_outcome[OF cluster cur(1) _ desired names]) (use cur(2) nodes in blast)+
  then have st: "converged (?m n) (map_of new n)" for n using run by auto
  have "case map_of new n of None \<Rightarrow> (\<forall>k. crd_view st (ms_world s') (k, n) = None)
    | Some x \<Rightarrow> (\<exists>a ns. matchAssignedID a x \<and> a_StatusText a = AssignedIDAssigned \<and>
        (\<forall>k. crd_view st (ms_world s') (k, n) = (if k = ns then Some (plain a) else None)))" for n
    using rep st[of n] by (auto simp: represents_def converged_def split: option.splits)
  then show ?thesis using own by blast
qed

section \<open>A cycle on the API server in memory\<close>

text \<open>One assigned identity, with the finalizer of the client, whose pod and node are gone.\<close>

definition mem_mic_env :: "mem_api CrdState mic_env" where
  "mem_mic_env =
     \<lparr>env_CreateAssignedIdentity = CreateAssignedIdentity mem_env, env_RemoveAssignedIdentity = RemoveAssignedIdentity mem_env,
      env_UpdateAssignedIdentity = UpdateAssignedIdentity mem_env, env_UpdateStatus = UpdateAzureAssignedIdentityStatus mem_env,
      env_UpdateUserMSI = (\<lambda>add remove n v w. (None, w)), env_GetUserMSIs = (\<lambda>n v w. (Inr [], w)),
      env_ListBindings = (\<lambda>w. (Inr [], w)), env_ListIds = (\<lambda>w. (Inr [], w)), env_ListAssignedIDs = (\<lambda>w. (Inr [], w)),
      env_ListAssignedIDsInMap = (\<lambda>w. (Inr [], w)), env_SyncCacheAll = (\<lambda>w. w), env_GetPods = (\<lambda>w. (Inr [], w)),
      env_NodeGet = (\<lambda>w. no_nodes), env_StatsInit = (\<lambda>w. w), env_Report = (\<lambda>ms w. w), env_Now = (\<lambda>w. (0, w)),
      env_Grants = (\<lambda>size held n. held + n \<le> size), env_Switch = (\<lambda>w running. running - 1)\<rparr>"

definition held_sample :: AzureAssignedIdentity where
  "held_sample = crd_sample\<lparr>a_ObjectMeta := (a_ObjectMeta crd_sample)\<lparr>om_Finalizers := [finalizerName]\<rparr>\<rparr>"

definition mem_held :: "mem_api CrdState MicState" where
  "mem_held = \<lparr>ms_world = crd_start\<lparr>cs_world := [((''ns'', ''a''), (ConvertInternalAssignedIdentityToV1AssignedIdentity keep_GVK held_sample, False))]\<rparr>,
     ms_stats = stats_Init, ms_calls = []\<rparr>"

lemma mem_mic_env_on_crd: "mic_on_crd mem_mic_env mem_env map_of" "weighted_semaphore (env_Grants mem_mic_env)"
  by (simp_all add: mic_on_crd_def weighted_semaphore_def mem_mic_env_def)

lemma held_sample_simps: "a_Name held_sample = ''a''" "a_Namespace held_sample = ''ns''" "held_assigned held_sample"
  "a_StatusText held_sample = AssignedIDCreated" "a_NodeName held_sample = ''node''"
  by (simp_all add: held_sample_def crd_sample_def held_assigned_def)

lemma mem_held_stored: "own_finalizers map_of (ms_world mem_held)" "stored_as map_of (ms_world mem_held) [(''a'', held_sample)]"
  using held_sample_simps(3)
  by (auto simp: own_finalizers_def stored_as_def mem_held_def crd_view_def held_sample_simps held_assigned_def)

theorem api_cycle_converges_witness:
  "\<exists>s' calls. apply_plan sample_client mem_mic_env (plan_cycle sample_client no_nodes [] [] [] [(''a'', held_sample)]) mem_held = Some s' \<and>
     ms_calls s' = ms_calls mem_held @ calls \<and> list_all call_ok calls \<and> crd_view map_of (ms_world mem_held) (''ns'', ''a'') \<noteq> None \<and>
     (\<forall>k n. crd_view map_of (ms_world s') (k, n) = None)"
proof -
  let ?p = "plan_cycle sample_client no_nodes [] [] [] [(''a'', held_sample)]"
  have "pl_nodeMap ?p = []" by code_simp
  then obtain s' where s': "apply_plan sample_client mem_mic_env ?p mem_held = Some s'"
    "s' = fold (cleanUpAllAssignedIdentitiesOnNode mem_mic_env) (pl_cleanups ?p) mem_held" by (simp add: apply_plan_def)
  have "list_all call_ok (ms_calls (fold (cleanUpAllAssignedIdentitiesOnNode mem_mic_env) (pl_cleanups ?p) mem_held))" by code_simp
  then have calls: "ms_calls s' = ms_calls mem_held @ ms_calls s'" "list_all call_ok (ms_calls s')" by (simp_all add: s'(2) mem_held_def)
  have none: "createDesiredAssignedIdentityList sample_client [] [] (convertIDListToMap []) = ([], [])" by (simp add: createDesiredAssignedIdentityList_def)
  have names: "vmss_names_ok no_nodes (snd (plan_lists sample_client no_nodes [(''a'', held_sample)] [] []))"
    unfolding vmss_names_ok_def by (simp add: node_vmss_def no_nodes_def)
  have "own_finalizers map_of (ms_world s') \<and> (\<forall>n. case map_of [] n of None \<Rightarrow> (\<forall>k. crd_view map_of (ms_world s') (k, n) = None)
    | Some x \<Rightarrow> (\<exists>a ns. matchAssignedID a x \<and> a_StatusText a = AssignedIDAssigned \<and>
        (\<forall>k. crd_view map_of (ms_world s') (k, n) = (if k = ns then Some (plain a) else None))))"
    by (rule api_cycle_converges[OF mem_mic_env_on_crd(1) mem_env_honest mem_held_stored mem_mic_env_on_crd(2) sample_batch _ _ none names _ s'(1) calls])
      (auto simp: named_def held_sample_simps split: if_splits)
  moreover have "crd_view map_of (ms_world mem_held) (''ns'', ''a'') \<noteq> None" by (simp add: crd_view_def mem_held_def)
  ultimately show ?thesis using s'(1) calls by auto
qed
end
