(* ===== verification/MicReconcile.thy ===== *)
theory MicReconcile
  imports MicSync
begin

text \<open>
  The periodic reconciliation of \<^verbatim>\<open>pkg/mic/mic.go\<close>: the difference it computes, and the calls it makes.
\<close>

section \<open>The difference\<close>

lemma diff_fold:
  assumes "wf_map desired"
  shows "map_of (fold (\<lambda>(n, ids) diff. let l = identities_to_assign current n ids in
            if length l > 0 then mput n l diff else diff) desired []) n =
    Option.bind (map_of desired n) (\<lambda>ids. let l = identities_to_assign current n ids in if l = [] then None else Some l)"
proof -
  let ?g = "\<lambda>n ids. let l = identities_to_assign current n ids in if l = [] then None else Some l"
  have "(case (n, ids) of (n, ids) \<Rightarrow> \<lambda>diff. let l = identities_to_assign current n ids in
      if length l > 0 then mput n l diff else diff) m = (case ?g n ids of None \<Rightarrow> m | Some w \<Rightarrow> mput n w m)" for n ids m
    by (simp add: Let_def)
  from fold_keyed(2)[of "\<lambda>(n, ids) diff. let l = identities_to_assign current n ids in
      if length l > 0 then mput n l diff else diff" ?g, OF this assms, of "[]" n]
  show ?thesis by simp
qed

text \<open>
  \<^verbatim>\<open>generateIdentityAssignmentDiff\<close> is exact: it names a node only if something is missing there, and the
  identities to assign are exactly those desired on the node and not recorded as present.
\<close>

theorem generateIdentityAssignmentDiff_exact:
  assumes "wf_map desired"
  shows "map_of (generateIdentityAssignmentDiff current desired) n \<noteq> Some [] \<and>
    (i \<in> set (mget0 [] (generateIdentityAssignmentDiff current desired) n) \<longleftrightarrow>
       (\<exists>ids. map_of desired n = Some ids \<and> i \<in> fst ` set ids) \<and> \<not> mget0 False (mget0 [] current n) i)"
proof -
  have mem: "i \<in> set (identities_to_assign current n ids) \<longleftrightarrow> i \<in> fst ` set ids \<and> \<not> mget0 False (mget0 [] current n) i" for ids
    by (auto simp: identities_to_assign_def mget0_def split: option.splits)
  show ?thesis
    unfolding generateIdentityAssignmentDiff_def mget0_def[of "[]" "fold _ _ _"] diff_fold[OF assms]
  proof (cases "map_of desired n")
    case (Some ids)
    then show "Option.bind (map_of desired n) (\<lambda>ids. let l = identities_to_assign current n ids in if l = [] then None else Some l) \<noteq> Some [] \<and>
      (i \<in> set (case Option.bind (map_of desired n) (\<lambda>ids. let l = identities_to_assign current n ids in if l = [] then None else Some l) of
          None \<Rightarrow> [] | Some v \<Rightarrow> v) \<longleftrightarrow>
       (\<exists>ids. map_of desired n = Some ids \<and> i \<in> fst ` set ids) \<and> \<not> mget0 False (mget0 [] current n) i)"
      using mem[of ids] by (auto simp: Let_def)
  qed simp
qed

theorem generateIdentityAssignmentDiff_exact_witness:
  "mget0 [] (generateIdentityAssignmentDiff [(''n'', [(''a'', True)])] [(''n'', [(''a'', True), (''b'', True)]), (''m'', [(''c'', True)])]) ''n'' = [''b''] \<and>
   (''b'' \<in> set (mget0 [] (generateIdentityAssignmentDiff [(''n'', [(''a'', True)])]
      [(''n'', [(''a'', True), (''b'', True)]), (''m'', [(''c'', True)])]) ''n''))"
proof -
  have wf: "wf_map [(''n'', [(''a'', True), (''b'', True)]), (''m'', [(''c'', True)])]" by simp
  show ?thesis
    using generateIdentityAssignmentDiff_exact[OF wf, of "[(''n'', [(''a'', True)])]" "''n''" "''b''"]
    by (simp add: mget0_def generateIdentityAssignmentDiff_def identities_to_assign_def)
qed

section \<open>The calls\<close>

text \<open>An assigned identity that asks for an identity on a node or scale set.\<close>

definition wants :: "'w mic_env \<Rightarrow> AzureAssignedIdentity list \<Rightarrow> string \<Rightarrow> string \<Rightarrow> bool" where
  "wants env as n i \<longleftrightarrow>
     (\<exists>a \<in> set as. a_StatusText a = AssignedIDAssigned \<and> id_Type (a_Identity a) = UserAssignedMSI \<and>
        id_ResourceID (a_Identity a) = i \<and> (\<exists>w v. node_metadata (env_NodeGet env w) (a_NodeName a) = Inr (n, v)))"

definition assignment_inv ::
  "'w mic_env \<Rightarrow> AzureAssignedIdentity list \<Rightarrow> mic_call list \<Rightarrow> assignment_state \<Rightarrow> bool" where
  "assignment_inv env as calls st \<longleftrightarrow>
     (\<forall>k m. map_of (as_cache st) k = Some m \<longrightarrow> (\<exists>w. node_metadata (env_NodeGet env w) k = Inr m)) \<and>
     wf_map (as_desired st) \<and>
     (\<forall>n ids i. map_of (as_desired st) n = Some ids \<longrightarrow> i \<in> fst ` set ids \<longrightarrow> wants env as n i) \<and>
     (\<forall>n m. map_of (as_current st) n = Some m \<longrightarrow>
        (\<exists>v l. CallGetUserMSIs n v (Some l) \<in> set calls \<and> (\<forall>i \<in> set l. mget0 False m i))) \<and>
     fst ` set (as_desired st) \<subseteq> fst ` set (as_current st)"

lemma assignment_invD:
  assumes "assignment_inv env as calls st"
  shows "map_of (as_cache st) k = Some m \<Longrightarrow> \<exists>w. node_metadata (env_NodeGet env w) k = Inr m"
    and "wf_map (as_desired st)"
    and "map_of (as_desired st) n = Some ids \<Longrightarrow> i \<in> fst ` set ids \<Longrightarrow> wants env as n i"
    and "map_of (as_current st) n = Some cur \<Longrightarrow>
      \<exists>v l. CallGetUserMSIs n v (Some l) \<in> set calls \<and> (\<forall>i \<in> set l. mget0 False cur i)"
    and "fst ` set (as_desired st) \<subseteq> fst ` set (as_current st)"
  using assms unfolding assignment_inv_def by blast+

lemma wants_mono: "wants env as n i \<Longrightarrow> set as \<subseteq> set bs \<Longrightarrow> wants env bs n i"
  by (auto simp: wants_def)

lemma present_fold: "i \<in> set l \<Longrightarrow> mget0 False (fold (\<lambda>i m. mput i True m) l m) i"
proof (induction l arbitrary: m)
  case (Cons x l)
  have keep: "mget0 False m i \<Longrightarrow> mget0 False (fold (\<lambda>i m. mput i True m) l m) i" for m
    by (induction l arbitrary: m) auto
  show ?case using Cons keep[of "mput x True m"] by auto
qed simp

fun is_read :: "mic_call \<Rightarrow> bool" where
  "is_read (CallGetUserMSIs _ _ _) = True"
| "is_read _ = False"

lemma assignment_step_inv:
  assumes inv: "assignment_inv env as calls st" and step: "assignment_step env a st s = (Inr st', s')"
  shows "\<exists>xs. ms_calls s' = ms_calls s @ xs \<and> assignment_inv env (a # as) (calls @ xs) st'"
proof -
  let ?meta = "case map_of (as_cache st) (a_NodeName a) of
      Some m \<Rightarrow> Inr m | None \<Rightarrow> node_metadata (env_NodeGet env (ms_world s)) (a_NodeName a)"
  obtain n v where meta: "?meta = Inr (n, v)"
    using step by (cases ?meta) (auto simp: assignment_step_def)
  then have known: "\<exists>w. node_metadata (env_NodeGet env w) (a_NodeName a) = Inr (n, v)"
    using inv unfolding assignment_inv_def by (auto split: option.splits)
  define d where "d = (if a_StatusText a = AssignedIDAssigned \<and> id_Type (a_Identity a) = UserAssignedMSI
     then mput n (mput (id_ResourceID (a_Identity a)) True (mget0 [] (as_desired st) n)) (as_desired st) else as_desired st)"
  define st1 where "st1 = st\<lparr>as_cache := mput (a_NodeName a) (n, v) (as_cache st), as_isVMSS := mput n v (as_isVMSS st), as_desired := d\<rparr>"
  have eq: "assignment_step env a st s = (case map_of (as_current st1) n of
      Some _ \<Rightarrow> (Inr st1, s)
    | None \<Rightarrow> (case getUserMSIListForNode env n v s of
         (Inl err, s) \<Rightarrow> (Inl (''failed to get a list of user-assigned identites from node '' @ n @ '', error: '' @ err), s)
       | (Inr idList, s) \<Rightarrow> (Inr (st1\<lparr>as_current := mput n (fold (\<lambda>i m. mput i True m) idList []) (as_current st1)\<rparr>), s)))"
    unfolding assignment_step_def meta by (auto simp: st1_def d_def Let_def split: sum.splits prod.splits option.splits)
  have cache: "\<exists>w. node_metadata (env_NodeGet env w) k = Inr m" if "map_of (as_cache st1) k = Some m" for k m
    using that known assignment_invD(1)[OF inv, of k m] by (auto simp: st1_def split: if_splits)
  have d_wf: "wf_map d" using inv unfolding assignment_inv_def d_def by auto
  have old: "wants env as n' i" if "i \<in> fst ` set (mget0 [] (as_desired st) n')" for n' i
    using that assignment_invD(3)[OF inv, of n' _ i] by (cases "map_of (as_desired st) n'") (simp_all add: mget0_def)
  have new: "wants env (a # as) n (id_ResourceID (a_Identity a))"
    if "a_StatusText a = AssignedIDAssigned" "id_Type (a_Identity a) = UserAssignedMSI"
    using that known by (auto simp: wants_def)
  have d_wants: "wants env (a # as) n' i" if "map_of d n' = Some ids" "i \<in> fst ` set ids" for n' ids i
  proof (cases "a_StatusText a = AssignedIDAssigned \<and> id_Type (a_Identity a) = UserAssignedMSI \<and> n' = n")
    case True
    then have "ids = mput (id_ResourceID (a_Identity a)) True (mget0 [] (as_desired st) n)"
      using that(1) by (simp add: d_def)
    then have "i = id_ResourceID (a_Identity a) \<or> i \<in> fst ` set (mget0 [] (as_desired st) n)"
      using that(2) keys_mput[of "id_ResourceID (a_Identity a)" True "mget0 [] (as_desired st) n"] by auto
    then show ?thesis using True new old[of i n] wants_mono[of env as n i "a # as"] by auto
  next
    case False
    then have "map_of (as_desired st) n' = Some ids" using that(1) by (auto simp: d_def split: if_splits)
    then have "wants env as n' i" using assignment_invD(3)[OF inv] that(2) by blast
    then show ?thesis by (rule wants_mono) auto
  qed
  have d_keys: "fst ` set d \<subseteq> insert n (fst ` set (as_current st))"
    using inv unfolding assignment_inv_def d_def by auto
  show ?thesis
  proof (cases "map_of (as_current st1) n")
    case (Some m)
    then have "st' = st1" "s' = s" using step eq by auto
    moreover have "n \<in> fst ` set (as_current st)" using Some by (simp add: st1_def) (metis map_of_SomeD fst_conv image_eqI)
    ultimately have "assignment_inv env (a # as) calls st'"
      using assignment_invD(4)[OF inv] cache d_wf d_wants d_keys unfolding assignment_inv_def
      by (simp add: st1_def insert_absorb)
    then show ?thesis using \<open>s' = s\<close> by (intro exI[of _ "[]"]) simp
  next
    case None
    then obtain idList where g: "getUserMSIListForNode env n v s = (Inr idList, s')"
      and st': "st' = st1\<lparr>as_current := mput n (fold (\<lambda>i m. mput i True m) idList []) (as_current st1)\<rparr>"
      using step eq by (auto split: prod.splits sum.splits)
    let ?x = "CallGetUserMSIs n v (Some idList)"
    have cur: "\<exists>v l. CallGetUserMSIs n' v (Some l) \<in> set (calls @ [?x]) \<and> (\<forall>i \<in> set l. mget0 False m i)"
      if "map_of (as_current st') n' = Some m" for n' m
      using that assignment_invD(4)[OF inv, of n' m] present_fold[of _ idList "[]"]
      by (cases "n' = n") (auto simp: st' st1_def)
    have "assignment_inv env (a # as) (calls @ [?x]) st'"
      using cache d_wf d_wants d_keys cur unfolding assignment_inv_def by (simp add: st' st1_def)
    then show ?thesis using call_eqs(6)[OF g] by (intro exI[of _ "[?x]"]) simp
  qed
qed

lemma assignment_loop_inv:
  assumes "assignment_inv env seen calls st" "assignment_loop env as st s = (Inr st', s')"
  shows "\<exists>xs. ms_calls s' = ms_calls s @ xs \<and> assignment_inv env (rev as @ seen) (calls @ xs) st'"
  using assms
proof (induction as arbitrary: seen st s calls)
  case (Cons a as)
  obtain st1 s1 where step: "assignment_step env a st s = (Inr st1, s1)" "assignment_loop env as st1 s1 = (Inr st', s')"
    using Cons.prems(2) by (auto split: prod.splits sum.splits)
  obtain xs where xs: "ms_calls s1 = ms_calls s @ xs" "assignment_inv env (a # seen) (calls @ xs) st1"
    using assignment_step_inv[OF Cons.prems(1) step(1)] by blast
  obtain ys where "ms_calls s' = ms_calls s1 @ ys" "assignment_inv env (rev as @ a # seen) ((calls @ xs) @ ys) st'"
    using Cons.IH[OF xs(2) step(2)] by blast
  then show ?case using xs(1) by (intro exI[of _ "xs @ ys"]) simp
qed (auto intro: exI[of _ "[]"])

lemma assignment_step_reads: "makes is_read s (snd (assignment_step env a st s))"
  by (auto simp: assignment_step_def makes_def Let_def split: sum.splits prod.splits option.splits if_splits dest!: call_eqs(6))

lemma assignment_loop_reads: "makes is_read s (snd (assignment_loop env as st s))"
proof (induction as arbitrary: st s)
  case (Cons a as)
  obtain r s1 where step: "assignment_step env a st s = (r, s1)" by fastforce
  then have "makes is_read s s1" using assignment_step_reads[of s env a st] by simp
  then show ?case using Cons.IH[of s1] step by (cases r) (auto intro: makes_trans)
qed (simp add: makes_refl)

text \<open>What a reconciliation may ask of the cloud, given the calls it makes.\<close>

fun reconcile_call :: "'w mic_env \<Rightarrow> AzureAssignedIdentity list \<Rightarrow> mic_call list \<Rightarrow> mic_call \<Rightarrow> bool" where
  "reconcile_call env as calls (CallUpdateUserMSI add remove n _ _) =
     (remove = [] \<and> add \<noteq> [] \<and>
      (\<exists>v l. CallGetUserMSIs n v (Some l) \<in> set calls \<and> (\<forall>i \<in> set add. wants env as n i \<and> i \<notin> set l)))"
| "reconcile_call env as calls (CallGetUserMSIs _ _ _) = True"
| "reconcile_call env as calls _ = False"

lemma reconcile_fold:
  assumes "\<And>n ids. (n, ids) \<in> set diff \<Longrightarrow> ids \<noteq> [] \<and>
      (\<exists>v l. CallGetUserMSIs n v (Some l) \<in> set calls \<and> (\<forall>i \<in> set ids. wants env as n i \<and> i \<notin> set l))"
  shows "makes (reconcile_call env as calls) s (fold (reconcile_step env vm) diff s)"
proof (rule makes_fold)
  fix e s assume e: "e \<in> set diff"
  obtain n ids where n: "e = (n, ids)" by fastforce
  obtain r s1 where u: "cloud_UpdateUserMSI env ids [] n (mget0 False vm n) s = (r, s1)" by fastforce
  show "makes (reconcile_call env as calls) s (reconcile_step env vm e s)"
    using assms[of n ids] e n u call_eqs(5)[OF u] by (auto simp: reconcile_step_def makes_def)
qed

lemma reconcile_call_mono:
  "reconcile_call env as calls x \<Longrightarrow> set calls \<subseteq> set calls' \<Longrightarrow> reconcile_call env as calls' x"
  by (cases x) (simp_all, blast)

lemma diff_wf: "wf_map (generateIdentityAssignmentDiff current desired)"
proof -
  let ?f = "\<lambda>(n, ids) diff. let l = identities_to_assign current n ids in if length l > 0 then mput n l diff else diff"
  have step: "wf_map (?f e m)" if "wf_map m" for e and m :: "(string, string list) gomap"
    using that by (cases e) (simp only: prod.case Let_def, simp)
  have "wf_map (fold ?f xs m)" if "wf_map m" for xs m
    using that
  proof (induction xs arbitrary: m)
    case (Cons e xs)
    show ?case unfolding fold_Cons comp_apply by (rule Cons.IH[OF step[OF Cons.prems]])
  qed simp
  moreover have "wf_map ([] :: (string, string list) gomap)" by simp
  ultimately show ?thesis unfolding generateIdentityAssignmentDiff_def .
qed

lemma diff_wanted:
  assumes inv: "assignment_inv env (rev as) calls st"
    and mem: "(n, ids) \<in> set (generateIdentityAssignmentDiff (as_current st) (as_desired st))"
  shows "ids \<noteq> [] \<and> (\<exists>v l. CallGetUserMSIs n v (Some l) \<in> set calls \<and> (\<forall>i \<in> set ids. wants env as n i \<and> i \<notin> set l))"
proof -
  have look: "map_of (generateIdentityAssignmentDiff (as_current st) (as_desired st)) n = Some ids"
    using mem map_of_mem_iff[OF diff_wf] by blast
  then obtain want where want: "map_of (as_desired st) n = Some want" "ids = identities_to_assign (as_current st) n want" "ids \<noteq> []"
    unfolding generateIdentityAssignmentDiff_def diff_fold[OF assignment_invD(2)[OF inv]]
    by (auto simp: bind_eq_Some_conv Let_def split: if_splits)
  have "n \<in> fst ` set (as_desired st)" using map_of_SomeD[OF want(1)] by force
  then have "n \<in> fst ` set (as_current st)" using assignment_invD(5)[OF inv] by (rule rev_subsetD)
  then obtain cur where cur: "map_of (as_current st) n = Some cur"
    using map_of_None_iff[of "as_current st" n] by (cases "map_of (as_current st) n") auto
  obtain v l where l: "CallGetUserMSIs n v (Some l) \<in> set calls" "\<forall>i \<in> set l. mget0 False cur i"
    using assignment_invD(4)[OF inv cur] by blast
  have "wants env as n i \<and> i \<notin> set l" if "i \<in> set ids" for i
  proof -
    have "i \<in> fst ` set want" "\<not> mget0 False cur i"
      using that want(2) cur by (auto simp: identities_to_assign_def)
    then show ?thesis using assignment_invD(3)[OF inv want(1), of i] l(2) wants_mono[of env "rev as" n i as] by auto
  qed
  then show ?thesis using want(3) l(1) by blast
qed

text \<open>
  (C33) The reconciliation only adds: whatever the cluster and the cloud answer, it never asks to remove an
  identity, and it asks to assign one on a node or scale set only if a listed assigned identity in state
  Assigned wants it there and the cloud has just reported that it is missing there.
\<close>

theorem reconcile_only_adds:
  "\<exists>calls. ms_calls (reconcileIdentityAssignment env s) = ms_calls s @ calls \<and>
     (case fst (env_ListAssignedIDs env (ms_world s)) of
        Inl _ \<Rightarrow> calls = []
      | Inr as \<Rightarrow> list_all (reconcile_call env as calls) calls)"
proof -
  obtain r w where ls: "env_ListAssignedIDs env (ms_world s) = (r, w)" by fastforce
  show ?thesis
  proof (cases r)
    case (Inl err)
    then show ?thesis using ls
      by (simp add: reconcileIdentityAssignment_def generateIdentityAssignmentState_def mic_call_env_def)
  next
    case (Inr as)
    let ?st = "\<lparr>as_cache = [], as_current = [], as_desired = [], as_isVMSS = []\<rparr>"
    obtain q s1 where loop: "assignment_loop env as ?st (s\<lparr>ms_world := w\<rparr>) = (q, s1)" by fastforce
    obtain reads where reads: "ms_calls s1 = ms_calls s @ reads" "list_all is_read reads"
      using assignment_loop_reads[of "s\<lparr>ms_world := w\<rparr>" env as ?st] loop by (auto simp: makes_def)
    have read_ok: "list_all (reconcile_call env as reads) reads"
      using reads(2) by (auto simp: list_all_iff elim!: is_read.elims)
    show ?thesis
    proof (cases q)
      case (Inl err)
      then show ?thesis using ls Inr loop reads read_ok
        by (simp add: reconcileIdentityAssignment_def generateIdentityAssignmentState_def mic_call_env_def)
    next
      case (Inr st)
      have "assignment_inv env [] [] ?st" by (simp add: assignment_inv_def)
      from assignment_loop_inv[OF this loop[unfolded Inr]] have inv: "assignment_inv env (rev as) reads st"
        using reads(1) by auto
      let ?diff = "generateIdentityAssignmentDiff (as_current st) (as_desired st)"
      have "ids \<noteq> [] \<and> (\<exists>v l. CallGetUserMSIs n v (Some l) \<in> set reads \<and> (\<forall>i \<in> set ids. wants env as n i \<and> i \<notin> set l))"
        if "(n, ids) \<in> set ?diff" for n ids
        using that by (rule diff_wanted[OF inv])
      then have "makes (reconcile_call env as reads) s1 (fold (reconcile_step env (as_isVMSS st)) ?diff s1)"
        by (rule reconcile_fold)
      then obtain ups where ups: "ms_calls (fold (reconcile_step env (as_isVMSS st)) ?diff s1) = ms_calls s1 @ ups"
        "list_all (reconcile_call env as reads) ups" by (auto simp: makes_def)
      have "list_all (reconcile_call env as (reads @ ups)) (reads @ ups)"
        using read_ok ups(2) reconcile_call_mono[of env as reads _ "reads @ ups"] by (auto simp: list_all_iff)
      then show ?thesis using ls \<open>r = Inr as\<close> loop Inr reads(1) ups(1)
        by (simp add: reconcileIdentityAssignment_def generateIdentityAssignmentState_def mic_call_env_def)
    qed
  qed
qed

end
