(* ===== verification/CrdClient.thy ===== *)
theory CrdClient
  imports CrdStore
begin

text \<open>
  The rest of \<^verbatim>\<open>pkg/crd/crd.go\<close>: the type upgrade, and the properties of the reading operations.
\<close>

section \<open>Type upgrade\<close>

definition getObjectList :: "'w CrdEnv \<Rightarrow> string \<Rightarrow> string \<Rightarrow> 'w \<Rightarrow> (string, v1Object list) result \<times> 'w" where
  "getObjectList env resource listType w =
     (case ce_GetRaw env resource w of
        (Inl err, w) \<Rightarrow> (Inl (''failed to get '' @ resource @ '', error: '' @ ae_Error err), w)
      | (Inr body, w) \<Rightarrow>
          (case ce_Unmarshal env listType body of
             Inl err \<Rightarrow> (Inl (''failed to unmarshal to object *v1.'' @ listType @ '', error: '' @ err), w)
           | Inr items \<Rightarrow> (Inr items, w)))"

text \<open>\<^verbatim>\<open>setObject\<close> with the PUT request for the type of its result.\<close>

definition setObject ::
  "(string \<Rightarrow> string \<Rightarrow> string \<Rightarrow> v1Object \<Rightarrow> 'w \<Rightarrow> (api_error, 'o) result \<times> 'w) \<Rightarrow> string \<Rightarrow> string \<Rightarrow> string \<Rightarrow> v1Object \<Rightarrow>
   'w \<Rightarrow> (string, 'o) result \<times> 'w" where
  "setObject put resource ns name i w =
     (case put resource ns name i w of
        (Inl err, w) \<Rightarrow> (Inl (''failed to set object for resource '' @ resource @ '', error: '' @ ae_Error err), w)
      | (Inr obj, w) \<Rightarrow> (Inr obj, w))"

definition upgraded_type :: "string \<Rightarrow> TypeMeta" where
  "upgraded_type listType = \<lparr>tm_Kind = listType, tm_APIVersion = CRDGroup @ ''/'' @ CRDVersion\<rparr>"

definition upgrade_item ::
  "'w CrdEnv \<Rightarrow> string \<Rightarrow> string \<Rightarrow> v1Object \<Rightarrow> (string, v1Object) gomap \<Rightarrow> 'w \<Rightarrow> (string option \<times> (string, v1Object) gomap) \<times> 'w" where
  "upgrade_item env resource listType item m w =
     (let ns = om_Namespace (obj_meta item); name = om_Name (obj_meta item) in
      if resource = AzureIDResource then
        (case setObject (ce_PutIdentity env) resource ns name item w of
           (Inl err, w) \<Rightarrow> ((Some err, m), w)
         | (Inr obj, w) \<Rightarrow>
             ((None, mput (getMapKey ns name) (ObjIdentity (obj\<lparr>v1id_TypeMeta := upgraded_type listType\<rparr>)) m), w))
      else if resource = AzureIDBindingResource then
        (case setObject (ce_PutBinding env) resource ns name item w of
           (Inl err, w) \<Rightarrow> ((Some err, m), w)
         | (Inr obj, w) \<Rightarrow>
             ((None, mput (getMapKey ns name) (ObjBinding (obj\<lparr>v1b_TypeMeta := upgraded_type listType\<rparr>)) m), w))
      else
        (case setObject (ce_Put env) resource ns name item w of
           (Inl err, w) \<Rightarrow> ((Some err, m), w)
         | (Inr _, w) \<Rightarrow> ((None, m), w)))"

fun upgrade_loop ::
  "'w CrdEnv \<Rightarrow> string \<Rightarrow> string \<Rightarrow> v1Object list \<Rightarrow> (string, v1Object) gomap \<Rightarrow> 'w \<Rightarrow> (string option \<times> (string, v1Object) gomap) \<times> 'w" where
  "upgrade_loop env resource listType [] m w = ((None, m), w)"
| "upgrade_loop env resource listType (item # items) m w =
     (case ce_Accessor env item of
        Some err \<Rightarrow> ((Some (''failed to get object for resource '' @ resource @ '', error: '' @ err), m), w)
      | None \<Rightarrow>
          (case upgrade_item env resource listType item m w of
             ((Some err, m), w) \<Rightarrow> ((Some err, m), w)
           | ((None, m), w) \<Rightarrow> upgrade_loop env resource listType items m w))"

definition Upgrade :: "'w CrdEnv \<Rightarrow> string \<Rightarrow> string \<Rightarrow> 'w \<Rightarrow> (string option \<times> (string, v1Object) gomap) \<times> 'w" where
  "Upgrade env resource listType w =
     (case getObjectList env resource listType w of
        (Inl err, w) \<Rightarrow> ((Some err, []), w)
      | (Inr i, w) \<Rightarrow>
          (case ce_ExtractList env i of
             Inl err \<Rightarrow> ((Some (''failed to extract list for resource '' @ resource @ '', error: '' @ err), []), w)
           | Inr items \<Rightarrow> upgrade_loop env resource listType items [] w))"

text \<open>The references of an assigned identity, replaced by the upgraded objects with their keys.\<close>

definition upgraded_refs ::
  "(string, v1Object) gomap \<Rightarrow> (string, v1Object) gomap \<Rightarrow> v1AzureAssignedIdentity \<Rightarrow> v1AzureAssignedIdentity outcome" where
  "upgraded_refs ids bindings obj =
     (case (v1as_AzureIdentityRef (v1a_Spec obj), v1as_AzureBindingRef (v1a_Spec obj)) of
        (Some i, Some b) \<Rightarrow>
          (let idKey = getMapKey (om_Namespace (v1id_ObjectMeta i)) (om_Name (v1id_ObjectMeta i));
               bindingKey = getMapKey (om_Namespace (v1b_ObjectMeta b)) (om_Name (v1b_ObjectMeta b)) in
           case (case map_of ids idKey of
                   None \<Rightarrow> Returned i
                 | Some (ObjIdentity v) \<Rightarrow> Returned v
                 | Some x \<Rightarrow> Panicked (conversion_panic (obj_type x) ''*v1.AzureIdentity'')) of
             Panicked t \<Rightarrow> Panicked t
           | Returned i' \<Rightarrow>
               (case (case map_of bindings bindingKey of
                        None \<Rightarrow> Returned b
                      | Some (ObjBinding v) \<Rightarrow> Returned v
                      | Some x \<Rightarrow> Panicked (conversion_panic (obj_type x) ''*v1.AzureIdentityBinding'')) of
                  Panicked t \<Rightarrow> Panicked t
                | Returned b' \<Rightarrow> Returned (obj\<lparr>v1a_Spec := (v1a_Spec obj)\<lparr>v1as_AzureIdentityRef := Some i', v1as_AzureBindingRef := Some b'\<rparr>\<rparr>)))
      | _ \<Rightarrow> Panicked nil_dereference)"

fun upgrade_assigned ::
  "'w CrdEnv \<Rightarrow> (string, v1Object) gomap \<Rightarrow> (string, v1Object) gomap \<Rightarrow> v1Object list \<Rightarrow> 'w \<Rightarrow> string option outcome \<times> 'w" where
  "upgrade_assigned env ids bindings [] w = (Returned None, w)"
| "upgrade_assigned env ids bindings (item # items) w =
     (case ce_Accessor env item of
        Some err \<Rightarrow>
          (Returned (Some (''failed to get object for resource: '' @ AzureAssignedIDResource @ '', error: '' @ err)), w)
      | None \<Rightarrow>
          (case item of
             ObjAssigned obj \<Rightarrow>
               (case upgraded_refs ids bindings obj of
                  Panicked t \<Rightarrow> (Panicked t, w)
                | Returned obj \<Rightarrow>
                    (case setObject (ce_Put env) AzureAssignedIDResource (om_Namespace (obj_meta item)) (om_Name (obj_meta item))
                            (ObjAssigned obj) w of
                       (Inl err, w) \<Rightarrow> (Returned (Some err), w)
                     | (Inr _, w) \<Rightarrow> upgrade_assigned env ids bindings items w))
           | _ \<Rightarrow> (Panicked (conversion_panic (obj_type item) ''*v1.AzureAssignedIdentity''), w)))"

definition UpgradeAll :: "'w CrdEnv \<Rightarrow> 'w \<Rightarrow> string option outcome \<times> 'w" where
  "UpgradeAll env w =
     (case Upgrade env AzureIDResource ''AzureIdentityList'' w of
        ((Some err, _), w) \<Rightarrow> (Returned (Some err), w)
      | ((None, ids), w) \<Rightarrow>
     (case Upgrade env AzureIDBindingResource ''AzureIdentityBindingList'' w of
        ((Some err, _), w) \<Rightarrow> (Returned (Some err), w)
      | ((None, bindings), w) \<Rightarrow>
     (case Upgrade env AzurePodIdentityExceptionResource ''AzurePodIdentityExceptionList'' w of
        ((Some err, _), w) \<Rightarrow> (Returned (Some err), w)
      | ((None, _), w) \<Rightarrow>
     (case getObjectList env AzureAssignedIDResource ''AzureAssignedIdentityList'' w of
        (Inl err, w) \<Rightarrow> (Returned (Some err), w)
      | (Inr i, w) \<Rightarrow>
          (case ce_ExtractList env i of
             Inl err \<Rightarrow>
               (Returned (Some (''failed to extract list for resource: '' @ AzureAssignedIDResource @ '', error: '' @ err)), w)
           | Inr items \<Rightarrow> upgrade_assigned env ids bindings items w)))))"

section \<open>Properties\<close>

text \<open>
  The identities of a pod.  When the cache of assigned identities holds assigned identities only, \<^verbatim>\<open>ListPodIds\<close>
  succeeds, and under every state it returns exactly the identities of the assigned identities of this pod, by
  name and namespace, in this state, in the order of the cache.  No identity of another pod is in it.
\<close>

theorem ListPodIds_exact:
  assumes "crd_AssignedIDInformer (cs_client s) = Some informer" "inf_Store informer = map ObjAssigned as"
  shows "\<exists>m s'. ListPodIds env podns podname s = (Returned (Inr m), s') \<and>
    (\<forall>st. mget0 [] m st = map a_Identity (filter (\<lambda>v. a_Pod v = podname \<and> a_PodNamespace v = podns \<and> a_StatusText v = st)
       (map (listed_assigned (ce_SetGVK env)) as)))"
proof -
  obtain s' where "ListAssignedIDs env s = (Returned (Inr (map (listed_assigned (ce_SetGVK env)) as)), s')"
    using lists_all(1)[OF assms] by blast
  then show ?thesis
    using add_pod_id_fold[of podns podname "map (listed_assigned (ce_SetGVK env)) as" "[]"] by (simp add: ListPodIds_def mget0_def)
qed

definition assigned_cache :: "v1AzureAssignedIdentity list \<Rightarrow> mem_api CrdState" where
  "assigned_cache as = crd_start\<lparr>cs_client := no_informers\<lparr>crd_AssignedIDInformer :=
     Some (newAssignedIDInformer newAssignedIDListWatch\<lparr>inf_Store := map ObjAssigned as\<rparr>)\<rparr>\<rparr>"

definition v1_sample :: v1AzureAssignedIdentity where
  "v1_sample = ConvertInternalAssignedIdentityToV1AssignedIdentity keep_GVK crd_sample"

theorem ListPodIds_exact_witness:
  "\<exists>m s'. ListPodIds mem_env ''ns'' ''pod'' (assigned_cache [v1_sample]) = (Returned (Inr m), s') \<and>
    length (mget0 [] m AssignedIDCreated) = 1 \<and> mget0 [] m AssignedIDAssigned = []"
proof -
  obtain m s' where m: "ListPodIds mem_env ''ns'' ''pod'' (assigned_cache [v1_sample]) = (Returned (Inr m), s')"
    "\<forall>st. mget0 [] m st = map a_Identity (filter (\<lambda>v. a_Pod v = ''pod'' \<and> a_PodNamespace v = ''ns'' \<and> a_StatusText v = st)
       (map (listed_assigned (ce_SetGVK mem_env)) [v1_sample]))"
    using ListPodIds_exact[of "assigned_cache [v1_sample]" _ "[v1_sample]" mem_env "''ns''" "''pod''"]
    by (auto simp: assigned_cache_def)
  have v: "a_Pod (listed_assigned g v1_sample) = ''pod''" "a_PodNamespace (listed_assigned g v1_sample) = ''ns''"
    "a_StatusText (listed_assigned g v1_sample) = AssignedIDCreated" for g
    by (simp_all add: listed_assigned_def v1_sample_def conversion_defs crd_sample_def Let_def)
  show ?thesis using m v by (simp add: status_defs)
qed

text \<open>
  The identities bound to a pod (managed mode).  When the caches hold bindings and identities only,
  \<^verbatim>\<open>GetPodIDsWithBinding\<close> succeeds, and returns exactly the cached identities of the pod's namespace that a
  binding of the same namespace names whose selector is the pod's \<^verbatim>\<open>aadpodidbinding\<close> label.
\<close>

theorem GetPodIDsWithBinding_exact:
  assumes "crd_BindingInformer (cs_client s) = Some bi" "inf_Store bi = map ObjBinding bs"
    and "crd_IDInformer (cs_client s) = Some ii" "inf_Store ii = map ObjIdentity is"
  shows "\<exists>l s'. GetPodIDsWithBinding env namespace labels s = (Returned (Inr l), s') \<and>
    set l = {i \<in> listed_identity (ce_SetGVK env) ` set is. id_Namespace i = namespace \<and>
      (\<exists>b \<in> set bs. v1bs_Selector (v1b_Spec b) = mget0 [] labels CRDLabelKey \<and> om_Namespace (v1b_ObjectMeta b) = namespace \<and>
        v1bs_AzureIdentity (v1b_Spec b) = id_Name i)}"
proof -
  obtain s1 where s1: "ListBindings env s = (Returned (Inr (map (listed_binding (ce_SetGVK env)) bs)), s1)"
    "crd_IDInformer (cs_client s1) = crd_IDInformer (cs_client s)"
    using lists_all(3)[OF assms(1,2)] by blast
  obtain s2 where s2: "ListIds env s1 = (Returned (Inr (map (listed_identity (ce_SetGVK env)) is)), s2)"
    using lists_all(2)[of s1 ii "is"] assms(3,4) s1(2) by auto
  have sel: "map_of (matching_ids namespace lbl (map (listed_binding g) bs)) n \<noteq> None \<longleftrightarrow>
      (\<exists>b \<in> set bs. v1bs_Selector (v1b_Spec b) = lbl \<and> om_Namespace (v1b_ObjectMeta b) = namespace \<and> v1bs_AzureIdentity (v1b_Spec b) = n)"
    for lbl n g unfolding matching_ids_iff by (simp add: listed_binding_def conversion_defs)
  show ?thesis by (simp only: GetPodIDsWithBinding_def s1(1) s2 Let_def prod.case outcome.case sum.case sel) auto
qed

definition bound_cache :: "v1AzureIdentityBinding list \<Rightarrow> v1AzureIdentity list \<Rightarrow> mem_api CrdState" where
  "bound_cache bs is = crd_start\<lparr>cs_client := no_informers\<lparr>
     crd_BindingInformer := Some (newBindingInformerLite newBindingListWatch\<lparr>inf_Store := map ObjBinding bs\<rparr>),
     crd_IDInformer := Some (newIDInformerLite newIDListWatch\<lparr>inf_Store := map ObjIdentity is\<rparr>)\<rparr>\<rparr>"

definition v1_identity_sample :: "string \<Rightarrow> v1AzureIdentity" where
  "v1_identity_sample ns = ConvertInternalIdentityToV1Identity keep_GVK
     (zero_AzureIdentity\<lparr>id_ObjectMeta := zero_ObjectMeta\<lparr>om_Name := ''id'', om_Namespace := ns\<rparr>\<rparr>)"

definition v1_binding_sample :: v1AzureIdentityBinding where
  "v1_binding_sample = ConvertInternalBindingToV1Binding keep_GVK
     (zero_AzureIdentityBinding\<lparr>b_ObjectMeta := zero_ObjectMeta\<lparr>om_Name := ''b'', om_Namespace := ''ns''\<rparr>,
        b_Spec := (b_Spec zero_AzureIdentityBinding)\<lparr>bs_AzureIdentity := ''id'', bs_Selector := ''app''\<rparr>\<rparr>)"

lemma v1_sample_simps:
  "id_Namespace (listed_identity g (v1_identity_sample ns)) = ns" "id_Name (listed_identity g (v1_identity_sample ns)) = ''id''"
  "v1bs_Selector (v1b_Spec v1_binding_sample) = ''app''" "om_Namespace (v1b_ObjectMeta v1_binding_sample) = ''ns''"
  "v1bs_AzureIdentity (v1b_Spec v1_binding_sample) = ''id''"
  by (simp_all add: listed_identity_def v1_identity_sample_def v1_binding_sample_def conversion_defs Let_def)

theorem GetPodIDsWithBinding_exact_witness:
  "\<exists>l s'. GetPodIDsWithBinding mem_env ''ns'' [(CRDLabelKey, ''app'')]
      (bound_cache [v1_binding_sample] [v1_identity_sample ''ns'', v1_identity_sample ''other'']) = (Returned (Inr l), s') \<and>
    set l = {listed_identity (ce_SetGVK mem_env) (v1_identity_sample ''ns'')}"
proof -
  let ?s = "bound_cache [v1_binding_sample] [v1_identity_sample ''ns'', v1_identity_sample ''other'']"
  let ?l = "listed_identity (ce_SetGVK mem_env)"
  have lbl: "mget0 [] [(CRDLabelKey, ''app'')] CRDLabelKey = ''app''" by (simp add: mget0_def)
  obtain bi ii where inf: "crd_BindingInformer (cs_client ?s) = Some bi" "inf_Store bi = map ObjBinding [v1_binding_sample]"
    "crd_IDInformer (cs_client ?s) = Some ii" "inf_Store ii = map ObjIdentity [v1_identity_sample ''ns'', v1_identity_sample ''other'']"
    by (simp add: bound_cache_def)
  obtain l s' where l: "GetPodIDsWithBinding mem_env ''ns'' [(CRDLabelKey, ''app'')] ?s = (Returned (Inr l), s')"
    "set l = {i \<in> ?l ` set [v1_identity_sample ''ns'', v1_identity_sample ''other'']. id_Namespace i = ''ns'' \<and>
      (\<exists>b \<in> set [v1_binding_sample]. v1bs_Selector (v1b_Spec b) = mget0 [] [(CRDLabelKey, ''app'')] CRDLabelKey \<and>
        om_Namespace (v1b_ObjectMeta b) = ''ns'' \<and> v1bs_AzureIdentity (v1b_Spec b) = id_Name i)}"
    using GetPodIDsWithBinding_exact[OF inf, of mem_env "''ns''" "[(CRDLabelKey, ''app'')]"] by blast
  have "set l = {?l (v1_identity_sample ''ns'')}" unfolding l(2) by (auto simp: v1_sample_simps lbl)
  then show ?thesis using l(1) by blast
qed

section \<open>Informers and modes\<close>

text \<open>Which informers a client has.\<close>

definition informers :: "crd_client \<Rightarrow> bool \<times> bool \<times> bool \<times> bool" where
  "informers c = (crd_BindingInformer c \<noteq> None, crd_IDInformer c \<noteq> None, crd_AssignedIDInformer c \<noteq> None,
     crd_PodIdentityExceptionInformer c \<noteq> None)"

lemma list_informer_keeps:
  assumes "\<And>f c. informers (upd (\<lambda>_. Some f) c) = informers c \<or> get c = None"
  shows "informers (cs_client (snd (list_informer env get upd g key s))) = informers (cs_client s)"
    and "returns (fst (list_informer env get upd g key s)) \<longleftrightarrow> get (cs_client s) \<noteq> None"
proof -
  show "informers (cs_client (snd (list_informer env get upd g key s))) = informers (cs_client s)"
    using list_informer_None[of get s env upd g key] list_informer_Some[of get s _ env upd g key] assms[of _ "cs_client s"]
    by (cases "get (cs_client s)") force+
  show "returns (fst (list_informer env get upd g key s)) \<longleftrightarrow> get (cs_client s) \<noteq> None"
    using list_informer_None[of get s env upd g key] list_informer_Some[of get s _ env upd g key]
    by (cases "get (cs_client s)") force+
qed

lemma list_keeps_informers:
  "informers (cs_client (snd (ListBindings env s))) = informers (cs_client s)"
  "informers (cs_client (snd (ListIds env s))) = informers (cs_client s)"
  "informers (cs_client (snd (ListAssignedIDs env s))) = informers (cs_client s)"
  "informers (cs_client (snd (ListPodIdentityExceptions env ns s))) = informers (cs_client s)"
  unfolding ListBindings_def ListIds_def ListAssignedIDs_def ListPodIdentityExceptions_def
  by (rule list_informer_keeps(1); auto simp: informers_def)+

lemma list_returns:
  "returns (fst (ListBindings env s)) \<longleftrightarrow> crd_BindingInformer (cs_client s) \<noteq> None"
  "returns (fst (ListIds env s)) \<longleftrightarrow> crd_IDInformer (cs_client s) \<noteq> None"
  "returns (fst (ListAssignedIDs env s)) \<longleftrightarrow> crd_AssignedIDInformer (cs_client s) \<noteq> None"
  "returns (fst (ListPodIdentityExceptions env ns s)) \<longleftrightarrow> crd_PodIdentityExceptionInformer (cs_client s) \<noteq> None"
  unfolding ListBindings_def ListIds_def ListAssignedIDs_def ListPodIdentityExceptions_def
  by (rule list_informer_keeps(2); auto simp: informers_def)+

lemma ListPodIds_informers:
  "informers (cs_client (snd (ListPodIds env podns podname s))) = informers (cs_client s)"
  "returns (fst (ListPodIds env podns podname s)) \<longleftrightarrow> crd_AssignedIDInformer (cs_client s) \<noteq> None"
  using list_keeps_informers(3)[of env s] list_returns(3)[of env s]
  by (auto simp: ListPodIds_def split: prod.splits outcome.splits sum.splits)

lemma GetPodIDsWithBinding_informers:
  "informers (cs_client (snd (GetPodIDsWithBinding env ns labels s))) = informers (cs_client s)"
  "crd_IDInformer (cs_client s) \<noteq> None \<Longrightarrow>
     returns (fst (GetPodIDsWithBinding env ns labels s)) \<longleftrightarrow> crd_BindingInformer (cs_client s) \<noteq> None"
proof -
  obtain r s1 where b: "ListBindings env s = (r, s1)" by fastforce
  obtain r' s2 where i: "ListIds env s1 = (r', s2)" by fastforce
  have k: "informers (cs_client s1) = informers (cs_client s)" "informers (cs_client s2) = informers (cs_client s1)"
    using list_keeps_informers(1)[of env s] list_keeps_informers(2)[of env s1] b i by simp_all
  then show "informers (cs_client (snd (GetPodIDsWithBinding env ns labels s))) = informers (cs_client s)"
    by (simp add: GetPodIDsWithBinding_def b i Let_def split: outcome.splits sum.splits)
  assume "crd_IDInformer (cs_client s) \<noteq> None"
  then have "crd_IDInformer (cs_client s1) \<noteq> None" using k(1) by (simp add: informers_def)
  then have "returns r'" using list_returns(2)[of env s1] i by simp
  moreover have "returns r \<longleftrightarrow> crd_BindingInformer (cs_client s) \<noteq> None" using list_returns(1)[of env s] b by simp
  ultimately show "returns (fst (GetPodIDsWithBinding env ns labels s)) \<longleftrightarrow> crd_BindingInformer (cs_client s) \<noteq> None"
    by (auto simp: GetPodIDsWithBinding_def b i Let_def split: outcome.splits sum.splits)
qed

text \<open>
  Modes and informers.  A client built by \<^verbatim>\<open>NewCRDClientLite\<close> for a mode serves the reads of that mode and only
  those: the exceptions can always be listed, the identities of a pod by state exactly in standard mode, those by binding
  exactly in managed mode; the reads of the other mode panic on a nil informer.  No read changes which
  informers there are, so this stays so.
\<close>

theorem lite_client_modes:
  assumes "NewCRDClientLite env nodeName scale isStandardMode = Inr c" "informers (cs_client s) = informers c"
  shows "returns (fst (ListPodIdentityExceptions env ns s)) \<and>
    (returns (fst (ListPodIds env podns podname s)) \<longleftrightarrow> isStandardMode) \<and>
    (returns (fst (GetPodIDsWithBinding env podns labels s)) \<longleftrightarrow> \<not> isStandardMode) \<and>
    informers (cs_client (snd (ListPodIdentityExceptions env ns s))) = informers c \<and>
    informers (cs_client (snd (ListPodIds env podns podname s))) = informers c \<and>
    informers (cs_client (snd (GetPodIDsWithBinding env podns labels s))) = informers c"
proof -
  have c: "crd_PodIdentityExceptionInformer c \<noteq> None" "crd_AssignedIDInformer c \<noteq> None \<longleftrightarrow> isStandardMode"
    "crd_BindingInformer c \<noteq> None \<longleftrightarrow> \<not> isStandardMode" "crd_IDInformer c \<noteq> None \<longleftrightarrow> \<not> isStandardMode"
    using assms(1) by (auto simp: NewCRDClientLite_def Let_def split: option.splits if_splits)
  then have s: "crd_PodIdentityExceptionInformer (cs_client s) \<noteq> None" "crd_AssignedIDInformer (cs_client s) \<noteq> None \<longleftrightarrow> isStandardMode"
    "crd_BindingInformer (cs_client s) \<noteq> None \<longleftrightarrow> \<not> isStandardMode" "crd_IDInformer (cs_client s) \<noteq> None \<longleftrightarrow> \<not> isStandardMode"
    using assms(2) by (auto simp: informers_def)
  have "\<not> returns (fst (GetPodIDsWithBinding env podns labels s))" if isStandardMode
    using that s(3) list_returns(1)[of env s]
    by (auto simp: GetPodIDsWithBinding_def Let_def split: prod.splits outcome.splits sum.splits)
  then show ?thesis
    using s list_returns(4)[of env ns s] ListPodIds_informers[of env podns podname s] list_keeps_informers(4)[of env ns s]
      GetPodIDsWithBinding_informers(1)[of env podns labels s]
      GetPodIDsWithBinding_informers(2)[of s env podns labels] assms(2) by auto
qed

theorem lite_client_modes_witness:
  "\<exists>c. NewCRDClientLite mem_env ''node'' True True = Inr c \<and>
     returns (fst (ListPodIds mem_env ''ns'' ''pod'' (crd_start\<lparr>cs_client := c\<rparr>))) \<and>
     \<not> returns (fst (GetPodIDsWithBinding mem_env ''ns'' [] (crd_start\<lparr>cs_client := c\<rparr>)))"
proof -
  obtain c where c: "NewCRDClientLite mem_env ''node'' True True = Inr c"
    by (simp add: NewCRDClientLite_def mem_env_def Let_def)
  have "informers (cs_client (crd_start\<lparr>cs_client := c\<rparr>)) = informers c" by simp
  from lite_client_modes[OF c this, of _ "''ns''" "''pod''" "[]"] c show ?thesis by blast
qed

section \<open>The upgrade\<close>

text \<open>
  The references that an upgraded assigned identity carries claim the kind of the list they came from, not their own:
  \<^verbatim>\<open>reflect.ValueOf(i)\<close> is taken of the list.
\<close>

lemma upgrade_kind:
  assumes "upgrade_loop env AzureIDResource ''AzureIdentityList'' items [] w = ((None, m), w')" "(k, x) \<in> set m"
  shows "\<exists>i. x = ObjIdentity i \<and> tm_Kind (v1id_TypeMeta i) = ''AzureIdentityList''"
proof -
  let ?P = "\<lambda>m. \<forall>(k, x) \<in> set m. \<exists>i. x = ObjIdentity i \<and> tm_Kind (v1id_TypeMeta i) = ''AzureIdentityList''"
  have item: "?P m'" if "upgrade_item env AzureIDResource ''AzureIdentityList'' item m w = ((e, m'), w')" "?P m" for item m m' w w' e
    using that by (auto simp: upgrade_item_def upgraded_type_def Let_def dest!: set_mput
        split: prod.splits sum.splits if_splits)
  have "?P m'" if "upgrade_loop env AzureIDResource ''AzureIdentityList'' items m w = ((e, m'), w')" "?P m" for m m' w w' e
    using that
  proof (induction items arbitrary: m w)
    case (Cons x xs)
    show ?case
    proof (cases "ce_Accessor env x")
      case None
      obtain e1 m1 w1 where u: "upgrade_item env AzureIDResource ''AzureIdentityList'' x m w = ((e1, m1), w1)" by (metis prod.exhaust)
      show ?thesis
      proof (cases e1)
        case None
        show ?thesis by (rule Cons.IH[OF _ item[OF u Cons.prems(2)]]) (use Cons.prems(1) u None \<open>ce_Accessor env x = None\<close> in simp)
      qed (use Cons.prems u \<open>ce_Accessor env x = None\<close> item[OF u Cons.prems(2)] in auto)
    qed (use Cons.prems in auto)
  qed auto
  from this[OF assms(1)] assms(2) show ?thesis by auto
qed

text \<open>An assigned identity whose reference is nil stops the upgrade with a panic; with both references it does not.\<close>

lemma upgraded_refs_nil:
  "v1as_AzureIdentityRef (v1a_Spec obj) = None \<or> v1as_AzureBindingRef (v1a_Spec obj) = None \<Longrightarrow>
   upgraded_refs ids bindings obj = Panicked nil_dereference"
  by (auto simp: upgraded_refs_def split: option.splits)

end
