(* ===== verification/Kube.thy ===== *)
theory Kube
  imports CrdClient
begin

text \<open>
  \<^verbatim>\<open>pkg/k8s/client.go\<close>, the Kubernetes client of NMI, and \<^verbatim>\<open>pkg/pod/pod.go\<close>, the pod client of the controller and the
  exception check.

  \<open>KubeState\<close> is the CRD client and the pod informer.  client-go, the clock and the network are the record \<open>KubeEnv\<close>;
  while the client sleeps the informers go on, so a sleep may change the whole state.  \<open>K8sClient\<close> is the interface
  \<^verbatim>\<open>k8s.Client\<close> over a state \<open>'k\<close>, through which NMI uses the client, and \<open>KubeClient\<close> its implementation.
\<close>

section \<open>Data\<close>

record Secret =
  sec_Data :: "(string, string) gomap"

record 'w KubeState =
  ks_crd :: "'w CrdState"
  ks_PodInformer :: "v1Object list"

record 'w KubeEnv =
  ke_crd :: "'w CrdEnv"
  ke_Sleep :: "Duration \<Rightarrow> 'w KubeState \<Rightarrow> 'w KubeState"
  ke_GetSecret :: "string \<Rightarrow> string \<Rightarrow> 'w \<Rightarrow> (string, Secret) result \<times> 'w"
  ke_GetByKey :: "string \<Rightarrow> v1Object list \<Rightarrow> (string, v1Object option) result"
  ke_ShowPods :: "Pod list \<Rightarrow> string"
  ke_Getenv :: "string \<Rightarrow> string"
  ke_BuildConfigFromFlags :: "string \<Rightarrow> string option"
  ke_InClusterConfig :: "string option"
  ke_NewForConfig :: "string option"

record 'k K8sClient =
  kc_GetPod :: "string \<Rightarrow> string \<Rightarrow> 'k \<Rightarrow> (string, Pod) result \<times> 'k"
  kc_GetPodInfo :: "string \<Rightarrow> 'k \<Rightarrow> (string, string \<times> string \<times> string \<times> (string, string) gomap) result \<times> 'k"
  kc_ListPodIds :: "string \<Rightarrow> string \<Rightarrow> 'k \<Rightarrow> (string, (string, AzureIdentity list) gomap) result outcome \<times> 'k"
  kc_ListPodIdsWithBinding :: "string \<Rightarrow> (string, string) gomap \<Rightarrow> 'k \<Rightarrow> (string, AzureIdentity list) result outcome \<times> 'k"
  kc_GetSecret :: "SecretReference \<Rightarrow> 'k \<Rightarrow> (string, Secret) result \<times> 'k"
  kc_ListPodIdentityExceptions :: "string \<Rightarrow> 'k \<Rightarrow> (string, AzurePodIdentityException list) result outcome \<times> 'k"

definition getPodListRetries :: nat where "getPodListRetries = 4"
definition getPodListSleepTimeMilliseconds :: int where "getPodListSleepTimeMilliseconds = 300"
definition time_Millisecond :: Duration where "time_Millisecond = 1000000"

section \<open>Construction\<close>

definition buildConfig :: "'w KubeEnv \<Rightarrow> string option" where
  "buildConfig env =
     (let kubeconfigPath = ke_Getenv env ''KUBECONFIG'' in
      if kubeconfigPath \<noteq> [] then ke_BuildConfigFromFlags env kubeconfigPath else ke_InClusterConfig env)"

definition getkubeclient :: "'w KubeEnv \<Rightarrow> string option" where
  "getkubeclient env = ke_NewForConfig env"

text \<open>The field selector of the pod informer.\<close>

definition pod_NodeNameFilter :: "string \<Rightarrow> string \<Rightarrow> string" where
  "pod_NodeNameFilter nodeName fieldSelector = fieldSelector @ ''spec.nodeName='' @ nodeName"

text \<open>A new client: its CRD client, its pod informer (the field selector) and nothing cached yet.\<close>

definition NewKubeClient :: "'w KubeEnv \<Rightarrow> string \<Rightarrow> bool \<Rightarrow> bool \<Rightarrow> (string, crd_client \<times> string) result" where
  "NewKubeClient env nodeName scale isStandardMode =
     (case buildConfig env of
        Some err \<Rightarrow> Inl err
      | None \<Rightarrow>
     (case getkubeclient env of
        Some err \<Rightarrow> Inl err
      | None \<Rightarrow>
     (case NewCRDClientLite (ke_crd env) nodeName scale isStandardMode of
        Inl err \<Rightarrow> Inl err
      | Inr crdclient \<Rightarrow>
     (case ce_NewReporter (ke_crd env) of
        Some err \<Rightarrow> Inl (''failed to create reporter for metrics, error: '' @ err)
      | None \<Rightarrow> Inr (crdclient, pod_NodeNameFilter nodeName [])))))"

section \<open>Pods\<close>

fun replicaset_of :: "OwnerReference list \<Rightarrow> string" where
  "replicaset_of [] = []"
| "replicaset_of (owner # owners) = (if strings_EqualFold (or_Kind owner) ''ReplicaSet'' then or_Name owner else replicaset_of owners)"

definition getReplicasetName :: "Pod \<Rightarrow> string" where
  "getReplicasetName pod = replicaset_of (om_OwnerReferences (pod_ObjectMeta pod))"

definition GetPod :: "'w KubeEnv \<Rightarrow> string \<Rightarrow> string \<Rightarrow> 'w KubeState \<Rightarrow> (string, Pod) result \<times> 'w KubeState" where
  "GetPod env namespace name s =
     (case ke_GetByKey env (namespace @ ''/'' @ name) (ks_PodInformer s) of
        Inl err \<Rightarrow> (Inl (''failed to get pod '' @ namespace @ ''/'' @ name @ '', error: '' @ err), s)
      | Inr None \<Rightarrow> (Inl (''pod '' @ namespace @ ''/'' @ name @ '' doesn't exist''), s)
      | Inr (Some obj) \<Rightarrow>
          (case obj of
             ObjPod pod \<Rightarrow> (Inr pod, s)
           | _ \<Rightarrow> (Inl ''could not cast *v1.Pod to v1.Pod'', s)))"

definition isPhaseValid :: "string \<Rightarrow> bool" where
  "isPhaseValid p = (p = ''Pending'' \<or> p = ''Running'')"

fun pods_with_ip :: "string \<Rightarrow> v1Object list \<Rightarrow> (string, Pod list) result" where
  "pods_with_ip podip [] = Inr []"
| "pods_with_ip podip (x # xs) =
     (case x of
        ObjPod pod \<Rightarrow>
          (case pods_with_ip podip xs of
             Inl err \<Rightarrow> Inl err
           | Inr l \<Rightarrow> Inr (if pod_PodIP pod = podip \<and> isPhaseValid (pod_Phase pod) then pod # l else l))
      | _ \<Rightarrow> Inl ''could not cast *v1.Pod to v1.Pod'')"

definition getPodList :: "string \<Rightarrow> 'w KubeState \<Rightarrow> (string, Pod list) result" where
  "getPodList podip s =
     (case pods_with_ip podip (ks_PodInformer s) of
        Inl err \<Rightarrow> Inl err
      | Inr l \<Rightarrow> if length l = 0 then Inl ''pod list is empty'' else Inr l)"

definition kube_report_error :: "'w KubeEnv \<Rightarrow> string \<Rightarrow> 'w KubeState \<Rightarrow> 'w KubeState" where
  "kube_report_error env operation s = s\<lparr>ks_crd := report_api_error (ke_crd env) operation (ks_crd s)\<rparr>"

fun getPodListRetry :: "'w KubeEnv \<Rightarrow> string \<Rightarrow> nat \<Rightarrow> int \<Rightarrow> 'w KubeState \<Rightarrow> (string, Pod list) result \<times> 'w KubeState" where
  "getPodListRetry env podip retries sleeptime s =
     (case getPodList podip s of
        Inr podList \<Rightarrow> (Inr podList, s)
      | Inl err \<Rightarrow>
          (let s = kube_report_error env GetPodListOperationName s in
           case retries of
             0 \<Rightarrow> (Inl err, s)
           | Suc n \<Rightarrow> getPodListRetry env podip n sleeptime (ke_Sleep env (sleeptime * time_Millisecond) s)))"

definition GetPodInfo ::
  "'w KubeEnv \<Rightarrow> string \<Rightarrow> 'w KubeState \<Rightarrow> (string, string \<times> string \<times> string \<times> (string, string) gomap) result \<times> 'w KubeState" where
  "GetPodInfo env podip s =
     (if podip = [] then (Inl ''pod IP is empty'', s)
      else
        (case getPodListRetry env podip getPodListRetries getPodListSleepTimeMilliseconds s of
           (Inl err, s) \<Rightarrow> (Inl err, s)
         | (Inr podList, s) \<Rightarrow>
             (case podList of
                [pod] \<Rightarrow> (Inr (pod_Namespace pod, pod_Name pod, getReplicasetName pod, pod_Labels pod), s)
              | _ \<Rightarrow> (Inl (''failed to match pod IP '' @ podip @ '' with '' @ ke_ShowPods env podList), s))))"

text \<open>An interface address: whether it is an \<^verbatim>\<open>IPNet\<close>, loopback, IPv4, and its text.\<close>

record InterfaceAddr =
  ia_IPNet :: bool
  ia_Loopback :: bool
  ia_To4 :: bool
  ia_String :: string

fun first_ipv4 :: "InterfaceAddr list \<Rightarrow> (string, string) result" where
  "first_ipv4 [] = Inl ''non loopback IP address not found''"
| "first_ipv4 (address # rest) =
     (if ia_IPNet address \<and> \<not> ia_Loopback address \<and> ia_To4 address then Inr (ia_String address) else first_ipv4 rest)"

definition GetLocalIP :: "(string, InterfaceAddr list) result \<Rightarrow> (string, string) result" where
  "GetLocalIP addrs = (case addrs of Inl err \<Rightarrow> Inl err | Inr l \<Rightarrow> first_ipv4 l)"

section \<open>Identities, exceptions and secrets\<close>

definition on_crd :: "('w CrdState \<Rightarrow> 'a \<times> 'w CrdState) \<Rightarrow> 'w KubeState \<Rightarrow> 'a \<times> 'w KubeState" where
  "on_crd f s = (case f (ks_crd s) of (r, c) \<Rightarrow> (r, s\<lparr>ks_crd := c\<rparr>))"

definition kube_ListPodIds ::
  "'w KubeEnv \<Rightarrow> string \<Rightarrow> string \<Rightarrow> 'w KubeState \<Rightarrow> (string, (string, AzureIdentity list) gomap) result outcome \<times> 'w KubeState" where
  "kube_ListPodIds env podns podname s = on_crd (ListPodIds (ke_crd env) podns podname) s"

definition kube_ListPodIdsWithBinding ::
  "'w KubeEnv \<Rightarrow> string \<Rightarrow> (string, string) gomap \<Rightarrow> 'w KubeState \<Rightarrow> (string, AzureIdentity list) result outcome \<times> 'w KubeState" where
  "kube_ListPodIdsWithBinding env podns labels s = on_crd (GetPodIDsWithBinding (ke_crd env) podns labels) s"

definition kube_ListPodIdentityExceptions ::
  "'w KubeEnv \<Rightarrow> string \<Rightarrow> 'w KubeState \<Rightarrow> (string, AzurePodIdentityException list) result outcome \<times> 'w KubeState" where
  "kube_ListPodIdentityExceptions env ns s = on_crd (ListPodIdentityExceptions (ke_crd env) ns) s"

definition GetSecret :: "'w KubeEnv \<Rightarrow> SecretReference \<Rightarrow> 'w KubeState \<Rightarrow> (string, Secret) result \<times> 'w KubeState" where
  "GetSecret env secretRef s =
     (case on_crd (crd_world_call (ke_GetSecret env (sr_Namespace secretRef) (sr_Name secretRef))) s of
        (Inl err, s) \<Rightarrow> (Inl err, kube_report_error env GetSecretOperationName s)
      | (Inr secret, s) \<Rightarrow> (Inr secret, s))"

definition KubeClient :: "'w KubeEnv \<Rightarrow> 'w KubeState K8sClient" where
  "KubeClient env = \<lparr>kc_GetPod = GetPod env, kc_GetPodInfo = GetPodInfo env, kc_ListPodIds = kube_ListPodIds env,
     kc_ListPodIdsWithBinding = kube_ListPodIdsWithBinding env, kc_GetSecret = GetSecret env,
     kc_ListPodIdentityExceptions = kube_ListPodIdentityExceptions env\<rparr>"

definition kube_Start :: "'w KubeEnv \<Rightarrow> 'w KubeState \<Rightarrow> unit outcome \<times> 'w KubeState" where
  "kube_Start env s =
     (case on_crd (StartLite (ke_crd env)) s of
        (Panicked t, s) \<Rightarrow> (Panicked t, s)
      | (Returned _, s) \<Rightarrow> (Returned (), snd (on_crd (crd_world_call (ce_WaitForCacheSync (ke_crd env) [''pods''])) s)))"

section \<open>\<^verbatim>\<open>pkg/pod/pod.go\<close>\<close>

fun pod_handler :: "InformerEvent \<Rightarrow> EventType list outcome" where
  "pod_handler (AddFunc _) = Returned [PodCreated]"
| "pod_handler (DeleteFunc _) = Returned [PodDeleted]"
| "pod_handler (UpdateFunc (ObjPod oldPod) (ObjPod newPod)) =
     Returned (if pod_NodeName oldPod \<noteq> pod_NodeName newPod \<or>
                  mget0 [] (pod_Labels oldPod) CRDLabelKey \<noteq> mget0 [] (pod_Labels newPod) CRDLabelKey
               then [PodUpdated] else [])"
| "pod_handler (UpdateFunc (ObjPod oldPod) newObj) = Panicked (conversion_panic (obj_type newObj) ''*v1.Pod'')"
| "pod_handler (UpdateFunc oldObj newObj) = Panicked (conversion_panic (obj_type oldObj) ''*v1.Pod'')"

text \<open>
  \<^verbatim>\<open>GetPods\<close>: the label requirement, the list of the informer for a selector, the clock and the statistics are
  arguments; the result is the pods or an error and the statistics after it.
\<close>

definition GetPods ::
  "(string \<Rightarrow> (string, 'sel) result) \<Rightarrow> ('sel \<Rightarrow> (string, Pod list) result) \<Rightarrow> Time \<Rightarrow> Time \<Rightarrow> stats option \<Rightarrow>
   (string, Pod list) result \<times> stats option" where
  "GetPods newRequirement lister start now st =
     (case newRequirement CRDLabelKey of
        Inl err \<Rightarrow> (Inl err, st)
      | Inr crdSelector \<Rightarrow>
          (case lister crdSelector of
             Inl err \<Rightarrow> (Inl err, st)
           | Inr listPods \<Rightarrow> (Inr listPods, stats_Put PodList (time_Sub now start) st)))"

fun label_matches :: "(string, string) gomap \<Rightarrow> (string, string) gomap \<Rightarrow> bool" where
  "label_matches podLabels [] = False"
| "label_matches podLabels ((key, value) # rest) =
     (case map_of podLabels key of
        Some val \<Rightarrow> if strings_EqualFold val value then True else label_matches podLabels rest
      | None \<Rightarrow> label_matches podLabels rest)"

fun labelInExceptionList :: "(string, string) gomap \<Rightarrow> AzurePodIdentityException list \<Rightarrow> bool" where
  "labelInExceptionList podLabels [] = False"
| "labelInExceptionList podLabels (exception # rest) =
     (if label_matches podLabels (es_PodLabels (e_Spec exception)) then True else labelInExceptionList podLabels rest)"

definition IsPodExcepted :: "(string, string) gomap \<Rightarrow> AzurePodIdentityException list \<Rightarrow> bool" where
  "IsPodExcepted podLabels exceptionList = (length exceptionList > 0 \<and> labelInExceptionList podLabels exceptionList)"

section \<open>Properties\<close>

declare getPodListRetry.simps [simp del]

text \<open>The live pods with an address.\<close>

abbreviation live_at :: "string \<Rightarrow> Pod \<Rightarrow> bool" where
  "live_at podip p \<equiv> pod_PodIP p = podip \<and> isPhaseValid (pod_Phase p)"

lemma pods_with_ip_ok: "pods_with_ip podip xs = Inr l \<longleftrightarrow> (\<exists>ps. xs = map ObjPod ps \<and> l = filter (live_at podip) ps)"
proof (induction xs arbitrary: l)
  case (Cons x xs)
  show ?case
  proof (cases "\<exists>p. x = ObjPod p")
    case True
    then obtain p where x: "x = ObjPod p" by blast
    have "pods_with_ip podip (x # xs) = Inr l \<longleftrightarrow>
        (\<exists>l'. pods_with_ip podip xs = Inr l' \<and> l = (if live_at podip p then p # l' else l'))"
      by (auto simp: x split: sum.splits)
    also have "\<dots> \<longleftrightarrow> (\<exists>ps. x # xs = map ObjPod ps \<and> l = filter (live_at podip) ps)"
      unfolding Cons.IH x by (auto simp: Cons_eq_map_conv)
    finally show ?thesis .
  qed (auto split: v1Object.splits)
qed auto

lemma getPodListRetry_ok:
  "getPodListRetry env podip n d s = (Inr l, s') \<Longrightarrow> getPodList podip s' = Inr l"
  by (induction env podip n d s rule: getPodListRetry.induct)
    (subst (asm) (2) getPodListRetry.simps, auto simp: Let_def split: sum.splits nat.splits)

lemma GetPodInfo_sound:
  assumes "GetPodInfo env podip s = (Inr (ns, name, rs, ls), s')"
  shows "\<exists>qs p. ks_PodInformer s' = map ObjPod qs \<and> filter (live_at podip) qs = [p] \<and>
    ns = pod_Namespace p \<and> name = pod_Name p \<and> rs = getReplicasetName p \<and> ls = pod_Labels p"
proof -
  obtain p where p: "getPodListRetry env podip getPodListRetries getPodListSleepTimeMilliseconds s = (Inr [p], s')"
    "ns = pod_Namespace p" "name = pod_Name p" "rs = getReplicasetName p" "ls = pod_Labels p"
    using assms by (auto simp: GetPodInfo_def split: if_splits prod.splits sum.splits list.splits)
  have "pods_with_ip podip (ks_PodInformer s') = Inr [p]"
    using getPodListRetry_ok[OF p(1)] by (auto simp: getPodList_def split: sum.splits if_splits)
  then obtain qs where qs: "ks_PodInformer s' = map ObjPod qs" "[p] = filter (live_at podip) qs"
    unfolding pods_with_ip_ok by blast
  then show ?thesis using p(2-5) by (intro exI[of _ qs] exI[of _ p]) simp
qed

text \<open>
  (C24) \<^verbatim>\<open>GetPodInfo\<close> identifies the caller.  It answers for an address only if that is the address of exactly one pending or
  running pod in the cache, and then with this pod's namespace, name, replica set and labels; two pods that share an
  address are refused.  It does answer when the cache has one such pod.
\<close>

theorem GetPodInfo_identifies:
  assumes "ks_PodInformer s = map ObjPod ps" "podip \<noteq> []"
  shows "(GetPodInfo env podip s = (Inr (ns, name, rs, ls), s') \<longrightarrow>
      (\<exists>qs p. ks_PodInformer s' = map ObjPod qs \<and> filter (live_at podip) qs = [p] \<and>
        ns = pod_Namespace p \<and> name = pod_Name p \<and> rs = getReplicasetName p \<and> ls = pod_Labels p)) \<and>
    (\<forall>p. filter (live_at podip) ps = [p] \<longrightarrow>
      GetPodInfo env podip s = (Inr (pod_Namespace p, pod_Name p, getReplicasetName p, pod_Labels p), s)) \<and>
    (1 < length (filter (live_at podip) ps) \<longrightarrow> (\<exists>err. GetPodInfo env podip s = (Inl err, s)))"
proof -
  have hit: "getPodListRetry env podip n d s = (Inr (filter (live_at podip) ps), s)" if "filter (live_at podip) ps \<noteq> []" for n d
    using that assms(1) pods_with_ip_ok[of podip "map ObjPod ps" "filter (live_at podip) ps"]
    by (subst getPodListRetry.simps) (auto simp: getPodList_def)
  have one: "GetPodInfo env podip s = (Inr (pod_Namespace p, pod_Name p, getReplicasetName p, pod_Labels p), s)"
    if "filter (live_at podip) ps = [p]" for p
    using hit[of getPodListRetries getPodListSleepTimeMilliseconds] that assms(2) by (simp add: GetPodInfo_def)
  have many: "\<exists>err. GetPodInfo env podip s = (Inl err, s)" if "1 < length (filter (live_at podip) ps)"
  proof -
    have "\<exists>p q rest. l = p # q # rest" if "1 < length l" for l :: "Pod list"
      using that by (cases l; cases "tl l") auto
    from this[OF that] obtain p q rest where l: "filter (live_at podip) ps = p # q # rest" by blast
    then show ?thesis using hit[of getPodListRetries getPodListSleepTimeMilliseconds] assms(2) by (simp add: GetPodInfo_def)
  qed
  show ?thesis using GetPodInfo_sound[of env podip s ns name rs ls s'] one many by blast
qed

text \<open>
  A pod is excepted exactly when one of the exceptions of its namespace has a label that the pod has too, with the same value up
  to case.  One common label is enough; the other labels of the exception need not match.
\<close>

theorem IsPodExcepted_iff:
  "IsPodExcepted podLabels exceptionList \<longleftrightarrow>
   (\<exists>e \<in> set exceptionList. \<exists>(key, value) \<in> set (es_PodLabels (e_Spec e)). \<exists>val. map_of podLabels key = Some val \<and>
      strings_EqualFold val value)"
proof -
  have lbl: "label_matches podLabels ls \<longleftrightarrow> (\<exists>(key, value) \<in> set ls. \<exists>val. map_of podLabels key = Some val \<and> strings_EqualFold val value)" for ls
    by (induction podLabels ls rule: label_matches.induct) (auto split: option.splits)
  have "labelInExceptionList podLabels es \<longleftrightarrow> (\<exists>e \<in> set es. label_matches podLabels (es_PodLabels (e_Spec e)))" for es
    by (induction podLabels es rule: labelInExceptionList.induct) auto
  then show ?thesis by (auto simp: IsPodExcepted_def lbl)
qed

definition kube_env_sample :: "mem_api KubeEnv" where
  "kube_env_sample = \<lparr>ke_crd = mem_env, ke_Sleep = (\<lambda>_ s. s), ke_GetSecret = (\<lambda>_ _ w. (Inl ''not found'', w)),
     ke_GetByKey = (\<lambda>key store. Inr (find (\<lambda>x. getMapKey (om_Namespace (obj_meta x)) (om_Name (obj_meta x)) = key) store)),
     ke_ShowPods = (\<lambda>_. []), ke_Getenv = (\<lambda>_. []), ke_BuildConfigFromFlags = (\<lambda>_. None), ke_InClusterConfig = None, ke_NewForConfig = None\<rparr>"

definition pod_sample :: Pod where
  "pod_sample = \<lparr>pod_ObjectMeta = zero_ObjectMeta\<lparr>om_Name := ''pod'', om_Namespace := ''ns''\<rparr>, pod_NodeName = ''node'',
     pod_PodIP = ''10.0.0.4'', pod_Phase = ''Running''\<rparr>"

definition kube_state_sample :: "crd_client \<Rightarrow> mem_api KubeState" where
  "kube_state_sample c = \<lparr>ks_crd = crd_start\<lparr>cs_client := c\<rparr>, ks_PodInformer = [ObjPod pod_sample]\<rparr>"

theorem GetPodInfo_identifies_witness:
  "GetPodInfo kube_env_sample ''10.0.0.4'' (kube_state_sample no_informers) = (Inr (''ns'', ''pod'', [], []), kube_state_sample no_informers)"
proof -
  have "filter (live_at ''10.0.0.4'') [pod_sample] = [pod_sample]" by (simp add: pod_sample_def isPhaseValid_def)
  moreover have "pod_Namespace pod_sample = ''ns''" "pod_Name pod_sample = ''pod''" "getReplicasetName pod_sample = []" "pod_Labels pod_sample = []"
    by (simp_all add: pod_sample_def getReplicasetName_def zero_ObjectMeta_def)
  moreover have "ks_PodInformer (kube_state_sample no_informers) = map ObjPod [pod_sample]" "''10.0.0.4'' \<noteq> []"
    by (simp_all add: kube_state_sample_def)
  ultimately show ?thesis using GetPodInfo_identifies[of "kube_state_sample no_informers" "[pod_sample]" "''10.0.0.4''"] by simp
qed

end
