(* ===== verification/Auth.thy ===== *)
theory Auth
  imports GoRuntime Metrics
begin

text \<open>
  \<^verbatim>\<open>pkg/auth\<close>: tokens from adal and the classification of its errors.

  adal and pkcs12 are the record \<open>Adal\<close> over a state \<open>'k\<close>.  A \<open>credential\<close> is what adal is asked to
  authenticate with; \<open>ad_New\<close> is its constructor (\<open>None\<close>: no error) and \<open>ad_Refresh\<close> obtains a fresh token, the primary one and
  those of the auxiliary tenants.  \<open>ad_Metrics\<close> applies an update to the recorded measurements of the process.
  An error is a token refresh error (adal's interface \<^verbatim>\<open>TokenRefreshError\<close>) or another one.
\<close>

section \<open>Data\<close>

record Token =
  tk_AccessToken :: string
  tk_RefreshToken :: string
  tk_ExpiresIn :: string
  tk_ExpiresOn :: string
  tk_NotBefore :: string
  tk_Resource :: string
  tk_Type :: string

datatype auth_error = TokenRefreshError (auth_error_text: string) | OtherError (auth_error_text: string)

datatype private_key = RSAKey string | OtherKey string

datatype credential =
    ManagedIdentity "string option" string
  | ClientSecret string string string string string
  | MultiTenantSecret string string "string list" string string string
  | ClientCertificate string string string string private_key string

record 'k Adal =
  ad_Now :: "'k \<Rightarrow> Time \<times> 'k"
  ad_TagNew :: tag_new
  ad_Metrics :: "(recorded \<Rightarrow> recorded) \<Rightarrow> 'k \<Rightarrow> 'k"
  ad_NewOAuthConfig :: "string \<Rightarrow> string \<Rightarrow> auth_error option"
  ad_NewMultiTenantOAuthConfig :: "string \<Rightarrow> string \<Rightarrow> string list \<Rightarrow> auth_error option"
  ad_New :: "credential \<Rightarrow> auth_error option"
  ad_Refresh :: "credential \<Rightarrow> 'k \<Rightarrow> (auth_error, Token \<times> Token list) result \<times> 'k"
  ad_Pkcs12Decode :: "string \<Rightarrow> string \<Rightarrow> (auth_error, private_key \<times> string) result"

definition defaultActiveDirectoryEndpoint :: string where
  "defaultActiveDirectoryEndpoint = ''https://login.microsoftonline.com/''"

section \<open>Errors\<close>

definition IsTokenRefreshError :: "auth_error \<Rightarrow> bool" where
  "IsTokenRefreshError err = (case err of TokenRefreshError _ \<Rightarrow> True | OtherError _ \<Rightarrow> False)"

definition IsHealthCheckError :: "auth_error \<Rightarrow> bool" where
  "IsHealthCheckError err = (\<not> IsTokenRefreshError err)"

section \<open>Tokens\<close>

text \<open>The deferred report of every token function: an error is counted, anything else, a panic too, is timed.\<close>

definition report_failure :: "'k Adal \<Rightarrow> string \<Rightarrow> 'k \<Rightarrow> 'k" where
  "report_failure ad operation k = ad_Metrics ad (\<lambda>rec. snd (ReportIMDSOperationError (ad_TagNew ad) operation rec)) k"

definition report_duration :: "'k Adal \<Rightarrow> string \<Rightarrow> Time \<Rightarrow> 'k \<Rightarrow> 'k" where
  "report_duration ad operation start k =
     (case ad_Now ad k of (now, k) \<Rightarrow>
        ad_Metrics ad (\<lambda>rec. snd (ReportIMDSOperationDuration (ad_TagNew ad) operation (time_Sub now start) rec)) k)"

definition report_token ::
  "'k Adal \<Rightarrow> string \<Rightarrow> Time \<Rightarrow> (auth_error, 'a) result outcome \<times> 'k \<Rightarrow> (auth_error, 'a) result outcome \<times> 'k" where
  "report_token ad operation start r =
     (case r of
        (Returned (Inl err), k) \<Rightarrow> (Returned (Inl err), report_failure ad operation k)
      | (x, k) \<Rightarrow> (x, report_duration ad operation start k))"

text \<open>Construction and refresh.\<close>

definition fresh_tokens :: "'k Adal \<Rightarrow> credential \<Rightarrow> 'k \<Rightarrow> (auth_error, Token \<times> Token list) result \<times> 'k" where
  "fresh_tokens ad c k = (case ad_New ad c of Some err \<Rightarrow> (Inl err, k) | None \<Rightarrow> ad_Refresh ad c k)"

definition GetServicePrincipalTokenFromMSI :: "'k Adal \<Rightarrow> string \<Rightarrow> 'k \<Rightarrow> (auth_error, Token) result outcome \<times> 'k" where
  "GetServicePrincipalTokenFromMSI ad resource k =
     (case ad_Now ad k of (start, k) \<Rightarrow>
        report_token ad AdalTokenFromMSIOperationName start
          (case fresh_tokens ad (ManagedIdentity None resource) k of (r, k) \<Rightarrow> (Returned (map_sum (\<lambda>e. e) fst r), k)))"

definition GetServicePrincipalTokenFromMSIWithUserAssignedID ::
  "'k Adal \<Rightarrow> string \<Rightarrow> string \<Rightarrow> 'k \<Rightarrow> (auth_error, Token) result outcome \<times> 'k" where
  "GetServicePrincipalTokenFromMSIWithUserAssignedID ad clientID resource k =
     (case ad_Now ad k of (start, k) \<Rightarrow>
        report_token ad AdalTokenFromMSIWithUserAssignedIDOperationName start
          (case fresh_tokens ad (ManagedIdentity (Some clientID) resource) k of (r, k) \<Rightarrow> (Returned (map_sum (\<lambda>e. e) fst r), k)))"

definition active_directory_endpoint :: "string \<Rightarrow> string" where
  "active_directory_endpoint adEndpointFromSpec =
     (if adEndpointFromSpec \<noteq> [] then adEndpointFromSpec else defaultActiveDirectoryEndpoint)"

definition newServicePrincipalToken ::
  "'k Adal \<Rightarrow> string \<Rightarrow> string \<Rightarrow> string \<Rightarrow> string \<Rightarrow> string \<Rightarrow> 'k \<Rightarrow> (auth_error, Token list) result \<times> 'k" where
  "newServicePrincipalToken ad activeDirectoryEndpoint tenantID clientID secret resource k =
     (case ad_NewOAuthConfig ad activeDirectoryEndpoint tenantID of
        Some err \<Rightarrow> (Inl err, k)
      | None \<Rightarrow>
          (case fresh_tokens ad (ClientSecret activeDirectoryEndpoint tenantID clientID secret resource) k of
             (r, k) \<Rightarrow> (map_sum (\<lambda>e. e) (\<lambda>(token, _). [token]) r, k)))"

definition newMultiTenantServicePrincipalToken ::
  "'k Adal \<Rightarrow> string \<Rightarrow> string \<Rightarrow> string \<Rightarrow> string \<Rightarrow> string \<Rightarrow> string list \<Rightarrow> 'k \<Rightarrow> (auth_error, Token list) result \<times> 'k" where
  "newMultiTenantServicePrincipalToken ad activeDirectoryEndpoint primaryTenantID clientID secret resource auxiliaryTenantIDs k =
     (case ad_NewMultiTenantOAuthConfig ad activeDirectoryEndpoint primaryTenantID auxiliaryTenantIDs of
        Some err \<Rightarrow> (Inl err, k)
      | None \<Rightarrow>
          (case fresh_tokens ad (MultiTenantSecret activeDirectoryEndpoint primaryTenantID auxiliaryTenantIDs clientID secret resource) k of
             (r, k) \<Rightarrow> (map_sum (\<lambda>e. e) (\<lambda>(primaryToken, auxiliaryTokens). primaryToken # auxiliaryTokens) r, k)))"

definition GetServicePrincipalToken ::
  "'k Adal \<Rightarrow> string \<Rightarrow> string \<Rightarrow> string \<Rightarrow> string \<Rightarrow> string \<Rightarrow> string list \<Rightarrow> 'k \<Rightarrow> (auth_error, Token list) result outcome \<times> 'k" where
  "GetServicePrincipalToken ad adEndpointFromSpec tenantID clientID secret resource auxiliaryTenantIDs k =
     (case ad_Now ad k of (start, k) \<Rightarrow>
        report_token ad AdalTokenOperationName start
          (let activeDirectoryEndpoint = active_directory_endpoint adEndpointFromSpec in
           case (if length auxiliaryTenantIDs \<noteq> 0
                 then newMultiTenantServicePrincipalToken ad activeDirectoryEndpoint tenantID clientID secret resource auxiliaryTenantIDs k
                 else newServicePrincipalToken ad activeDirectoryEndpoint tenantID clientID secret resource k) of
             (r, k) \<Rightarrow> (Returned r, k)))"

definition GetServicePrincipalTokenWithCertificate ::
  "'k Adal \<Rightarrow> string \<Rightarrow> string \<Rightarrow> string \<Rightarrow> string \<Rightarrow> string \<Rightarrow> string \<Rightarrow> 'k \<Rightarrow> (auth_error, Token) result outcome \<times> 'k" where
  "GetServicePrincipalTokenWithCertificate ad adEndpointFromSpec tenantID clientID certificate password resource k =
     (case ad_Now ad k of (start, k) \<Rightarrow>
        report_token ad AdalTokenOperationName start
          (let activeDirectoryEndpoint = active_directory_endpoint adEndpointFromSpec in
           case ad_NewOAuthConfig ad activeDirectoryEndpoint tenantID of
             Some err \<Rightarrow> (Returned (Inl err), k)
           | None \<Rightarrow>
               (case ad_Pkcs12Decode ad certificate password of
                  Inl err \<Rightarrow> (Returned (Inl err), k)
                | Inr (privateKey, cert) \<Rightarrow>
                    (case privateKey of
                       OtherKey t \<Rightarrow> (Panicked (conversion_panic t ''*rsa.PrivateKey''), k)
                     | RSAKey _ \<Rightarrow>
                         (case fresh_tokens ad (ClientCertificate activeDirectoryEndpoint tenantID clientID cert privateKey resource) k of
                            (r, k) \<Rightarrow> (Returned (map_sum (\<lambda>e. e) fst r), k))))))"

section \<open>Lemmas\<close>

lemma report_token_fst [simp]: "fst (report_token ad operation start r) = fst r"
  by (auto simp: report_token_def split: prod.splits outcome.splits sum.splits)

text \<open>The tokens of several tenants: the primary one first, one for each that adal returns; without auxiliary tenants exactly one.\<close>

lemma newServicePrincipalToken_one:
  "fst (newServicePrincipalToken ad e t c s r k) = Inr tokens \<Longrightarrow> length tokens = 1"
  by (auto simp: newServicePrincipalToken_def map_sum_def split: option.splits prod.splits sum.splits)

lemma GetServicePrincipalToken_nonempty:
  "fst (GetServicePrincipalToken ad e t c s r aux k) = Returned (Inr tokens) \<Longrightarrow> tokens \<noteq> []"
  by (auto simp: GetServicePrincipalToken_def newServicePrincipalToken_def newMultiTenantServicePrincipalToken_def Let_def map_sum_def
      split: option.splits prod.splits sum.splits if_splits)

end
