(* ===== verification/Nmi.thy ===== *)
theory Nmi
  imports Kube Auth GoUtils
begin

text \<open>
  \<^verbatim>\<open>pkg/nmi\<close>: the token clients of NMI in standard and in managed mode.

  Both work on a \<^verbatim>\<open>k8s.Client\<close> (\<open>K8sClient\<close>) and on adal (\<open>Adal\<close>) over a state \<open>'k\<close>.  \<open>na_After\<close> is the \<^verbatim>\<open>select\<close> between the
  timer and the context of the request: whether the context ended first, with its error.  A call may change the state: while
  NMI waits, the controller and the informers go on.

  \<^verbatim>\<open>GetIdentities\<close> returns a pointer and an error; both are options.
\<close>

section \<open>Data\<close>

definition StandardMode :: string where "StandardMode = ''standard''"
definition ManagedMode :: string where "ManagedMode = ''managed''"

record Config =
  cfg_Mode :: string
  cfg_RetryAttemptsForCreated :: int
  cfg_RetryAttemptsForAssigned :: int
  cfg_FindIdentityRetryIntervalInSeconds :: int
  cfg_NodeName :: string
  cfg_Namespaced :: bool

record StandardClient =
  sc_ListPodIDsRetryAttemptsForCreated :: int
  sc_ListPodIDsRetryAttemptsForAssigned :: int
  sc_ListPodIDsRetryIntervalInSeconds :: int
  sc_IsNamespaced :: bool

record ManagedClient =
  mc_IsNamespaced :: bool

datatype TokenClient = Standard StandardClient | Managed ManagedClient

record 'k NmiEnv =
  na_kube :: "'k K8sClient"
  na_adal :: "'k Adal"
  na_After :: "Duration \<Rightarrow> 'k \<Rightarrow> string option \<times> 'k"

section \<open>Construction\<close>

definition NewStandardTokenClient :: "Config \<Rightarrow> (string, StandardClient) result" where
  "NewStandardTokenClient config = Inr
     \<lparr>sc_ListPodIDsRetryAttemptsForCreated = cfg_RetryAttemptsForCreated config,
      sc_ListPodIDsRetryAttemptsForAssigned = cfg_RetryAttemptsForAssigned config,
      sc_ListPodIDsRetryIntervalInSeconds = cfg_FindIdentityRetryIntervalInSeconds config,
      sc_IsNamespaced = cfg_Namespaced config\<rparr>"

definition NewManagedTokenClient :: "Config \<Rightarrow> (string, ManagedClient) result" where
  "NewManagedTokenClient config =
     (if \<not> cfg_Namespaced config then Inl ''managed mode not intialized in force namespaced mode''
      else Inr \<lparr>mc_IsNamespaced = cfg_Namespaced config\<rparr>)"

definition GetTokenClient :: "Config \<Rightarrow> (string, TokenClient) result" where
  "GetTokenClient config =
     (if cfg_Mode config = StandardMode then map_sum (\<lambda>e. e) Standard (NewStandardTokenClient config)
      else if cfg_Mode config = ManagedMode then map_sum (\<lambda>e. e) Managed (NewManagedTokenClient config)
      else Inl (''operation mode '' @ cfg_Mode config @ '' not supported''))"

definition GetKubeClient :: "'w KubeEnv \<Rightarrow> string \<Rightarrow> string \<Rightarrow> bool \<Rightarrow> (string, crd_client \<times> string) result" where
  "GetKubeClient env nodeName mode enableScaleFeatures = NewKubeClient env nodeName enableScaleFeatures (mode = StandardMode)"

section \<open>Standard mode\<close>

definition isRequestedIdentity :: "string \<Rightarrow> string \<Rightarrow> AzureIdentity \<Rightarrow> bool" where
  "isRequestedIdentity rqClientID rqResourceID podID =
     (length rqClientID \<noteq> 0 \<and> strings_EqualFold rqClientID (id_ClientID podID) \<or>
      length rqResourceID \<noteq> 0 \<and> strings_EqualFold rqResourceID (id_ResourceID podID))"

text \<open>
  One attempt, on what \<^verbatim>\<open>ListPodIds\<close> returned: the identities to return, or the end of the search because none is in state
  Created although it is time for that, or another attempt.
\<close>

datatype attempt_result = ReturnIDs "AzureIdentity list" | NotCreated | TryAgain

definition check_attempt ::
  "StandardClient \<Rightarrow> string \<Rightarrow> string \<Rightarrow> int \<Rightarrow> (string, AzureIdentity list) gomap \<Rightarrow> attempt_result" where
  "check_attempt sc rqClientID rqResourceID attempt idStateMap =
     (let identityUnspecified = (length rqClientID = 0 \<and> length rqResourceID = 0);
          requested = isRequestedIdentity rqClientID rqResourceID;
          noState = mget0 [] idStateMap [];
          assigned = mget0 [] idStateMap AssignedIDAssigned;
          created = mget0 [] idStateMap AssignedIDCreated in
      if identityUnspecified then
        (if length noState \<noteq> 0 then ReturnIDs noState
         else if length assigned \<noteq> 0 then ReturnIDs assigned
         else if length created = 0 \<and> attempt \<ge> sc_ListPodIDsRetryAttemptsForCreated sc then NotCreated
         else TryAgain)
      else
        (if list_ex requested noState then ReturnIDs noState
         else if list_ex requested assigned then ReturnIDs assigned
         else if \<not> list_ex requested created \<and> attempt \<ge> sc_ListPodIDsRetryAttemptsForCreated sc then NotCreated
         else TryAgain))"

fun itoa_nat :: "nat \<Rightarrow> string" where
  "itoa_nat n = (if n < 10 then [char_of (48 + n)] else itoa_nat (n div 10) @ [char_of (48 + n mod 10)])"

definition strconv_Itoa :: "int \<Rightarrow> string" where
  "strconv_Itoa i = (if i < 0 then ''-'' @ itoa_nat (nat (- i)) else itoa_nat (nat i))"

text \<open>\<^verbatim>\<open>%+v\<close> of an error.\<close>

definition show_err :: "string option \<Rightarrow> string" where
  "show_err err = (case err of None \<Rightarrow> ''<nil>'' | Some e \<Rightarrow> e)"

definition attempts_text :: "StandardClient \<Rightarrow> string \<Rightarrow> int \<Rightarrow> string option \<Rightarrow> string" where
  "attempts_text sc state n err =
     '' in '' @ state @ '' state failed after '' @ strconv_Itoa n @ '' attempts, retry duration ['' @
     strconv_Itoa (sc_ListPodIDsRetryIntervalInSeconds sc) @ '']s, error: '' @ show_err err @
     ''. Check MIC pod logs for identity assignment errors''"

definition not_created_text :: "StandardClient \<Rightarrow> string \<Rightarrow> string \<Rightarrow> string \<Rightarrow> string \<Rightarrow> string" where
  "not_created_text sc podns podname rqClientID rqResourceID =
     (if length rqClientID = 0 \<and> length rqResourceID = 0 then []
      else ''clientID in request: '' @ RedactClientID rqClientID @ '', '') @
     ''getting assigned identities for pod '' @ podns @ ''/'' @ podname @
     attempts_text sc ''CREATED'' (sc_ListPodIDsRetryAttemptsForCreated sc) None"

definition attempt_limit :: "StandardClient \<Rightarrow> int" where
  "attempt_limit sc = wrap64 (sc_ListPodIDsRetryAttemptsForCreated sc + sc_ListPodIDsRetryAttemptsForAssigned sc)"

text \<open>The identities found, whether one may be in state Created, and the error.\<close>

type_synonym pod_ids = "AzureIdentity list \<times> bool \<times> string option"

function list_attempts ::
  "'k NmiEnv \<Rightarrow> StandardClient \<Rightarrow> string \<Rightarrow> string \<Rightarrow> string \<Rightarrow> string \<Rightarrow> int \<Rightarrow> string option \<Rightarrow> 'k \<Rightarrow> pod_ids outcome \<times> 'k" where
  "list_attempts env sc podns podname rqClientID rqResourceID attempt err k =
     (if attempt < attempt_limit sc then
        (case kc_ListPodIds (na_kube env) podns podname k of
           (Panicked t, k) \<Rightarrow> (Panicked t, k)
         | (Returned r, k) \<Rightarrow>
             (case (case r of Inl e \<Rightarrow> TryAgain | Inr m \<Rightarrow> check_attempt sc rqClientID rqResourceID attempt m) of
                ReturnIDs ids \<Rightarrow> (Returned (ids, True, None), k)
              | NotCreated \<Rightarrow>
                  (Returned ([], False, Some (not_created_text sc podns podname rqClientID rqResourceID)), k)
              | TryAgain \<Rightarrow>
                  (case na_After env (wrap64 (sc_ListPodIDsRetryIntervalInSeconds sc * time_Second)) k of
                     (Some ctxErr, k) \<Rightarrow> (Returned ([], True, Some ctxErr), k)
                   | (None, k) \<Rightarrow>
                       list_attempts env sc podns podname rqClientID rqResourceID (attempt + 1)
                         (case r of Inl e \<Rightarrow> Some e | Inr _ \<Rightarrow> None) k)))
      else
        (Returned ([], True, Some (''getting assigned identities for pod '' @ podns @ ''/'' @ podname @
           attempts_text sc ''ASSIGNED'' (attempt_limit sc) err)), k))"
  by pat_completeness auto

termination
  by (relation "measure (\<lambda>(_, sc, _, _, _, _, attempt, _, _). nat (attempt_limit sc - attempt))") auto

declare list_attempts.simps [simp del] itoa_nat.simps [simp del]

definition listPodIDsWithRetry ::
  "'k NmiEnv \<Rightarrow> StandardClient \<Rightarrow> string \<Rightarrow> string \<Rightarrow> string \<Rightarrow> string \<Rightarrow> 'k \<Rightarrow> pod_ids outcome \<times> 'k" where
  "listPodIDsWithRetry env sc podns podname rqClientID rqResourceID k =
     list_attempts env sc podns podname rqClientID rqResourceID 0 None k"

definition filter_namespaced :: "bool \<Rightarrow> string \<Rightarrow> AzureIdentity list \<Rightarrow> AzureIdentity list" where
  "filter_namespaced isNamespaced podns podIDs =
     filter (\<lambda>val. if isNamespaced \<or> IsNamespacedIdentity val then id_Namespace val = podns else True) podIDs"

definition not_found_text :: "string \<Rightarrow> string" where
  "not_found_text clientID = ''no azure identity found for request clientID '' @ RedactClientID clientID"

definition standard_GetIdentities ::
  "'k NmiEnv \<Rightarrow> StandardClient \<Rightarrow> string \<Rightarrow> string \<Rightarrow> string \<Rightarrow> string \<Rightarrow> 'k \<Rightarrow>
   (AzureIdentity option \<times> string option) outcome \<times> 'k" where
  "standard_GetIdentities env sc podns podname clientID resourceID k =
     (case listPodIDsWithRetry env sc podns podname clientID resourceID k of
        (Panicked t, k) \<Rightarrow> (Panicked t, k)
      | (Returned (podIDs, identityInCreatedStateFound, Some err), k) \<Rightarrow>
          (Returned (if \<not> identityInCreatedStateFound then None else Some zero_AzureIdentity, Some err), k)
      | (Returned (podIDs, _, None), k) \<Rightarrow>
          (let filterPodIdentities = filter_namespaced (sc_IsNamespaced sc) podns podIDs in
           if length clientID = 0 \<and> length resourceID = 0 then
             (case index_0 filterPodIdentities of
                Panicked t \<Rightarrow> (Panicked t, k)
              | Returned i \<Rightarrow> (Returned (Some i, None), k))
           else
             (case find (\<lambda>i. length clientID \<noteq> 0 \<and> id_ClientID i = clientID \<or>
                            length resourceID \<noteq> 0 \<and> id_ResourceID i = resourceID) filterPodIdentities of
                Some i \<Rightarrow> (Returned (Some i, None), k)
              | None \<Rightarrow> (Returned (None, Some (not_found_text clientID)), k))))"

section \<open>Managed mode\<close>

definition managed_GetIdentities ::
  "'k NmiEnv \<Rightarrow> ManagedClient \<Rightarrow> string \<Rightarrow> string \<Rightarrow> string \<Rightarrow> string \<Rightarrow> 'k \<Rightarrow>
   (AzureIdentity option \<times> string option) outcome \<times> 'k" where
  "managed_GetIdentities env mc podns podname clientID resourceID k =
     (case kc_GetPod (na_kube env) podns podname k of
        (Inl err, k) \<Rightarrow> (Returned (None, Some (''failed to get pod '' @ podns @ ''/'' @ podname @ '', error: '' @ err)), k)
      | (Inr pod, k) \<Rightarrow>
          (case kc_ListPodIdsWithBinding (na_kube env) podns (pod_Labels pod) k of
             (Panicked t, k) \<Rightarrow> (Panicked t, k)
           | (Returned (Inl err), k) \<Rightarrow>
               (Returned (None, Some (''failed to get AzureIdentities for pod '' @ podns @ ''/'' @ podname @ '', error: '' @ err)), k)
           | (Returned (Inr azureIdentities), k) \<Rightarrow>
               (let identityUnspecified = (length clientID = 0 \<and> length resourceID = 0) in
                case find (\<lambda>i. length clientID \<noteq> 0 \<and> id_ClientID i = clientID \<or>
                               length resourceID \<noteq> 0 \<and> id_ResourceID i = resourceID \<or>
                               identityUnspecified \<and> strings_EqualFold (id_Namespace i) podns) azureIdentities of
                  Some i \<Rightarrow> (Returned (Some i, None), k)
                | None \<Rightarrow> (Returned (None, Some (not_found_text clientID)), k))))"

section \<open>Tokens\<close>

text \<open>The bytes of the first entry that a range over the secret visits.\<close>

definition client_secret :: "Secret \<Rightarrow> string" where
  "client_secret secret = (case sec_Data secret of [] \<Rightarrow> [] | (_, v) # _ \<Rightarrow> v)"

definition secret_error :: "SecretReference \<Rightarrow> string \<Rightarrow> auth_error" where
  "secret_error secretRef err =
     OtherError (''failed to get Kubernetes secret '' @ sr_Namespace secretRef @ ''/'' @ sr_Name secretRef @ '', err: '' @ err)"

definition one_token :: "(auth_error, Token) result outcome \<times> 'k \<Rightarrow> (auth_error, Token list) result outcome \<times> 'k" where
  "one_token r = (case r of (x, k) \<Rightarrow> (map_outcome (map_sum (\<lambda>e. e) (\<lambda>token. [token])) x, k))"

definition GetTokens ::
  "'k NmiEnv \<Rightarrow> string \<Rightarrow> string \<Rightarrow> AzureIdentity \<Rightarrow> 'k \<Rightarrow> (auth_error, Token list) result outcome \<times> 'k" where
  "GetTokens env rqClientID rqResource azureID k =
     (let spec = id_Spec azureID; clientID = id_ClientID azureID; idType = id_Type azureID; secretRef = ids_ClientPassword spec in
      if idType = UserAssignedMSI then
        one_token (GetServicePrincipalTokenFromMSIWithUserAssignedID (na_adal env) clientID rqResource k)
      else if idType = ServicePrincipal then
        (case kc_GetSecret (na_kube env) secretRef k of
           (Inl err, k) \<Rightarrow> (Returned (Inl (secret_error secretRef err)), k)
         | (Inr secret, k) \<Rightarrow>
             GetServicePrincipalToken (na_adal env) (ids_ADEndpoint spec) (ids_TenantID spec) clientID (client_secret secret)
               rqResource (ids_AuxiliaryTenantIDs spec) k)
      else if idType = ServicePrincipalCertificate then
        (case kc_GetSecret (na_kube env) secretRef k of
           (Inl err, k) \<Rightarrow> (Returned (Inl (secret_error secretRef err)), k)
         | (Inr secret, k) \<Rightarrow>
             one_token (GetServicePrincipalTokenWithCertificate (na_adal env) (ids_ADEndpoint spec) (ids_TenantID spec) clientID
               (mget0 [] (sec_Data secret) ''certificate'') (mget0 [] (sec_Data secret) ''password'') rqResource k))
      else (Returned (Inl (OtherError (''unsupported identity type '' @ strconv_Itoa idType))), k))"

text \<open>\<^verbatim>\<open>ManagedClient.GetTokens\<close>, a second copy of the function in the code.\<close>

definition managed_GetTokens ::
  "'k NmiEnv \<Rightarrow> string \<Rightarrow> string \<Rightarrow> AzureIdentity \<Rightarrow> 'k \<Rightarrow> (auth_error, Token list) result outcome \<times> 'k" where
  "managed_GetTokens env rqClientID rqResource azureID k =
     (let spec = id_Spec azureID; clientID = id_ClientID azureID; idType = id_Type azureID; secretRef = ids_ClientPassword spec in
      if idType = UserAssignedMSI then
        one_token (GetServicePrincipalTokenFromMSIWithUserAssignedID (na_adal env) clientID rqResource k)
      else if idType = ServicePrincipal then
        (case kc_GetSecret (na_kube env) secretRef k of
           (Inl err, k) \<Rightarrow> (Returned (Inl (secret_error secretRef err)), k)
         | (Inr secret, k) \<Rightarrow>
             GetServicePrincipalToken (na_adal env) (ids_ADEndpoint spec) (ids_TenantID spec) clientID (client_secret secret)
               rqResource (ids_AuxiliaryTenantIDs spec) k)
      else if idType = ServicePrincipalCertificate then
        (case kc_GetSecret (na_kube env) secretRef k of
           (Inl err, k) \<Rightarrow> (Returned (Inl (secret_error secretRef err)), k)
         | (Inr secret, k) \<Rightarrow>
             one_token (GetServicePrincipalTokenWithCertificate (na_adal env) (ids_ADEndpoint spec) (ids_TenantID spec) clientID
               (mget0 [] (sec_Data secret) ''certificate'') (mget0 [] (sec_Data secret) ''password'') rqResource k))
      else (Returned (Inl (OtherError (''unsupported identity type '' @ strconv_Itoa idType))), k))"

lemma managed_GetTokens_same: "managed_GetTokens env = GetTokens env"
  unfolding managed_GetTokens_def[abs_def] GetTokens_def[abs_def] by (rule refl)

text \<open>The interface \<^verbatim>\<open>TokenClient\<close>; for both clients \<open>GetTokens\<close> above is what \<^verbatim>\<open>GetTokens\<close> does (\<open>managed_GetTokens_same\<close>).\<close>

definition GetIdentities ::
  "'k NmiEnv \<Rightarrow> TokenClient \<Rightarrow> string \<Rightarrow> string \<Rightarrow> string \<Rightarrow> string \<Rightarrow> 'k \<Rightarrow>
   (AzureIdentity option \<times> string option) outcome \<times> 'k" where
  "GetIdentities env client podns podname clientID resourceID k =
     (case client of
        Standard sc \<Rightarrow> standard_GetIdentities env sc podns podname clientID resourceID k
      | Managed mc \<Rightarrow> managed_GetIdentities env mc podns podname clientID resourceID k)"

end
