(* ===== verification/NmiIdentity.thy ===== *)
theory NmiIdentity
  imports Nmi
begin

text \<open>
  Which identity NMI gives to a pod.  The locale \<open>identity_source\<close> states what the token clients rely on in a \<^verbatim>\<open>k8s.Client\<close>;
  the lemmas about the clients are proved from it, and it is interpreted on \<open>KubeClient\<close>, so that they hold of the
  assigned identities, bindings and identities in the informer caches.
\<close>

section \<open>The contract\<close>

definition requested :: "string \<Rightarrow> string \<Rightarrow> AzureIdentity \<Rightarrow> bool" where
  "requested clientID resourceID i \<longleftrightarrow>
     clientID = [] \<and> resourceID = [] \<or> clientID \<noteq> [] \<and> id_ClientID i = clientID \<or> resourceID \<noteq> [] \<and> id_ResourceID i = resourceID"

text \<open>
  The fixed parts: the client; the identities assigned to a pod (namespace, name) in a state; the identities bound to the
  labels of a pod of a namespace.
\<close>

locale identity_source =
  fixes kube :: "'k K8sClient"
    and assigned :: "'k \<Rightarrow> string \<Rightarrow> string \<Rightarrow> string \<Rightarrow> AzureIdentity set"
    and bound :: "'k \<Rightarrow> string \<Rightarrow> (string, string) gomap \<Rightarrow> AzureIdentity set"
  assumes ListPodIds_law: "kc_ListPodIds kube podns podname k = (Returned (Inr m), k') \<Longrightarrow>
      set (mget0 [] m st) = assigned k' podns podname st"
    and ListPodIdsWithBinding_law: "kc_ListPodIdsWithBinding kube podns labels k = (Returned (Inr l), k') \<Longrightarrow>
      set l = bound k' podns labels"
    and GetPod_law: "kc_GetPod kube podns podname k = (Inr p, k') \<Longrightarrow> k' = k"
    and bound_law: "i \<in> bound k podns labels \<Longrightarrow> id_Namespace i = podns"
begin

lemma list_attempts_found:
  "list_attempts env sc podns podname cid rid attempt err k = (Returned (ids, b, None), k') \<Longrightarrow> na_kube env = kube \<Longrightarrow>
     \<exists>st \<in> {[], AssignedIDAssigned}. set ids = assigned k' podns podname st \<and> ids \<noteq> []"
proof (induction env sc podns podname cid rid attempt err k rule: list_attempts.induct)
  case (1 env sc podns podname cid rid attempt err k)
  note run = 1(2)
  obtain r k1 where list: "kc_ListPodIds (na_kube env) podns podname k = (r, k1)" by fastforce
  have lim: "attempt < attempt_limit sc" using run by (subst (asm) list_attempts.simps) (auto split: if_splits)
  obtain x where r: "r = Returned x"
    using run by (subst (asm) list_attempts.simps) (auto simp: list lim split: outcome.splits)
  define c where "c = (case x of Inl e \<Rightarrow> TryAgain | Inr m \<Rightarrow> check_attempt sc cid rid attempt m)"
  show ?case
  proof (cases c)
    case (ReturnIDs l)
    then obtain m where m: "x = Inr m" "check_attempt sc cid rid attempt m = ReturnIDs l"
      by (cases x) (auto simp: c_def)
    have "ids = l" "k' = k1"
      using run ReturnIDs unfolding c_def by (subst (asm) list_attempts.simps, simp add: list lim r)+
    moreover have "\<exists>st \<in> {[], AssignedIDAssigned}. l = mget0 [] m st \<and> l \<noteq> []"
      using m(2) by (auto simp: check_attempt_def Let_def list_ex_iff split: if_splits)
    ultimately show ?thesis using ListPodIds_law[of podns podname k m k1] list r m(1) 1(3) by auto
  next
    case NotCreated
    then show ?thesis using run unfolding c_def by (subst (asm) list_attempts.simps) (simp add: list lim r)
  next
    case TryAgain
    obtain e k2 where after: "na_After env (wrap64 (sc_ListPodIDsRetryIntervalInSeconds sc * time_Second)) k1 = (e, k2)" by fastforce
    have "e = None" using run TryAgain unfolding c_def
      by (subst (asm) list_attempts.simps) (auto simp: list lim r after split: option.splits)
    then have again: "list_attempts env sc podns podname cid rid (attempt + 1) (case x of Inl e \<Rightarrow> Some e | Inr _ \<Rightarrow> None) k2 =
        (Returned (ids, b, None), k')"
      using run TryAgain unfolding c_def by (subst (asm) list_attempts.simps) (simp add: list lim r after)
    show ?thesis using 1(1)[OF lim list[symmetric] r TryAgain[unfolded c_def] after[symmetric] \<open>e = None\<close> again 1(3)] .
  qed
qed

lemma standard_sound:
  assumes "standard_GetIdentities env sc podns podname cid rid k = (Returned (Some i, None), k')" "na_kube env = kube"
  shows "(\<exists>st \<in> {[], AssignedIDAssigned}. i \<in> assigned k' podns podname st) \<and> requested cid rid i \<and>
    (sc_IsNamespaced sc \<or> IsNamespacedIdentity i \<longrightarrow> id_Namespace i = podns)"
proof -
  obtain ids b k1 where l: "listPodIDsWithRetry env sc podns podname cid rid k = (Returned (ids, b, None), k1)"
    using assms(1) by (auto simp: standard_GetIdentities_def split: prod.splits outcome.splits option.splits)
  have i: "i \<in> set (filter_namespaced (sc_IsNamespaced sc) podns ids)" "requested cid rid i" "k' = k1"
    using assms(1) by (auto simp: standard_GetIdentities_def l Let_def index_0_Returned_iff requested_def find_Some_iff
        split: if_splits outcome.splits option.splits)
  have "\<exists>st \<in> {[], AssignedIDAssigned}. set ids = assigned k1 podns podname st"
    using list_attempts_found[OF l[unfolded listPodIDsWithRetry_def] assms(2)] by blast
  then show ?thesis using i by (auto simp: filter_namespaced_def split: if_splits)
qed

lemma managed_sound:
  assumes "managed_GetIdentities env mc podns podname cid rid k = (Returned (Some i, None), k')" "na_kube env = kube"
  shows "(\<exists>p. kc_GetPod kube podns podname k = (Inr p, k) \<and> i \<in> bound k' podns (pod_Labels p)) \<and> requested cid rid i \<and>
    id_Namespace i = podns"
proof -
  obtain p k1 where p: "kc_GetPod kube podns podname k = (Inr p, k1)"
    using assms by (auto simp: managed_GetIdentities_def split: prod.splits sum.splits)
  obtain l k2 where l: "kc_ListPodIdsWithBinding kube podns (pod_Labels p) k1 = (Returned (Inr l), k2)"
    using assms by (auto simp: managed_GetIdentities_def p split: prod.splits outcome.splits sum.splits)
  have "i \<in> set l" "requested cid rid i" "k' = k2"
    using assms by (auto simp: managed_GetIdentities_def p l Let_def requested_def find_Some_iff split: option.splits)
  then show ?thesis using GetPod_law[OF p] ListPodIdsWithBinding_law[OF l] bound_law p by auto
qed

end

section \<open>The caches\<close>

text \<open>What the informer caches of NMI's client say of a pod.\<close>

definition assigned_ids :: "'w KubeState \<Rightarrow> string \<Rightarrow> string \<Rightarrow> string \<Rightarrow> AzureIdentity set" where
  "assigned_ids k podns podname st =
     {i. \<exists>informer a. crd_AssignedIDInformer (cs_client (ks_crd k)) = Some informer \<and> ObjAssigned a \<in> set (inf_Store informer) \<and>
        v1as_Pod (v1a_Spec a) = podname \<and> v1as_PodNamespace (v1a_Spec a) = podns \<and> ast_Status (v1a_Status a) = st \<and>
        i = a_Identity (ConvertV1AssignedIdentityToInternalAssignedIdentity a)}"

definition bound_ids :: "'w KubeState \<Rightarrow> string \<Rightarrow> (string, string) gomap \<Rightarrow> AzureIdentity set" where
  "bound_ids k podns labels =
     {i. \<exists>bi ii b x. crd_BindingInformer (cs_client (ks_crd k)) = Some bi \<and> crd_IDInformer (cs_client (ks_crd k)) = Some ii \<and>
        ObjBinding b \<in> set (inf_Store bi) \<and> ObjIdentity x \<in> set (inf_Store ii) \<and> i = ConvertV1IdentityToInternalIdentity x \<and>
        v1bs_Selector (v1b_Spec b) = mget0 [] labels CRDLabelKey \<and> om_Namespace (v1b_ObjectMeta b) = podns \<and>
        v1bs_AzureIdentity (v1b_Spec b) = id_Name i \<and> id_Namespace i = podns}"

lemma kube_ListPodIds_law:
  assumes "kube_ListPodIds env podns podname k = (Returned (Inr m), k')"
  shows "set (mget0 [] m st) = assigned_ids k' podns podname st"
proof -
  let ?g = "ce_SetGVK (ke_crd env)"
  have run: "ListPodIds (ke_crd env) podns podname (ks_crd k) = (Returned (Inr m), ks_crd k')"
    using assms by (auto simp: kube_ListPodIds_def on_crd_def split: prod.splits)
  obtain informer as where inf: "crd_AssignedIDInformer (cs_client (ks_crd k')) = Some informer"
    "inf_Store informer = map (ObjAssigned \<circ> stamp_assigned ?g) as"
    and m: "\<And>st. mget0 [] m st = map a_Identity (filter (\<lambda>v. a_Pod v = podname \<and> a_PodNamespace v = podns \<and> a_StatusText v = st)
       (map (listed_assigned ?g) as))"
    using ListPodIds_success[OF run] by blast
  have conv: "listed_assigned ?g a = ConvertV1AssignedIdentityToInternalAssignedIdentity (stamp_assigned ?g a)" for a
    by (simp add: listed_assigned_def stamp_assigned_def)
  have fields: "a_Pod (ConvertV1AssignedIdentityToInternalAssignedIdentity x) = v1as_Pod (v1a_Spec x)"
    "a_PodNamespace (ConvertV1AssignedIdentityToInternalAssignedIdentity x) = v1as_PodNamespace (v1a_Spec x)"
    "a_StatusText (ConvertV1AssignedIdentityToInternalAssignedIdentity x) = ast_Status (v1a_Status x)" for x
    by (simp_all add: conversion_defs Let_def)
  show ?thesis unfolding assigned_ids_def m by (auto simp: inf conv fields)
qed

lemma kube_ListPodIdsWithBinding_law:
  assumes "kube_ListPodIdsWithBinding env podns labels k = (Returned (Inr l), k')"
  shows "set l = bound_ids k' podns labels"
proof -
  let ?g = "ce_SetGVK (ke_crd env)"
  have run: "GetPodIDsWithBinding (ke_crd env) podns labels (ks_crd k) = (Returned (Inr l), ks_crd k')"
    using assms by (auto simp: kube_ListPodIdsWithBinding_def on_crd_def split: prod.splits)
  obtain bi ii bs "is" where inf: "crd_BindingInformer (cs_client (ks_crd k')) = Some bi" "inf_Store bi = map (ObjBinding \<circ> stamp_binding ?g) bs"
    "crd_IDInformer (cs_client (ks_crd k')) = Some ii" "inf_Store ii = map (ObjIdentity \<circ> stamp_identity ?g) is"
    and l: "l = filter (\<lambda>i. (\<exists>b \<in> set bs. v1bs_Selector (v1b_Spec b) = mget0 [] labels CRDLabelKey \<and>
        om_Namespace (v1b_ObjectMeta b) = podns \<and> v1bs_AzureIdentity (v1b_Spec b) = id_Name i) \<and> id_Namespace i = podns)
        (map (listed_identity ?g) is)"
    using GetPodIDsWithBinding_success[OF run] by blast
  have conv: "listed_identity ?g x = ConvertV1IdentityToInternalIdentity (stamp_identity ?g x)" for x
    by (simp add: listed_identity_def stamp_identity_def)
  have stamp: "v1b_Spec (stamp_binding ?g b) = v1b_Spec b" "v1b_ObjectMeta (stamp_binding ?g b) = v1b_ObjectMeta b" for b
    by (simp_all add: stamp_binding_def)
  have mem: "ObjBinding b \<in> set (inf_Store bi) \<longleftrightarrow> (\<exists>c \<in> set bs. b = stamp_binding ?g c)"
    "ObjIdentity x \<in> set (inf_Store ii) \<longleftrightarrow> (\<exists>y \<in> set is. x = stamp_identity ?g y)" for b x
    by (auto simp: inf)
  show ?thesis
  proof (intro set_eqI iffI)
    fix i assume "i \<in> set l"
    then show "i \<in> bound_ids k' podns labels"
      unfolding l bound_ids_def mem_Collect_eq set_filter set_map conv using inf(1,3) mem stamp by auto metis
  next
    fix i assume "i \<in> bound_ids k' podns labels"
    then show "i \<in> set l" unfolding bound_ids_def mem_Collect_eq using inf(1,3) by (auto simp: l mem conv stamp)
  qed
qed

interpretation kube: identity_source "KubeClient env" assigned_ids bound_ids for env
proof (unfold_locales, goal_cases)
  case (1 podns podname k m k' st)
  then show ?case using kube_ListPodIds_law by (simp add: KubeClient_def)
next
  case (2 podns labels k l k')
  then show ?case using kube_ListPodIdsWithBinding_law by (simp add: KubeClient_def)
next
  case (3 podns podname k p k')
  then show ?case by (auto simp: KubeClient_def GetPod_def split: sum.splits option.splits v1Object.splits)
next
  case (4 i k podns labels)
  then show ?case unfolding bound_ids_def by blast
qed

section \<open>Properties\<close>

text \<open>A small node: adal that always has a token, a pod with one assigned identity, and a client for it.\<close>

definition token_for :: "credential \<Rightarrow> Token" where
  "token_for c = \<lparr>tk_AccessToken = ''secret'', tk_RefreshToken = [], tk_ExpiresIn = ''3600'', tk_ExpiresOn = ''0'', tk_NotBefore = ''0'',
     tk_Resource = (case c of ManagedIdentity _ r \<Rightarrow> r | ClientSecret _ _ _ _ r \<Rightarrow> r | MultiTenantSecret _ _ _ _ _ r \<Rightarrow> r
       | ClientCertificate _ _ _ _ _ r \<Rightarrow> r), tk_Type = ''Bearer''\<rparr>"

definition adal_sample :: "mem_api KubeState Adal" where
  "adal_sample = \<lparr>ad_Now = (\<lambda>k. (0, k)), ad_TagNew = (\<lambda>_. None),
     ad_Metrics = (\<lambda>f k. k\<lparr>ks_crd := (ks_crd k)\<lparr>cs_metrics := f (cs_metrics (ks_crd k))\<rparr>\<rparr>),
     ad_NewOAuthConfig = (\<lambda>_ _. None), ad_NewMultiTenantOAuthConfig = (\<lambda>_ _ _. None), ad_New = (\<lambda>_. None),
     ad_Refresh = (\<lambda>c k. (Inr (token_for c, []), k)), ad_Pkcs12Decode = (\<lambda>c _. Inr (RSAKey [], c))\<rparr>"

definition nmi_env_sample :: "mem_api KubeState NmiEnv" where
  "nmi_env_sample = \<lparr>na_kube = KubeClient kube_env_sample, na_adal = adal_sample, na_After = (\<lambda>_ k. (None, k))\<rparr>"

definition standard_sample :: "bool \<Rightarrow> StandardClient" where
  "standard_sample namespaced = \<lparr>sc_ListPodIDsRetryAttemptsForCreated = 16, sc_ListPodIDsRetryAttemptsForAssigned = 4,
     sc_ListPodIDsRetryIntervalInSeconds = 5, sc_IsNamespaced = namespaced\<rparr>"

definition identity_sample :: "string \<Rightarrow> AzureIdentity" where
  "identity_sample clientID = zero_AzureIdentity\<lparr>id_ObjectMeta := zero_ObjectMeta\<lparr>om_Name := ''id'', om_Namespace := ''other''\<rparr>,
     id_Spec := (id_Spec zero_AzureIdentity)\<lparr>ids_ClientID := clientID\<rparr>\<rparr>"

definition assigned_sample :: "string \<Rightarrow> v1AzureAssignedIdentity" where
  "assigned_sample clientID = ConvertInternalAssignedIdentityToV1AssignedIdentity keep_GVK
     (set_status AssignedIDAssigned (crd_sample\<lparr>a_Spec := (a_Spec crd_sample)\<lparr>as_AzureIdentityRef := identity_sample clientID\<rparr>\<rparr>))"

definition node_sample :: "string \<Rightarrow> mem_api KubeState" where
  "node_sample clientID = kube_state_sample (cs_client (assigned_cache [assigned_sample clientID]))"

lemma node_sample_ids:
  "fst (standard_GetIdentities nmi_env_sample (standard_sample False) ''ns'' ''pod'' [] [] (node_sample ''c1'')) =
   Returned (Some ((identity_sample ''c1'')\<lparr>id_TypeMeta := keep_GVK CRDGroup CRDVersion ''AzureIdentity'' zero_TypeMeta\<rparr>), None)"
  by code_simp

text \<open>
  (C7) Standard mode: an identity is given to a pod only if it is assigned to that pod.  When \<^verbatim>\<open>GetIdentities\<close> returns an identity, the cache
  of assigned identities has an entry for exactly this pod (by name and namespace) that refers to the identity and is in
  state Assigned, or has no state; the identity is the one the request names, if it names one; and in namespaced mode, or if the identity
  is marked namespaced, it is in the namespace of the pod.
\<close>

theorem standard_identity_assigned:
  assumes "na_kube env = KubeClient kenv"
    and "standard_GetIdentities env sc podns podname clientID resourceID k = (Returned (Some i, None), k')"
  shows "(\<exists>st \<in> {[], AssignedIDAssigned}. i \<in> assigned_ids k' podns podname st) \<and> requested clientID resourceID i \<and>
    (sc_IsNamespaced sc \<or> IsNamespacedIdentity i \<longrightarrow> id_Namespace i = podns)"
  by (rule kube.standard_sound[OF assms(2,1)])

theorem standard_identity_assigned_witness:
  "\<exists>i k'. standard_GetIdentities nmi_env_sample (standard_sample False) ''ns'' ''pod'' [] [] (node_sample ''c1'') = (Returned (Some i, None), k') \<and>
     (\<exists>st \<in> {[], AssignedIDAssigned}. i \<in> assigned_ids k' ''ns'' ''pod'' st) \<and> id_ClientID i = ''c1''"
proof -
  obtain r k' where run: "standard_GetIdentities nmi_env_sample (standard_sample False) ''ns'' ''pod'' [] [] (node_sample ''c1'') = (r, k')"
    by fastforce
  let ?i = "(identity_sample ''c1'')\<lparr>id_TypeMeta := keep_GVK CRDGroup CRDVersion ''AzureIdentity'' zero_TypeMeta\<rparr>"
  have r: "r = Returned (Some ?i, None)" using node_sample_ids run by simp
  have "na_kube nmi_env_sample = KubeClient kube_env_sample" by (simp add: nmi_env_sample_def)
  from standard_identity_assigned[OF this run[unfolded r]] have "\<exists>st \<in> {[], AssignedIDAssigned}. ?i \<in> assigned_ids k' ''ns'' ''pod'' st" by blast
  moreover have "id_ClientID ?i = ''c1''" by (simp add: identity_sample_def)
  ultimately show ?thesis using run r by blast
qed

text \<open>
  (C13) Managed mode: an identity is given to a pod only if a binding of the pod's own namespace selects the pod's label and names the
  identity, and the identity is in that namespace and is the one the request names, if it names one.
\<close>

theorem managed_identity_bound:
  assumes "na_kube env = KubeClient kenv"
    and "managed_GetIdentities env mc podns podname clientID resourceID k = (Returned (Some i, None), k')"
  shows "(\<exists>p. GetPod kenv podns podname k = (Inr p, k) \<and> i \<in> bound_ids k' podns (pod_Labels p)) \<and>
    requested clientID resourceID i \<and> id_Namespace i = podns"
  using kube.managed_sound[OF assms(2,1)] by (simp add: KubeClient_def)

definition managed_node_sample :: "mem_api KubeState" where
  "managed_node_sample = (kube_state_sample (cs_client (bound_cache [v1_binding_sample] [v1_identity_sample ''ns''])))
     \<lparr>ks_PodInformer := [ObjPod (pod_sample\<lparr>pod_ObjectMeta := (pod_ObjectMeta pod_sample)\<lparr>om_Labels := [(CRDLabelKey, ''app'')]\<rparr>\<rparr>)]\<rparr>"

theorem managed_identity_bound_witness:
  "\<exists>i k' p. managed_GetIdentities nmi_env_sample \<lparr>mc_IsNamespaced = True\<rparr> ''ns'' ''pod'' [] [] managed_node_sample = (Returned (Some i, None), k') \<and>
     i \<in> bound_ids k' ''ns'' (pod_Labels p) \<and> id_Namespace i = ''ns''"
proof -
  obtain r k' where run: "managed_GetIdentities nmi_env_sample \<lparr>mc_IsNamespaced = True\<rparr> ''ns'' ''pod'' [] [] managed_node_sample = (r, k')"
    by fastforce
  have "\<not> (case fst (managed_GetIdentities nmi_env_sample \<lparr>mc_IsNamespaced = True\<rparr> ''ns'' ''pod'' [] [] managed_node_sample) of
      Returned (Some _, None) \<Rightarrow> False | _ \<Rightarrow> True)" by code_simp
  then obtain i where r: "r = Returned (Some i, None)" using run by (auto split: outcome.splits option.splits prod.splits)
  have "na_kube nmi_env_sample = KubeClient kube_env_sample" by (simp add: nmi_env_sample_def)
  from managed_identity_bound[OF this run[unfolded r]] show ?thesis using run r by blast
qed

section \<open>Serving\<close>

text \<open>
  Standard mode serves: when the first look at the caches shows an assigned identity of the pod in state Assigned that the request
  asks for and that its namespace allows, and none without a state, \<^verbatim>\<open>GetIdentities\<close> returns an identity, without waiting.
\<close>

theorem standard_serves:
  assumes "kc_ListPodIds (na_kube env) podns podname k = (Returned (Inr m), k1)" "0 < attempt_limit sc"
    and "mget0 [] m [] = []" "i \<in> set (mget0 [] m AssignedIDAssigned)" "requested clientID resourceID i"
    and "sc_IsNamespaced sc \<or> IsNamespacedIdentity i \<longrightarrow> id_Namespace i = podns"
  shows "\<exists>i'. standard_GetIdentities env sc podns podname clientID resourceID k = (Returned (Some i', None), k1)"
proof -
  let ?ids = "mget0 [] m AssignedIDAssigned"
  let ?fs = "filter_namespaced (sc_IsNamespaced sc) podns ?ids"
  have "list_ex (isRequestedIdentity clientID resourceID) ?ids" if "clientID \<noteq> [] \<or> resourceID \<noteq> []"
    using assms(4,5) that by (auto simp: list_ex_iff isRequestedIdentity_def requested_def intro!: bexI[of _ i])
  then have "check_attempt sc clientID resourceID 0 m = ReturnIDs ?ids"
    using assms(3,4) by (auto simp: check_attempt_def Let_def)
  then have l: "listPodIDsWithRetry env sc podns podname clientID resourceID k = (Returned (?ids, True, None), k1)"
    unfolding listPodIDsWithRetry_def by (subst list_attempts.simps) (simp add: assms(1,2))
  have i: "i \<in> set ?fs" using assms(4,6) by (auto simp: filter_namespaced_def)
  show ?thesis
  proof (cases "clientID = [] \<and> resourceID = []")
    case True
    then show ?thesis using i l by (cases ?fs) (auto simp: standard_GetIdentities_def)
  next
    case False
    then have "find (\<lambda>i. length clientID \<noteq> 0 \<and> id_ClientID i = clientID \<or> length resourceID \<noteq> 0 \<and> id_ResourceID i = resourceID) ?fs \<noteq> None"
      using i assms(5) by (auto simp: find_None_iff requested_def)
    then show ?thesis using False by (auto simp: standard_GetIdentities_def l)
  qed
qed

theorem standard_serves_witness:
  "\<exists>i' k1. standard_GetIdentities nmi_env_sample (standard_sample False) ''ns'' ''pod'' ''c1'' [] (node_sample ''c1'') = (Returned (Some i', None), k1)"
proof -
  obtain r k1 where list: "kc_ListPodIds (na_kube nmi_env_sample) ''ns'' ''pod'' (node_sample ''c1'') = (r, k1)" by fastforce
  have ok: "case fst (kc_ListPodIds (na_kube nmi_env_sample) ''ns'' ''pod'' (node_sample ''c1'')) of
      Returned (Inr m) \<Rightarrow> mget0 [] m [] = [] \<and> map id_ClientID (mget0 [] m AssignedIDAssigned) = [''c1''] \<and>
        list_all (\<lambda>i. \<not> IsNamespacedIdentity i) (mget0 [] m AssignedIDAssigned) | _ \<Rightarrow> False" by code_simp
  then obtain m where r: "r = Returned (Inr m)" "mget0 [] m [] = []" "map id_ClientID (mget0 [] m AssignedIDAssigned) = [''c1'']"
    "list_all (\<lambda>i. \<not> IsNamespacedIdentity i) (mget0 [] m AssignedIDAssigned)"
    using list by (auto split: outcome.splits sum.splits)
  then obtain i where i: "i \<in> set (mget0 [] m AssignedIDAssigned)" "id_ClientID i = ''c1''" "\<not> IsNamespacedIdentity i"
    by (cases "mget0 [] m AssignedIDAssigned") auto
  have "0 < attempt_limit (standard_sample False)" by code_simp
  from standard_serves[OF list[unfolded r(1)] this r(2) i(1), of "''c1''" "[]"] i(2,3) show ?thesis
    by (auto simp: requested_def standard_sample_def)
qed

text \<open>
  (C29) The search is bounded.  Whatever the client answers, \<^verbatim>\<open>listPodIDsWithRetry\<close> lists the identities of the pod at most as often as the two
  configured numbers of attempts together (counted by any counter of the state that a listing raises by at most one and waiting
  does not raise).
\<close>

theorem listPodIDsWithRetry_bounded:
  assumes "\<And>k. calls (snd (kc_ListPodIds (na_kube env) podns podname k)) \<le> calls k + (1 :: nat)"
    and "\<And>d k. calls (snd (na_After env d k)) \<le> calls k"
  shows "calls (snd (listPodIDsWithRetry env sc podns podname clientID resourceID k)) \<le> calls k + nat (attempt_limit sc)"
proof -
  have "calls (snd (list_attempts env sc podns podname clientID resourceID attempt err k)) \<le> calls k + nat (attempt_limit sc - attempt)"
    if "attempt \<ge> 0" for attempt err
    using assms that
  proof (induction env sc podns podname clientID resourceID attempt err k rule: list_attempts.induct)
    case (1 env sc podns podname clientID resourceID attempt err k)
    obtain r k1 where list: "kc_ListPodIds (na_kube env) podns podname k = (r, k1)" by fastforce
    obtain e k2 where after: "na_After env (wrap64 (sc_ListPodIDsRetryIntervalInSeconds sc * time_Second)) k1 = (e, k2)" by fastforce
    have k1: "calls k1 \<le> calls k + 1" using 1(2)[of k] list by simp
    have k2: "calls k2 \<le> calls k1" using 1(3)[of _ k1] after by (metis snd_conv)
    show ?case
    proof (cases "attempt < attempt_limit sc")
      case True
      then have step: "nat (attempt_limit sc - attempt) = Suc (nat (attempt_limit sc - (attempt + 1)))" by linarith
      have again: "calls (snd (list_attempts env sc podns podname clientID resourceID (attempt + 1) (case x of Inl e \<Rightarrow> Some e | Inr _ \<Rightarrow> None) k2))
          \<le> calls k2 + nat (attempt_limit sc - (attempt + 1))"
        if "r = Returned x" "(case x of Inl e \<Rightarrow> TryAgain | Inr m \<Rightarrow> check_attempt sc clientID resourceID attempt m) = TryAgain" "e = None" for x
        by (rule 1(1)[OF True list[symmetric] that(1) that(2) after[symmetric] that(3) 1(2) 1(3)]) (use 1(4) in simp)
      show ?thesis
        using k1 k2 again unfolding step
        by (subst list_attempts.simps) (force simp: True list after split: outcome.split attempt_result.split option.split)
    next
      case False
      then show ?thesis by (subst list_attempts.simps) simp
    qed
  qed
  from this[of 0] show ?thesis by (simp add: listPodIDsWithRetry_def)
qed

text \<open>The client of a node that has nothing assigned, with a counter of its listings as the state.\<close>

definition counting_env :: "nat NmiEnv" where
  "counting_env = \<lparr>na_kube = \<lparr>kc_GetPod = (\<lambda>_ _ k. (Inl [], k)), kc_GetPodInfo = (\<lambda>_ k. (Inl [], k)),
       kc_ListPodIds = (\<lambda>_ _ k. (Returned (Inr []), Suc k)), kc_ListPodIdsWithBinding = (\<lambda>_ _ k. (Returned (Inr []), k)),
       kc_GetSecret = (\<lambda>_ k. (Inl [], k)), kc_ListPodIdentityExceptions = (\<lambda>_ k. (Returned (Inr []), k))\<rparr>,
     na_adal = \<lparr>ad_Now = (\<lambda>k. (0, k)), ad_TagNew = (\<lambda>_. None), ad_Metrics = (\<lambda>_ k. k),
       ad_NewOAuthConfig = (\<lambda>_ _. None), ad_NewMultiTenantOAuthConfig = (\<lambda>_ _ _. None), ad_New = (\<lambda>_. None),
       ad_Refresh = (\<lambda>c k. (Inl (OtherError []), k)), ad_Pkcs12Decode = (\<lambda>c _. Inl (OtherError []))\<rparr>,
     na_After = (\<lambda>_ k. (None, k))\<rparr>"

theorem listPodIDsWithRetry_bounded_witness:
  "snd (listPodIDsWithRetry counting_env (standard_sample False) ''ns'' ''pod'' [] [] 0) \<le> 20"
proof -
  have "nat (attempt_limit (standard_sample False)) = 20" by code_simp
  then show ?thesis
    using listPodIDsWithRetry_bounded[where calls = "\<lambda>k. k" and env = counting_env and sc = "standard_sample False" and podns = "''ns''"
        and podname = "''pod''" and clientID = "[]" and resourceID = "[]" and k = 0]
    by (simp add: counting_env_def)
qed

section \<open>Where the clients fall short\<close>

text \<open>
  (C39) In namespaced mode, a pod whose assigned identities are all in other namespaces and that asks for no particular identity makes
  \<^verbatim>\<open>GetIdentities\<close> panic: the first element of the filtered list is taken without a check.
\<close>

theorem standard_index_panic:
  assumes "listPodIDsWithRetry env sc podns podname [] [] k = (Returned (ids, found, None), k')"
    and "sc_IsNamespaced sc" "\<forall>i \<in> set ids. id_Namespace i \<noteq> podns"
  shows "standard_GetIdentities env sc podns podname [] [] k = (Panicked index_out_of_range_0, k')"
proof -
  have "filter_namespaced (sc_IsNamespaced sc) podns ids = []" using assms(2,3) by (simp add: filter_namespaced_def)
  then show ?thesis using assms(1) by (simp add: standard_GetIdentities_def Let_def index_0_def)
qed

theorem standard_index_panic_witness:
  "fst (standard_GetIdentities nmi_env_sample (standard_sample True) ''ns'' ''pod'' [] [] (node_sample ''c1'')) = Panicked index_out_of_range_0"
proof -
  let ?l = "listPodIDsWithRetry nmi_env_sample (standard_sample True) ''ns'' ''pod'' [] [] (node_sample ''c1'')"
  obtain ids found err k' where l: "?l = (Returned (ids, found, err), k')"
    and "err = None" "\<forall>i \<in> set ids. id_Namespace i \<noteq> ''ns''"
  proof -
    have "case fst ?l of Returned (ids, found, err) \<Rightarrow> err = None \<and> list_all (\<lambda>i. id_Namespace i \<noteq> ''ns'') ids | Panicked _ \<Rightarrow> False" by code_simp
    then show thesis using that by (cases ?l) (auto split: outcome.splits simp: list_all_iff)
  qed
  moreover have "sc_IsNamespaced (standard_sample True)" by code_simp
  ultimately show ?thesis using standard_index_panic[of nmi_env_sample "standard_sample True" "''ns''" "''pod''"] by simp
qed

text \<open>
  The search compares client ids without regard to case and the selection with regard to it, so a request that differs from the assigned
  identity in case only is found assigned and then refused.
\<close>

theorem standard_case_mismatch:
  "strings_EqualFold ''C1'' ''c1'' \<and>
   fst (standard_GetIdentities nmi_env_sample (standard_sample False) ''ns'' ''pod'' ''C1'' [] (node_sample ''c1'')) =
     Returned (None, Some (not_found_text ''C1''))"
  by code_simp

section \<open>Tokens\<close>

fun credential_client :: "credential \<Rightarrow> string option" where
  "credential_client (ManagedIdentity c _) = c"
| "credential_client (ClientSecret _ _ c _ _) = Some c"
| "credential_client (MultiTenantSecret _ _ _ c _ _) = Some c"
| "credential_client (ClientCertificate _ _ c _ _ _) = Some c"

fun credential_resource :: "credential \<Rightarrow> string" where
  "credential_resource (ManagedIdentity _ r) = r"
| "credential_resource (ClientSecret _ _ _ _ r) = r"
| "credential_resource (MultiTenantSecret _ _ _ _ _ r) = r"
| "credential_resource (ClientCertificate _ _ _ _ _ r) = r"

text \<open>\<open>obtained ad c r tokens\<close>: the tokens come from one refresh of a credential for client \<open>c\<close> and resource \<open>r\<close>, the primary one first.\<close>

definition obtained :: "'k Adal \<Rightarrow> string \<Rightarrow> string \<Rightarrow> Token list \<Rightarrow> bool" where
  "obtained ad clientID resource tokens \<longleftrightarrow>
     (\<exists>c k token aux k'. ad_Refresh ad c k = (Inr (token, aux), k') \<and> credential_client c = Some clientID \<and>
        credential_resource c = resource \<and> (tokens = [token] \<or> tokens = token # aux))"

lemma fresh_tokens_Inr: "fst (fresh_tokens ad c k) = Inr x \<Longrightarrow> \<exists>k'. ad_Refresh ad c k = (Inr x, k')"
  by (cases "ad_Refresh ad c k") (auto simp: fresh_tokens_def split: option.splits)

lemma fst_one_token: "fst (one_token x) = map_outcome (map_sum (\<lambda>e. e) (\<lambda>t. [t])) (fst x)"
  by (simp add: one_token_def split: prod.splits)

lemma one_token_Inr:
  assumes "fst (one_token (report_token ad op start (case fresh_tokens ad c k of (r, k) \<Rightarrow> (Returned (map_sum (\<lambda>e. e) fst r), k)))) = Returned (Inr tokens)"
    and "credential_client c = Some clientID" "credential_resource c = resource"
  shows "obtained ad clientID resource tokens"
proof -
  obtain r k1 where f: "fresh_tokens ad c k = (r, k1)" by fastforce
  then obtain token aux where r: "r = Inr (token, aux)" "tokens = [token]"
    using assms(1) by (cases r) (auto simp: fst_one_token)
  obtain k' where "ad_Refresh ad c k = (Inr (token, aux), k')" using fresh_tokens_Inr[of ad c k "(token, aux)"] f r(1) by auto
  then show ?thesis using assms(2,3) r(2) unfolding obtained_def by blast
qed

lemma FromMSI_obtained:
  "fst (one_token (GetServicePrincipalTokenFromMSIWithUserAssignedID ad clientID resource k)) = Returned (Inr tokens) \<Longrightarrow>
   obtained ad clientID resource tokens"
  by (cases "ad_Now ad k")
    (auto simp: GetServicePrincipalTokenFromMSIWithUserAssignedID_def intro: one_token_Inr)

lemma Secret_obtained:
  assumes "fst (GetServicePrincipalToken ad e t clientID secret resource aux k) = Returned (Inr tokens)"
  shows "obtained ad clientID resource tokens"
proof -
  obtain start k1 where now: "ad_Now ad k = (start, k1)" by fastforce
  let ?e = "active_directory_endpoint e"
  obtain c r k2 where f: "fresh_tokens ad c k1 = (r, k2)" "credential_client c = Some clientID" "credential_resource c = resource"
    and toks: "map_sum (\<lambda>e. e) (\<lambda>(token, aux). [token]) r = Inr tokens \<or> map_sum (\<lambda>e. e) (\<lambda>(token, aux). token # aux) r = Inr tokens"
  proof (cases "aux = []")
    case True
    obtain r k2 where f: "fresh_tokens ad (ClientSecret ?e t clientID secret resource) k1 = (r, k2)" by fastforce
    show ?thesis by (rule that[OF f]) (use assms now True f in \<open>auto simp: GetServicePrincipalToken_def newServicePrincipalToken_def Let_def split: option.splits\<close>)
  next
    case False
    obtain r k2 where f: "fresh_tokens ad (MultiTenantSecret ?e t aux clientID secret resource) k1 = (r, k2)" by fastforce
    show ?thesis by (rule that[OF f]) (use assms now False f in \<open>auto simp: GetServicePrincipalToken_def newMultiTenantServicePrincipalToken_def Let_def split: option.splits\<close>)
  qed
  obtain token rest where r: "r = Inr (token, rest)" "tokens = [token] \<or> tokens = token # rest" using toks by (cases r) auto
  obtain k' where "ad_Refresh ad c k1 = (Inr (token, rest), k')" using fresh_tokens_Inr[of ad c k1 "(token, rest)"] f(1) r(1) by auto
  then show ?thesis using f(2,3) r(2) unfolding obtained_def by blast
qed

lemma Certificate_obtained:
  "fst (one_token (GetServicePrincipalTokenWithCertificate ad e t clientID cert pw resource k)) = Returned (Inr tokens) \<Longrightarrow>
   obtained ad clientID resource tokens"
proof -
  assume run: "fst (one_token (GetServicePrincipalTokenWithCertificate ad e t clientID cert pw resource k)) = Returned (Inr tokens)"
  obtain start k1 where now: "ad_Now ad k = (start, k1)" by fastforce
  obtain key c' where dec: "ad_NewOAuthConfig ad (active_directory_endpoint e) t = None" "ad_Pkcs12Decode ad cert pw = Inr (RSAKey key, c')"
    using run by (auto simp: GetServicePrincipalTokenWithCertificate_def now Let_def fst_one_token split: option.splits sum.splits prod.splits private_key.splits)
  show ?thesis
    by (rule one_token_Inr[where c = "ClientCertificate (active_directory_endpoint e) t clientID c' (RSAKey key) resource"])
      (use run in \<open>auto simp: GetServicePrincipalTokenWithCertificate_def now Let_def dec\<close>)
qed

lemma GetTokens_obtained:
  assumes "fst (GetTokens env rqClientID rqResource azureID k) = Returned (Inr tokens)"
  shows "obtained (na_adal env) (id_ClientID azureID) rqResource tokens"
  using assms
  by (auto simp: GetTokens_def Let_def split: if_splits prod.splits sum.splits
      dest: FromMSI_obtained Certificate_obtained Secret_obtained)

text \<open>
  (C18) Tokens only for the identity.  The tokens \<^verbatim>\<open>GetTokens\<close> returns come from a refresh of a credential with the client id of the given identity and
  for the requested resource, whatever client id the request names.
\<close>

theorem GetTokens_for_identity:
  assumes "fst (GetTokens env rqClientID rqResource azureID k) = Returned (Inr tokens)"
  shows "obtained (na_adal env) (id_ClientID azureID) rqResource tokens"
  by (rule GetTokens_obtained[OF assms])

theorem GetTokens_for_identity_witness:
  "obtained adal_sample ''c1'' ''https://vault.azure.net''
     [token_for (ManagedIdentity (Some ''c1'') ''https://vault.azure.net'')]"
proof -
  have "fst (GetTokens nmi_env_sample [] ''https://vault.azure.net'' (identity_sample ''c1'') (node_sample ''c1'')) =
      Returned (Inr [token_for (ManagedIdentity (Some ''c1'') ''https://vault.azure.net'')])" by code_simp
  from GetTokens_for_identity[OF this] show ?thesis by (simp add: nmi_env_sample_def identity_sample_def)
qed

end
