(* ===== verification/Server.thy ===== *)
theory Server
  imports NmiIdentity GoRegexp
begin

text \<open>
  \<^verbatim>\<open>pkg/nmi/server/server.go\<close>: NMI's HTTP server, its routes and handlers.

  A request has its parsed query and its headers under canonical names.  A response is what reaches the caller: once the status
  is written, later headers and statuses have no effect.  The rest of the system is the record \<open>ServerEnv\<close> over the
  state \<open>'k\<close>: the Kubernetes client, adal and the timer of \<open>NmiEnv\<close>, the JSON encoder, the HTTP client for the proxied
  requests, and the router of \<^verbatim>\<open>gorilla/mux\<close>.  A handler returns the namespace for the metrics, or panics.
\<close>

section \<open>HTTP\<close>

type_synonym http_header = "(string, string list) gomap"

record Request =
  rq_Method :: string
  rq_Path :: string
  rq_URL :: string
  rq_Query :: "(string, string) gomap"
  rq_Header :: http_header
  rq_RemoteAddr :: string
  rq_Body :: string

record Response =
  rs_Header :: http_header
  rs_Status :: "int option"
  rs_Body :: string

definition StatusOK :: int where "StatusOK = 200"
definition StatusMovedPermanently :: int where "StatusMovedPermanently = 301"
definition StatusBadRequest :: int where "StatusBadRequest = 400"
definition StatusForbidden :: int where "StatusForbidden = 403"
definition StatusNotFound :: int where "StatusNotFound = 404"
definition StatusInternalServerError :: int where "StatusInternalServerError = 500"
definition StatusServiceUnavailable :: int where "StatusServiceUnavailable = 503"

lemmas status_code_defs = StatusOK_def StatusBadRequest_def StatusForbidden_def StatusNotFound_def
  StatusInternalServerError_def StatusServiceUnavailable_def

definition to_upper_char :: "char \<Rightarrow> char" where
  "to_upper_char c = (let n = (of_char c :: nat) in if 97 \<le> n \<and> n \<le> 122 then char_of (n - 32) else c)"

text \<open>\<^verbatim>\<open>textproto.CanonicalMIMEHeaderKey\<close> for a valid header name; the flag says that the next letter is a capital.\<close>

fun canonical_key :: "bool \<Rightarrow> string \<Rightarrow> string" where
  "canonical_key upper [] = []"
| "canonical_key upper (c # cs) = (if upper then to_upper_char c else to_lower_char c) # canonical_key (c = CHR ''-'') cs"

definition header_Get :: "http_header \<Rightarrow> string \<Rightarrow> string" where
  "header_Get h key = (case mget0 [] h (canonical_key True key) of [] \<Rightarrow> [] | v # _ \<Rightarrow> v)"

definition header_Set :: "string \<Rightarrow> string \<Rightarrow> Response \<Rightarrow> Response" where
  "header_Set key v w = (if rs_Status w = None then w\<lparr>rs_Header := mput (canonical_key True key) [v] (rs_Header w)\<rparr> else w)"

definition header_Add :: "string \<Rightarrow> string \<Rightarrow> http_header \<Rightarrow> http_header" where
  "header_Add key v h = mput (canonical_key True key) (mget0 [] h (canonical_key True key) @ [v]) h"

definition WriteHeader :: "int \<Rightarrow> Response \<Rightarrow> Response" where
  "WriteHeader code w = (if rs_Status w = None then w\<lparr>rs_Status := Some code\<rparr> else w)"

definition resp_Write :: "string \<Rightarrow> Response \<Rightarrow> Response" where
  "resp_Write bytes w = (WriteHeader StatusOK w)\<lparr>rs_Body := rs_Body w @ bytes\<rparr>"

definition http_Error :: "string \<Rightarrow> int \<Rightarrow> Response \<Rightarrow> Response" where
  "http_Error msg code w =
     resp_Write (msg @ [CHR 10]) (WriteHeader code (header_Set ''X-Content-Type-Options'' ''nosniff''
       (header_Set ''Content-Type'' ''text/plain; charset=utf-8'' w)))"

definition new_Response :: Response where
  "new_Response = \<lparr>rs_Header = [], rs_Status = None, rs_Body = []\<rparr>"

section \<open>Data\<close>

record Server =
  sv_NMIHost :: string
  sv_NMIPort :: string
  sv_MetadataIP :: string
  sv_MetadataPort :: string
  sv_IPTableUpdateTimeIntervalInSeconds :: int
  sv_MICNamespace :: string
  sv_BlockInstanceMetadata :: bool
  sv_MetadataHeaderRequired :: bool
  sv_SetRetryAfterHeader :: bool
  sv_EnableConntrackDeletion :: bool
  sv_Initialized :: bool
  sv_TokenClient :: TokenClient

record msiResponse =
  mr_AccessToken :: string
  mr_RefreshToken :: string
  mr_ExpiresIn :: string
  mr_ExpiresOn :: string
  mr_NotBefore :: string
  mr_Resource :: string
  mr_Type :: string

record NMIResponse =
  nr_Token :: msiResponse
  nr_ClientID :: string

record MetadataResponse =
  md_Error :: string
  md_ErrorDescription :: string

datatype json_value = JsonMSI msiResponse | JsonMSIs "msiResponse list" | JsonNMI NMIResponse | JsonMetadata MetadataResponse

text \<open>The answer of IMDS: status, headers, and the body or the error of reading it with what was read.\<close>

record proxy_response =
  pr_StatusCode :: int
  pr_Header :: http_header
  pr_Body :: "string"
  pr_ReadError :: "string option"

text \<open>
  The router is told the routes in the order of their registration, each a condition on the path and a handler, and answers a request by a
  redirect to a location, by one of the handlers, or by none.
\<close>

datatype Route = MsiRoute | InvalidTokenRoute | HostRoute | ForbiddenRoute | DefaultRoute

type_synonym mux_route = "(string \<Rightarrow> bool) \<times> Route"

datatype mux_result = Redirect string | Matched Route | NotMatched

record 'k ServerEnv =
  se_nmi :: "'k NmiEnv"
  se_Marshal :: "json_value \<Rightarrow> (string, string) result"
  se_NewRequest :: "string \<Rightarrow> string \<Rightarrow> string option"
  se_Do :: "string \<Rightarrow> string \<Rightarrow> string \<Rightarrow> http_header \<Rightarrow> string \<Rightarrow> 'k \<Rightarrow> (string, proxy_response) result \<times> 'k"
  se_HasReporter :: bool
  se_Mux :: "mux_route list \<Rightarrow> Request \<Rightarrow> mux_result"

definition localhost :: string where "localhost = ''127.0.0.1''"
definition headerRetryAfter :: string where "headerRetryAfter = ''Retry-After''"

definition NewServer :: "string \<Rightarrow> bool \<Rightarrow> bool \<Rightarrow> bool \<Rightarrow> TokenClient \<Rightarrow> Server" where
  "NewServer micNamespace blockInstanceMetadata metadataHeaderRequired setRetryAfterHeader tokenClient =
     \<lparr>sv_NMIHost = [], sv_NMIPort = [], sv_MetadataIP = [], sv_MetadataPort = [],
      sv_IPTableUpdateTimeIntervalInSeconds = 0, sv_MICNamespace = micNamespace,
      sv_BlockInstanceMetadata = blockInstanceMetadata, sv_MetadataHeaderRequired = metadataHeaderRequired,
      sv_SetRetryAfterHeader = setRetryAfterHeader, sv_EnableConntrackDeletion = False, sv_Initialized = False,
      sv_TokenClient = tokenClient\<rparr>"

section \<open>Parsing\<close>

text \<open>\<^verbatim>\<open>net.ParseIP\<close> of a text without a colon: four decimal fields up to 255 without leading zeros.\<close>

definition ipv4_field :: "string \<Rightarrow> bool" where
  "ipv4_field f = (f \<noteq> [] \<and> list_all is_digit f \<and> decimal f \<le> 255 \<and> (length f = 1 \<or> hd f \<noteq> CHR ''0''))"

definition is_ipv4 :: "string \<Rightarrow> bool" where
  "is_ipv4 s = (length (strings_Split (CHR ''.'') s) = 4 \<and> list_all ipv4_field (strings_Split (CHR ''.'') s))"

definition parseRemoteAddr :: "string \<Rightarrow> string" where
  "parseRemoteAddr addr =
     (let n = strings_IndexByte addr (CHR '':'') in
      if n \<le> 1 then []
      else (let hostname = take (nat n) addr in if is_ipv4 hostname then hostname else []))"

definition parseMetadata :: "Request \<Rightarrow> string" where
  "parseMetadata r = header_Get (rq_Header r) ''metadata''"

definition parsePodInfo :: "Request \<Rightarrow> string \<times> string" where
  "parsePodInfo r = (header_Get (rq_Header r) ''podns'', header_Get (rq_Header r) ''podname'')"

record TokenReq =
  tr_ClientID :: string
  tr_ResourceID :: string
  tr_Resource :: string

definition parseTokenRequest :: "Request \<Rightarrow> TokenReq" where
  "parseTokenRequest r =
     (let vals = rq_Query r;
          resourceID = mget0 [] vals ''msi_res_id'';
          resourceID = (if length resourceID = 0 then mget0 [] vals ''mi_res_id'' else resourceID)
      in \<lparr>tr_ClientID = mget0 [] vals ''client_id'', tr_ResourceID = resourceID, tr_Resource = mget0 [] vals ''resource''\<rparr>)"

definition ValidateResourceParamExists :: "TokenReq \<Rightarrow> bool" where
  "ValidateResourceParamExists r = (length (tr_Resource r) \<noteq> 0)"

section \<open>Responses\<close>

definition newMSIResponse :: "Token \<Rightarrow> msiResponse" where
  "newMSIResponse token = \<lparr>mr_AccessToken = tk_AccessToken token, mr_RefreshToken = tk_RefreshToken token,
     mr_ExpiresIn = tk_ExpiresIn token, mr_ExpiresOn = tk_ExpiresOn token, mr_NotBefore = tk_NotBefore token,
     mr_Resource = tk_Resource token, mr_Type = tk_Type token\<rparr>"

definition metadataNotSpecifiedError :: "'k ServerEnv \<Rightarrow> Response \<Rightarrow> Response" where
  "metadataNotSpecifiedError env w =
     (case se_Marshal env (JsonMetadata \<lparr>md_Error = ''invalid_request'',
                                          md_ErrorDescription = ''Required metadata header not specified''\<rparr>) of
        Inl err \<Rightarrow> http_Error err StatusInternalServerError w
      | Inr response \<Rightarrow>
          resp_Write (response @ [CHR 10]) (WriteHeader StatusBadRequest
            (header_Set ''Content-Type'' ''application/json; charset=utf-8'' w)))"

text \<open>A body of known length.\<close>

definition write_body :: "string \<Rightarrow> Response \<Rightarrow> Response" where
  "write_body response w = resp_Write response (header_Set ''Content-Length'' (strconv_Itoa (int (length response))) w)"

definition token_error_code :: "auth_error \<Rightarrow> int" where
  "token_error_code err = (if IsHealthCheckError err then StatusServiceUnavailable else StatusForbidden)"

definition micPattern :: regex where
  "micPattern = rseq [RBegin, RLit False ''mic'', RStar True (RLit False ''-'')]"

definition isMIC :: "Server \<Rightarrow> string \<Rightarrow> string \<Rightarrow> bool" where
  "isMIC s podNS rsName = (strings_EqualFold podNS (sv_MICNamespace s) \<and> MatchString micPattern rsName)"

text \<open>The body, the status and the error.\<close>

definition getTokenForExceptedPod ::
  "'k ServerEnv \<Rightarrow> string \<Rightarrow> string \<Rightarrow> 'k \<Rightarrow> (string \<times> int \<times> string option) outcome \<times> 'k" where
  "getTokenForExceptedPod env rqClientID rqResource k =
     (let ad = na_adal (se_nmi env) in
      case (if rqClientID = [] then GetServicePrincipalTokenFromMSI ad rqResource k
            else GetServicePrincipalTokenFromMSIWithUserAssignedID ad rqClientID rqResource k) of
        (Panicked t, k) \<Rightarrow> (Panicked t, k)
      | (Returned (Inl err), k) \<Rightarrow>
          (Returned ([], StatusForbidden, Some (''failed to get service principal token, error: '' @ auth_error_text err)), k)
      | (Returned (Inr token), k) \<Rightarrow>
          (case se_Marshal env (JsonMSI (newMSIResponse token)) of
             Inl err \<Rightarrow> (Returned ([], StatusInternalServerError, Some (''failed to marshal service principal token, error: '' @ err)), k)
           | Inr response \<Rightarrow> (Returned (response, StatusOK, None), k)))"

section \<open>Handlers\<close>

type_synonym 'k handler_result = "string outcome \<times> Response \<times> 'k"

text \<open>The end of the two token handlers: the identity, its tokens, and the body made from them.\<close>

definition respond_tokens ::
  "'k ServerEnv \<Rightarrow> (Token list \<Rightarrow> json_value outcome) \<Rightarrow> string \<Rightarrow> Response \<Rightarrow> (auth_error, Token list) result outcome \<times> 'k \<Rightarrow> 'k handler_result" where
  "respond_tokens env body ns w r =
     (case r of
        (Panicked t, k) \<Rightarrow> (Panicked t, w, k)
      | (Returned (Inl err), k) \<Rightarrow> (Returned ns, http_Error (auth_error_text err) (token_error_code err) w, k)
      | (Returned (Inr tokens), k) \<Rightarrow>
          (case body tokens of
             Panicked t \<Rightarrow> (Panicked t, w, k)
           | Returned v \<Rightarrow>
               (case se_Marshal env v of
                  Inl err \<Rightarrow> (Returned ns, http_Error err StatusInternalServerError w, k)
                | Inr response \<Rightarrow> (Returned ns, write_body response w, k))))"

definition host_body :: "AzureIdentity \<Rightarrow> Token list \<Rightarrow> json_value outcome" where
  "host_body podID tokens =
     map_outcome (\<lambda>token. JsonNMI \<lparr>nr_Token = newMSIResponse token, nr_ClientID = id_ClientID podID\<rparr>) (index_0 tokens)"

definition msi_body :: "Token list \<Rightarrow> json_value outcome" where
  "msi_body tokens =
     (case tokens of
        [token] \<Rightarrow> Returned (JsonMSI (newMSIResponse token))
      | _ \<Rightarrow> Returned (JsonMSIs (map newMSIResponse tokens)))"

definition hostHandler :: "'k ServerEnv \<Rightarrow> Server \<Rightarrow> Request \<Rightarrow> Response \<Rightarrow> 'k \<Rightarrow> 'k handler_result" where
  "hostHandler env s r w k =
     (let hostIP = parseRemoteAddr (rq_RemoteAddr r); tokenRequest = parseTokenRequest r; (podns, podname) = parsePodInfo r in
      if podns = [] \<or> podname = [] then
        (Returned [], http_Error ''missing 'podname' and 'podns' from request header'' StatusBadRequest w, k)
      else if hostIP \<noteq> localhost then
        (Returned podns, http_Error ''request remote address is not from a host'' StatusInternalServerError w, k)
      else if \<not> ValidateResourceParamExists tokenRequest then
        (Returned podns, http_Error ''parameter resource cannot be empty'' StatusBadRequest w, k)
      else
        (case GetIdentities (se_nmi env) (sv_TokenClient s) podns podname (tr_ClientID tokenRequest) (tr_ResourceID tokenRequest) k of
           (Panicked t, k) \<Rightarrow> (Panicked t, w, k)
         | (Returned (_, Some err), k) \<Rightarrow> (Returned podns, http_Error err StatusNotFound w, k)
         | (Returned (podID, None), k) \<Rightarrow>
             (case deref podID of
                Panicked t \<Rightarrow> (Panicked t, w, k)
              | Returned podID \<Rightarrow>
                  respond_tokens env (host_body podID) podns w
                    (GetTokens (se_nmi env) (tr_ClientID tokenRequest) (tr_Resource tokenRequest) podID k))))"

definition msi_pod :: "'k ServerEnv \<Rightarrow> Server \<Rightarrow> TokenReq \<Rightarrow> string \<Rightarrow> string \<Rightarrow> Response \<Rightarrow> 'k \<Rightarrow> 'k handler_result" where
  "msi_pod env s tokenRequest podns podname w k =
     (case GetIdentities (se_nmi env) (sv_TokenClient s) podns podname (tr_ClientID tokenRequest) (tr_ResourceID tokenRequest) k of
        (Panicked t, k) \<Rightarrow> (Panicked t, w, k)
      | (Returned (_, Some err), k) \<Rightarrow>
          (Returned podns,
           (if sv_SetRetryAfterHeader s then http_Error err StatusServiceUnavailable (header_Set headerRetryAfter ''20'' w)
            else http_Error err StatusNotFound w), k)
      | (Returned (podID, None), k) \<Rightarrow>
          (case deref podID of
             Panicked t \<Rightarrow> (Panicked t, w, k)
           | Returned podID \<Rightarrow>
               respond_tokens env msi_body podns w
                 (GetTokens (se_nmi env) (tr_ClientID tokenRequest) (tr_Resource tokenRequest) podID k)))"

definition msi_excepted :: "'k ServerEnv \<Rightarrow> TokenReq \<Rightarrow> string \<Rightarrow> Response \<Rightarrow> 'k \<Rightarrow> 'k handler_result" where
  "msi_excepted env tokenRequest podns w k =
     (case getTokenForExceptedPod env (tr_ClientID tokenRequest) (tr_Resource tokenRequest) k of
        (Panicked t, k) \<Rightarrow> (Panicked t, w, k)
      | (Returned (_, errorCode, Some err), k) \<Rightarrow> (Returned podns, http_Error err errorCode w, k)
      | (Returned (response, _, None), k) \<Rightarrow> (Returned podns, write_body response w, k))"

definition msiHandler :: "'k ServerEnv \<Rightarrow> Server \<Rightarrow> Request \<Rightarrow> Response \<Rightarrow> 'k \<Rightarrow> 'k handler_result" where
  "msiHandler env s r w k =
     (if sv_MetadataHeaderRequired s \<and> parseMetadata r \<noteq> ''true'' then (Returned [], metadataNotSpecifiedError env w, k)
      else
        (let podIP = parseRemoteAddr (rq_RemoteAddr r); tokenRequest = parseTokenRequest r; kube = na_kube (se_nmi env) in
         if podIP = [] then (Returned [], http_Error ''request remote address is empty'' StatusInternalServerError w, k)
         else if \<not> ValidateResourceParamExists tokenRequest then
           (Returned [], http_Error ''parameter resource cannot be empty'' StatusBadRequest w, k)
         else
           (case kc_GetPodInfo kube podIP k of
              (Inl err, k) \<Rightarrow> (Returned [], http_Error err StatusInternalServerError w, k)
            | (Inr (podns, podname, rsName, matchLabels), k) \<Rightarrow>
                (case kc_ListPodIdentityExceptions kube podns k of
                   (Panicked t, k) \<Rightarrow> (Panicked t, w, k)
                 | (Returned (Inl err), k) \<Rightarrow> (Returned podns, http_Error err StatusInternalServerError w, k)
                 | (Returned (Inr exceptionList), k) \<Rightarrow>
                     if IsPodExcepted matchLabels exceptionList \<or> isMIC s podns rsName
                     then msi_excepted env tokenRequest podns w k
                     else msi_pod env s tokenRequest podns podname w k))))"

definition copyHeader :: "http_header \<Rightarrow> http_header \<Rightarrow> http_header" where
  "copyHeader dst src = fold (\<lambda>(key, vv) h. fold (\<lambda>v h. header_Add key v h) vv h) src dst"

definition defaultPathHandler :: "'k ServerEnv \<Rightarrow> Server \<Rightarrow> Request \<Rightarrow> Response \<Rightarrow> 'k \<Rightarrow> Response \<times> 'k" where
  "defaultPathHandler env s r w k =
     (if sv_MetadataHeaderRequired s \<and> parseMetadata r \<noteq> ''true'' then (metadataNotSpecifiedError env w, k)
      else
        (case se_NewRequest env (rq_Method r) (rq_URL r) of
           Some err \<Rightarrow> (http_Error err StatusInternalServerError w, k)
         | None \<Rightarrow>
             (let host = sv_MetadataIP s @ '':'' @ sv_MetadataPort s in
              case se_Do env (rq_Method r) host (rq_URL r) (copyHeader [] (rq_Header r)) (rq_Body r) k of
                (Inl err, k) \<Rightarrow> (http_Error err StatusInternalServerError w, k)
              | (Inr resp, k) \<Rightarrow>
                  (let w = (case pr_ReadError resp of
                              Some err \<Rightarrow> http_Error err StatusInternalServerError w
                            | None \<Rightarrow> w);
                       w = (if rs_Status w = None then w\<lparr>rs_Header := copyHeader (rs_Header w) (pr_Header resp)\<rparr> else w)
                   in (resp_Write (pr_Body resp) (WriteHeader (pr_StatusCode resp) w), k)))))"

definition forbiddenHandler :: "Response \<Rightarrow> Response" where
  "forbiddenHandler w = http_Error ''Request blocked by AAD Pod Identity NMI'' StatusForbidden w"

definition invalidTokenPathHandler :: "Response \<Rightarrow> Response" where
  "invalidTokenPathHandler w = http_Error ''Invalid request'' StatusBadRequest w"

text \<open>
  \<^verbatim>\<open>appHandler.ServeHTTP\<close>: the content type, the handler, the recovery from a panic, and the metrics of a request that did not
  panic (the status that was written, or 200).
\<close>

definition ServeHTTP ::
  "'k ServerEnv \<Rightarrow> (Request \<Rightarrow> Response \<Rightarrow> 'k \<Rightarrow> 'k handler_result) \<Rightarrow> Request \<Rightarrow> Response \<Rightarrow> 'k \<Rightarrow> Response \<times> 'k" where
  "ServeHTTP env fn r w k =
     (let ad = na_adal (se_nmi env); w = header_Set ''Content-Type'' ''application/json'' w in
      case ad_Now ad k of (start, k) \<Rightarrow>
        (case fn r w k of
           (Panicked t, w, k) \<Rightarrow> (http_Error t StatusInternalServerError w, k)
         | (Returned ns, w, k) \<Rightarrow>
             if se_HasReporter env then
               (case ad_Now ad k of (now, k) \<Rightarrow>
                  (w, ad_Metrics ad (\<lambda>rec. snd (ReportOperationAndStatus (ad_TagNew ad) (rq_Path r)
                        (strconv_Itoa (case rs_Status w of None \<Rightarrow> StatusOK | Some c \<Rightarrow> c)) ns
                        (tr_Resource (parseTokenRequest r)) [M NMIOperationsDurationM (time_Sub now start)] rec)) k))
             else (w, k)))"

section \<open>Routes\<close>

definition tokenPathPattern :: regex where
  "tokenPathPattern = rseq [RBegin, RLit False ''/'', RLit True ''metadata'', RLit False ''/identity/oauth2/token'']"

definition invalidTokenPathPattern :: regex where
  "invalidTokenPathPattern =
     rseq [RLit False ''/'', RLit True ''metadata'', RLit False ''/identity'', RGrp 1 (RStar False RDot), RLit False ''oauth2'',
           RGrp 2 (RStar False RDot), RLit False ''token'']"

definition instancePathPattern :: regex where
  "instancePathPattern = rseq [RBegin, RLit False ''/'', RLit True ''metadata'', RLit False ''/instance'']"

definition hostTokenPathPrefix :: string where "hostTokenPathPrefix = ''/host/token''"

text \<open>
  The routes in the order in which \<^verbatim>\<open>Run\<close> registers them.  A template of \<^verbatim>\<open>PathPrefix\<close> is matched from the start of the path, its variable by
  the expression given with it.
\<close>

definition nmi_routes :: "Server \<Rightarrow> mux_route list" where
  "nmi_routes s =
     [(MatchString tokenPathPattern, MsiRoute),
      (MatchString invalidTokenPathPattern, InvalidTokenRoute),
      (\<lambda>path. strings_HasPrefix path hostTokenPathPrefix, HostRoute)] @
     (if sv_BlockInstanceMetadata s then [(MatchString instancePathPattern, ForbiddenRoute)] else []) @
     [(\<lambda>path. strings_HasPrefix path ''/'', DefaultRoute)]"

text \<open>
  What the router is documented to do: a request is answered by the first route whose condition its path fulfils, unless the router redirects it;
  it redirects a request whose path is not clean (\<^verbatim>\<open>SkipClean\<close> is not set), to the same URL with the path cleaned.
\<close>

definition mux_documented :: "(mux_route list \<Rightarrow> Request \<Rightarrow> mux_result) \<Rightarrow> bool" where
  "mux_documented mux \<longleftrightarrow>
     (\<forall>routes r. case mux routes r of
        Redirect _ \<Rightarrow> True
      | Matched h \<Rightarrow> map_option snd (List.find (\<lambda>(matches, _). matches (rq_Path r)) routes) = Some h
      | NotMatched \<Rightarrow> List.find (\<lambda>(matches, _). matches (rq_Path r)) routes = None)"

definition serve :: "'k ServerEnv \<Rightarrow> Server \<Rightarrow> Request \<Rightarrow> 'k \<Rightarrow> Response \<times> 'k" where
  "serve env s r k =
     (case se_Mux env (nmi_routes s) r of
        Redirect location \<Rightarrow> (WriteHeader StatusMovedPermanently (header_Set ''Location'' location new_Response), k)
      | NotMatched \<Rightarrow> (http_Error ''404 page not found'' StatusNotFound new_Response, k)
      | Matched h \<Rightarrow>
          (case h of
             MsiRoute \<Rightarrow> ServeHTTP env (msiHandler env s) r new_Response k
           | InvalidTokenRoute \<Rightarrow> (invalidTokenPathHandler new_Response, k)
           | HostRoute \<Rightarrow> ServeHTTP env (hostHandler env s) r new_Response k
           | ForbiddenRoute \<Rightarrow> (forbiddenHandler new_Response, k)
           | DefaultRoute \<Rightarrow> defaultPathHandler env s r new_Response k))"

end
