(* ===== verification/ServerProps.thy ===== *)
theory ServerProps
  imports Server GoPath
begin

text \<open>
  Properties of NMI's server: whom it gives tokens to, what it answers, and which requests it passes on to IMDS.
\<close>

section \<open>Responses\<close>

lemma response_simps [simp]:
  "rs_Status (header_Set key v w) = rs_Status w" "rs_Body (header_Set key v w) = rs_Body w"
  "rs_Status (WriteHeader c w) = Some (case rs_Status w of None \<Rightarrow> c | Some d \<Rightarrow> d)" "rs_Body (WriteHeader c w) = rs_Body w"
  "rs_Status (resp_Write b w) = Some (case rs_Status w of None \<Rightarrow> StatusOK | Some d \<Rightarrow> d)" "rs_Body (resp_Write b w) = rs_Body w @ b"
  by (auto simp: header_Set_def WriteHeader_def resp_Write_def split: option.splits)

lemma http_Error_simps [simp]:
  "rs_Status (http_Error msg c w) = Some (case rs_Status w of None \<Rightarrow> c | Some d \<Rightarrow> d)"
  "rs_Body (http_Error msg c w) = rs_Body w @ msg @ [CHR 10]"
  by (simp_all add: http_Error_def split: option.splits)

lemma write_body_simps [simp]:
  "rs_Status (write_body b w) = Some (case rs_Status w of None \<Rightarrow> StatusOK | Some d \<Rightarrow> d)" "rs_Body (write_body b w) = rs_Body w @ b"
  by (simp_all add: write_body_def)

lemma token_error_code_range: "token_error_code err \<in> {StatusForbidden, StatusServiceUnavailable}"
  by (simp add: token_error_code_def)

lemma token_error_code_200 [simp]: "token_error_code err \<noteq> 200"
  by (simp add: token_error_code_def status_code_defs)

lemma metadata_status:
  "rs_Status w = None \<Longrightarrow> rs_Status (metadataNotSpecifiedError env w) \<in> {Some StatusBadRequest, Some StatusInternalServerError}"
  by (simp add: metadataNotSpecifiedError_def split: sum.split)

section \<open>Whom a token is for\<close>

text \<open>The identity a pod is entitled to in a mode, by the caches after the call.\<close>

definition entitled :: "'w KubeEnv \<Rightarrow> TokenClient \<Rightarrow> string \<Rightarrow> string \<Rightarrow> 'w KubeState \<Rightarrow> 'w KubeState \<Rightarrow> AzureIdentity \<Rightarrow> bool" where
  "entitled kenv client podns podname k k' i =
     (case client of
        Standard sc \<Rightarrow> (\<exists>st \<in> {[], AssignedIDAssigned}. i \<in> assigned_ids k' podns podname st) \<and>
          (sc_IsNamespaced sc \<or> IsNamespacedIdentity i \<longrightarrow> id_Namespace i = podns)
      | Managed mc \<Rightarrow> (\<exists>p. GetPod kenv podns podname k = (Inr p, k) \<and> i \<in> bound_ids k' podns (pod_Labels p)) \<and> id_Namespace i = podns)"

lemma GetIdentities_entitled:
  assumes "na_kube env = KubeClient kenv" "GetIdentities env client podns podname cid rid k = (Returned (Some i, None), k')"
  shows "entitled kenv client podns podname k k' i \<and> requested cid rid i"
proof (cases client)
  case (Standard sc)
  then show ?thesis using kube.standard_sound[of env sc podns podname cid rid k i k' kenv] assms
    by (simp add: GetIdentities_def entitled_def)
next
  case (Managed mc)
  then show ?thesis using kube.managed_sound[of env mc podns podname cid rid k i k' kenv] assms
    by (simp add: GetIdentities_def entitled_def KubeClient_def)
qed

lemma respond_tokens_OK:
  assumes "respond_tokens env body ns w (GetTokens nenv cid res i k) = (Returned ns', w', k')" "rs_Status w = None" "rs_Status w' = Some StatusOK"
  shows "\<exists>tokens v b. obtained (na_adal nenv) (id_ClientID i) res tokens \<and> body tokens = Returned v \<and> se_Marshal env v = Inr b \<and>
    rs_Body w' = rs_Body w @ b \<and> ns' = ns"
proof -
  obtain x k1 where t: "GetTokens nenv cid res i k = (x, k1)" by fastforce
  obtain tokens where x: "x = Returned (Inr tokens)"
    using assms t
    by (auto simp: respond_tokens_def status_code_defs split: outcome.splits sum.splits)
  have ob: "obtained (na_adal nenv) (id_ClientID i) res tokens" using GetTokens_obtained[of nenv cid res i k tokens] t x by simp
  show ?thesis using assms ob by (auto simp: respond_tokens_def t x status_code_defs split: outcome.splits sum.splits)
qed

lemma msi_pod_OK:
  assumes "na_kube (se_nmi env) = KubeClient kenv"
    and "msi_pod env s tr podns podname w k = (Returned ns, w', k')" "rs_Status w = None" "rs_Status w' = Some StatusOK"
  shows "\<exists>i k1 tokens v b. entitled kenv (sv_TokenClient s) podns podname k k1 i \<and> requested (tr_ClientID tr) (tr_ResourceID tr) i \<and>
    obtained (na_adal (se_nmi env)) (id_ClientID i) (tr_Resource tr) tokens \<and> msi_body tokens = Returned v \<and>
    se_Marshal env v = Inr b \<and> rs_Body w' = rs_Body w @ b \<and> ns = podns"
proof -
  obtain x k1 where g: "GetIdentities (se_nmi env) (sv_TokenClient s) podns podname (tr_ClientID tr) (tr_ResourceID tr) k = (x, k1)" by fastforce
  obtain i where x: "x = Returned (Some i, None)"
    using assms(2-4) by (auto simp: msi_pod_def g deref_def status_code_defs split: outcome.splits option.splits if_splits)
  have r: "respond_tokens env msi_body podns w (GetTokens (se_nmi env) (tr_ClientID tr) (tr_Resource tr) i k1) = (Returned ns, w', k')"
    using assms(2) by (simp add: msi_pod_def g x)
  show ?thesis
    using GetIdentities_entitled[OF assms(1) g[unfolded x]] respond_tokens_OK[OF r assms(3,4)] by blast
qed

text \<open>What the handler found out about the caller before it served a token.\<close>

lemma msiHandler_OK:
  assumes "msiHandler env s r w k = (Returned ns, w', k')" "rs_Status w = None" "rs_Status w' = Some StatusOK"
  shows "(sv_MetadataHeaderRequired s \<longrightarrow> parseMetadata r = ''true'') \<and>
    (\<exists>podns podname rs ls k1 exs k2. kc_GetPodInfo (na_kube (se_nmi env)) (parseRemoteAddr (rq_RemoteAddr r)) k = (Inr (podns, podname, rs, ls), k1) \<and>
       kc_ListPodIdentityExceptions (na_kube (se_nmi env)) podns k1 = (Returned (Inr exs), k2) \<and>
       (if IsPodExcepted ls exs \<or> isMIC s podns rs then msi_excepted env (parseTokenRequest r) podns w k2
        else msi_pod env s (parseTokenRequest r) podns podname w k2) = (Returned ns, w', k'))"
proof -
  have m: "\<not> (sv_MetadataHeaderRequired s \<and> parseMetadata r \<noteq> ''true'')"
    using assms metadata_status[of w env] by (auto simp: msiHandler_def status_code_defs split: if_splits)
  obtain x k1 where p: "kc_GetPodInfo (na_kube (se_nmi env)) (parseRemoteAddr (rq_RemoteAddr r)) k = (x, k1)" by fastforce
  obtain podns podname rs ls where x: "x = Inr (podns, podname, rs, ls)"
    using assms m p by (cases x) (auto simp: msiHandler_def Let_def status_code_defs split: if_splits)
  obtain y k2 where e: "kc_ListPodIdentityExceptions (na_kube (se_nmi env)) podns k1 = (y, k2)" by fastforce
  obtain exs where y: "y = Returned (Inr exs)"
    using assms m p x e by (auto simp: msiHandler_def Let_def status_code_defs split: if_splits outcome.splits sum.splits)
  have "(if IsPodExcepted ls exs \<or> isMIC s podns rs then msi_excepted env (parseTokenRequest r) podns w k2
        else msi_pod env s (parseTokenRequest r) podns podname w k2) = (Returned ns, w', k')"
    using assms m p x e y by (auto simp: msiHandler_def Let_def status_code_defs split: if_splits)
  then show ?thesis using m p x e y by blast
qed

text \<open>
  (C1) A pod gets tokens for its own identities only.  When NMI answers a token request with 200, the remote address belonged to exactly
  one live pod on the node, and unless this pod is excepted or is the controller, the body holds the tokens of an
  identity this pod is entitled to (assigned to it in standard mode, bound to it in managed mode, in the pod's
  namespace where namespaces count), which is the identity the request names if it names one, and the tokens were
  obtained with the client id of this identity for the requested resource.  If the metadata header is required, the
  request had it.
\<close>

theorem msi_token_for_pod:
  assumes "na_kube (se_nmi env) = KubeClient kenv" "rs_Status w = None"
    and "msiHandler env s r w k = (Returned ns, w', k')" "rs_Status w' = Some StatusOK"
  shows "(sv_MetadataHeaderRequired s \<longrightarrow> parseMetadata r = ''true'') \<and>
    (\<exists>p qs k1 k2 exs. ks_PodInformer k1 = map ObjPod qs \<and> filter (live_at (parseRemoteAddr (rq_RemoteAddr r))) qs = [p] \<and>
      kube_ListPodIdentityExceptions kenv (pod_Namespace p) k1 = (Returned (Inr exs), k2) \<and>
      (IsPodExcepted (pod_Labels p) exs \<or> isMIC s (pod_Namespace p) (getReplicasetName p) \<or>
       (\<exists>i k3 tokens v b. entitled kenv (sv_TokenClient s) (pod_Namespace p) (pod_Name p) k2 k3 i \<and>
          requested (tr_ClientID (parseTokenRequest r)) (tr_ResourceID (parseTokenRequest r)) i \<and>
          obtained (na_adal (se_nmi env)) (id_ClientID i) (tr_Resource (parseTokenRequest r)) tokens \<and>
          msi_body tokens = Returned v \<and> se_Marshal env v = Inr b \<and> rs_Body w' = rs_Body w @ b \<and> ns = pod_Namespace p)))"
proof -
  obtain podns podname rs ls k1 exs k2 where
    m: "sv_MetadataHeaderRequired s \<longrightarrow> parseMetadata r = ''true''" and
    p: "GetPodInfo kenv (parseRemoteAddr (rq_RemoteAddr r)) k = (Inr (podns, podname, rs, ls), k1)" and
    e: "kube_ListPodIdentityExceptions kenv podns k1 = (Returned (Inr exs), k2)" and
    rest: "(if IsPodExcepted ls exs \<or> isMIC s podns rs then msi_excepted env (parseTokenRequest r) podns w k2
        else msi_pod env s (parseTokenRequest r) podns podname w k2) = (Returned ns, w', k')"
    using msiHandler_OK[OF assms(3,2,4)] assms(1) by (auto simp: KubeClient_def)
  obtain qs pod where pod: "ks_PodInformer k1 = map ObjPod qs" "filter (live_at (parseRemoteAddr (rq_RemoteAddr r))) qs = [pod]"
    "podns = pod_Namespace pod" "podname = pod_Name pod" "rs = getReplicasetName pod" "ls = pod_Labels pod"
    using GetPodInfo_sound[OF p] by blast
  have "\<exists>i k3 tokens v b. entitled kenv (sv_TokenClient s) podns podname k2 k3 i \<and>
      requested (tr_ClientID (parseTokenRequest r)) (tr_ResourceID (parseTokenRequest r)) i \<and>
      obtained (na_adal (se_nmi env)) (id_ClientID i) (tr_Resource (parseTokenRequest r)) tokens \<and>
      msi_body tokens = Returned v \<and> se_Marshal env v = Inr b \<and> rs_Body w' = rs_Body w @ b \<and> ns = podns"
    if "\<not> (IsPodExcepted ls exs \<or> isMIC s podns rs)"
    using msi_pod_OK[OF assms(1) _ assms(2,4), of s "parseTokenRequest r" podns podname k2 ns k'] rest that by simp
  then have cases: "IsPodExcepted ls exs \<or> isMIC s podns rs \<or> (\<exists>i k3 tokens v b. entitled kenv (sv_TokenClient s) podns podname k2 k3 i \<and>
      requested (tr_ClientID (parseTokenRequest r)) (tr_ResourceID (parseTokenRequest r)) i \<and>
      obtained (na_adal (se_nmi env)) (id_ClientID i) (tr_Resource (parseTokenRequest r)) tokens \<and>
      msi_body tokens = Returned v \<and> se_Marshal env v = Inr b \<and> rs_Body w' = rs_Body w @ b \<and> ns = podns)" by blast
  show ?thesis
    by (intro conjI m exI[of _ pod] exI[of _ qs] exI[of _ k1] exI[of _ k2] exI[of _ exs])
      (use pod e cases in simp_all)
qed

text \<open>A router that cleans the path of a request as \<^verbatim>\<open>path.Clean\<close> does, but for a slash at the end, redirects what was not clean, and takes the first route.\<close>

definition mux_cleanPath :: "string \<Rightarrow> string" where
  "mux_cleanPath p =
     (if p = [] then ''/''
      else let p = (if hd p = slash then p else slash # p); np = path_Clean p
           in if last p = slash \<and> np \<noteq> ''/'' then np @ ''/'' else np)"

definition mux_sample :: "mux_route list \<Rightarrow> Request \<Rightarrow> mux_result" where
  "mux_sample routes r =
     (if mux_cleanPath (rq_Path r) \<noteq> rq_Path r then Redirect (mux_cleanPath (rq_Path r))
      else case List.find (\<lambda>(matches, _). matches (rq_Path r)) routes of None \<Rightarrow> NotMatched | Some (_, h) \<Rightarrow> Matched h)"

lemma mux_sample_documented: "mux_documented mux_sample"
  by (auto simp: mux_documented_def mux_sample_def split: option.split mux_result.split)

definition server_env_sample :: "mem_api KubeState ServerEnv" where
  "server_env_sample = \<lparr>se_nmi = nmi_env_sample,
     se_Marshal = (\<lambda>v. Inr (case v of JsonMSI m \<Rightarrow> mr_AccessToken m | JsonMSIs ms \<Rightarrow> concat (map mr_AccessToken ms)
       | JsonNMI n \<Rightarrow> mr_AccessToken (nr_Token n) | JsonMetadata e \<Rightarrow> md_Error e)),
     se_NewRequest = (\<lambda>_ _. None),
     se_Do = (\<lambda>_ _ _ _ _ k. (Inr \<lparr>pr_StatusCode = 200, pr_Header = [], pr_Body = ''imds'', pr_ReadError = None\<rparr>, k)),
     se_HasReporter = True, se_Mux = mux_sample\<rparr>"

definition server_sample :: Server where
  "server_sample = NewServer ''default'' True True False (Standard (standard_sample False))"

definition server_node_sample :: "mem_api KubeState" where
  "server_node_sample = (let k = node_sample ''c1'' in k\<lparr>ks_crd := (ks_crd k)\<lparr>cs_client := (cs_client (ks_crd k))\<lparr>
     crd_PodIdentityExceptionInformer := Some (newPodIdentityExceptionInformer newPodIdentityExceptionListWatch)\<rparr>\<rparr>\<rparr>)"

definition token_request_sample :: Request where
  "token_request_sample = \<lparr>rq_Method = ''GET'', rq_Path = ''/metadata/identity/oauth2/token'', rq_URL = ''/metadata/identity/oauth2/token?resource=r'',
     rq_Query = [(''resource'', ''r'')], rq_Header = [(''Metadata'', [''true''])], rq_RemoteAddr = ''10.0.0.4:51000'', rq_Body = []\<rparr>"

theorem msi_token_for_pod_witness:
  "\<exists>ns w' k'. msiHandler server_env_sample server_sample token_request_sample new_Response server_node_sample = (Returned ns, w', k') \<and>
     rs_Status w' = Some StatusOK \<and> rs_Body w' = ''secret'' \<and>
     (\<exists>p qs k1. ks_PodInformer (k1 :: mem_api KubeState) = map ObjPod qs \<and> filter (live_at (parseRemoteAddr (rq_RemoteAddr token_request_sample))) qs = [p])"
proof -
  let ?run = "msiHandler server_env_sample server_sample token_request_sample new_Response server_node_sample"
  obtain x w' k' where run: "?run = (x, w', k')" by (metis prod.exhaust)
  have ok: "returns (fst ?run) \<and> rs_Status (fst (snd ?run)) = Some StatusOK \<and> rs_Body (fst (snd ?run)) = ''secret''" by code_simp
  then obtain ns where x: "x = Returned ns" using run by (auto simp: returns_iff)
  have w': "rs_Status w' = Some StatusOK" "rs_Body w' = ''secret''" using ok run by simp_all
  have kube: "na_kube (se_nmi server_env_sample) = KubeClient kube_env_sample" by (simp add: server_env_sample_def nmi_env_sample_def)
  have new: "rs_Status new_Response = None" by (simp add: new_Response_def)
  show ?thesis using msi_token_for_pod[OF kube new run[unfolded x] w'(1)] run x w' by blast
qed

section \<open>What the server answers\<close>

definition answer_codes :: "int set" where
  "answer_codes = {StatusOK, StatusBadRequest, StatusForbidden, StatusNotFound, StatusInternalServerError, StatusServiceUnavailable}"

text \<open>A handler that panics has written nothing; otherwise it has written one of the codes.\<close>

definition answers :: "Response \<Rightarrow> 'k handler_result \<Rightarrow> bool" where
  "answers w r = (case r of (Panicked _, w', _) \<Rightarrow> w' = w | (Returned _, w', _) \<Rightarrow> \<exists>c \<in> answer_codes. rs_Status w' = Some c)"

lemma answer_codes_simps [simp]: "StatusOK \<in> answer_codes" "StatusBadRequest \<in> answer_codes" "StatusForbidden \<in> answer_codes"
  "StatusNotFound \<in> answer_codes" "StatusInternalServerError \<in> answer_codes" "StatusServiceUnavailable \<in> answer_codes"
  "token_error_code err \<in> answer_codes"
  by (simp_all add: answer_codes_def token_error_code_def)

lemma respond_tokens_answers: "rs_Status w = None \<Longrightarrow> answers w (respond_tokens env body ns w r)"
  by (auto simp: answers_def respond_tokens_def split: prod.split outcome.split sum.split)

lemma msi_excepted_answers: "rs_Status w = None \<Longrightarrow> answers w (msi_excepted env tr podns w k)"
  by (auto simp: answers_def msi_excepted_def getTokenForExceptedPod_def Let_def split: prod.split outcome.split sum.split option.split)

lemma msi_pod_answers: "rs_Status w = None \<Longrightarrow> answers w (msi_pod env s tr podns podname w k)"
  by (auto simp: msi_pod_def respond_tokens_answers split: prod.split outcome.split option.split) (auto simp: answers_def)

lemma msiHandler_answers:
  assumes "rs_Status w = None"
  shows "answers w (msiHandler env s r w k)"
proof -
  have m: "answers w (Returned ns, metadataNotSpecifiedError env w, k)" for ns k
    using metadata_status[OF assms, of env] by (auto simp: answers_def)
  have e: "answers w (Returned ns, http_Error msg c w, k)" if "c \<in> answer_codes" for ns msg c k
    using that assms by (simp add: answers_def)
  show ?thesis
    by (auto simp: msiHandler_def Let_def m e msi_excepted_answers[OF assms] msi_pod_answers[OF assms] split: prod.split sum.split outcome.split)
      (simp_all add: answers_def)
qed

lemma hostHandler_answers:
  assumes "rs_Status w = None"
  shows "answers w (hostHandler env s r w k)"
proof -
  have e: "answers w (Returned ns, http_Error msg c w, k)" if "c \<in> answer_codes" for ns msg c k
    using that assms by (simp add: answers_def)
  show ?thesis
    by (auto simp: hostHandler_def Let_def e respond_tokens_answers[OF assms] split: prod.split outcome.split option.split)
      (simp_all add: answers_def)
qed

lemma ServeHTTP_answers:
  assumes "\<And>w k. rs_Status w = None \<Longrightarrow> answers w (fn r w k)" "rs_Status w = None"
  shows "\<exists>c \<in> answer_codes. rs_Status (fst (ServeHTTP env fn r w k)) = Some c"
proof -
  let ?w = "header_Set ''Content-Type'' ''application/json'' w"
  obtain start k1 where now: "ad_Now (na_adal (se_nmi env)) k = (start, k1)" by fastforce
  obtain x w' k2 where h: "fn r ?w k1 = (x, w', k2)" by (metis prod.exhaust)
  have a: "answers ?w (x, w', k2)" using assms(1)[of ?w k1] assms(2) h by simp
  show ?thesis
  proof (cases x)
    case (Returned ns)
    then have "fst (ServeHTTP env fn r w k) = w'" by (simp add: ServeHTTP_def Let_def now h split: prod.split)
    then show ?thesis using a Returned by (simp add: answers_def)
  next
    case (Panicked t)
    then show ?thesis using a assms(2) by (simp add: ServeHTTP_def Let_def now h answers_def)
  qed
qed

text \<open>
  (C23) Every request gets an answer.  Whatever the router, the API server, IMDS and the token endpoint do, and also when a handler panics, the server
  writes a status: 301 with the location for a request that the router redirects, one of 200, 400, 403, 404, 500 and 503 for every other request
  that it does not hand to the handler that proxies to IMDS.
\<close>

theorem serve_answers:
  "\<exists>c. rs_Status (fst (serve env s r k)) = Some c \<and>
     (case se_Mux env (nmi_routes s) r of
        Redirect location \<Rightarrow> c = StatusMovedPermanently \<and> header_Get (rs_Header (fst (serve env s r k))) ''Location'' = location
      | h \<Rightarrow> h \<noteq> Matched DefaultRoute \<longrightarrow> c \<in> answer_codes)"
proof -
  have new: "rs_Status new_Response = None" by (simp add: new_Response_def)
  note msi = ServeHTTP_answers[where fn = "msiHandler env s" and r = r and env = env and k = k, OF msiHandler_answers new]
  note host = ServeHTTP_answers[where fn = "hostHandler env s" and r = r and env = env and k = k, OF hostHandler_answers new]
  have default: "\<exists>c. rs_Status (fst (defaultPathHandler env s r new_Response k)) = Some c"
    using metadata_status[OF new, of env] by (auto simp: defaultPathHandler_def Let_def split: option.split prod.split sum.split)
  show ?thesis
  proof (cases "se_Mux env (nmi_routes s) r")
    case (Redirect location)
    have key: "canonical_key True ''Location'' = ''Location''" by code_simp
    from Redirect show ?thesis
      by (simp add: serve_def header_Set_def header_Get_def WriteHeader_def new_Response_def key mget0_def)
  next
    case (Matched h)
    then show ?thesis using msi host default by (cases h) (auto simp: serve_def invalidTokenPathHandler_def forbiddenHandler_def new)
  qed (simp add: serve_def new)
qed

text \<open>The witness is a request that NMI serves itself.\<close>

theorem serve_answers_witness:
  "\<exists>c. rs_Status (fst (serve server_env_sample server_sample (token_request_sample\<lparr>rq_Path := ''/host/token''\<rparr>) server_node_sample)) = Some c \<and> c \<in> answer_codes"
proof -
  have "mux_sample (nmi_routes server_sample) (token_request_sample\<lparr>rq_Path := ''/host/token''\<rparr>) = Matched HostRoute" by code_simp
  then have "se_Mux server_env_sample (nmi_routes server_sample) (token_request_sample\<lparr>rq_Path := ''/host/token''\<rparr>) = Matched HostRoute"
    by (simp add: server_env_sample_def)
  then show ?thesis
    using serve_answers[of server_env_sample server_sample "token_request_sample\<lparr>rq_Path := ''/host/token''\<rparr>" server_node_sample] by simp
qed

section \<open>Which requests are passed on\<close>

lemma splits_LitExact: "splits (RLit False l) (\<lambda>w. w = l)"
proof -
  have "lit_matches False l s \<and> drop (length l) s = t \<longleftrightarrow> s = l @ t" for s t
    by (auto simp: lit_matches_def) (metis append_take_drop_id)
  then show ?thesis by (simp add: splits_def reaches_Lit)
qed

lemma splits_StarDot: "splits (RStar g RDot) no_newline"
proof -
  have "(\<exists>k \<le> length s. (\<forall>c \<in> set (take k s). c \<noteq> CHR 10) \<and> drop k s = t) \<longleftrightarrow> (\<exists>w. s = w @ t \<and> no_newline w)" for s t
  proof
    assume "\<exists>k \<le> length s. (\<forall>c \<in> set (take k s). c \<noteq> CHR 10) \<and> drop k s = t"
    then obtain k where "\<forall>c \<in> set (take k s). c \<noteq> CHR 10" "drop k s = t" by blast
    then show "\<exists>w. s = w @ t \<and> no_newline w" unfolding no_newline_def by (metis append_take_drop_id)
  next
    assume "\<exists>w. s = w @ t \<and> no_newline w"
    then obtain w where "s = w @ t" "no_newline w" by blast
    then show "\<exists>k \<le> length s. (\<forall>c \<in> set (take k s). c \<noteq> CHR 10) \<and> drop k s = t"
      by (intro exI[of _ "length w"]) (auto simp: no_newline_def)
  qed
  moreover have "(\<exists>y. reaches (RStar g RDot) x y \<and> rest_of y = t) \<longleftrightarrow>
      (\<exists>k \<le> length (rest_of x). (\<forall>c \<in> set (take k (rest_of x)). c \<noteq> CHR 10) \<and> drop k (rest_of x) = t)" for x t
    unfolding RDot_def reaches_Star_Cls by (metis advance_rest)
  ultimately show ?thesis by (simp add: splits_def)
qed

lemma MatchString_RBegin: "MatchString (RSeq RBegin r) s \<longleftrightarrow> (\<exists>y. reaches r (0, [], s) y)"
  by (force simp: MatchString_iff reaches_Seq reaches_Begin)

lemma MatchString_Begin:
  assumes "splits r P"
  shows "MatchString (RSeq RBegin r) s \<longleftrightarrow> (\<exists>w post. s = w @ post \<and> P w)"
proof -
  have "MatchString (RSeq RBegin r) s \<longleftrightarrow> (\<exists>y. reaches r (0, [], s) y)" by (rule MatchString_RBegin)
  also have "\<dots> \<longleftrightarrow> (\<exists>w post. s = w @ post \<and> P w)"
    using splits_dest[OF assms, of "(0, [], s)"] splits_ex[OF assms, of "(0, [], s)"] by (metis snd_conv)
  finally show ?thesis .
qed

text \<open>A sequence of patterns splits a text into as many parts.\<close>

lemma splits_rseq:
  "list_all2 splits rs Ps \<Longrightarrow> splits (rseq rs) (\<lambda>w. \<exists>ws. w = concat ws \<and> list_all2 (\<lambda>P. P) Ps ws)"
proof (induction rs arbitrary: Ps rule: rseq.induct)
  case 1
  then show ?case by (auto simp: splits_def reaches_Eps)
next
  case (2 r)
  then obtain P where P: "Ps = [P]" "splits r P" by (auto simp: list_all2_Cons1)
  have "(\<exists>ws. w = concat ws \<and> list_all2 (\<lambda>P. P) Ps ws) \<longleftrightarrow> P w" for w
    by (auto simp: P(1) list_all2_Cons1 intro: exI[of _ "[w]"])
  then show ?case using P(2) by simp
next
  case (3 r q rs)
  then obtain P Qs where P: "Ps = P # Qs" "splits r P" "list_all2 splits (q # rs) Qs" by (auto simp: list_all2_Cons1)
  have "(\<lambda>w. \<exists>ws. w = concat ws \<and> list_all2 (\<lambda>P. P) Ps ws) =
      (\<lambda>w. \<exists>u v. w = u @ v \<and> P u \<and> (\<exists>ws. v = concat ws \<and> list_all2 (\<lambda>P. P) Qs ws))"
    unfolding P(1) by (rule ext, rule iffI) (auto simp: list_all2_Cons1, blast, metis concat.simps(2))
  then show ?case using splits_Seq[OF P(2) 3(1)[OF P(3)]] by simp
qed

text \<open>The paths of token requests: anywhere in the path, with anything but line breaks in between.\<close>

definition token_like :: "string \<Rightarrow> bool" where
  "token_like p \<longleftrightarrow> (\<exists>pre m x y post. p = pre @ ''/'' @ m @ ''/identity'' @ x @ ''oauth2'' @ y @ ''token'' @ post \<and>
     strings_EqualFold m ''metadata'' \<and> no_newline x \<and> no_newline y)"

lemma invalidTokenPathPattern_iff: "MatchString invalidTokenPathPattern p \<longleftrightarrow> token_like p"
proof -
  define Ps where "Ps = [(\<lambda>w. w = ''/''), (\<lambda>w. strings_EqualFold w ''metadata''), (\<lambda>w. w = ''/identity''), no_newline,
    (\<lambda>w. w = ''oauth2''), no_newline, (\<lambda>w. w = ''token'')]"
  have "splits invalidTokenPathPattern (\<lambda>w. \<exists>ws. w = concat ws \<and> list_all2 (\<lambda>P. P) Ps ws)"
    unfolding invalidTokenPathPattern_def Ps_def
    by (rule splits_rseq) (simp add: splits_LitExact splits_Lit splits_Grp splits_StarDot)
  note iff = MatchString_splits[OF this, of p]
  have parts: "list_all2 (\<lambda>P. P) Ps ws \<longleftrightarrow> (\<exists>m x y. ws = [''/'', m, ''/identity'', x, ''oauth2'', y, ''token''] \<and>
      strings_EqualFold m ''metadata'' \<and> no_newline x \<and> no_newline y)" for ws
    unfolding Ps_def by (auto simp: list_all2_Cons1)
  show ?thesis
  proof
    assume "MatchString invalidTokenPathPattern p"
    then obtain pre post m x y where "p = pre @ concat [''/'', m, ''/identity'', x, ''oauth2'', y, ''token''] @ post"
      and "strings_EqualFold m ''metadata''" "no_newline x" "no_newline y" unfolding iff parts by blast
    then show "token_like p" unfolding token_like_def concat.simps append_assoc append_Nil by blast
  next
    assume "token_like p"
    then obtain pre post m x y where p: "p = pre @ concat [''/'', m, ''/identity'', x, ''oauth2'', y, ''token''] @ post"
      and "strings_EqualFold m ''metadata''" "no_newline x" "no_newline y"
      unfolding token_like_def concat.simps append_assoc append_Nil by blast
    then show "MatchString invalidTokenPathPattern p" unfolding iff parts by blast
  qed
qed

definition instance_like :: "string \<Rightarrow> bool" where
  "instance_like p \<longleftrightarrow> (\<exists>m post. p = ''/'' @ m @ ''/instance'' @ post \<and> strings_EqualFold m ''metadata'')"

lemma instancePathPattern_iff: "MatchString instancePathPattern p \<longleftrightarrow> instance_like p"
proof -
  define Ps where "Ps = [(\<lambda>w. w = ''/''), (\<lambda>w. strings_EqualFold w ''metadata''), (\<lambda>w. w = ''/instance'')]"
  have pat: "instancePathPattern = RSeq RBegin (rseq [RLit False ''/'', RLit True ''metadata'', RLit False ''/instance''])"
    by (simp add: instancePathPattern_def)
  have "splits (rseq [RLit False ''/'', RLit True ''metadata'', RLit False ''/instance'']) (\<lambda>w. \<exists>ws. w = concat ws \<and> list_all2 (\<lambda>P. P) Ps ws)"
    unfolding Ps_def by (rule splits_rseq) (simp add: splits_LitExact splits_Lit)
  note iff = MatchString_Begin[OF this, of p, folded pat]
  have parts: "list_all2 (\<lambda>P. P) Ps ws \<longleftrightarrow> (\<exists>m. ws = [''/'', m, ''/instance''] \<and> strings_EqualFold m ''metadata'')" for ws
    unfolding Ps_def by (auto simp: list_all2_Cons1)
  have "MatchString instancePathPattern p \<longleftrightarrow> (\<exists>m post. p = concat [''/'', m, ''/instance''] @ post \<and> strings_EqualFold m ''metadata'')"
    unfolding iff parts by blast
  then show ?thesis unfolding instance_like_def concat.simps append_assoc append_Nil .
qed

lemma first_of_five:
  "map_option snd (List.find (\<lambda>(matches, _). matches p) ([(a, A), (b, B), (c, C)] @ (if blocked then [(d, D)] else []) @ [(e, E)])) = Some h \<Longrightarrow>
   h = (if a p then A else if b p then B else if c p then C else if blocked \<and> d p then D else E)"
  by (simp split: if_splits)

lemma first_route:
  assumes "mux_documented mux" "mux (nmi_routes s) r = Matched h"
  shows "h = (if MatchString tokenPathPattern (rq_Path r) then MsiRoute
      else if MatchString invalidTokenPathPattern (rq_Path r) then InvalidTokenRoute
      else if strings_HasPrefix (rq_Path r) hostTokenPathPrefix then HostRoute
      else if sv_BlockInstanceMetadata s \<and> MatchString instancePathPattern (rq_Path r) then ForbiddenRoute else DefaultRoute)"
proof -
  have "map_option snd (List.find (\<lambda>(matches, _). matches (rq_Path r)) (nmi_routes s)) = Some h"
    using spec[OF spec[OF assms(1)[unfolded mux_documented_def], of "nmi_routes s"], of r] assms(2) by simp
  then show ?thesis unfolding nmi_routes_def by (rule first_of_five)
qed

text \<open>
  (C17) What IMDS never sees.  A request is answered without contacting IMDS (the answer does not depend on what the HTTP client would return)
  if somewhere in its path there is \<^verbatim>\<open>/metadata/identity\<close>, with \<^verbatim>\<open>metadata\<close> in any case and \<^verbatim>\<open>/identity\<close> in lower case, and after it \<^verbatim>\<open>oauth2\<close> and
  \<^verbatim>\<open>token\<close> with anything but line breaks in between; if it is a host token request; if it asks for instance metadata while that is
  blocked; or if it lacks the metadata header while that is required.  The router takes the first route that matches or redirects.
\<close>

theorem not_passed_to_IMDS:
  assumes "mux_documented (se_Mux env)" "token_like (rq_Path r) \<or> strings_HasPrefix (rq_Path r) ''/host/token'' \<or>
    sv_BlockInstanceMetadata s \<and> instance_like (rq_Path r) \<or> sv_MetadataHeaderRequired s \<and> parseMetadata r \<noteq> ''true''"
  shows "serve (env\<lparr>se_Do := f\<rparr>) s r k = serve env s r k"
proof -
  have rec: "se_nmi (env\<lparr>se_Do := f\<rparr>) = se_nmi env" "se_Marshal (env\<lparr>se_Do := f\<rparr>) = se_Marshal env"
    "se_HasReporter (env\<lparr>se_Do := f\<rparr>) = se_HasReporter env" by simp_all
  have h: "respond_tokens (env\<lparr>se_Do := f\<rparr>) = respond_tokens env" "getTokenForExceptedPod (env\<lparr>se_Do := f\<rparr>) = getTokenForExceptedPod env"
    "metadataNotSpecifiedError (env\<lparr>se_Do := f\<rparr>) = metadataNotSpecifiedError env"
    unfolding respond_tokens_def getTokenForExceptedPod_def metadataNotSpecifiedError_def rec by (rule refl)+
  have p: "msi_pod (env\<lparr>se_Do := f\<rparr>) = msi_pod env" "msi_excepted (env\<lparr>se_Do := f\<rparr>) = msi_excepted env"
    unfolding msi_pod_def msi_excepted_def rec h by (rule refl)+
  have msi: "msiHandler (env\<lparr>se_Do := f\<rparr>) = msiHandler env" unfolding msiHandler_def rec h p by (rule refl)
  have host: "hostHandler (env\<lparr>se_Do := f\<rparr>) = hostHandler env" unfolding hostHandler_def rec h by (rule refl)
  have http: "ServeHTTP (env\<lparr>se_Do := f\<rparr>) = ServeHTTP env" unfolding ServeHTTP_def rec by (rule refl)
  show ?thesis
  proof (cases "se_Mux env (nmi_routes s) r = Matched DefaultRoute")
    case True
    from first_route[OF assms(1) this]
    have "\<not> token_like (rq_Path r)" "\<not> strings_HasPrefix (rq_Path r) ''/host/token''" "\<not> (sv_BlockInstanceMetadata s \<and> instance_like (rq_Path r))"
      by (auto simp: invalidTokenPathPattern_iff instancePathPattern_iff hostTokenPathPrefix_def split: if_splits)
    then have "sv_MetadataHeaderRequired s \<and> parseMetadata r \<noteq> ''true''" using assms(2) by blast
    then show ?thesis using True by (simp add: serve_def defaultPathHandler_def h)
  next
    case False
    then show ?thesis by (simp add: serve_def msi host http split: mux_result.split Route.split)
  qed
qed

theorem not_passed_to_IMDS_witness:
  "serve (server_env_sample\<lparr>se_Do := (\<lambda>_ _ _ _ _ k. (Inl ''unreachable'', k))\<rparr>) server_sample (token_request_sample\<lparr>rq_Path := ''/METADATA/identity/v2/oauth2/token''\<rparr>) server_node_sample =
   serve server_env_sample server_sample (token_request_sample\<lparr>rq_Path := ''/METADATA/identity/v2/oauth2/token''\<rparr>) server_node_sample \<and>
   se_Mux server_env_sample (nmi_routes server_sample) (token_request_sample\<lparr>rq_Path := ''/METADATA/identity/v2/oauth2/token''\<rparr>) = Matched InvalidTokenRoute"
proof
  have "''/METADATA/identity/v2/oauth2/token'' = [] @ ''/'' @ ''METADATA'' @ ''/identity'' @ ''/v2/'' @ ''oauth2'' @ ''/'' @ ''token'' @ []" by simp
  moreover have "strings_EqualFold ''METADATA'' ''metadata''" "no_newline ''/v2/''" "no_newline ''/''" by code_simp+
  ultimately have like: "token_like ''/METADATA/identity/v2/oauth2/token''" unfolding token_like_def by blast
  have mux: "mux_documented (se_Mux server_env_sample)" by (simp add: server_env_sample_def mux_sample_documented)
  show "serve (server_env_sample\<lparr>se_Do := (\<lambda>_ _ _ _ _ k. (Inl ''unreachable'', k))\<rparr>) server_sample (token_request_sample\<lparr>rq_Path := ''/METADATA/identity/v2/oauth2/token''\<rparr>) server_node_sample =
   serve server_env_sample server_sample (token_request_sample\<lparr>rq_Path := ''/METADATA/identity/v2/oauth2/token''\<rparr>) server_node_sample"
    by (rule not_passed_to_IMDS[OF mux]) (use like in simp)
  have "mux_sample (nmi_routes server_sample) (token_request_sample\<lparr>rq_Path := ''/METADATA/identity/v2/oauth2/token''\<rparr>) = Matched InvalidTokenRoute" by code_simp
  then show "se_Mux server_env_sample (nmi_routes server_sample) (token_request_sample\<lparr>rq_Path := ''/METADATA/identity/v2/oauth2/token''\<rparr>) = Matched InvalidTokenRoute"
    by (simp add: server_env_sample_def)
qed

section \<open>Requests of the host\<close>

text \<open>
  (C16) The host endpoint serves the host only.  A request to it that is answered with 200 came from 127.0.0.1 and named a pod and a resource, and
  the body holds a token of an identity this pod is entitled to, with the client id of the identity.
\<close>

theorem host_token_for_pod:
  assumes "na_kube (se_nmi env) = KubeClient kenv" "rs_Status w = None"
    and "hostHandler env s r w k = (Returned ns, w', k')" "rs_Status w' = Some StatusOK"
  shows "parseRemoteAddr (rq_RemoteAddr r) = ''127.0.0.1'' \<and> tr_Resource (parseTokenRequest r) \<noteq> [] \<and> fst (parsePodInfo r) \<noteq> [] \<and> snd (parsePodInfo r) \<noteq> [] \<and>
    (\<exists>i k1 tokens v b. entitled kenv (sv_TokenClient s) (fst (parsePodInfo r)) (snd (parsePodInfo r)) k k1 i \<and>
       requested (tr_ClientID (parseTokenRequest r)) (tr_ResourceID (parseTokenRequest r)) i \<and>
       obtained (na_adal (se_nmi env)) (id_ClientID i) (tr_Resource (parseTokenRequest r)) tokens \<and>
       host_body i tokens = Returned v \<and> se_Marshal env v = Inr b \<and> rs_Body w' = rs_Body w @ b)"
proof -
  let ?tr = "parseTokenRequest r"
  obtain podns podname where pod: "parsePodInfo r = (podns, podname)" by fastforce
  have guards: "podns \<noteq> []" "podname \<noteq> []" "parseRemoteAddr (rq_RemoteAddr r) = localhost" "ValidateResourceParamExists ?tr"
    using assms(2-4) by (auto simp: hostHandler_def Let_def pod status_code_defs split: if_splits)
  obtain x k1 where g: "GetIdentities (se_nmi env) (sv_TokenClient s) podns podname (tr_ClientID ?tr) (tr_ResourceID ?tr) k = (x, k1)" by fastforce
  obtain i where x: "x = Returned (Some i, None)"
    using assms(2-4) guards by (auto simp: hostHandler_def Let_def pod g deref_def status_code_defs split: outcome.splits option.splits)
  have "respond_tokens env (host_body i) podns w (GetTokens (se_nmi env) (tr_ClientID ?tr) (tr_Resource ?tr) i k1) = (Returned ns, w', k')"
    using assms(3) guards by (simp add: hostHandler_def Let_def pod g x)
  from respond_tokens_OK[OF this assms(2,4)] GetIdentities_entitled[OF assms(1) g[unfolded x]] guards show ?thesis
    by (auto simp: pod localhost_def ValidateResourceParamExists_def)
qed

definition host_request_sample :: Request where
  "host_request_sample = token_request_sample\<lparr>rq_Path := ''/host/token'', rq_RemoteAddr := ''127.0.0.1:4000'',
     rq_Header := [(''Podns'', [''ns'']), (''Podname'', [''pod''])]\<rparr>"

theorem host_token_for_pod_witness:
  "\<exists>ns w' k'. hostHandler server_env_sample server_sample host_request_sample new_Response server_node_sample = (Returned ns, w', k') \<and>
     rs_Status w' = Some StatusOK \<and> (\<exists>i k1. entitled kube_env_sample (sv_TokenClient server_sample) ''ns'' ''pod'' server_node_sample k1 i)"
proof -
  let ?run = "hostHandler server_env_sample server_sample host_request_sample new_Response server_node_sample"
  obtain x w' k' where run: "?run = (x, w', k')" by (metis prod.exhaust)
  have ok: "returns (fst ?run) \<and> rs_Status (fst (snd ?run)) = Some StatusOK \<and> parsePodInfo host_request_sample = (''ns'', ''pod'')" by code_simp
  then obtain ns where x: "x = Returned ns" using run by (auto simp: returns_iff)
  have w': "rs_Status w' = Some StatusOK" using ok run by simp
  have kube: "na_kube (se_nmi server_env_sample) = KubeClient kube_env_sample" by (simp add: server_env_sample_def nmi_env_sample_def)
  have new: "rs_Status new_Response = None" by (simp add: new_Response_def)
  have "parsePodInfo host_request_sample = (''ns'', ''pod'')" using ok by simp
  with host_token_for_pod[OF kube new run[unfolded x] w'] run x w' show ?thesis by auto
qed

section \<open>Where the server is laxer than it looks\<close>

lemma lit_matches_prefix: "lit_matches False l s \<longleftrightarrow> prefix l s"
proof
  assume "lit_matches False l s"
  then have "take (length l) s = l" by (simp add: lit_matches_def)
  then show "prefix l s" using take_is_prefix[of "length l" s] by simp
qed (auto simp: lit_matches_def prefix_def)

lemma micPattern_iff: "MatchString micPattern rsName \<longleftrightarrow> prefix ''mic'' rsName"
proof -
  have pat: "micPattern = RSeq RBegin (RSeq (RLit False ''mic'') (RStar True (RLit False ''-'')))" by (simp add: micPattern_def)
  have "reaches (RStar True (RLit False ''-'')) x x" for x
    by (cases "length (rest_of x)") (simp_all add: reaches_def Let_def)
  then have "MatchString micPattern rsName \<longleftrightarrow> lit_matches False ''mic'' rsName"
    unfolding pat MatchString_RBegin reaches_Seq reaches_Lit snd_conv by blast
  also have "\<dots> \<longleftrightarrow> prefix ''mic'' rsName" by (rule lit_matches_prefix)
  finally show ?thesis .
qed

text \<open>
  (C38) The controller is recognised by its name only up to a prefix: in the controller's namespace, every pod whose replica set is named
  \<^verbatim>\<open>mic\<close> and anything after it (\<^verbatim>\<open>microservice-7d\<close>, say) gets any token of the node without a check, because the
  pattern \<^verbatim>\<open>^mic-*\<close> does not ask for the dash.
\<close>

theorem isMIC_prefix: "isMIC s podNS rsName \<longleftrightarrow> strings_EqualFold podNS (sv_MICNamespace s) \<and> prefix ''mic'' rsName"
  by (simp add: isMIC_def micPattern_iff)

text \<open>
  A body of IMDS that cannot be read to the end is passed on all the same: the handler reports the error with status 500 and then goes on
  to write what it has read behind the error text, because it does not return.
\<close>

theorem proxy_read_error:
  assumes "se_Do env (rq_Method r) (sv_MetadataIP s @ '':'' @ sv_MetadataPort s) (rq_URL r) (copyHeader [] (rq_Header r)) (rq_Body r) k = (Inr resp, k')"
    and "pr_ReadError resp = Some err" "se_NewRequest env (rq_Method r) (rq_URL r) = None" "\<not> sv_MetadataHeaderRequired s" "rs_Status w = None"
  shows "rs_Status (fst (defaultPathHandler env s r w k)) = Some StatusInternalServerError \<and>
    rs_Body (fst (defaultPathHandler env s r w k)) = rs_Body w @ err @ [CHR 10] @ pr_Body resp"
  using assms by (simp add: defaultPathHandler_def Let_def)

end
