(* ===== verification/ComputeIdentity.thy ===== *)
theory ComputeIdentity
  imports Prelude
begin

text \<open>
  The identity block of a VM and of a VM scale set: \<^verbatim>\<open>pkg/cloudprovider/identity.go\<close>, \<^verbatim>\<open>truncate.go\<close> and
  the \<^verbatim>\<open>IdentityHolder\<close> and \<^verbatim>\<open>IdentityInfo\<close> implementations of \<^verbatim>\<open>vm.go\<close> and \<^verbatim>\<open>vmss.go\<close>.

  The two SDK structs \<^verbatim>\<open>VirtualMachineIdentity\<close> and \<^verbatim>\<open>VirtualMachineScaleSetIdentity\<close> have the same fields
  and are one record here; the code has every operation twice, and so has this theory.  In
  \<^verbatim>\<open>UserAssignedIdentities\<close> the outer \<open>None\<close> is a nil map, the inner \<open>None\<close> a nil value, which in a PATCH
  body asks for the removal of the key.
\<close>

section \<open>Data\<close>

datatype ResourceIdentityType =
    ResourceIdentityTypeEmpty
  | ResourceIdentityTypeNone
  | ResourceIdentityTypeSystemAssigned
  | ResourceIdentityTypeUserAssigned
  | ResourceIdentityTypeSystemAssignedUserAssigned
  | ResourceIdentityTypeOther string

type_synonym identity_map = "(string, unit option) gomap"

record ComputeIdentity =
  ci_Type :: ResourceIdentityType
  ci_UserAssignedIdentities :: "identity_map option"

record VirtualMachine =
  vm_Identity :: "ComputeIdentity option"
  vm_ProvisioningState :: "string option"

record VirtualMachineScaleSet =
  vmss_Identity :: "ComputeIdentity option"
  vmss_ProvisioningState :: "string option"

definition getUpdatedResourceIdentityType :: "ResourceIdentityType \<Rightarrow> ResourceIdentityType" where
  "getUpdatedResourceIdentityType identityType =
     (case identityType of
        ResourceIdentityTypeEmpty \<Rightarrow> ResourceIdentityTypeUserAssigned
      | ResourceIdentityTypeNone \<Rightarrow> ResourceIdentityTypeUserAssigned
      | ResourceIdentityTypeUserAssigned \<Rightarrow> ResourceIdentityTypeUserAssigned
      | ResourceIdentityTypeSystemAssigned \<Rightarrow> ResourceIdentityTypeSystemAssignedUserAssigned
      | ResourceIdentityTypeSystemAssignedUserAssigned \<Rightarrow> ResourceIdentityTypeSystemAssignedUserAssigned
      | ResourceIdentityTypeOther s \<Rightarrow> ResourceIdentityTypeNone)"

section \<open>\<^verbatim>\<open>truncate.go\<close>\<close>

definition maxIdentitiesCount :: nat where
  "maxIdentitiesCount = 150"

text \<open>The loop over the entries, with the counter \<open>i\<close>: what stays and what goes to \<open>rest\<close>.\<close>

fun truncate_loop :: "nat \<Rightarrow> identity_map \<Rightarrow> identity_map \<times> identity_map" where
  "truncate_loop i [] = ([], [])"
| "truncate_loop i ((k, v) # kvs) =
     (case truncate_loop (Suc i) kvs of (ids, rest) \<Rightarrow>
        if i \<ge> maxIdentitiesCount then (ids, (k, v) # rest) else ((k, v) # ids, rest))"

definition truncateVMIdentities :: "identity_map option \<Rightarrow> identity_map option \<times> identity_map" where
  "truncateVMIdentities ids =
     (case ids of
        None \<Rightarrow> (None, [])
      | Some m \<Rightarrow> (case truncate_loop 0 m of (m', rest) \<Rightarrow> (Some m', rest)))"

definition truncateVMSSIdentities :: "identity_map option \<Rightarrow> identity_map option \<times> identity_map" where
  "truncateVMSSIdentities ids =
     (case ids of
        None \<Rightarrow> (None, [])
      | Some m \<Rightarrow> (case truncate_loop 0 m of (m', rest) \<Rightarrow> (Some m', rest)))"

section \<open>\<^verbatim>\<open>vm.go\<close>\<close>

definition vm_IdentityInfo :: "VirtualMachine \<Rightarrow> ComputeIdentity option" where
  "vm_IdentityInfo vm = vm_Identity vm"

definition vm_ResetIdentity :: "VirtualMachine \<Rightarrow> ComputeIdentity \<times> VirtualMachine" where
  "vm_ResetIdentity vm =
     (let i = \<lparr>ci_Type = ResourceIdentityTypeEmpty, ci_UserAssignedIdentities = None\<rparr>
      in (i, vm\<lparr>vm_Identity := Some i\<rparr>))"

definition vm_GetUserIdentityList :: "ComputeIdentity option \<Rightarrow> string list" where
  "vm_GetUserIdentityList info =
     (case info of
        None \<Rightarrow> []
      | Some i \<Rightarrow> (case ci_UserAssignedIdentities i of None \<Rightarrow> [] | Some m \<Rightarrow> map fst m))"

text \<open>One iteration of the second loop: the node's list and the PATCH map.\<close>

definition vm_set_step ::
  "string \<times> bool \<Rightarrow> (string, bool) gomap \<times> identity_map \<Rightarrow> (string, bool) gomap \<times> identity_map" where
  "vm_set_step entry acc =
     (case entry of (id0, add) \<Rightarrow> case acc of (nodeList, uai) \<Rightarrow>
        let id = strings_ToLower id0;
            present = (map_of nodeList id \<noteq> None);
            (nodeList, uai) =
              (if present \<and> \<not> add then (mdel id nodeList, mput id None uai) else (nodeList, uai))
        in if \<not> present \<and> add then (mput id True nodeList, mput id (Some ()) uai) else (nodeList, uai))"

definition vm_SetUserIdentities :: "(string, bool) gomap \<Rightarrow> ComputeIdentity \<Rightarrow> bool \<times> ComputeIdentity" where
  "vm_SetUserIdentities ids i =
     (let existing = (case ci_UserAssignedIdentities i of None \<Rightarrow> [] | Some m \<Rightarrow> m);
          nodeList = fold (\<lambda>(id, _) nl. mput (strings_ToLower id) True nl) existing [];
          (nodeList, userAssignedIdentities) = fold vm_set_step ids (nodeList, [])
      in if length nodeList = 0 then
           (True, i\<lparr>ci_UserAssignedIdentities := None,
                    ci_Type := (if ci_Type i = ResourceIdentityTypeSystemAssignedUserAssigned
                                then ResourceIdentityTypeSystemAssigned else ResourceIdentityTypeNone)\<rparr>)
         else
           (length userAssignedIdentities > 0,
            i\<lparr>ci_Type := getUpdatedResourceIdentityType (ci_Type i),
              ci_UserAssignedIdentities := Some userAssignedIdentities\<rparr>))"

definition vm_RemoveUserIdentity :: "string \<Rightarrow> ComputeIdentity \<Rightarrow> bool \<times> ComputeIdentity" where
  "vm_RemoveUserIdentity delID0 i =
     (let delID = strings_ToLower delID0 in
      case ci_UserAssignedIdentities i of
        None \<Rightarrow> (False, i)
      | Some m \<Rightarrow>
          if map_of m delID \<noteq> None then (True, i\<lparr>ci_UserAssignedIdentities := Some (mdel delID m)\<rparr>)
          else (False, i))"

section \<open>\<^verbatim>\<open>vmss.go\<close>\<close>

definition vmss_IdentityInfo :: "VirtualMachineScaleSet \<Rightarrow> ComputeIdentity option" where
  "vmss_IdentityInfo vmss = vmss_Identity vmss"

definition vmss_ResetIdentity :: "VirtualMachineScaleSet \<Rightarrow> ComputeIdentity \<times> VirtualMachineScaleSet" where
  "vmss_ResetIdentity vmss =
     (let i = \<lparr>ci_Type = ResourceIdentityTypeUserAssigned, ci_UserAssignedIdentities = Some []\<rparr>
      in (i, vmss\<lparr>vmss_Identity := Some i\<rparr>))"

definition vmss_GetUserIdentityList :: "ComputeIdentity option \<Rightarrow> string list" where
  "vmss_GetUserIdentityList info =
     (case info of
        None \<Rightarrow> []
      | Some i \<Rightarrow> (case ci_UserAssignedIdentities i of None \<Rightarrow> [] | Some m \<Rightarrow> map fst m))"

definition vmss_set_step ::
  "string \<times> bool \<Rightarrow> (string, bool) gomap \<times> identity_map \<Rightarrow> (string, bool) gomap \<times> identity_map" where
  "vmss_set_step entry acc =
     (case entry of (id0, add) \<Rightarrow> case acc of (nodeList, uai) \<Rightarrow>
        let id = strings_ToLower id0;
            present = (map_of nodeList id \<noteq> None);
            (nodeList, uai) =
              (if present \<and> \<not> add then (mdel id nodeList, mput id None uai) else (nodeList, uai))
        in if \<not> present \<and> add then (mput id True nodeList, mput id (Some ()) uai) else (nodeList, uai))"

definition vmss_SetUserIdentities :: "(string, bool) gomap \<Rightarrow> ComputeIdentity \<Rightarrow> bool \<times> ComputeIdentity" where
  "vmss_SetUserIdentities ids i =
     (let existing = (case ci_UserAssignedIdentities i of None \<Rightarrow> [] | Some m \<Rightarrow> m);
          nodeList = fold (\<lambda>(id, _) nl. mput (strings_ToLower id) True nl) existing [];
          (nodeList, userAssignedIdentities) = fold vmss_set_step ids (nodeList, [])
      in if length nodeList = 0 then
           (True, i\<lparr>ci_UserAssignedIdentities := None,
                    ci_Type := (if ci_Type i = ResourceIdentityTypeSystemAssignedUserAssigned
                                then ResourceIdentityTypeSystemAssigned else ResourceIdentityTypeNone)\<rparr>)
         else
           (length userAssignedIdentities > 0,
            i\<lparr>ci_Type := getUpdatedResourceIdentityType (ci_Type i),
              ci_UserAssignedIdentities := Some userAssignedIdentities\<rparr>))"

definition vmss_RemoveUserIdentity :: "string \<Rightarrow> ComputeIdentity \<Rightarrow> bool \<times> ComputeIdentity" where
  "vmss_RemoveUserIdentity delID0 i =
     (let delID = strings_ToLower delID0 in
      case ci_UserAssignedIdentities i of
        None \<Rightarrow> (False, i)
      | Some m \<Rightarrow>
          if map_of m delID \<noteq> None then (True, i\<lparr>ci_UserAssignedIdentities := Some (mdel delID m)\<rparr>)
          else (False, i))"

text \<open>The two implementations agree.\<close>

lemma vmss_same_as_vm:
  "vmss_SetUserIdentities = vm_SetUserIdentities" "vmss_RemoveUserIdentity = vm_RemoveUserIdentity"
  "vmss_GetUserIdentityList = vm_GetUserIdentityList" "truncateVMSSIdentities = truncateVMIdentities"
proof -
  have step: "vmss_set_step = vm_set_step" by (intro ext) (simp add: vmss_set_step_def vm_set_step_def)
  show "vmss_SetUserIdentities = vm_SetUserIdentities"
    by (intro ext) (simp add: vmss_SetUserIdentities_def vm_SetUserIdentities_def step)
qed (intro ext; simp add: vmss_RemoveUserIdentity_def vm_RemoveUserIdentity_def
       vmss_GetUserIdentityList_def vm_GetUserIdentityList_def
       truncateVMSSIdentities_def truncateVMIdentities_def)+

section \<open>The abstract view\<close>

text \<open>
  What a node's identity block stands for: the set of its user-assigned identities, up to case.  A
  request is a set to add and a set to remove; adding wins.
\<close>

definition node_ids :: "ComputeIdentity \<Rightarrow> string set" where
  "node_ids i = strings_ToLower ` set (vm_GetUserIdentityList (Some i))"

definition added :: "(string, bool) gomap \<Rightarrow> string set" where
  "added ids = {strings_ToLower id | id. (id, True) \<in> set ids}"

definition removed :: "(string, bool) gomap \<Rightarrow> string set" where
  "removed ids = {strings_ToLower id | id. (id, False) \<in> set ids}"

definition target_ids :: "(string, bool) gomap \<Rightarrow> string set \<Rightarrow> string set" where
  "target_ids ids S = (S - removed ids) \<union> added ids"

text \<open>
  What a PATCH body asks for on a node that holds the identities \<open>S\<close>: a nil map asks for none; otherwise a
  nil value removes its key, a value adds it, and what the body does not mention stays.
\<close>

definition merge_patch :: "identity_map option \<Rightarrow> string set \<Rightarrow> string set" where
  "merge_patch body S =
     (case body of
        None \<Rightarrow> {}
      | Some m \<Rightarrow> (S - {k. map_of m k = Some None}) \<union> {k. map_of m k = Some (Some ())})"

definition fold_distinct :: "(string, bool) gomap \<Rightarrow> bool" where
  "fold_distinct ids = distinct (map (\<lambda>(id, _). strings_ToLower id) ids)"

lemma added_removed_Cons:
  "added ((k, True) # ids) = insert (strings_ToLower k) (added ids)"
  "added ((k, False) # ids) = added ids"
  "removed ((k, True) # ids) = removed ids"
  "removed ((k, False) # ids) = insert (strings_ToLower k) (removed ids)"
  by (auto simp: added_def removed_def)

lemma added_removed_Nil [simp]: "added [] = {}" "removed [] = {}"
  by (auto simp: added_def removed_def)

lemma added_removed_fresh:
  "strings_ToLower k \<notin> (\<lambda>(id, _). strings_ToLower id) ` set ids \<Longrightarrow>
     strings_ToLower k \<notin> added ids \<and> strings_ToLower k \<notin> removed ids"
  by (force simp: added_def removed_def)

lemma added_removed_disjoint: "fold_distinct ids \<Longrightarrow> added ids \<inter> removed ids = {}"
proof (induction ids)
  case (Cons e ids)
  obtain k b where e: "e = (k, b)" by fastforce
  with Cons.prems have "fold_distinct ids" and fr: "strings_ToLower k \<notin> (\<lambda>(id, _). strings_ToLower id) ` set ids"
    by (auto simp: fold_distinct_def)
  then show ?case using Cons.IH e added_removed_fresh[OF fr] by (cases b) (auto simp: added_removed_Cons)
qed simp

section \<open>The loop of \<^verbatim>\<open>SetUserIdentities\<close>\<close>

text \<open>
  The loop started on the node list \<open>N\<close> and the PATCH map \<open>U\<close>, when no two requested ids differ only by
  case and none is in \<open>U\<close> yet.
\<close>

definition patch_of :: "(string, bool) gomap \<Rightarrow> string set \<Rightarrow> string \<Rightarrow> unit option option" where
  "patch_of ids S k =
     (if k \<in> removed ids \<inter> S then Some None else if k \<in> added ids - S then Some (Some ()) else None)"

lemma vm_set_step_cases:
  "vm_set_step (k, True) (N, U) =
     (if strings_ToLower k \<in> fst ` set N then (N, U)
      else (mput (strings_ToLower k) True N, mput (strings_ToLower k) (Some ()) U))"
  "vm_set_step (k, False) (N, U) =
     (if strings_ToLower k \<in> fst ` set N then (mdel (strings_ToLower k) N, mput (strings_ToLower k) None U)
      else (N, U))"
  by (auto simp: vm_set_step_def Let_def map_of_None_iff)

lemma vm_set_loop:
  assumes "fold_distinct ids" "(\<lambda>(id, _). strings_ToLower id) ` set ids \<inter> fst ` set U = {}"
  shows "case fold vm_set_step ids (N, U) of (N', U') \<Rightarrow>
           fst ` set N' = target_ids ids (fst ` set N) \<and>
           map_of U' = (\<lambda>k. case patch_of ids (fst ` set N) k of Some v \<Rightarrow> Some v | None \<Rightarrow> map_of U k)"
  using assms
proof (induction ids arbitrary: N U)
  case Nil
  then show ?case by (simp add: target_ids_def patch_of_def)
next
  case (Cons e ids)
  obtain k b where e: "e = (k, b)" by fastforce
  define l where "l = strings_ToLower k"
  define N1 U1 where "N1 = fst (vm_set_step e (N, U))" and "U1 = snd (vm_set_step e (N, U))"
  have step: "vm_set_step e (N, U) = (N1, U1)" by (simp add: N1_def U1_def)
  from Cons.prems e have fd: "fold_distinct ids" and fr: "l \<notin> (\<lambda>(id, _). strings_ToLower id) ` set ids"
    and lU: "l \<notin> fst ` set U"
    by (auto simp: fold_distinct_def l_def)
  have fresh: "l \<notin> added ids" "l \<notin> removed ids" using added_removed_fresh fr by (auto simp: l_def)
  have "fst ` set U1 \<subseteq> insert l (fst ` set U)"
    by (cases b) (auto simp: U1_def e vm_set_step_cases l_def)
  then have "(\<lambda>(id, _). strings_ToLower id) ` set ids \<inter> fst ` set U1 = {}"
    using Cons.prems(2) fr unfolding e list.set image_insert by blast
  from Cons.IH[OF fd this, of N1] obtain N' U' where
    f: "fold vm_set_step ids (N1, U1) = (N', U')"
    "fst ` set N' = target_ids ids (fst ` set N1)"
    "map_of U' = (\<lambda>k. case patch_of ids (fst ` set N1) k of Some v \<Rightarrow> Some v | None \<Rightarrow> map_of U1 k)"
    by fastforce
  have N: "target_ids ids (fst ` set N1) = target_ids (e # ids) (fst ` set N)"
    using fresh by (cases b) (auto simp: N1_def e vm_set_step_cases l_def target_ids_def added_removed_Cons)
  have U: "(case patch_of ids (fst ` set N1) x of Some v \<Rightarrow> Some v | None \<Rightarrow> map_of U1 x) =
           (case patch_of (e # ids) (fst ` set N) x of Some v \<Rightarrow> Some v | None \<Rightarrow> map_of U x)" for x
    using fresh lU by (cases b; cases "x = l")
      (auto simp: N1_def U1_def e vm_set_step_cases l_def patch_of_def added_removed_Cons map_of_None_iff)
  show ?case using f N U step by simp
qed

section \<open>\<^verbatim>\<open>SetUserIdentities\<close> against its specification\<close>

lemma node_list_keys:
  "fst ` set (fold (\<lambda>(id, _) nl. mput (strings_ToLower id) True nl) m nl) =
     strings_ToLower ` fst ` set m \<union> fst ` set nl"
proof (induction m arbitrary: nl)
  case (Cons e m)
  then show ?case by (cases e) (simp add: keys_mput)
qed simp

lemma node_ids_eq:
  "node_ids i = strings_ToLower ` fst ` set (case ci_UserAssignedIdentities i of None \<Rightarrow> [] | Some m \<Rightarrow> m)"
  by (auto simp: node_ids_def vm_GetUserIdentityList_def split: option.splits)

lemma vm_SetUserIdentities_cases:
  assumes "fold_distinct ids"
  obtains (Empty) "target_ids ids (node_ids i) = {}"
      "vm_SetUserIdentities ids i = (True, i\<lparr>ci_UserAssignedIdentities := None,
         ci_Type := (if ci_Type i = ResourceIdentityTypeSystemAssignedUserAssigned
                     then ResourceIdentityTypeSystemAssigned else ResourceIdentityTypeNone)\<rparr>)"
  | (Patch) U where "target_ids ids (node_ids i) \<noteq> {}" "map_of U = patch_of ids (node_ids i)"
      "vm_SetUserIdentities ids i =
         (U \<noteq> [], i\<lparr>ci_Type := getUpdatedResourceIdentityType (ci_Type i), ci_UserAssignedIdentities := Some U\<rparr>)"
proof -
  define N where "N = fold (\<lambda>(id, _) nl. mput (strings_ToLower id) True nl)
                        (case ci_UserAssignedIdentities i of None \<Rightarrow> [] | Some m \<Rightarrow> m) ([] :: (string, bool) gomap)"
  have N: "fst ` set N = node_ids i" by (simp add: N_def node_list_keys node_ids_eq)
  obtain N' U' where f: "fold vm_set_step ids (N, []) = (N', U')" by fastforce
  have "fst ` set N' = target_ids ids (node_ids i)" and U: "map_of U' = patch_of ids (node_ids i)"
    using vm_set_loop[OF assms, of "[]" N] f by (auto simp: N fun_eq_iff split: option.splits)
  then have "N' = [] \<longleftrightarrow> target_ids ids (node_ids i) = {}" by auto
  moreover have "vm_SetUserIdentities ids i =
      (if N' = [] then (True, i\<lparr>ci_UserAssignedIdentities := None,
         ci_Type := (if ci_Type i = ResourceIdentityTypeSystemAssignedUserAssigned
                     then ResourceIdentityTypeSystemAssigned else ResourceIdentityTypeNone)\<rparr>)
       else (U' \<noteq> [], i\<lparr>ci_Type := getUpdatedResourceIdentityType (ci_Type i), ci_UserAssignedIdentities := Some U'\<rparr>))"
    using f by (simp add: vm_SetUserIdentities_def Let_def N_def)
  ultimately show ?thesis using U Empty Patch by (cases "N' = []") auto
qed

lemma merge_patch_of:
  assumes "fold_distinct ids" "map_of U = patch_of ids S"
  shows "merge_patch (Some U) S = target_ids ids S"
  using assms added_removed_disjoint[OF assms(1)]
  by (auto simp: merge_patch_def patch_of_def target_ids_def split: if_splits)

lemma patch_empty_iff:
  assumes "fold_distinct ids" "map_of U = patch_of ids S"
  shows "U = [] \<longleftrightarrow> target_ids ids S = S"
proof -
  have "U = [] \<longleftrightarrow> (\<forall>k. patch_of ids S k = None)"
    using assms(2) by (metis list.map_disc_iff map_of_eq_empty_iff map_of.simps(1))
  also have "\<dots> \<longleftrightarrow> removed ids \<inter> S = {} \<and> added ids - S = {}"
    by (auto simp: patch_of_def split: if_splits)
  also have "\<dots> \<longleftrightarrow> target_ids ids S = S"
    using added_removed_disjoint[OF assms(1)] by (auto simp: target_ids_def)
  finally show ?thesis .
qed

text \<open>The contract of an \<^verbatim>\<open>IdentityInfo\<close>, and what its client may conclude.\<close>

locale identity_info =
  fixes get_list :: "ComputeIdentity option \<Rightarrow> string list"
    and set_ids :: "(string, bool) gomap \<Rightarrow> ComputeIdentity \<Rightarrow> bool \<times> ComputeIdentity"
    and remove_id :: "string \<Rightarrow> ComputeIdentity \<Rightarrow> bool \<times> ComputeIdentity"
  assumes get_list_ids: "node_ids i = strings_ToLower ` set (get_list (Some i))"
    and set_ids_patch: "fold_distinct ids \<Longrightarrow>
      merge_patch (ci_UserAssignedIdentities (snd (set_ids ids i))) (node_ids i) = target_ids ids (node_ids i)"
    and set_ids_skip: "fold_distinct ids \<Longrightarrow> \<not> fst (set_ids ids i) \<Longrightarrow> target_ids ids (node_ids i) = node_ids i"
    and set_ids_nil: "fold_distinct ids \<Longrightarrow>
      ci_UserAssignedIdentities (snd (set_ids ids i)) = None \<longleftrightarrow> target_ids ids (node_ids i) = {}"
    and remove_id_shrinks: "node_ids (snd (remove_id d i)) \<subseteq> node_ids i"
begin

text \<open>After the request was carried out, carrying it out once more needs no PATCH or keeps the node empty.\<close>

lemma set_ids_idempotent:
  assumes "fold_distinct ids" "node_ids j = merge_patch (ci_UserAssignedIdentities (snd (set_ids ids i))) (node_ids i)"
  shows "merge_patch (ci_UserAssignedIdentities (snd (set_ids ids j))) (node_ids j) = node_ids j"
proof -
  have "target_ids ids (target_ids ids (node_ids i)) = target_ids ids (node_ids i)"
    using added_removed_disjoint[OF assms(1)] by (auto simp: target_ids_def)
  then have "target_ids ids (node_ids j) = node_ids j" using assms by (simp add: set_ids_patch)
  then show ?thesis using set_ids_patch[OF assms(1), of j] by (simp only:)
qed

lemma added_present:
  "fold_distinct ids \<Longrightarrow> (k, True) \<in> set ids \<Longrightarrow>
     strings_ToLower k \<in> merge_patch (ci_UserAssignedIdentities (snd (set_ids ids i))) (node_ids i)"
  by (auto simp: set_ids_patch target_ids_def added_def)

end

lemma vm_set_ids_patch:
  assumes "fold_distinct ids"
  shows "merge_patch (ci_UserAssignedIdentities (snd (vm_SetUserIdentities ids i))) (node_ids i) =
           target_ids ids (node_ids i)"
proof (cases rule: vm_SetUserIdentities_cases[OF assms, of i, case_names Empty Patch])
  case Empty
  then show ?thesis by (simp add: merge_patch_def)
next
  case (Patch U)
  then show ?thesis using merge_patch_of[OF assms Patch(2)] by simp
qed

lemma vm_set_ids_skip:
  assumes "fold_distinct ids" "\<not> fst (vm_SetUserIdentities ids i)"
  shows "target_ids ids (node_ids i) = node_ids i"
proof (cases rule: vm_SetUserIdentities_cases[OF assms(1), of i, case_names Empty Patch])
  case Empty
  then show ?thesis using assms(2) by simp
next
  case (Patch U)
  then show ?thesis using patch_empty_iff[OF assms(1) Patch(2)] assms(2) by simp
qed

lemma vm_set_ids_nil:
  assumes "fold_distinct ids"
  shows "ci_UserAssignedIdentities (snd (vm_SetUserIdentities ids i)) = None \<longleftrightarrow> target_ids ids (node_ids i) = {}"
  by (cases rule: vm_SetUserIdentities_cases[OF assms, of i, case_names Empty Patch]) simp_all

lemma vm_remove_id:
  "node_ids (snd (vm_RemoveUserIdentity d i)) \<subseteq> node_ids i"
  by (auto simp: node_ids_eq vm_RemoveUserIdentity_def Let_def split: option.splits)

interpretation vm: identity_info vm_GetUserIdentityList vm_SetUserIdentities vm_RemoveUserIdentity
proof
  show "node_ids i = strings_ToLower ` set (vm_GetUserIdentityList (Some i))" for i
    by (rule node_ids_def)
qed (fact vm_set_ids_patch vm_set_ids_skip vm_set_ids_nil vm_remove_id)+

interpretation vmss: identity_info vmss_GetUserIdentityList vmss_SetUserIdentities vmss_RemoveUserIdentity
  unfolding vmss_same_as_vm by (rule vm.identity_info_axioms)

section \<open>Truncation\<close>

lemma truncate_loop_take_drop:
  "truncate_loop i m = (take (maxIdentitiesCount - i) m, drop (maxIdentitiesCount - i) m)"
proof (induction m arbitrary: i)
  case (Cons e m)
  obtain k v where e: "e = (k, v)" by fastforce
  show ?case
  proof (cases "i \<ge> maxIdentitiesCount")
    case True
    then show ?thesis using Cons.IH[of "Suc i"] e by simp
  next
    case False
    then have "maxIdentitiesCount - i = Suc (maxIdentitiesCount - Suc i)" by simp
    then show ?thesis using Cons.IH[of "Suc i"] e False by simp
  qed
qed simp

lemma truncateVMIdentities_eq:
  "truncateVMIdentities ids = (map_option (take maxIdentitiesCount) ids, drop maxIdentitiesCount (case ids of None \<Rightarrow> [] | Some m \<Rightarrow> m))"
  by (auto simp: truncateVMIdentities_def truncate_loop_take_drop split: option.splits)

text \<open>Carrying out the two parts of a PATCH map one after the other is carrying out the whole.\<close>

lemma merge_patch_append:
  assumes "wf_map (m @ m')"
  shows "merge_patch (Some m') (merge_patch (Some m) S) = merge_patch (Some (m @ m')) S"
proof -
  have "map_of m' k = None \<or> map_of m k = None" for k
    using assms by (auto simp: map_of_None_iff)
  then show ?thesis
    by (auto simp: merge_patch_def map_add_def split: option.splits) (metis option.distinct(1))+
qed

section \<open>Properties\<close>

text \<open>
  (C21) \<^verbatim>\<open>SetUserIdentities\<close> on a VM refines the abstract update: the PATCH body it leaves, carried out
  on the node's current identities, gives the current ones less the removed ones plus the added
  ones, all up to case; and when it reports that no PATCH is needed nothing has to change.  No two
  requested ids may differ only by case.
\<close>

theorem vm_SetUserIdentities_refines:
  assumes "fold_distinct ids"
  shows "merge_patch (ci_UserAssignedIdentities (snd (vm_SetUserIdentities ids i))) (node_ids i) =
           (node_ids i - removed ids) \<union> added ids \<and>
         (\<not> fst (vm_SetUserIdentities ids i) \<longrightarrow> (node_ids i - removed ids) \<union> added ids = node_ids i)"
  using vm.set_ids_patch[OF assms, of i] vm.set_ids_skip[OF assms, of i]
  unfolding target_ids_def by blast

definition sample_identity :: ComputeIdentity where
  "sample_identity = \<lparr>ci_Type = ResourceIdentityTypeSystemAssigned,
     ci_UserAssignedIdentities = Some [(''A'', Some ()), (''b'', Some ())]\<rparr>"

lemma sample_SetUserIdentities:
  "vm_SetUserIdentities [(''a'', False), (''C'', True)] sample_identity =
     (True, \<lparr>ci_Type = ResourceIdentityTypeSystemAssignedUserAssigned,
        ci_UserAssignedIdentities = Some [(''a'', None), (''c'', Some ())]\<rparr>)"
  by code_simp

lemma sample_request_distinct: "fold_distinct [(''a'', False), (''C'', True)]"
  by code_simp

theorem vm_SetUserIdentities_refines_witness:
  "merge_patch (Some [(''a'', None), (''c'', Some ())]) (node_ids sample_identity) =
     (node_ids sample_identity - removed [(''a'', False), (''C'', True)]) \<union> added [(''a'', False), (''C'', True)]"
  using vm_SetUserIdentities_refines[OF sample_request_distinct, of sample_identity]
  by (simp add: sample_SetUserIdentities)

text \<open>
  The PATCH body of a VM scale set mentions exactly the identities that change: a removed id that
  the scale set has (nil value), an added id that it does not have (a value), and nothing else.  When no
  identity would be left the body has no map at all and the type drops its user-assigned part.
\<close>

theorem vmss_SetUserIdentities_minimal:
  assumes "fold_distinct ids" "S = node_ids i" "T = (S - removed ids) \<union> added ids"
    "vmss_SetUserIdentities ids i = (changed, j)"
  shows "if T = {} then changed \<and> ci_UserAssignedIdentities j = None \<and>
             ci_Type j \<in> {ResourceIdentityTypeSystemAssigned, ResourceIdentityTypeNone}
         else changed = (T \<noteq> S) \<and> ci_Type j = getUpdatedResourceIdentityType (ci_Type i) \<and>
             (\<exists>U. ci_UserAssignedIdentities j = Some U \<and>
                (\<forall>k. map_of U k = (if k \<in> removed ids \<inter> S then Some None
                                else if k \<in> added ids - S then Some (Some ()) else None)))"
proof (cases rule: vm_SetUserIdentities_cases[OF assms(1), of i, case_names Empty Patch])
  case Empty
  then show ?thesis using assms(2,3,4) by (auto simp: vmss_same_as_vm target_ids_def split: if_splits)
next
  case (Patch U)
  have "(U \<noteq> []) = (T \<noteq> S)"
    using patch_empty_iff[OF assms(1) Patch(2)] assms(2,3) by (simp add: target_ids_def)
  then show ?thesis using Patch assms(2,3,4) by (auto simp: vmss_same_as_vm target_ids_def patch_of_def)
qed

theorem vmss_SetUserIdentities_minimal_witness:
  "\<exists>U. ci_UserAssignedIdentities (snd (vmss_SetUserIdentities [(''a'', False), (''C'', True)] sample_identity)) = Some U \<and>
     (\<forall>k. map_of U k =
        (if k \<in> removed [(''a'', False), (''C'', True)] \<inter> node_ids sample_identity then Some None
         else if k \<in> added [(''a'', False), (''C'', True)] - node_ids sample_identity then Some (Some ()) else None))"
proof -
  have "strings_ToLower ''C'' = ''c''" by code_simp
  then have "''c'' \<in> added [(''a'', False), (''C'', True)]" by (simp add: added_removed_Cons)
  then have ne: "(node_ids sample_identity - removed [(''a'', False), (''C'', True)]) \<union>
      added [(''a'', False), (''C'', True)] \<noteq> {}" by blast
  show ?thesis
    using vmss_SetUserIdentities_minimal[OF sample_request_distinct refl refl
        prod.collapse[symmetric], of sample_identity, unfolded if_not_P[OF ne]]
    by (elim conjE)
qed

text \<open>
  Removing every user-assigned identity from a node whose type is \<^verbatim>\<open>SystemAssigned\<close> alone (it has
  none) is not a no-op: \<^verbatim>\<open>SetUserIdentities\<close> asks for a PATCH that sets the type to \<^verbatim>\<open>None\<close>, which takes the
  system-assigned identity away.
\<close>

theorem vm_SetUserIdentities_drops_system_assigned:
  "vm_SetUserIdentities [(k, False)] \<lparr>ci_Type = ResourceIdentityTypeSystemAssigned, ci_UserAssignedIdentities = None\<rparr> =
     (True, \<lparr>ci_Type = ResourceIdentityTypeNone, ci_UserAssignedIdentities = None\<rparr>)"
  by (simp add: vm_SetUserIdentities_def vm_set_step_cases)

end
