(* ===== verification/Retry.thy ===== *)
theory Retry
  imports Prelude
begin

text \<open>
  \<^verbatim>\<open>pkg/retry/retry.go\<close>.  The retried function and the \<^verbatim>\<open>shouldRetry\<close> callback are closures that read
  and write the caller's variables: they are functions on a state \<open>'w\<close>, threaded through the loop.
  An error is its text, because \<^verbatim>\<open>isRetriable\<close> searches the text.  \<^verbatim>\<open>time.Sleep\<close> has no effect on the
  state.  The locale \<open>retrier\<close> is what a caller of \<^verbatim>\<open>retry.ClientInt\<close> relies on.
\<close>

section \<open>Definitions\<close>

type_synonym 'w Func = "'w \<Rightarrow> string option \<times> 'w"
type_synonym 'w ShouldRetryFunc = "string \<Rightarrow> 'w \<Rightarrow> bool \<times> 'w"

record retry_client =
  retriableErrors :: "(string, bool) gomap"
  maxRetry :: int

definition NewRetryClient :: "int \<Rightarrow> retry_client" where
  "NewRetryClient maxR = \<lparr>retriableErrors = [], maxRetry = maxR\<rparr>"

definition RegisterRetriableErrors :: "string list \<Rightarrow> retry_client \<Rightarrow> retry_client" where
  "RegisterRetriableErrors rerrs c =
     c\<lparr>retriableErrors := fold (\<lambda>rerr m. mput rerr True m) rerrs (retriableErrors c)\<rparr>"

definition UnregisterRetriableErrors :: "string list \<Rightarrow> retry_client \<Rightarrow> retry_client" where
  "UnregisterRetriableErrors rerrs c =
     c\<lparr>retriableErrors := fold (\<lambda>rerr m. mdel rerr m) rerrs (retriableErrors c)\<rparr>"

definition isRetriable :: "retry_client \<Rightarrow> string option \<Rightarrow> bool" where
  "isRetriable c err =
     (case err of
        None \<Rightarrow> False
      | Some e \<Rightarrow> list_ex (\<lambda>rerr. strings_Contains e rerr) (map fst (retriableErrors c)))"

text \<open>The loop, with the number of iterations left and the last error.\<close>

fun retry_loop ::
  "retry_client \<Rightarrow> 'w Func \<Rightarrow> 'w ShouldRetryFunc \<Rightarrow> nat \<Rightarrow> string option \<Rightarrow> 'w \<Rightarrow> 'w" where
  "retry_loop c f shouldRetry 0 rerr w = w"
| "retry_loop c f shouldRetry (Suc n) rerr w =
     (case rerr of
        None \<Rightarrow> w
      | Some e \<Rightarrow>
          if \<not> isRetriable c rerr then w
          else (case shouldRetry e w of
                  (False, w1) \<Rightarrow> w1
                | (True, w1) \<Rightarrow> (case f w1 of (rerr', w2) \<Rightarrow> retry_loop c f shouldRetry n rerr' w2)))"

definition retry_Do :: "retry_client \<Rightarrow> 'w Func \<Rightarrow> 'w ShouldRetryFunc \<Rightarrow> 'w \<Rightarrow> string option \<times> 'w" where
  "retry_Do c f shouldRetry w =
     (case f w of
        (None, w1) \<Rightarrow> (None, w1)
      | (Some err, w1) \<Rightarrow> (Some err, retry_loop c f shouldRetry (nat (maxRetry c)) (Some err) w1))"

section \<open>The contract of a retrier\<close>

locale retrier =
  fixes do_retry :: "'w Func \<Rightarrow> 'w ShouldRetryFunc \<Rightarrow> 'w \<Rightarrow> string option \<times> 'w"
  assumes result_first: "fst (do_retry f s w) = fst (f w)"
    and success_once: "fst (f w) = None \<Longrightarrow> do_retry f s w = f w"
    and invariant: "I w \<Longrightarrow> (\<And>v. I v \<Longrightarrow> I (snd (f v))) \<Longrightarrow>
      (\<And>e v. I v \<Longrightarrow> I (snd (s e v))) \<Longrightarrow> I (snd (do_retry f s w))"
begin

lemma success_iff: "fst (do_retry f s w) = None \<longleftrightarrow> fst (f w) = None"
  by (simp add: result_first)

lemma success_state: "fst (do_retry f s w) = None \<Longrightarrow> snd (do_retry f s w) = snd (f w)"
  by (simp add: success_once result_first)

end

lemma retry_loop_invariant:
  assumes "\<And>v. I v \<Longrightarrow> I (snd (f v))" "\<And>e v. I v \<Longrightarrow> I (snd (s e v))"
  shows "I w \<Longrightarrow> I (retry_loop c f s n e w)"
proof (induction n arbitrary: e w)
  case (Suc n)
  show ?case
  proof (cases "e = None \<or> \<not> isRetriable c e")
    case True
    then show ?thesis using Suc.prems by (cases e) auto
  next
    case False
    then obtain err where e: "e = Some err" by auto
    obtain b w1 where s: "s err w = (b, w1)" by fastforce
    obtain e' w2 where f: "f w1 = (e', w2)" by fastforce
    have "I w1" using assms(2)[OF Suc.prems, of err] s by simp
    then have "I w2" using assms(1)[of w1] f by simp
    then show ?thesis using Suc.IH[of w2 e'] False e s f \<open>I w1\<close> by (cases b) auto
  qed
qed simp

interpretation rc: retrier "retry_Do c" for c
proof
  show "fst (retry_Do c f s w) = fst (f w)" for f s and w :: 'w
    by (cases "f w"; cases "fst (f w)") (auto simp: retry_Do_def)
  show "fst (f w) = None \<Longrightarrow> retry_Do c f s w = f w" for f s and w :: 'w
    by (cases "f w") (simp add: retry_Do_def)
  show "I (snd (retry_Do c f s w))"
    if "I w" "\<And>v. I v \<Longrightarrow> I (snd (f v))" "\<And>e v. I v \<Longrightarrow> I (snd (s e v))" for I f s and w :: 'w
  proof -
    have "I (snd (f w))" using that by blast
    then show ?thesis
      using retry_loop_invariant[of I f s, OF that(2,3)]
      by (cases "f w"; cases "fst (f w)") (auto simp: retry_Do_def)
  qed
qed

section \<open>Bounds\<close>

text \<open>\<open>counted f\<close> is \<open>f\<close> with a counter of its calls beside the state.\<close>

definition counted :: "'w Func \<Rightarrow> (nat \<times> 'w) Func" where
  "counted f = (\<lambda>(n, w). case f w of (e, w') \<Rightarrow> (e, (Suc n, w')))"

definition uncounted :: "'w ShouldRetryFunc \<Rightarrow> (nat \<times> 'w) ShouldRetryFunc" where
  "uncounted s = (\<lambda>e (n, w). case s e w of (b, w') \<Rightarrow> (b, (n, w')))"

lemma retry_loop_calls:
  "fst (retry_loop c (counted f) (uncounted s) n e (k, w)) \<le> k + n"
proof (induction n arbitrary: e k w)
  case (Suc n)
  have "fst (retry_loop c (counted f) (uncounted s) n e' (Suc k, w')) \<le> k + Suc n" for e' w'
    using Suc.IH[of e' "Suc k" w'] by simp
  then show ?case
    by (auto simp: counted_def uncounted_def split: option.splits prod.splits bool.splits)
qed simp

text \<open>
  \<^verbatim>\<open>Do\<close> runs the function at least once and at most \<open>maxRetry\<close> times more, whatever the errors and
  the callback; in particular it terminates.
\<close>

theorem retry_Do_bounded_calls:
  "1 \<le> fst (snd (retry_Do c (counted f) (uncounted s) (0, w))) \<and>
   fst (snd (retry_Do c (counted f) (uncounted s) (0, w))) \<le> 1 + nat (maxRetry c)"
proof -
  obtain e w1 where f: "f w = (e, w1)" by fastforce
  have ge: "1 \<le> fst (retry_loop c (counted f) (uncounted s) n e' (1, w'))" for n e' w'
    by (rule retry_loop_invariant[where I = "\<lambda>x. 1 \<le> fst x"])
      (auto simp: counted_def uncounted_def split: prod.splits)
  show ?thesis
    using f ge retry_loop_calls[of c f s "nat (maxRetry c)" e 1 w1]
    by (cases e) (auto simp: retry_Do_def counted_def)
qed

lemma isRetriable_iff:
  "isRetriable c (Some e) \<longleftrightarrow> (\<exists>rerr \<in> fst ` set (retriableErrors c). sublist rerr e)"
  by (auto simp: isRetriable_def list_ex_iff strings_Contains_sublist)

text \<open>
  After registering a list of errors, exactly the errors whose text contains a registered one (old
  or new) are retried.
\<close>

theorem register_then_retriable:
  "isRetriable (RegisterRetriableErrors rerrs c) (Some e) \<longleftrightarrow>
     isRetriable c (Some e) \<or> list_ex (\<lambda>rerr. sublist rerr e) rerrs"
proof -
  have "fst ` set (fold (\<lambda>rerr m. mput rerr True m) rerrs m) = set rerrs \<union> fst ` set m" for m
    by (induction rerrs arbitrary: m) auto
  then show ?thesis
    unfolding isRetriable_iff by (auto simp: RegisterRetriableErrors_def list_ex_iff)
qed

end
