(* ===== verification/CloudProvider.thy ===== *)
theory CloudProvider
  imports ComputeIdentity Retry Stats Metrics ResourceId
begin

text \<open>
  \<^verbatim>\<open>pkg/cloudprovider\<close>: the VM and VMSS clients (\<^verbatim>\<open>vm.go\<close>, \<^verbatim>\<open>vmss.go\<close>) and the client of
  \<^verbatim>\<open>cloudprovider.go\<close>.

  The Azure SDK is the record \<open>Arm\<close> of functions over a world \<open>'w\<close> (the state of ARM and the clock):
  GET, PATCH and the wait for a PATCH, the clock, the RFC 1123 parser, the printing of a time, the
  tag check of OpenCensus, and the order in which Go visits the request map.  An error of the SDK
  is its text together with the HTTP response, if any, of which the code reads one header.  The errors the
  code builds with \<^verbatim>\<open>fmt.Errorf\<close> are concatenated texts: \<^verbatim>\<open>retry\<close> and \<^verbatim>\<open>extractIdentitiesFromError\<close> search them.

  \<open>Cloud\<close> is everything the operations change: the throttling times of the two clients, the
  statistics (after \<^verbatim>\<open>stats.Init\<close>), the recorded metrics and the world.

  \<^verbatim>\<open>UpdateIdentities\<close> receives the resource with a pointer to its identity block.  \<^verbatim>\<open>UpdateUserMSI\<close> makes
  sure that the pointer is not nil; the block is passed and returned as a value.
\<close>

section \<open>State and environment\<close>

record http_response =
  hdr_RetryAfter :: string

record throttle =
  retryAfterReader :: Time
  retryAfterWriter :: Time

record AzureConfig =
  cfg_Cloud :: string
  cfg_TenantID :: string
  cfg_ClientID :: string
  cfg_ClientSecret :: string
  cfg_SubscriptionID :: string
  cfg_ResourceGroupName :: string
  cfg_SecurityGroupName :: string
  cfg_VMType :: string
  cfg_UseManagedIdentityExtension :: bool
  cfg_UserAssignedIdentityID :: string

definition zero_AzureConfig :: AzureConfig where
  "zero_AzureConfig = \<lparr>cfg_Cloud = [], cfg_TenantID = [], cfg_ClientID = [], cfg_ClientSecret = [], cfg_SubscriptionID = [],
     cfg_ResourceGroupName = [], cfg_SecurityGroupName = [], cfg_VMType = [], cfg_UseManagedIdentityExtension = False,
     cfg_UserAssignedIdentityID = []\<rparr>"

record 'w Cloud =
  cl_VMClient :: throttle
  cl_VMSSClient :: throttle
  cl_RetryClient :: retry_client
  cl_Config :: AzureConfig
  cl_stats :: stats
  cl_metrics :: recorded
  cl_world :: 'w

record 'w Arm =
  arm_Now :: "'w \<Rightarrow> Time \<times> 'w"
  arm_ParseRFC1123 :: "string \<Rightarrow> Time option"
  arm_ShowTime :: "Time \<Rightarrow> string"
  arm_TagNew :: tag_new
  arm_RangeIds :: "(string, bool) gomap \<Rightarrow> (string, bool) gomap"
  arm_VMGet :: "string \<Rightarrow> string \<Rightarrow> 'w \<Rightarrow> (string \<times> http_response option, VirtualMachine) result \<times> 'w"
  arm_VMUpdate :: "string \<Rightarrow> string \<Rightarrow> ComputeIdentity option \<Rightarrow> 'w \<Rightarrow> (string \<times> http_response option) option \<times> 'w"
  arm_VMWait :: "'w \<Rightarrow> string option \<times> 'w"
  arm_VMSSGet :: "string \<Rightarrow> string \<Rightarrow> 'w \<Rightarrow> (string \<times> http_response option, VirtualMachineScaleSet) result \<times> 'w"
  arm_VMSSUpdate :: "string \<Rightarrow> string \<Rightarrow> ComputeIdentity option \<Rightarrow> 'w \<Rightarrow> (string \<times> http_response option) option \<times> 'w"
  arm_VMSSWait :: "'w \<Rightarrow> string option \<times> 'w"

definition time_Now :: "'w Arm \<Rightarrow> 'w Cloud \<Rightarrow> Time \<times> 'w Cloud" where
  "time_Now arm c = (case arm_Now arm (cl_world c) of (t, w) \<Rightarrow> (t, c\<lparr>cl_world := w\<rparr>))"

definition ProvisioningStateDeleting :: string where
  "ProvisioningStateDeleting = ''Deleting''"

text \<open>\<^verbatim>\<open>getRetryAfter\<close>: seconds (the product wraps at 64 bits) or a date.\<close>

definition getRetryAfter :: "'w Arm \<Rightarrow> http_response option \<Rightarrow> 'w Cloud \<Rightarrow> Duration \<times> 'w Cloud" where
  "getRetryAfter arm resp c =
     (case resp of
        None \<Rightarrow> (0, c)
      | Some r \<Rightarrow>
          let ra = hdr_RetryAfter r in
          if ra = [] then (0, c)
          else
            let retryAfter = fst (strconv_Atoi ra) in
            if retryAfter > 0 then (wrap64 (retryAfter * time_Second), c)
            else (case arm_ParseRFC1123 arm ra of
                    Some t \<Rightarrow> (case time_Now arm c of (now, c) \<Rightarrow> (time_Sub t now, c))
                  | None \<Rightarrow> (0, c)))"

text \<open>The deferred report of every client operation.\<close>

definition report_cloud :: "'w Arm \<Rightarrow> string \<Rightarrow> Time \<Rightarrow> bool \<Rightarrow> 'w Cloud \<Rightarrow> 'w Cloud" where
  "report_cloud arm operation begin_t failed c =
     (if failed then
        c\<lparr>cl_metrics := snd (ReportCloudProviderOperationError (arm_TagNew arm) operation (cl_metrics c))\<rparr>
      else
        (case time_Now arm c of (t, c) \<Rightarrow>
           c\<lparr>cl_metrics := snd (ReportCloudProviderOperationDuration (arm_TagNew arm) operation
                                (time_Sub t begin_t) (cl_metrics c))\<rparr>))"

section \<open>\<^verbatim>\<open>vm.go\<close>\<close>

definition vm_Get :: "'w Arm \<Rightarrow> string \<Rightarrow> string \<Rightarrow> 'w Cloud \<Rightarrow> (string, VirtualMachine) result \<times> 'w Cloud" where
  "vm_Get arm rgName nodeName c0 =
     (let (begin_t, c) = time_Now arm c0;
          (t, c) = time_Now arm c;
          (r, c) =
            (if retryAfterReader (cl_VMClient c) > t then
               (Inl (''VMGet client throttled, retry after: '' @ arm_ShowTime arm (retryAfterReader (cl_VMClient c))), c)
             else
               (case arm_VMGet arm rgName nodeName (cl_world c) of
                  (Inl (err, resp), w) \<Rightarrow>
                    (let (t, c) = time_Now arm (c\<lparr>cl_world := w\<rparr>);
                         (d, c) = getRetryAfter arm resp c
                     in (Inl (''failed to get vm '' @ nodeName @ '' in resource group '' @ rgName @ '', error: '' @ err),
                         c\<lparr>cl_VMClient := (cl_VMClient c)\<lparr>retryAfterReader := time_Add t d\<rparr>\<rparr>))
                | (Inr vm, w) \<Rightarrow>
                    (let c = c\<lparr>cl_world := w, cl_stats := increment_count TotalGetCalls 1 (cl_stats c)\<rparr>;
                         (t, c) = time_Now arm c
                     in (Inr vm, c\<lparr>cl_stats := aggregate_interval CloudGet begin_t t (cl_stats c)\<rparr>))))
      in (r, report_cloud arm GetVMOperationName begin_t (isl r) c))"

text \<open>
  The loop of \<^verbatim>\<open>UpdateIdentities\<close>.  It writes the batch into the shared identity block before every PATCH;
  the block is part of the result because the caller and a later retry see it.
\<close>

function vm_update_loop ::
  "'w Arm \<Rightarrow> string \<Rightarrow> string \<Rightarrow> Time \<Rightarrow> ComputeIdentity \<Rightarrow> identity_map option \<Rightarrow> 'w Cloud \<Rightarrow>
     string option \<times> ComputeIdentity \<times> 'w Cloud" where
  "vm_update_loop arm rg nodeName begin_t i0 remainingIDs c =
     (case truncateVMIdentities remainingIDs of (batch, rest) \<Rightarrow>
        let i = i0\<lparr>ci_UserAssignedIdentities := batch\<rparr> in
        (case arm_VMUpdate arm rg nodeName (Some i) (cl_world c) of
           (Some (err, resp), w) \<Rightarrow>
             (let (t, c) = time_Now arm (c\<lparr>cl_world := w\<rparr>);
                  (d, c) = getRetryAfter arm resp c
              in (Some (''failed to update identities for '' @ nodeName @ '' in '' @ rg @ '', error: '' @ err), i,
                  c\<lparr>cl_VMClient := (cl_VMClient c)\<lparr>retryAfterWriter := time_Add t d\<rparr>\<rparr>))
         | (None, w) \<Rightarrow>
             (case arm_VMWait arm w of
                (Some err, w) \<Rightarrow>
                  (Some (''failed to wait for identity update completion for vm '' @ nodeName @
                         '' in resource group '' @ rg @ '', error: '' @ err), i, c\<lparr>cl_world := w\<rparr>)
              | (None, w) \<Rightarrow>
                  (let c = c\<lparr>cl_world := w, cl_stats := increment_count TotalPatchCalls 1 (cl_stats c)\<rparr>;
                       (t, c) = time_Now arm c;
                       c = c\<lparr>cl_stats := aggregate_interval CloudPatch begin_t t (cl_stats c)\<rparr>
                   in if length rest > 0 then vm_update_loop arm rg nodeName begin_t i (Some rest) c
                      else (None, i, c)))))"
  by pat_completeness auto

termination
  by (relation "measure (\<lambda>(arm, rg, n, t, i, remaining, c). length (case remaining of None \<Rightarrow> [] | Some m \<Rightarrow> m))")
    (auto simp: vmss_same_as_vm truncateVMIdentities_eq maxIdentitiesCount_def split: option.splits)

declare vm_update_loop.simps [simp del]

definition vm_UpdateIdentities ::
  "'w Arm \<Rightarrow> string \<Rightarrow> string \<Rightarrow> string option \<Rightarrow> ComputeIdentity \<Rightarrow> 'w Cloud \<Rightarrow>
     string option \<times> ComputeIdentity \<times> 'w Cloud" where
  "vm_UpdateIdentities arm rg nodeName provisioningState i c0 =
     (if provisioningState = Some ProvisioningStateDeleting then
        (Some (''failed to update identities for '' @ nodeName @ '' in '' @ rg @ '', vm is in '' @ [CHR 39] @
               ProvisioningStateDeleting @ [CHR 39] @ '' provisioning state''), i, c0)
      else
        let (begin_t, c) = time_Now arm c0;
            (t, c) = time_Now arm c;
            (err, i, c) =
              (if retryAfterWriter (cl_VMClient c) > t then
                 (Some (''VMUpdate client throttled, retry after: '' @ arm_ShowTime arm (retryAfterWriter (cl_VMClient c))), i, c)
               else vm_update_loop arm rg nodeName begin_t i (ci_UserAssignedIdentities i) c)
        in (err, i, report_cloud arm UpdateVMOperationName begin_t (err \<noteq> None) c))"

section \<open>\<^verbatim>\<open>vmss.go\<close>\<close>

text \<open>
  The loop of \<^verbatim>\<open>UpdateIdentities\<close>.  It writes the batch into the shared identity block before every PATCH;
  the block is part of the result because the caller and a later retry see it.
\<close>

function vmss_update_loop ::
  "'w Arm \<Rightarrow> string \<Rightarrow> string \<Rightarrow> Time \<Rightarrow> ComputeIdentity \<Rightarrow> identity_map option \<Rightarrow> 'w Cloud \<Rightarrow>
     string option \<times> ComputeIdentity \<times> 'w Cloud" where
  "vmss_update_loop arm rg vmssName begin_t i0 remainingIDs c =
     (case truncateVMSSIdentities remainingIDs of (batch, rest) \<Rightarrow>
        let i = i0\<lparr>ci_UserAssignedIdentities := batch\<rparr> in
        (case arm_VMSSUpdate arm rg vmssName (Some i) (cl_world c) of
           (Some (err, resp), w) \<Rightarrow>
             (let (t, c) = time_Now arm (c\<lparr>cl_world := w\<rparr>);
                  (d, c) = getRetryAfter arm resp c
              in (Some (''failed to update identities for '' @ vmssName @ '' in '' @ rg @ '', error: '' @ err), i,
                  c\<lparr>cl_VMSSClient := (cl_VMSSClient c)\<lparr>retryAfterWriter := time_Add t d\<rparr>\<rparr>))
         | (None, w) \<Rightarrow>
             (case arm_VMSSWait arm w of
                (Some err, w) \<Rightarrow>
                  (Some (''failed to wait for identity update completion for vmss '' @ vmssName @
                         '' in resource group '' @ rg @ '', error: '' @ err), i, c\<lparr>cl_world := w\<rparr>)
              | (None, w) \<Rightarrow>
                  (let c = c\<lparr>cl_world := w, cl_stats := increment_count TotalPatchCalls 1 (cl_stats c)\<rparr>;
                       (t, c) = time_Now arm c;
                       c = c\<lparr>cl_stats := aggregate_interval CloudPatch begin_t t (cl_stats c)\<rparr>
                   in if length rest > 0 then vmss_update_loop arm rg vmssName begin_t i (Some rest) c
                      else (None, i, c)))))"
  by pat_completeness auto

termination
  by (relation "measure (\<lambda>(arm, rg, n, t, i, remaining, c). length (case remaining of None \<Rightarrow> [] | Some m \<Rightarrow> m))")
    (auto simp: vmss_same_as_vm truncateVMIdentities_eq maxIdentitiesCount_def split: option.splits)

declare vmss_update_loop.simps [simp del]

definition vmss_UpdateIdentities ::
  "'w Arm \<Rightarrow> string \<Rightarrow> string \<Rightarrow> string option \<Rightarrow> ComputeIdentity \<Rightarrow> 'w Cloud \<Rightarrow>
     string option \<times> ComputeIdentity \<times> 'w Cloud" where
  "vmss_UpdateIdentities arm rg vmssName provisioningState i c0 =
     (if provisioningState = Some ProvisioningStateDeleting then
        (Some (''failed to update identities for '' @ vmssName @ '' in '' @ rg @ '', vmss is in '' @
               ProvisioningStateDeleting @ '' provisioning state''), i, c0)
      else
        let (begin_t, c) = time_Now arm c0;
            (t, c) = time_Now arm c;
            (err, i, c) =
              (if retryAfterWriter (cl_VMSSClient c) > t then
                 (Some (''VMSSUpdate client throttled, retry after: '' @ arm_ShowTime arm (retryAfterWriter (cl_VMSSClient c))), i, c)
               else vmss_update_loop arm rg vmssName begin_t i (ci_UserAssignedIdentities i) c)
        in (err, i, report_cloud arm UpdateVMSSOperationName begin_t (err \<noteq> None) c))"

definition vmss_Get :: "'w Arm \<Rightarrow> string \<Rightarrow> string \<Rightarrow> 'w Cloud \<Rightarrow> (string, VirtualMachineScaleSet) result \<times> 'w Cloud" where
  "vmss_Get arm rgName vmssName c0 =
     (let (begin_t, c) = time_Now arm c0;
          (t, c) = time_Now arm c;
          (r, c) =
            (if retryAfterReader (cl_VMSSClient c) > t then
               (Inl (''VMSSGet client throttled, retry after: '' @ arm_ShowTime arm (retryAfterReader (cl_VMSSClient c))), c)
             else
               (case arm_VMSSGet arm rgName vmssName (cl_world c) of
                  (Inl (err, resp), w) \<Rightarrow>
                    (let (t, c) = time_Now arm (c\<lparr>cl_world := w\<rparr>);
                         (d, c) = getRetryAfter arm resp c
                     in (Inl (''failed to get vmss '' @ vmssName @ '' in resource group '' @ rgName @ '', error: '' @ err),
                         c\<lparr>cl_VMSSClient := (cl_VMSSClient c)\<lparr>retryAfterReader := time_Add t d\<rparr>\<rparr>))
                | (Inr vmss, w) \<Rightarrow>
                    (let c = c\<lparr>cl_world := w, cl_stats := increment_count TotalGetCalls 1 (cl_stats c)\<rparr>;
                         (t, c) = time_Now arm c
                     in (Inr vmss, c\<lparr>cl_stats := aggregate_interval CloudGet begin_t t (cl_stats c)\<rparr>))))
      in (r, report_cloud arm GetVmssOperationName begin_t (isl r) c))"

section \<open>\<^verbatim>\<open>cloudprovider.go\<close>\<close>

text \<open>An \<^verbatim>\<open>IdentityHolder\<close> is one of the two resources.\<close>

datatype IdentityHolder = VmHolder VirtualMachine | VmssHolder VirtualMachineScaleSet

definition getIdentityResource :: "'w Arm \<Rightarrow> string \<Rightarrow> bool \<Rightarrow> 'w Cloud \<Rightarrow> (string, IdentityHolder) result \<times> 'w Cloud" where
  "getIdentityResource arm name isvmss c =
     (let rg = cfg_ResourceGroupName (cl_Config c) in
      if isvmss then
        (case vmss_Get arm rg name c of
           (Inl err, c) \<Rightarrow> (Inl (''failed to get vmss '' @ name @ '' in resource group '' @ rg @ '', error: '' @ err), c)
         | (Inr vmss, c) \<Rightarrow> (Inr (VmssHolder vmss), c))
      else
        (case vm_Get arm rg name c of
           (Inl err, c) \<Rightarrow> (Inl (''failed to get vm '' @ name @ '' in resource group '' @ rg @ '', error: '' @ err), c)
         | (Inr vm, c) \<Rightarrow> (Inr (VmHolder vm), c)))"

text \<open>The closure \<^verbatim>\<open>update\<close> and the methods that the two interfaces dispatch.\<close>

definition holder_update :: "'w Arm \<Rightarrow> string \<Rightarrow> string \<Rightarrow> IdentityHolder \<Rightarrow> (ComputeIdentity \<times> 'w Cloud) Func" where
  "holder_update arm rg name h =
     (\<lambda>(i, c). case h of
        VmHolder vm \<Rightarrow> vm_UpdateIdentities arm rg name (vm_ProvisioningState vm) i c
      | VmssHolder vmss \<Rightarrow> vmss_UpdateIdentities arm rg name (vmss_ProvisioningState vmss) i c)"

definition holder_IdentityInfo :: "IdentityHolder \<Rightarrow> ComputeIdentity option" where
  "holder_IdentityInfo h = (case h of VmHolder vm \<Rightarrow> vm_IdentityInfo vm | VmssHolder vmss \<Rightarrow> vmss_IdentityInfo vmss)"

definition holder_ResetIdentity :: "IdentityHolder \<Rightarrow> ComputeIdentity" where
  "holder_ResetIdentity h =
     (case h of VmHolder vm \<Rightarrow> fst (vm_ResetIdentity vm) | VmssHolder vmss \<Rightarrow> fst (vmss_ResetIdentity vmss))"

definition info_GetUserIdentityList :: "IdentityHolder \<Rightarrow> ComputeIdentity option \<Rightarrow> string list" where
  "info_GetUserIdentityList h =
     (case h of VmHolder vm \<Rightarrow> vm_GetUserIdentityList | VmssHolder vmss \<Rightarrow> vmss_GetUserIdentityList)"

definition info_SetUserIdentities ::
  "IdentityHolder \<Rightarrow> (string, bool) gomap \<Rightarrow> ComputeIdentity \<Rightarrow> bool \<times> ComputeIdentity" where
  "info_SetUserIdentities h =
     (case h of VmHolder vm \<Rightarrow> vm_SetUserIdentities | VmssHolder vmss \<Rightarrow> vmss_SetUserIdentities)"

definition info_RemoveUserIdentity :: "IdentityHolder \<Rightarrow> string \<Rightarrow> ComputeIdentity \<Rightarrow> bool \<times> ComputeIdentity" where
  "info_RemoveUserIdentity h =
     (case h of VmHolder vm \<Rightarrow> vm_RemoveUserIdentity | VmssHolder vmss \<Rightarrow> vmss_RemoveUserIdentity)"

definition GetUserMSIs :: "'w Arm \<Rightarrow> string \<Rightarrow> bool \<Rightarrow> 'w Cloud \<Rightarrow> (string, string list) result \<times> 'w Cloud" where
  "GetUserMSIs arm name isvmss c =
     (case getIdentityResource arm name isvmss c of
        (Inl err, c) \<Rightarrow> (Inl (''failed to get identity resource, error: '' @ err), c)
      | (Inr idH, c) \<Rightarrow>
          (case holder_IdentityInfo idH of
             None \<Rightarrow> (Inr [], c)
           | Some info \<Rightarrow> (Inr (info_GetUserIdentityList idH (Some info)), c)))"

text \<open>The request map of \<^verbatim>\<open>UpdateUserMSI\<close>: removals first, so that additions overwrite them.\<close>

definition request_map :: "string list \<Rightarrow> string list \<Rightarrow> (string, bool) gomap" where
  "request_map addIDs removeIDs =
     fold (\<lambda>i m. mput i True m) addIDs (fold (\<lambda>i m. mput i False m) removeIDs [])"

text \<open>The closure \<^verbatim>\<open>shouldRetry\<close>.\<close>

definition shouldRetry :: "IdentityHolder \<Rightarrow> (ComputeIdentity \<times> 'w Cloud) ShouldRetryFunc" where
  "shouldRetry h err =
     (\<lambda>(i, c).
        case fold (\<lambda>erroneousID (removedAny, i).
                     case info_RemoveUserIdentity h erroneousID i of (rem, i) \<Rightarrow> (removedAny \<or> rem, i))
               (extractIdentitiesFromError (Some err)) (False, i) of
          (removedAny, i) \<Rightarrow> (removedAny \<and> length (info_GetUserIdentityList h (Some i)) > 0, (i, c)))"

definition UpdateUserMSI :: "'w Arm \<Rightarrow> string list \<Rightarrow> string list \<Rightarrow> string \<Rightarrow> bool \<Rightarrow> 'w Cloud \<Rightarrow> string option \<times> 'w Cloud" where
  "UpdateUserMSI arm addIDs removeIDs name isvmss c =
     (if length addIDs = 0 \<and> length removeIDs = 0 then (None, c)
      else
        (case getIdentityResource arm name isvmss c of
           (Inl err, c) \<Rightarrow> (Some (''failed to get identity resource, error: '' @ err), c)
         | (Inr idH, c) \<Rightarrow>
             let info = (case holder_IdentityInfo idH of None \<Rightarrow> holder_ResetIdentity idH | Some info \<Rightarrow> info) in
             (case info_SetUserIdentities idH (arm_RangeIds arm (request_map addIDs removeIDs)) info of
                (False, info) \<Rightarrow> (None, c)
              | (True, info) \<Rightarrow>
                  (case retry_Do (cl_RetryClient c)
                          (holder_update arm (cfg_ResourceGroupName (cl_Config c)) name idH)
                          (shouldRetry idH) (info, c) of
                     (err, (info, c)) \<Rightarrow> (err, c)))))"

definition GetClusterIdentity :: "'w Cloud \<Rightarrow> string" where
  "GetClusterIdentity c = cfg_UserAssignedIdentityID (cl_Config c)"

section \<open>ARM as the code relies on it\<close>

text \<open>
  \<open>arm_honest arm ids rg name\<close>: \<open>ids\<close> reads, off the state of ARM, the user-assigned identities of the
  resource \<open>name\<close>; a GET returns them; an accepted PATCH is carried out as a merge; the clock, the wait and
  failed GETs leave them alone; and Go visits every entry of the request map once.
\<close>

definition holds_ids :: "ComputeIdentity option \<Rightarrow> string set \<Rightarrow> bool" where
  "holds_ids i S \<longleftrightarrow> (case i of None \<Rightarrow> S = {} | Some i \<Rightarrow> node_ids i = S)"

definition get_honest ::
  "('w \<Rightarrow> ('e, 'r) result \<times> 'w) \<Rightarrow> ('r \<Rightarrow> ComputeIdentity option) \<Rightarrow> ('w \<Rightarrow> string set) \<Rightarrow> bool" where
  "get_honest get identity ids \<longleftrightarrow>
     (\<forall>w r w'. get w = (r, w') \<longrightarrow> ids w' = ids w \<and> (\<forall>v. r = Inr v \<longrightarrow> holds_ids (identity v) (ids w)))"

definition update_honest ::
  "(ComputeIdentity option \<Rightarrow> 'w \<Rightarrow> 'e option \<times> 'w) \<Rightarrow> ('w \<Rightarrow> string set) \<Rightarrow> bool" where
  "update_honest upd ids \<longleftrightarrow>
     (\<forall>i w w'. upd (Some i) w = (None, w') \<longrightarrow> ids w' = merge_patch (ci_UserAssignedIdentities i) (ids w))"

definition keeps_ids :: "('w \<Rightarrow> 'a \<times> 'w) \<Rightarrow> ('w \<Rightarrow> string set) \<Rightarrow> bool" where
  "keeps_ids f ids \<longleftrightarrow> (\<forall>w. ids (snd (f w)) = ids w)"

definition arm_honest :: "'w Arm \<Rightarrow> ('w \<Rightarrow> string set) \<Rightarrow> string \<Rightarrow> string \<Rightarrow> bool" where
  "arm_honest arm ids rg name \<longleftrightarrow>
     keeps_ids (arm_Now arm) ids \<and>
     get_honest (arm_VMGet arm rg name) vm_Identity ids \<and>
     update_honest (arm_VMUpdate arm rg name) ids \<and>
     keeps_ids (arm_VMWait arm) ids \<and>
     get_honest (arm_VMSSGet arm rg name) vmss_Identity ids \<and>
     update_honest (arm_VMSSUpdate arm rg name) ids \<and>
     keeps_ids (arm_VMSSWait arm) ids \<and>
     (\<forall>m. mset (arm_RangeIds arm m) = mset m)"

lemma keeps_idsD: "keeps_ids f ids \<Longrightarrow> f w = (x, w') \<Longrightarrow> ids w' = ids w"
  by (metis keeps_ids_def snd_conv)

lemma time_Now_ids: "keeps_ids (arm_Now arm) ids \<Longrightarrow> time_Now arm c = (t, c') \<Longrightarrow> ids (cl_world c') = ids (cl_world c)"
  by (auto simp: time_Now_def split: prod.splits dest: keeps_idsD)

lemma time_Now_frame:
  "time_Now arm c = (t, c') \<Longrightarrow> cl_RetryClient c' = cl_RetryClient c \<and> cl_Config c' = cl_Config c"
  by (auto simp: time_Now_def split: prod.splits)

lemma report_cloud_ids:
  "keeps_ids (arm_Now arm) ids \<Longrightarrow> ids (cl_world (report_cloud arm opn t failed c)) = ids (cl_world c)"
  by (auto simp: report_cloud_def split: prod.splits dest: time_Now_ids)

lemma report_cloud_frame [simp]:
  "cl_RetryClient (report_cloud arm opn t failed c) = cl_RetryClient c"
  "cl_Config (report_cloud arm opn t failed c) = cl_Config c"
  by (auto simp: report_cloud_def time_Now_def split: prod.splits)

text \<open>One batch, then the rest.\<close>

lemma merge_patch_batch:
  assumes "wf_map m"
  shows "merge_patch (Some (drop n m)) (merge_patch (Some (take n m)) S) = merge_patch (Some m) S"
  using merge_patch_append[of "take n m" "drop n m" S] assms by (simp only: append_take_drop_id)

lemma vm_update_loop_success:
  assumes "vm_update_loop arm rg nodeName begin_t i0 remaining c = (None, i', c')"
    "truncateVMIdentities remaining = (batch, rest)"
  obtains w1 w2 t c2 where
    "arm_VMUpdate arm rg nodeName (Some (i0\<lparr>ci_UserAssignedIdentities := batch\<rparr>)) (cl_world c) = (None, w1)"
    "arm_VMWait arm w1 = (None, w2)"
    "time_Now arm (c\<lparr>cl_world := w2, cl_stats := increment_count TotalPatchCalls 1 (cl_stats c)\<rparr>) = (t, c2)"
    "(if length rest > 0
      then vm_update_loop arm rg nodeName begin_t (i0\<lparr>ci_UserAssignedIdentities := batch\<rparr>) (Some rest)
             (c2\<lparr>cl_stats := aggregate_interval CloudPatch begin_t t (cl_stats c2)\<rparr>)
      else (None, i0\<lparr>ci_UserAssignedIdentities := batch\<rparr>,
             c2\<lparr>cl_stats := aggregate_interval CloudPatch begin_t t (cl_stats c2)\<rparr>)) = (None, i', c')"
proof -
  let ?i = "i0\<lparr>ci_UserAssignedIdentities := batch\<rparr>"
  from assms obtain w1 where u: "arm_VMUpdate arm rg nodeName (Some ?i) (cl_world c) = (None, w1)"
    by (subst (asm) vm_update_loop.simps) (auto simp: Let_def split: prod.splits option.splits)
  with assms obtain w2 where wt: "arm_VMWait arm w1 = (None, w2)"
    by (subst (asm) vm_update_loop.simps) (auto simp: Let_def split: prod.splits option.splits)
  obtain t c2 where n: "time_Now arm (c\<lparr>cl_world := w2, cl_stats := increment_count TotalPatchCalls 1 (cl_stats c)\<rparr>) = (t, c2)"
    by fastforce
  show ?thesis
    using that[OF u wt n] assms u wt n by (subst (asm) vm_update_loop.simps) (simp add: Let_def)
qed

lemma vm_update_loop_ids:
  assumes "keeps_ids (arm_Now arm) ids" "update_honest (arm_VMUpdate arm rg nodeName) ids" "keeps_ids (arm_VMWait arm) ids"
  shows "vm_update_loop arm rg nodeName begin_t i remaining c = (None, i', c') \<Longrightarrow>
    (\<And>m. remaining = Some m \<Longrightarrow> wf_map m) \<Longrightarrow> ids (cl_world c') = merge_patch remaining (ids (cl_world c))"
  using assms
proof (induction arm rg nodeName begin_t i remaining c rule: vm_update_loop.induct)
  case (1 arm rg nodeName begin_t i0 remaining c)
  obtain batch rest where tr: "truncateVMIdentities remaining = (batch, rest)" by fastforce
  from "1.prems"(1) tr obtain w1 w2 t c2 where
    u: "arm_VMUpdate arm rg nodeName (Some (i0\<lparr>ci_UserAssignedIdentities := batch\<rparr>)) (cl_world c) = (None, w1)"
    and wt: "arm_VMWait arm w1 = (None, w2)"
    and n: "time_Now arm (c\<lparr>cl_world := w2, cl_stats := increment_count TotalPatchCalls 1 (cl_stats c)\<rparr>) = (t, c2)"
    and res: "(if length rest > 0
      then vm_update_loop arm rg nodeName begin_t (i0\<lparr>ci_UserAssignedIdentities := batch\<rparr>) (Some rest)
             (c2\<lparr>cl_stats := aggregate_interval CloudPatch begin_t t (cl_stats c2)\<rparr>)
      else (None, i0\<lparr>ci_UserAssignedIdentities := batch\<rparr>,
             c2\<lparr>cl_stats := aggregate_interval CloudPatch begin_t t (cl_stats c2)\<rparr>)) = (None, i', c')"
    by (rule vm_update_loop_success)
  have w2: "ids (cl_world c2) = merge_patch batch (ids (cl_world c))"
    using "1.prems"(4) u keeps_idsD[OF "1.prems"(5) wt] time_Now_ids[OF "1.prems"(3) n]
    by (simp add: update_honest_def)
  show ?case
  proof (cases remaining)
    case None
    then show ?thesis using res tr w2 by (auto simp: vmss_same_as_vm truncateVMIdentities_eq merge_patch_def)
  next
    case (Some m)
    then have br: "batch = Some (take maxIdentitiesCount m)" "rest = drop maxIdentitiesCount m"
      using tr by (auto simp: vmss_same_as_vm truncateVMIdentities_eq)
    have wf: "wf_map m" "wf_map rest" using "1.prems"(2) Some br by (simp_all add: drop_map[symmetric])
    show ?thesis
    proof (cases "length rest > 0")
      case True
      have loop: "vm_update_loop arm rg nodeName begin_t (i0\<lparr>ci_UserAssignedIdentities := batch\<rparr>) (Some rest)
             (c2\<lparr>cl_stats := aggregate_interval CloudPatch begin_t t (cl_stats c2)\<rparr>) = (None, i', c')"
        using res True by (simp only: if_True)
      have "\<And>m. Some rest = Some m \<Longrightarrow> wf_map m" using wf(2) by (simp only: option.inject)
      from "1.IH"[OF tr[symmetric] refl u[symmetric] refl wt[symmetric] refl refl refl n[symmetric] refl True
          loop this "1.prems"(3-5)]
      have "ids (cl_world c') = merge_patch (Some rest) (ids (cl_world c2))" by simp
      then show ?thesis using w2 br Some merge_patch_batch[OF wf(1)] by simp
    next
      case False
      then have "take maxIdentitiesCount m = m" using br(2) by simp
      moreover have "ids (cl_world c') = ids (cl_world c2)"
        using res unfolding if_not_P[OF False] prod.inject by auto
      ultimately show ?thesis using w2 br(1) Some by simp
    qed
  qed
qed

lemma vm_UpdateIdentities_ids:
  assumes "keeps_ids (arm_Now arm) ids" "update_honest (arm_VMUpdate arm rg nodeName) ids" "keeps_ids (arm_VMWait arm) ids"
    "vm_UpdateIdentities arm rg nodeName ps i c = (None, i', c')" "\<And>m. ci_UserAssignedIdentities i = Some m \<Longrightarrow> wf_map m"
  shows "ids (cl_world c') = merge_patch (ci_UserAssignedIdentities i) (ids (cl_world c))"
proof -
  obtain t1 c1 where n1: "time_Now arm c = (t1, c1)" by fastforce
  obtain t2 c2 where n2: "time_Now arm c1 = (t2, c2)" by fastforce
  from assms(4) obtain c3 where
    l: "vm_update_loop arm rg nodeName t1 i (ci_UserAssignedIdentities i) c2 = (None, i', c3)"
    and c': "c' = report_cloud arm UpdateVMOperationName t1 False c3"
    by (auto simp: vm_UpdateIdentities_def n1 n2 Let_def split: if_splits prod.splits)
  show ?thesis
    using vm_update_loop_ids[OF assms(1-3) l assms(5)] c' report_cloud_ids[OF assms(1)]
      time_Now_ids[OF assms(1) n1] time_Now_ids[OF assms(1) n2] by simp
qed

lemma vm_Get_ids:
  assumes "keeps_ids (arm_Now arm) ids" "get_honest (arm_VMGet arm rg nodeName) vm_Identity ids"
    "vm_Get arm rg nodeName c = (Inr v, c')"
  shows "ids (cl_world c') = ids (cl_world c) \<and> holds_ids (vm_Identity v) (ids (cl_world c)) \<and>
    cl_RetryClient c' = cl_RetryClient c \<and> cl_Config c' = cl_Config c"
proof -
  obtain t1 c1 where n1: "time_Now arm c = (t1, c1)" by fastforce
  obtain t2 c2 where n2: "time_Now arm c1 = (t2, c2)" by fastforce
  obtain r w where g: "arm_VMGet arm rg nodeName (cl_world c2) = (r, w)" by fastforce
  from assms(3) g have r: "r = Inr v"
    by (auto simp: vm_Get_def n1 n2 Let_def split: if_splits prod.splits sum.splits)
  obtain t3 c3 where n3: "time_Now arm (c2\<lparr>cl_world := w, cl_stats := increment_count TotalGetCalls 1 (cl_stats c2)\<rparr>) = (t3, c3)"
    by fastforce
  have c': "c' = report_cloud arm GetVMOperationName t1 False
      (c3\<lparr>cl_stats := aggregate_interval CloudGet t1 t3 (cl_stats c3)\<rparr>)"
    using assms(3) g r n3 by (auto simp: vm_Get_def n1 n2 Let_def split: if_splits)
  have "ids w = ids (cl_world c2)" "holds_ids (vm_Identity v) (ids (cl_world c2))"
    using assms(2) g r by (auto simp: get_honest_def)
  then show ?thesis
    using c' report_cloud_ids[OF assms(1)] time_Now_ids[OF assms(1) n1] time_Now_ids[OF assms(1) n2]
      time_Now_ids[OF assms(1) n3] time_Now_frame[OF n1] time_Now_frame[OF n2] time_Now_frame[OF n3]
    by simp
qed

lemma vmss_update_loop_success:
  assumes "vmss_update_loop arm rg vmssName begin_t i0 remaining c = (None, i', c')"
    "truncateVMSSIdentities remaining = (batch, rest)"
  obtains w1 w2 t c2 where
    "arm_VMSSUpdate arm rg vmssName (Some (i0\<lparr>ci_UserAssignedIdentities := batch\<rparr>)) (cl_world c) = (None, w1)"
    "arm_VMSSWait arm w1 = (None, w2)"
    "time_Now arm (c\<lparr>cl_world := w2, cl_stats := increment_count TotalPatchCalls 1 (cl_stats c)\<rparr>) = (t, c2)"
    "(if length rest > 0
      then vmss_update_loop arm rg vmssName begin_t (i0\<lparr>ci_UserAssignedIdentities := batch\<rparr>) (Some rest)
             (c2\<lparr>cl_stats := aggregate_interval CloudPatch begin_t t (cl_stats c2)\<rparr>)
      else (None, i0\<lparr>ci_UserAssignedIdentities := batch\<rparr>,
             c2\<lparr>cl_stats := aggregate_interval CloudPatch begin_t t (cl_stats c2)\<rparr>)) = (None, i', c')"
proof -
  let ?i = "i0\<lparr>ci_UserAssignedIdentities := batch\<rparr>"
  from assms obtain w1 where u: "arm_VMSSUpdate arm rg vmssName (Some ?i) (cl_world c) = (None, w1)"
    by (subst (asm) vmss_update_loop.simps) (auto simp: Let_def split: prod.splits option.splits)
  with assms obtain w2 where wt: "arm_VMSSWait arm w1 = (None, w2)"
    by (subst (asm) vmss_update_loop.simps) (auto simp: Let_def split: prod.splits option.splits)
  obtain t c2 where n: "time_Now arm (c\<lparr>cl_world := w2, cl_stats := increment_count TotalPatchCalls 1 (cl_stats c)\<rparr>) = (t, c2)"
    by fastforce
  show ?thesis
    using that[OF u wt n] assms u wt n by (subst (asm) vmss_update_loop.simps) (simp add: Let_def)
qed

lemma vmss_update_loop_ids:
  assumes "keeps_ids (arm_Now arm) ids" "update_honest (arm_VMSSUpdate arm rg vmssName) ids" "keeps_ids (arm_VMSSWait arm) ids"
  shows "vmss_update_loop arm rg vmssName begin_t i remaining c = (None, i', c') \<Longrightarrow>
    (\<And>m. remaining = Some m \<Longrightarrow> wf_map m) \<Longrightarrow> ids (cl_world c') = merge_patch remaining (ids (cl_world c))"
  using assms
proof (induction arm rg vmssName begin_t i remaining c rule: vmss_update_loop.induct)
  case (1 arm rg vmssName begin_t i0 remaining c)
  obtain batch rest where tr: "truncateVMSSIdentities remaining = (batch, rest)" by fastforce
  from "1.prems"(1) tr obtain w1 w2 t c2 where
    u: "arm_VMSSUpdate arm rg vmssName (Some (i0\<lparr>ci_UserAssignedIdentities := batch\<rparr>)) (cl_world c) = (None, w1)"
    and wt: "arm_VMSSWait arm w1 = (None, w2)"
    and n: "time_Now arm (c\<lparr>cl_world := w2, cl_stats := increment_count TotalPatchCalls 1 (cl_stats c)\<rparr>) = (t, c2)"
    and res: "(if length rest > 0
      then vmss_update_loop arm rg vmssName begin_t (i0\<lparr>ci_UserAssignedIdentities := batch\<rparr>) (Some rest)
             (c2\<lparr>cl_stats := aggregate_interval CloudPatch begin_t t (cl_stats c2)\<rparr>)
      else (None, i0\<lparr>ci_UserAssignedIdentities := batch\<rparr>,
             c2\<lparr>cl_stats := aggregate_interval CloudPatch begin_t t (cl_stats c2)\<rparr>)) = (None, i', c')"
    by (rule vmss_update_loop_success)
  have w2: "ids (cl_world c2) = merge_patch batch (ids (cl_world c))"
    using "1.prems"(4) u keeps_idsD[OF "1.prems"(5) wt] time_Now_ids[OF "1.prems"(3) n]
    by (simp add: update_honest_def)
  show ?case
  proof (cases remaining)
    case None
    then show ?thesis using res tr w2 by (auto simp: vmss_same_as_vm truncateVMIdentities_eq merge_patch_def)
  next
    case (Some m)
    then have br: "batch = Some (take maxIdentitiesCount m)" "rest = drop maxIdentitiesCount m"
      using tr by (auto simp: vmss_same_as_vm truncateVMIdentities_eq)
    have wf: "wf_map m" "wf_map rest" using "1.prems"(2) Some br by (simp_all add: drop_map[symmetric])
    show ?thesis
    proof (cases "length rest > 0")
      case True
      have loop: "vmss_update_loop arm rg vmssName begin_t (i0\<lparr>ci_UserAssignedIdentities := batch\<rparr>) (Some rest)
             (c2\<lparr>cl_stats := aggregate_interval CloudPatch begin_t t (cl_stats c2)\<rparr>) = (None, i', c')"
        using res True by (simp only: if_True)
      have "\<And>m. Some rest = Some m \<Longrightarrow> wf_map m" using wf(2) by (simp only: option.inject)
      from "1.IH"[OF tr[symmetric] refl u[symmetric] refl wt[symmetric] refl refl refl n[symmetric] refl True
          loop this "1.prems"(3-5)]
      have "ids (cl_world c') = merge_patch (Some rest) (ids (cl_world c2))" by simp
      then show ?thesis using w2 br Some merge_patch_batch[OF wf(1)] by simp
    next
      case False
      then have "take maxIdentitiesCount m = m" using br(2) by simp
      moreover have "ids (cl_world c') = ids (cl_world c2)"
        using res unfolding if_not_P[OF False] prod.inject by auto
      ultimately show ?thesis using w2 br(1) Some by simp
    qed
  qed
qed

lemma vmss_UpdateIdentities_ids:
  assumes "keeps_ids (arm_Now arm) ids" "update_honest (arm_VMSSUpdate arm rg vmssName) ids" "keeps_ids (arm_VMSSWait arm) ids"
    "vmss_UpdateIdentities arm rg vmssName ps i c = (None, i', c')" "\<And>m. ci_UserAssignedIdentities i = Some m \<Longrightarrow> wf_map m"
  shows "ids (cl_world c') = merge_patch (ci_UserAssignedIdentities i) (ids (cl_world c))"
proof -
  obtain t1 c1 where n1: "time_Now arm c = (t1, c1)" by fastforce
  obtain t2 c2 where n2: "time_Now arm c1 = (t2, c2)" by fastforce
  from assms(4) obtain c3 where
    l: "vmss_update_loop arm rg vmssName t1 i (ci_UserAssignedIdentities i) c2 = (None, i', c3)"
    and c': "c' = report_cloud arm UpdateVMSSOperationName t1 False c3"
    by (auto simp: vmss_UpdateIdentities_def n1 n2 Let_def split: if_splits prod.splits)
  show ?thesis
    using vmss_update_loop_ids[OF assms(1-3) l assms(5)] c' report_cloud_ids[OF assms(1)]
      time_Now_ids[OF assms(1) n1] time_Now_ids[OF assms(1) n2] by simp
qed

lemma vmss_Get_ids:
  assumes "keeps_ids (arm_Now arm) ids" "get_honest (arm_VMSSGet arm rg vmssName) vmss_Identity ids"
    "vmss_Get arm rg vmssName c = (Inr v, c')"
  shows "ids (cl_world c') = ids (cl_world c) \<and> holds_ids (vmss_Identity v) (ids (cl_world c)) \<and>
    cl_RetryClient c' = cl_RetryClient c \<and> cl_Config c' = cl_Config c"
proof -
  obtain t1 c1 where n1: "time_Now arm c = (t1, c1)" by fastforce
  obtain t2 c2 where n2: "time_Now arm c1 = (t2, c2)" by fastforce
  obtain r w where g: "arm_VMSSGet arm rg vmssName (cl_world c2) = (r, w)" by fastforce
  from assms(3) g have r: "r = Inr v"
    by (auto simp: vmss_Get_def n1 n2 Let_def split: if_splits prod.splits sum.splits)
  obtain t3 c3 where n3: "time_Now arm (c2\<lparr>cl_world := w, cl_stats := increment_count TotalGetCalls 1 (cl_stats c2)\<rparr>) = (t3, c3)"
    by fastforce
  have c': "c' = report_cloud arm GetVmssOperationName t1 False
      (c3\<lparr>cl_stats := aggregate_interval CloudGet t1 t3 (cl_stats c3)\<rparr>)"
    using assms(3) g r n3 by (auto simp: vmss_Get_def n1 n2 Let_def split: if_splits)
  have "ids w = ids (cl_world c2)" "holds_ids (vmss_Identity v) (ids (cl_world c2))"
    using assms(2) g r by (auto simp: get_honest_def)
  then show ?thesis
    using c' report_cloud_ids[OF assms(1)] time_Now_ids[OF assms(1) n1] time_Now_ids[OF assms(1) n2]
      time_Now_ids[OF assms(1) n3] time_Now_frame[OF n1] time_Now_frame[OF n2] time_Now_frame[OF n3]
    by simp
qed

section \<open>\<^verbatim>\<open>UpdateUserMSI\<close>\<close>

lemma holder_update_ids:
  assumes "arm_honest arm ids rg name" "holder_update arm rg name h (i, c) = (None, (i', c'))"
    "\<And>m. ci_UserAssignedIdentities i = Some m \<Longrightarrow> wf_map m"
  shows "ids (cl_world c') = merge_patch (ci_UserAssignedIdentities i) (ids (cl_world c))"
proof (cases h)
  case (VmHolder vm)
  then show ?thesis
    using vm_UpdateIdentities_ids[of arm ids rg name] assms by (simp add: arm_honest_def holder_update_def)
next
  case (VmssHolder vmss)
  then show ?thesis
    using vmss_UpdateIdentities_ids[of arm ids rg name] assms by (simp add: arm_honest_def holder_update_def)
qed

lemma getIdentityResource_ids:
  assumes "arm_honest arm ids (cfg_ResourceGroupName (cl_Config c)) name"
    "getIdentityResource arm name isvmss c = (Inr h, c')"
  shows "ids (cl_world c') = ids (cl_world c) \<and> holds_ids (holder_IdentityInfo h) (ids (cl_world c)) \<and>
    cl_RetryClient c' = cl_RetryClient c \<and> cl_Config c' = cl_Config c"
proof (cases isvmss)
  case True
  with assms(2) obtain v where "vmss_Get arm (cfg_ResourceGroupName (cl_Config c)) name c = (Inr v, c')" "h = VmssHolder v"
    by (auto simp: getIdentityResource_def Let_def split: prod.splits sum.splits)
  then show ?thesis
    using vmss_Get_ids[of arm ids "cfg_ResourceGroupName (cl_Config c)" name c v c'] assms(1)
    by (simp add: arm_honest_def holder_IdentityInfo_def vmss_IdentityInfo_def)
next
  case False
  with assms(2) obtain v where "vm_Get arm (cfg_ResourceGroupName (cl_Config c)) name c = (Inr v, c')" "h = VmHolder v"
    by (auto simp: getIdentityResource_def Let_def split: prod.splits sum.splits)
  then show ?thesis
    using vm_Get_ids[of arm ids "cfg_ResourceGroupName (cl_Config c)" name c v c'] assms(1)
    by (simp add: arm_honest_def holder_IdentityInfo_def vm_IdentityInfo_def)
qed

lemma info_SetUserIdentities_eq [simp]: "info_SetUserIdentities h = vm_SetUserIdentities"
  by (cases h) (simp_all add: info_SetUserIdentities_def vmss_same_as_vm)

lemma holder_ResetIdentity_ids [simp]: "node_ids (holder_ResetIdentity h) = {}"
  by (cases h) (simp_all add: holder_ResetIdentity_def vm_ResetIdentity_def vmss_ResetIdentity_def node_ids_eq Let_def)

text \<open>The PATCH map is a Go map.\<close>

lemma vm_set_fold_wf: "wf_map (snd acc) \<Longrightarrow> wf_map (snd (fold vm_set_step ids acc))"
proof (induction ids arbitrary: acc)
  case (Cons e ids)
  obtain k b where e: "e = (k, b)" by fastforce
  obtain N U where acc: "acc = (N, U)" by fastforce
  have "wf_map (snd (vm_set_step e acc))"
    using Cons.prems e acc by (cases b) (simp_all add: vm_set_step_cases)
  then show ?case using Cons.IH by simp
qed simp

lemma vm_SetUserIdentities_wf:
  "ci_UserAssignedIdentities (snd (vm_SetUserIdentities ids i)) = Some m \<Longrightarrow> wf_map m"
  using vm_set_fold_wf[of "(fold (\<lambda>(id, _) nl. mput (strings_ToLower id) True nl)
      (case ci_UserAssignedIdentities i of None \<Rightarrow> [] | Some m \<Rightarrow> m) [], [])" ids]
  by (auto simp: vm_SetUserIdentities_def Let_def split: prod.splits if_splits)

lemma fold_distinct_mset: "mset ids = mset ids' \<Longrightarrow> fold_distinct ids = fold_distinct ids'"
  unfolding fold_distinct_def by (metis mset_eq_imp_distinct_iff mset_map)

lemma target_ids_mset: "mset ids = mset ids' \<Longrightarrow> target_ids ids S = target_ids ids' S"
  using mset_eq_setD[of ids ids'] by (simp add: target_ids_def added_def removed_def)

lemma request_map_of:
  "map_of (request_map addIDs removeIDs) k =
     (if k \<in> set addIDs then Some True else if k \<in> set removeIDs then Some False else None)"
proof -
  have put: "map_of (fold (\<lambda>i m. mput i b m) xs m) k = (if k \<in> set xs then Some b else map_of m k)" for b xs and m :: "(string, bool) gomap"
    by (induction xs arbitrary: m) auto
  show ?thesis by (simp add: request_map_def put)
qed

lemma request_map_wf: "wf_map (request_map addIDs removeIDs)"
proof -
  have "wf_map m \<Longrightarrow> wf_map (fold (\<lambda>i m. mput i b m) xs m)" for b xs and m :: "(string, bool) gomap"
    by (induction xs arbitrary: m) auto
  then show ?thesis by (simp add: request_map_def)
qed

lemma request_map_target:
  "target_ids (request_map addIDs removeIDs) S =
     (S - strings_ToLower ` (set removeIDs - set addIDs)) \<union> strings_ToLower ` set addIDs"
proof -
  have "(k, b) \<in> set (request_map addIDs removeIDs) \<longleftrightarrow>
      (if k \<in> set addIDs then b else k \<in> set removeIDs \<and> \<not> b)" for k b
    using map_of_mem_iff[OF request_map_wf, of addIDs removeIDs k b]
    by (auto simp: request_map_of split: if_splits)
  then have "added (request_map addIDs removeIDs) = strings_ToLower ` set addIDs"
    "removed (request_map addIDs removeIDs) = strings_ToLower ` (set removeIDs - set addIDs)"
    by (auto simp: added_def removed_def split: if_splits)
  then show ?thesis by (simp add: target_ids_def)
qed

text \<open>
  (C2) Against an ARM that carries out accepted PATCH requests, a successful \<^verbatim>\<open>UpdateUserMSI\<close> leaves on the
  VM or VM scale set exactly the identities it had, less those to remove, plus those to add; an
  identity in both lists stays.  This covers the request map, the minimal PATCH body, the batches of
  150 and the retries, for every order in which Go visits the maps, as long as no two requested
  ids differ only by case.
\<close>

theorem UpdateUserMSI_reaches_target:
  assumes honest: "arm_honest arm ids (cfg_ResourceGroupName (cl_Config c)) name"
    and ok: "UpdateUserMSI arm addIDs removeIDs name isvmss c = (None, c')"
    and fd: "fold_distinct (request_map addIDs removeIDs)"
  shows "ids (cl_world c') =
    (ids (cl_world c) - strings_ToLower ` (set removeIDs - set addIDs)) \<union> strings_ToLower ` set addIDs"
proof (cases "addIDs = [] \<and> removeIDs = []")
  case True
  then show ?thesis using ok by (simp add: UpdateUserMSI_def)
next
  case False
  define req where "req = arm_RangeIds arm (request_map addIDs removeIDs)"
  have req: "mset req = mset (request_map addIDs removeIDs)" using honest by (simp add: req_def arm_honest_def)
  have fd': "fold_distinct req" using fold_distinct_mset[OF req] fd by simp
  have tgt: "target_ids req S = (S - strings_ToLower ` (set removeIDs - set addIDs)) \<union> strings_ToLower ` set addIDs" for S
    using target_ids_mset[OF req] request_map_target by (simp only:)
  obtain h c1 where g: "getIdentityResource arm name isvmss c = (Inr h, c1)"
    using ok False by (auto simp: UpdateUserMSI_def split: prod.splits sum.splits)
  note g' = getIdentityResource_ids[OF honest g]
  define info where "info = (case holder_IdentityInfo h of None \<Rightarrow> holder_ResetIdentity h | Some i \<Rightarrow> i)"
  have info: "node_ids info = ids (cl_world c)"
    using g' by (auto simp: info_def holds_ids_def split: option.splits)
  obtain b info' where s: "vm_SetUserIdentities req info = (b, info')" by fastforce
  show ?thesis
  proof (cases b)
    case False
    then have "c' = c1" using ok \<open>\<not> (addIDs = [] \<and> removeIDs = [])\<close> g s
      by (auto simp: UpdateUserMSI_def Let_def info_def[symmetric] req_def[symmetric])
    then show ?thesis using vm_set_ids_skip[OF fd', of info] s False info tgt g' by simp
  next
    case True
    let ?upd = "holder_update arm (cfg_ResourceGroupName (cl_Config c)) name h"
    obtain info2 where d: "retry_Do (cl_RetryClient c1) ?upd (shouldRetry h) (info', c1) = (None, (info2, c'))"
      using ok False g s True g'
      by (auto simp: UpdateUserMSI_def Let_def info_def[symmetric] req_def[symmetric] split: prod.splits)
    then have "?upd (info', c1) = (None, (info2, c'))"
      using rc.success_iff[of "cl_RetryClient c1" ?upd "shouldRetry h" "(info', c1)"]
        rc.success_state[of "cl_RetryClient c1" ?upd "shouldRetry h" "(info', c1)"]
      by (metis fst_conv snd_conv prod.collapse)
    from holder_update_ids[OF honest this] have "ids (cl_world c') = merge_patch (ci_UserAssignedIdentities info') (ids (cl_world c1))"
      using vm_SetUserIdentities_wf[of req info] s by simp
    then show ?thesis using vm_set_ids_patch[OF fd', of info] s info tgt g' by simp
  qed
qed

text \<open>A small ARM: the world is the list of the node's identities, and time stands still.\<close>

definition sample_patch :: "ComputeIdentity option \<Rightarrow> string list \<Rightarrow> (string \<times> http_response option) option \<times> string list" where
  "sample_patch body w =
     (case body of
        None \<Rightarrow> (Some (''no identity'', None), w)
      | Some i \<Rightarrow>
          (case ci_UserAssignedIdentities i of
             None \<Rightarrow> (None, [])
           | Some m \<Rightarrow>
               if wf_map m \<and> list_all (\<lambda>(k, v). strings_ToLower k = k) m
               then (None, filter (\<lambda>k. map_of m (strings_ToLower k) \<noteq> Some None) w @
                           map fst (filter (\<lambda>(k, v). v = Some ()) m))
               else (Some (''bad request'', None), w)))"

definition sample_arm :: "string list Arm" where
  "sample_arm = \<lparr>arm_Now = (\<lambda>w. (0, w)), arm_ParseRFC1123 = (\<lambda>_. None), arm_ShowTime = (\<lambda>_. []),
     arm_TagNew = (\<lambda>_. None), arm_RangeIds = rev,
     arm_VMGet = (\<lambda>rg n w. (Inr \<lparr>vm_Identity = Some \<lparr>ci_Type = ResourceIdentityTypeUserAssigned,
        ci_UserAssignedIdentities = Some (map (\<lambda>k. (k, Some ())) w)\<rparr>, vm_ProvisioningState = None\<rparr>, w)),
     arm_VMUpdate = (\<lambda>rg n. sample_patch), arm_VMWait = (\<lambda>w. (None, w)),
     arm_VMSSGet = (\<lambda>rg n w. (Inl (''none'', None), w)),
     arm_VMSSUpdate = (\<lambda>rg n i w. (Some (''none'', None), w)), arm_VMSSWait = (\<lambda>w. (None, w))\<rparr>"

lemma sample_patch_honest: "update_honest sample_patch (\<lambda>w. strings_ToLower ` set w)"
  unfolding update_honest_def
proof (intro allI impI)
  fix i w w'
  assume p: "sample_patch (Some i) w = (None, w')"
  show "strings_ToLower ` set w' = merge_patch (ci_UserAssignedIdentities i) (strings_ToLower ` set w)"
  proof (cases "ci_UserAssignedIdentities i")
    case None
    then show ?thesis using p by (simp add: sample_patch_def merge_patch_def)
  next
    case (Some m)
    with p have wf: "wf_map m" and low: "\<forall>(k, v)\<in>set m. strings_ToLower k = k"
      and w': "w' = filter (\<lambda>k. map_of m (strings_ToLower k) \<noteq> Some None) w @ map fst (filter (\<lambda>(k, v). v = Some ()) m)"
      by (auto simp: sample_patch_def list_all_iff split: if_splits)
    have "strings_ToLower ` set (map fst (filter (\<lambda>(k, v). v = Some ()) m)) = {k. map_of m k = Some (Some ())}"
      using low by (force simp: map_of_mem_iff[OF wf] image_iff)
    moreover have "strings_ToLower ` set (filter (\<lambda>k. map_of m (strings_ToLower k) \<noteq> Some None) w) =
        strings_ToLower ` set w - {k. map_of m k = Some None}"
      by auto
    ultimately show ?thesis using Some w' by (simp add: merge_patch_def image_Un)
  qed
qed

lemma sample_arm_honest: "arm_honest sample_arm (\<lambda>w. strings_ToLower ` set w) rg name"
  using sample_patch_honest
  by (auto simp: arm_honest_def sample_arm_def keeps_ids_def get_honest_def update_honest_def holds_ids_def node_ids_eq image_image)

definition zero_throttle :: throttle where
  "zero_throttle = \<lparr>retryAfterReader = zero_Time, retryAfterWriter = zero_Time\<rparr>"

definition sample_cloud :: "'w \<Rightarrow> 'w Cloud" where
  "sample_cloud w = \<lparr>cl_VMClient = zero_throttle, cl_VMSSClient = zero_throttle,
     cl_RetryClient = NewRetryClient 2, cl_Config = zero_AzureConfig, cl_stats = stats_Init, cl_metrics = [], cl_world = w\<rparr>"

lemma sample_UpdateUserMSI:
  "fst (UpdateUserMSI sample_arm [''C''] [''a''] ''n'' False (sample_cloud [''A'', ''b''])) = None"
  by code_simp

theorem UpdateUserMSI_reaches_target_witness:
  "strings_ToLower ` set (cl_world (snd (UpdateUserMSI sample_arm [''C''] [''a''] ''n'' False (sample_cloud [''A'', ''b''])))) =
     (strings_ToLower ` {''A'', ''b''} - strings_ToLower ` ({''a''} - {''C''})) \<union> strings_ToLower ` {''C''}"
proof -
  have fd: "fold_distinct (request_map [''C''] [''a''])" by code_simp
  have run: "UpdateUserMSI sample_arm [''C''] [''a''] ''n'' False (sample_cloud [''A'', ''b'']) =
      (None, snd (UpdateUserMSI sample_arm [''C''] [''a''] ''n'' False (sample_cloud [''A'', ''b''])))"
    using sample_UpdateUserMSI by (metis prod.collapse)
  show ?thesis
    using UpdateUserMSI_reaches_target[OF sample_arm_honest run fd]
    by (simp only: list.set) (simp add: sample_cloud_def)
qed

section \<open>Throttling\<close>

text \<open>
  A number of seconds in the \<^verbatim>\<open>Retry-After\<close> header that fits a 64-bit duration is taken as it is.
\<close>

theorem getRetryAfter_seconds:
  assumes "strconv_Atoi ra = (n, False)" "0 < n" "n \<le> 9223372036"
  shows "getRetryAfter arm (Some \<lparr>hdr_RetryAfter = ra\<rparr>) c = (n * 1000000000, c)"
proof -
  have "ra \<noteq> []" using assms(1,2) by (auto simp: strconv_Atoi_def)
  then show ?thesis using assms by (simp add: getRetryAfter_def Let_def time_Second_def int64_defs)
qed

theorem getRetryAfter_seconds_witness:
  "getRetryAfter sample_arm (Some \<lparr>hdr_RetryAfter = ''120''\<rparr>) (sample_cloud []) = (120 * 1000000000, sample_cloud [])"
proof -
  have "strconv_Atoi ''120'' = (120, False)" by code_simp
  from getRetryAfter_seconds[OF this] show ?thesis by simp
qed

text \<open>
  A larger number overflows: the product of seconds and nanoseconds wraps at 64 bits.  For the
  largest integer (and for every numeral beyond it, which \<^verbatim>\<open>Atoi\<close> clamps) the pause is minus one second,
  that is, no throttling at all.
\<close>

theorem getRetryAfter_overflow:
  assumes "fst (strconv_Atoi ra) = MaxInt64"
  shows "getRetryAfter arm (Some \<lparr>hdr_RetryAfter = ra\<rparr>) c = (- time_Second, c)"
proof -
  have "ra \<noteq> []" using assms by (auto simp: strconv_Atoi_def int64_defs)
  then show ?thesis using assms by (simp add: getRetryAfter_def Let_def time_Second_def int64_defs wrap64_def)
qed

theorem getRetryAfter_overflow_witness:
  "getRetryAfter sample_arm (Some \<lparr>hdr_RetryAfter = ''99999999999999999999''\<rparr>) (sample_cloud []) = (- time_Second, sample_cloud [])"
proof -
  have "fst (strconv_Atoi ''99999999999999999999'') = MaxInt64" by code_simp
  from getRetryAfter_overflow[OF this] show ?thesis .
qed

text \<open>
  While a client is throttled for writing, \<^verbatim>\<open>UpdateIdentities\<close> sends no PATCH: its behaviour does not
  depend on ARM's update at all, it fails, and it leaves the identity block and the throttling times as they are.
\<close>

theorem vm_UpdateIdentities_throttled:
  assumes "arm_Now arm (cl_world c) = (t1, w1)" "arm_Now arm w1 = (t2, w2)"
    "t2 < retryAfterWriter (cl_VMClient c)" "ps \<noteq> Some ProvisioningStateDeleting"
  shows "vm_UpdateIdentities arm rg nodeName ps i c =
           (Some (''VMUpdate client throttled, retry after: '' @ arm_ShowTime arm (retryAfterWriter (cl_VMClient c))), i,
            report_cloud arm UpdateVMOperationName t1 True (c\<lparr>cl_world := w2\<rparr>)) \<and>
         vm_UpdateIdentities (arm\<lparr>arm_VMUpdate := upd\<rparr>) rg nodeName ps i c = vm_UpdateIdentities arm rg nodeName ps i c"
  using assms by (simp add: vm_UpdateIdentities_def time_Now_def Let_def report_cloud_def)

theorem vm_UpdateIdentities_throttled_witness:
  "fst (vm_UpdateIdentities sample_arm ''rg'' ''n'' None sample_identity
     ((sample_cloud [])\<lparr>cl_VMClient := \<lparr>retryAfterReader = 0, retryAfterWriter = 5\<rparr>\<rparr>)) =
   Some ''VMUpdate client throttled, retry after: ''"
  using vm_UpdateIdentities_throttled[of sample_arm
      "(sample_cloud [])\<lparr>cl_VMClient := \<lparr>retryAfterReader = 0, retryAfterWriter = 5\<rparr>\<rparr>" 0 "[]" 0 "[]" None
      "''rg''" "''n''" sample_identity "\<lambda>_ _ _ w. (None, w)"]
  by (simp add: sample_arm_def sample_cloud_def)

section \<open>Batches\<close>

text \<open>Any ARM, with a record of the bodies of the PATCH requests that it received.\<close>

definition logged :: "'w Arm \<Rightarrow> ('w \<times> identity_map option list) Arm" where
  "logged arm = \<lparr>arm_Now = (\<lambda>(w, l). case arm_Now arm w of (t, w) \<Rightarrow> (t, w, l)), arm_ParseRFC1123 = arm_ParseRFC1123 arm,
     arm_ShowTime = arm_ShowTime arm, arm_TagNew = arm_TagNew arm, arm_RangeIds = arm_RangeIds arm,
     arm_VMGet = (\<lambda>rg n (w, l). case arm_VMGet arm rg n w of (r, w) \<Rightarrow> (r, w, l)),
     arm_VMUpdate = (\<lambda>rg n i (w, l). case arm_VMUpdate arm rg n i w of (r, w) \<Rightarrow> (r, w, l @ [Option.bind i ci_UserAssignedIdentities])),
     arm_VMWait = (\<lambda>(w, l). case arm_VMWait arm w of (r, w) \<Rightarrow> (r, w, l)),
     arm_VMSSGet = (\<lambda>rg n (w, l). case arm_VMSSGet arm rg n w of (r, w) \<Rightarrow> (r, w, l)),
     arm_VMSSUpdate = (\<lambda>rg n i (w, l). case arm_VMSSUpdate arm rg n i w of (r, w) \<Rightarrow> (r, w, l @ [Option.bind i ci_UserAssignedIdentities])),
     arm_VMSSWait = (\<lambda>(w, l). case arm_VMSSWait arm w of (r, w) \<Rightarrow> (r, w, l))\<rparr>"

text \<open>The bodies for a map, after those that were there: at least one, none too big, together the start of the map, or all of it.\<close>

definition sent_bodies :: "identity_map \<Rightarrow> identity_map option list \<Rightarrow> bool \<Rightarrow> identity_map option list \<Rightarrow> bool" where
  "sent_bodies m before complete bodies \<longleftrightarrow>
     (\<exists>bs. bodies = before @ map Some bs \<and> bs \<noteq> [] \<and> list_all (\<lambda>b. length b \<le> 150) bs \<and> prefix (concat bs) m \<and>
        (complete \<longrightarrow> concat bs = m))"

lemma sent_part: "\<not> complete \<Longrightarrow> sent_bodies m l complete (l @ [Some (take maxIdentitiesCount m)])"
  unfolding sent_bodies_def
  by (rule exI[of _ "[take maxIdentitiesCount m]"]) (simp add: take_is_prefix maxIdentitiesCount_def)

lemma sent_all: "length m \<le> maxIdentitiesCount \<Longrightarrow> sent_bodies m l done (l @ [Some (take maxIdentitiesCount m)])"
  unfolding sent_bodies_def by (rule exI[of _ "[m]"]) (simp add: maxIdentitiesCount_def)

lemma sent_more:
  assumes "sent_bodies (drop maxIdentitiesCount m) (l @ [Some (take maxIdentitiesCount m)]) complete bodies"
  shows "sent_bodies m l complete bodies"
proof -
  let ?b = "take maxIdentitiesCount m" and ?r = "drop maxIdentitiesCount m"
  obtain bs where bs: "bodies = (l @ [Some ?b]) @ map Some bs" "list_all (\<lambda>b. length b \<le> 150) bs" "prefix (concat bs) ?r" "complete \<longrightarrow> concat bs = ?r"
    using assms by (auto simp: sent_bodies_def)
  have "prefix (?b @ concat bs) m" using bs(3) by (metis append_take_drop_id same_prefix_prefix)
  moreover have "complete \<longrightarrow> ?b @ concat bs = m" using bs(4) by (metis append_take_drop_id)
  ultimately show ?thesis using bs(1,2) unfolding sent_bodies_def
    by (intro exI[of _ "?b # bs"]) (simp add: maxIdentitiesCount_def)
qed

lemma logged_simps:
  "arm_VMUpdate (logged arm) rg n i (w, l) = (case arm_VMUpdate arm rg n i w of (r, w) \<Rightarrow> (r, w, l @ [Option.bind i ci_UserAssignedIdentities]))"
  "arm_VMWait (logged arm) (w, l) = (case arm_VMWait arm w of (r, w) \<Rightarrow> (r, w, l))"
  "arm_VMSSUpdate (logged arm) rg n i (w, l) = (case arm_VMSSUpdate arm rg n i w of (r, w) \<Rightarrow> (r, w, l @ [Option.bind i ci_UserAssignedIdentities]))"
  "arm_VMSSWait (logged arm) (w, l) = (case arm_VMSSWait arm w of (r, w) \<Rightarrow> (r, w, l))"
  by (simp_all add: logged_def)

lemma time_Now_log: "snd (cl_world (snd (time_Now (logged arm) c))) = snd (cl_world c)"
  by (simp add: time_Now_def logged_def split: prod.split)

lemma getRetryAfter_log: "snd (cl_world (snd (getRetryAfter (logged arm) r c))) = snd (cl_world c)"
  using time_Now_log[of arm c] by (auto simp: getRetryAfter_def Let_def split: option.split prod.split)

lemma report_cloud_log: "snd (cl_world (report_cloud (logged arm) op t failed c)) = snd (cl_world c)"
  using time_Now_log[of arm c] by (auto simp: report_cloud_def split: prod.split)

lemma vm_truncate: "truncateVMIdentities (Some m) = (Some (take maxIdentitiesCount m), drop maxIdentitiesCount m)"
  by (simp add: truncateVMIdentities_eq)

lemma vmss_truncate: "truncateVMSSIdentities (Some m) = (Some (take maxIdentitiesCount m), drop maxIdentitiesCount m)"
  by (simp add: vmss_same_as_vm truncateVMIdentities_eq)

lemma vm_loop_bodies:
  assumes "vm_update_loop (logged arm) rg name begin_t i (Some m) c = (err, i', c')"
  shows "sent_bodies m (snd (cl_world c)) (err = None) (snd (cl_world c'))"
  using assms
proof (induction "length m" arbitrary: i m c rule: less_induct)
  case less
  let ?b = "take maxIdentitiesCount m" and ?r = "drop maxIdentitiesCount m"
  define i1 where "i1 = i\<lparr>ci_UserAssignedIdentities := Some ?b\<rparr>"
  have i1: "ci_UserAssignedIdentities i1 = Some ?b" by (simp add: i1_def)
  obtain w l where w: "cl_world c = (w, l)" by fastforce
  obtain u w1 where u: "arm_VMUpdate arm rg name (Some i1) w = (u, w1)" by fastforce
  obtain v w2 where v: "arm_VMWait arm w1 = (v, w2)" by fastforce
  define c1 where "c1 = c\<lparr>cl_world := (w2, l @ [Some ?b]), cl_stats := increment_count TotalPatchCalls 1 (cl_stats c)\<rparr>"
  obtain t c2 where t: "time_Now (logged arm) c1 = (t, c2)" by fastforce
  define c3 where "c3 = c2\<lparr>cl_stats := aggregate_interval CloudPatch begin_t t (cl_stats c2)\<rparr>"
  have l3: "snd (cl_world c3) = l @ [Some ?b]" using time_Now_log[of arm c1] t by (simp add: c3_def c1_def)
  note step = less.prems[unfolded vm_update_loop.simps[of "logged arm" rg name begin_t i "Some m" c] vm_truncate prod.case Let_def, folded i1_def]
  show ?case
  proof (cases u)
    case (Some e)
    obtain t' ct where t': "time_Now (logged arm) (c\<lparr>cl_world := (w1, l @ [Some ?b])\<rparr>) = (t', ct)" by fastforce
    obtain d cd where d: "getRetryAfter (logged arm) (snd e) ct = (d, cd)" by fastforce
    have "snd (cl_world cd) = l @ [Some ?b]"
      using time_Now_log[of arm "c\<lparr>cl_world := (w1, l @ [Some ?b])\<rparr>"] getRetryAfter_log[of arm "snd e" ct] t' d by simp
    then have "snd (cl_world c') = l @ [Some ?b]" "err \<noteq> None"
      using step u t' d Some w by (auto simp: logged_simps i1 split: prod.splits)
    then show ?thesis using sent_part[of "err = None" m l] w by simp
  next
    case None
    show ?thesis
    proof (cases v)
      case (Some e)
      then have "snd (cl_world c') = l @ [Some ?b]" "err \<noteq> None"
        using step u v None w by (auto simp: logged_simps i1)
      then show ?thesis using sent_part[of "err = None" m l] w by simp
    next
      case v': None
      have run: "(if 0 < length ?r then vm_update_loop (logged arm) rg name begin_t i1 (Some ?r) c3 else (None, i1, c3)) = (err, i', c')"
        using step u v None v' w t by (simp add: logged_simps i1 c1_def c3_def split: if_splits)
      show ?thesis
      proof (cases "0 < length ?r")
        case True
        then have "length ?r < length m" by (simp add: maxIdentitiesCount_def)
        from less.hyps[OF this] run True have "sent_bodies ?r (l @ [Some ?b]) (err = None) (snd (cl_world c'))" using l3 by fastforce
        then show ?thesis using sent_more w by simp
      next
        case False
        then have "snd (cl_world c') = l @ [Some ?b]" "length m \<le> maxIdentitiesCount" using run l3 by auto
        then show ?thesis using sent_all w by simp
      qed
    qed
  qed
qed

lemma vm_UpdateIdentities_bodies:
  assumes "vm_UpdateIdentities (logged arm) rg name ps \<lparr>ci_Type = ty, ci_UserAssignedIdentities = Some m\<rparr> c = (err, i', c')" "snd (cl_world c) = []"
  shows "sent_bodies m [] (err = None) (snd (cl_world c')) \<or> err \<noteq> None \<and> snd (cl_world c') = []"
proof -
  let ?i = "\<lparr>ci_Type = ty, ci_UserAssignedIdentities = Some m\<rparr>"
  obtain t1 c1 where t1: "time_Now (logged arm) c = (t1, c1)" by fastforce
  obtain t2 c2 where t2: "time_Now (logged arm) c1 = (t2, c2)" by fastforce
  have l2: "snd (cl_world c2) = []" using time_Now_log[of arm c] time_Now_log[of arm c1] t1 t2 assms(2) by simp
  obtain e j c3 where loop: "vm_update_loop (logged arm) rg name t1 ?i (Some m) c2 = (e, j, c3)" by (metis prod_cases3)
  have bodies: "sent_bodies m [] (e = None) (snd (cl_world c3))" using vm_loop_bodies[OF loop] l2 by simp
  show ?thesis
  proof (cases "ps = Some ProvisioningStateDeleting")
    case True
    then show ?thesis using assms by (auto simp: vm_UpdateIdentities_def)
  next
    case False
    then show ?thesis
      using assms(1) t1 t2 loop bodies l2 by (auto simp: vm_UpdateIdentities_def Let_def report_cloud_log split: if_splits)
  qed
qed

lemma vmss_loop_bodies:
  assumes "vmss_update_loop (logged arm) rg name begin_t i (Some m) c = (err, i', c')"
  shows "sent_bodies m (snd (cl_world c)) (err = None) (snd (cl_world c'))"
  using assms
proof (induction "length m" arbitrary: i m c rule: less_induct)
  case less
  let ?b = "take maxIdentitiesCount m" and ?r = "drop maxIdentitiesCount m"
  define i1 where "i1 = i\<lparr>ci_UserAssignedIdentities := Some ?b\<rparr>"
  have i1: "ci_UserAssignedIdentities i1 = Some ?b" by (simp add: i1_def)
  obtain w l where w: "cl_world c = (w, l)" by fastforce
  obtain u w1 where u: "arm_VMSSUpdate arm rg name (Some i1) w = (u, w1)" by fastforce
  obtain v w2 where v: "arm_VMSSWait arm w1 = (v, w2)" by fastforce
  define c1 where "c1 = c\<lparr>cl_world := (w2, l @ [Some ?b]), cl_stats := increment_count TotalPatchCalls 1 (cl_stats c)\<rparr>"
  obtain t c2 where t: "time_Now (logged arm) c1 = (t, c2)" by fastforce
  define c3 where "c3 = c2\<lparr>cl_stats := aggregate_interval CloudPatch begin_t t (cl_stats c2)\<rparr>"
  have l3: "snd (cl_world c3) = l @ [Some ?b]" using time_Now_log[of arm c1] t by (simp add: c3_def c1_def)
  note step = less.prems[unfolded vmss_update_loop.simps[of "logged arm" rg name begin_t i "Some m" c] vmss_truncate prod.case Let_def, folded i1_def]
  show ?case
  proof (cases u)
    case (Some e)
    obtain t' ct where t': "time_Now (logged arm) (c\<lparr>cl_world := (w1, l @ [Some ?b])\<rparr>) = (t', ct)" by fastforce
    obtain d cd where d: "getRetryAfter (logged arm) (snd e) ct = (d, cd)" by fastforce
    have "snd (cl_world cd) = l @ [Some ?b]"
      using time_Now_log[of arm "c\<lparr>cl_world := (w1, l @ [Some ?b])\<rparr>"] getRetryAfter_log[of arm "snd e" ct] t' d by simp
    then have "snd (cl_world c') = l @ [Some ?b]" "err \<noteq> None"
      using step u t' d Some w by (auto simp: logged_simps i1 split: prod.splits)
    then show ?thesis using sent_part[of "err = None" m l] w by simp
  next
    case None
    show ?thesis
    proof (cases v)
      case (Some e)
      then have "snd (cl_world c') = l @ [Some ?b]" "err \<noteq> None"
        using step u v None w by (auto simp: logged_simps i1)
      then show ?thesis using sent_part[of "err = None" m l] w by simp
    next
      case v': None
      have run: "(if 0 < length ?r then vmss_update_loop (logged arm) rg name begin_t i1 (Some ?r) c3 else (None, i1, c3)) = (err, i', c')"
        using step u v None v' w t by (simp add: logged_simps i1 c1_def c3_def split: if_splits)
      show ?thesis
      proof (cases "0 < length ?r")
        case True
        then have "length ?r < length m" by (simp add: maxIdentitiesCount_def)
        from less.hyps[OF this] run True have "sent_bodies ?r (l @ [Some ?b]) (err = None) (snd (cl_world c'))" using l3 by fastforce
        then show ?thesis using sent_more w by simp
      next
        case False
        then have "snd (cl_world c') = l @ [Some ?b]" "length m \<le> maxIdentitiesCount" using run l3 by auto
        then show ?thesis using sent_all w by simp
      qed
    qed
  qed
qed

lemma vmss_UpdateIdentities_bodies:
  assumes "vmss_UpdateIdentities (logged arm) rg name ps \<lparr>ci_Type = ty, ci_UserAssignedIdentities = Some m\<rparr> c = (err, i', c')" "snd (cl_world c) = []"
  shows "sent_bodies m [] (err = None) (snd (cl_world c')) \<or> err \<noteq> None \<and> snd (cl_world c') = []"
proof -
  let ?i = "\<lparr>ci_Type = ty, ci_UserAssignedIdentities = Some m\<rparr>"
  obtain t1 c1 where t1: "time_Now (logged arm) c = (t1, c1)" by fastforce
  obtain t2 c2 where t2: "time_Now (logged arm) c1 = (t2, c2)" by fastforce
  have l2: "snd (cl_world c2) = []" using time_Now_log[of arm c] time_Now_log[of arm c1] t1 t2 assms(2) by simp
  obtain e j c3 where loop: "vmss_update_loop (logged arm) rg name t1 ?i (Some m) c2 = (e, j, c3)" by (metis prod_cases3)
  have bodies: "sent_bodies m [] (e = None) (snd (cl_world c3))" using vmss_loop_bodies[OF loop] l2 by simp
  show ?thesis
  proof (cases "ps = Some ProvisioningStateDeleting")
    case True
    then show ?thesis using assms by (auto simp: vmss_UpdateIdentities_def)
  next
    case False
    then show ?thesis
      using assms(1) t1 t2 loop bodies l2 by (auto simp: vmss_UpdateIdentities_def Let_def report_cloud_log split: if_splits)
  qed
qed

text \<open>
  (C28) \<^verbatim>\<open>UpdateIdentities\<close> of both clients splits the PATCH map into bodies of at most 150 entries, whatever ARM answers: the bodies that reached ARM are
  consecutive parts of the map from its start, none has more than 150 entries, and if the update succeeded they are the whole map; if no body was sent
  (the client is throttled, or the resource is being deleted) the update failed.
\<close>

theorem UpdateIdentities_batches:
  assumes "update \<in> {vm_UpdateIdentities, vmss_UpdateIdentities}"
    and "update (logged arm) rg name ps \<lparr>ci_Type = ty, ci_UserAssignedIdentities = Some m\<rparr> c = (err, i', c')" "snd (cl_world c) = []"
  shows "\<exists>bodies. snd (cl_world c') = map Some bodies \<and> list_all (\<lambda>b. length b \<le> 150) bodies \<and> prefix (concat bodies) m \<and>
    (err = None \<longrightarrow> bodies \<noteq> [] \<and> concat bodies = m)"
proof -
  have "sent_bodies m [] (err = None) (snd (cl_world c')) \<or> err \<noteq> None \<and> snd (cl_world c') = []"
    using assms vm_UpdateIdentities_bodies[OF _ assms(3)] vmss_UpdateIdentities_bodies[OF _ assms(3)] by blast
  then show ?thesis
  proof
    assume "err \<noteq> None \<and> snd (cl_world c') = []"
    then show ?thesis by (intro exI[of _ "[]"]) simp
  qed (auto simp: sent_bodies_def)
qed

definition many_ids :: identity_map where
  "many_ids = map (\<lambda>n. ([char_of (n :: nat)], Some ())) [0..<151]"

definition accepting_arm :: "string list Arm" where
  "accepting_arm = sample_arm\<lparr>arm_VMSSUpdate := (\<lambda>rg n i w. (None, w))\<rparr>"

definition many_update :: "string option \<times> ComputeIdentity \<times> (string list \<times> identity_map option list) Cloud" where
  "many_update = vmss_UpdateIdentities (logged accepting_arm) ''rg'' ''n'' None
     \<lparr>ci_Type = ResourceIdentityTypeUserAssigned, ci_UserAssignedIdentities = Some many_ids\<rparr> (sample_cloud ([], []))"

theorem UpdateIdentities_batches_witness:
  "\<exists>i' c' bodies. many_update = (None, i', c') \<and> snd (cl_world c') = map Some bodies \<and> list_all (\<lambda>b. length b \<le> 150) bodies \<and> concat bodies = many_ids"
proof -
  have w: "snd (cl_world (sample_cloud ([], []))) = []" by (simp add: sample_cloud_def)
  have "fst many_update = None" by code_simp
  then obtain i' c' where r: "many_update = (None, i', c')" by (metis prod.collapse)
  then show ?thesis using UpdateIdentities_batches[where update = vmss_UpdateIdentities, OF _ r[unfolded many_update_def] w] by blast
qed

text \<open>
  The guarantee that an identity to add is not deleted needs ids that do not differ only by case: with
  an id to add and its upper-case spelling to remove, the outcome depends on the order in which Go visits the
  request map, and in one order the addition is lost.
\<close>

theorem SetUserIdentities_case_order:
  "snd (vm_SetUserIdentities [(''A'', False), (''a'', True)] \<lparr>ci_Type = ResourceIdentityTypeUserAssigned, ci_UserAssignedIdentities = None\<rparr>) =
     \<lparr>ci_Type = ResourceIdentityTypeUserAssigned, ci_UserAssignedIdentities = Some [(''a'', Some ())]\<rparr> \<and>
   snd (vm_SetUserIdentities [(''a'', True), (''A'', False)] \<lparr>ci_Type = ResourceIdentityTypeUserAssigned, ci_UserAssignedIdentities = None\<rparr>) =
     \<lparr>ci_Type = ResourceIdentityTypeNone, ci_UserAssignedIdentities = None\<rparr>"
  by code_simp

end
