(* ===== verification/CloudInit.thy ===== *)
theory CloudInit
  imports CloudProvider
begin

text \<open>
  Construction of the cloud provider client: \<^verbatim>\<open>NewCloudProvider\<close> and \<^verbatim>\<open>Init\<close> of
  \<^verbatim>\<open>pkg/cloudprovider/cloudprovider.go\<close>, \<^verbatim>\<open>NewVirtualMachinesClient\<close> and \<^verbatim>\<open>NewVMSSClient\<close>.  The process
  environment, the configuration file, the YAML decoder and the Azure libraries are the record
  \<open>CloudEnv\<close>.
\<close>

section \<open>Environment\<close>

record AzureEnvironment =
  ActiveDirectoryEndpoint :: string
  ResourceManagerEndpoint :: string

text \<open>Which token the client asks \<^verbatim>\<open>adal\<close> for.\<close>

datatype TokenRequest =
    TokenFromMSI string
  | TokenFromMSIWithUserAssignedID string string
  | TokenFromServicePrincipal string string string string

record CloudEnv =
  env_Getenv :: "string \<Rightarrow> string"
  env_ReadFile :: "string \<Rightarrow> (string, string) result"
  env_Unmarshal :: "string \<Rightarrow> (string, AzureConfig) result"
  env_EnvironmentFromName :: "string \<Rightarrow> (string, AzureEnvironment) result"
  env_AdalAddToUserAgent :: "string option"
  env_NewOAuthConfig :: "string \<Rightarrow> string \<Rightarrow> string option"
  env_NewToken :: "TokenRequest \<Rightarrow> string option"
  env_ClientAddToUserAgent :: "string option"
  env_NewReporter :: "string option"

definition StatusTooManyRequests :: int where "StatusTooManyRequests = 429"

definition linkedAuthorizationFailed :: string where "linkedAuthorizationFailed = ''LinkedAuthorizationFailed''"
definition failedIdentityOperation :: string where "failedIdentityOperation = ''FailedIdentityOperation''"

section \<open>Clients\<close>

definition NewVirtualMachinesClient :: "CloudEnv \<Rightarrow> AzureConfig \<Rightarrow> (string, throttle) result" where
  "NewVirtualMachinesClient env config =
     (case env_EnvironmentFromName env (cfg_Cloud config) of
        Inl err \<Rightarrow> Inl (''failed to get cloud environment, error: '' @ err)
      | Inr azureEnv \<Rightarrow>
          (case env_ClientAddToUserAgent env of
             Some err \<Rightarrow> Inl (''failed to add MIC to user agent, error: '' @ err)
           | None \<Rightarrow>
               (case env_NewReporter env of
                  Some err \<Rightarrow> Inl (''failed to create reporter for metrics, error: '' @ err)
                | None \<Rightarrow> Inr zero_throttle)))"

definition NewVMSSClient :: "CloudEnv \<Rightarrow> AzureConfig \<Rightarrow> (string, throttle) result" where
  "NewVMSSClient env config =
     (case env_EnvironmentFromName env (cfg_Cloud config) of
        Inl err \<Rightarrow> Inl (''failed to get cloud environment, error: '' @ err)
      | Inr azureEnv \<Rightarrow>
          (case env_ClientAddToUserAgent env of
             Some err \<Rightarrow> Inl (''failed to add MIC to user agent, error: '' @ err)
           | None \<Rightarrow>
               (case env_NewReporter env of
                  Some err \<Rightarrow> Inl (''failed to create reporter for metrics, error: '' @ err)
                | None \<Rightarrow> Inr zero_throttle)))"

section \<open>\<^verbatim>\<open>Init\<close>\<close>

definition config_from_env :: "CloudEnv \<Rightarrow> AzureConfig" where
  "config_from_env env =
     zero_AzureConfig\<lparr>cfg_Cloud := env_Getenv env ''CLOUD'',
       cfg_TenantID := env_Getenv env ''TENANT_ID'',
       cfg_ClientID := env_Getenv env ''CLIENT_ID'',
       cfg_ClientSecret := env_Getenv env ''CLIENT_SECRET'',
       cfg_SubscriptionID := env_Getenv env ''SUBSCRIPTION_ID'',
       cfg_ResourceGroupName := env_Getenv env ''RESOURCE_GROUP'',
       cfg_VMType := env_Getenv env ''VM_TYPE'',
       cfg_UseManagedIdentityExtension := strings_EqualFold (env_Getenv env ''USE_MSI'') ''True'',
       cfg_UserAssignedIdentityID := env_Getenv env ''USER_ASSIGNED_MSI_CLIENT_ID''\<rparr>"

definition load_config :: "CloudEnv \<Rightarrow> string \<Rightarrow> (string, AzureConfig) result" where
  "load_config env configFile =
     (if configFile \<noteq> [] then
        (case env_ReadFile env configFile of
           Inl err \<Rightarrow> Inl (''failed to config file '' @ configFile @ '', error: '' @ err)
         | Inr bytes \<Rightarrow>
             (case env_Unmarshal env bytes of
                Inl err \<Rightarrow> Inl (''failed to unmarshal JSON, error: '' @ err)
              | Inr config \<Rightarrow> Inr config))
      else Inr (config_from_env env))"

definition token_request :: "AzureConfig \<Rightarrow> AzureEnvironment \<Rightarrow> TokenRequest" where
  "token_request config azureEnv =
     (if cfg_UseManagedIdentityExtension config then
        if cfg_UserAssignedIdentityID config = [] then TokenFromMSI (ResourceManagerEndpoint azureEnv)
        else TokenFromMSIWithUserAssignedID (ResourceManagerEndpoint azureEnv) (cfg_UserAssignedIdentityID config)
      else TokenFromServicePrincipal (cfg_TenantID config) (cfg_ClientID config) (cfg_ClientSecret config)
             (ResourceManagerEndpoint azureEnv))"

definition token_error :: "TokenRequest \<Rightarrow> string" where
  "token_error r =
     (case r of
        TokenFromMSI _ \<Rightarrow> ''failed to get token from system-assigned identity, error: ''
      | TokenFromMSIWithUserAssignedID _ _ \<Rightarrow> ''failed to get token from user-assigned identity, error: ''
      | TokenFromServicePrincipal _ _ _ _ \<Rightarrow> ''failed to get service principal token, error: '')"

text \<open>
  The result: the configuration, the VM and VMSS clients, and the status codes that \<^verbatim>\<open>autorest\<close> retries
  (a package variable, read and written).
\<close>

definition cloud_Init ::
  "CloudEnv \<Rightarrow> string \<Rightarrow> int list \<Rightarrow> (string, AzureConfig \<times> throttle \<times> throttle \<times> int list) result" where
  "cloud_Init env configFile codes =
     (case load_config env configFile of
        Inl err \<Rightarrow> Inl err
      | Inr config \<Rightarrow>
     (case env_EnvironmentFromName env (cfg_Cloud config) of
        Inl err \<Rightarrow> Inl (''failed to get cloud environment, error: '' @ err)
      | Inr azureEnv \<Rightarrow>
     (case env_AdalAddToUserAgent env of
        Some err \<Rightarrow> Inl (''failed to add MIC to user agent, error: '' @ err)
      | None \<Rightarrow>
     (case env_NewOAuthConfig env (ActiveDirectoryEndpoint azureEnv) (cfg_TenantID config) of
        Some err \<Rightarrow> Inl (''failed to create OAuth config, error: '' @ err)
      | None \<Rightarrow>
     (let req = token_request config azureEnv in
      case env_NewToken env req of
        Some err \<Rightarrow> Inl (token_error req @ err)
      | None \<Rightarrow>
     (case NewVMSSClient env config of
        Inl err \<Rightarrow> Inl (''failed to create VMSS client, error: '' @ err)
      | Inr vmssClient \<Rightarrow>
     (case NewVirtualMachinesClient env config of
        Inl err \<Rightarrow> Inl (''failed to create VM client, error: '' @ err)
      | Inr vmClient \<Rightarrow>
          Inr (config, vmssClient, vmClient, filter (\<lambda>code. code \<noteq> StatusTooManyRequests) codes))))))))"

definition NewCloudProvider ::
  "CloudEnv \<Rightarrow> string \<Rightarrow> int \<Rightarrow> int list \<Rightarrow> stats \<Rightarrow> 'w \<Rightarrow> (string, 'w Cloud \<times> int list) result" where
  "NewCloudProvider env configFile maxRet codes st w =
     (case cloud_Init env configFile codes of
        Inl err \<Rightarrow> Inl (''failed to initialize cloud provider client, error: '' @ err)
      | Inr (config, vmssClient, vmClient, codes') \<Rightarrow>
          Inr (\<lparr>cl_VMClient = vmClient, cl_VMSSClient = vmssClient,
                cl_RetryClient = RegisterRetriableErrors [linkedAuthorizationFailed, failedIdentityOperation]
                                   (NewRetryClient maxRet),
                cl_Config = config, cl_stats = st, cl_metrics = [], cl_world = w\<rparr>, codes'))"

section \<open>Properties\<close>

lemma cloud_Init_ok:
  assumes "cloud_Init env configFile codes = Inr (config, vmssClient, vmClient, codes')"
  obtains azureEnv where "load_config env configFile = Inr config"
    "env_EnvironmentFromName env (cfg_Cloud config) = Inr azureEnv"
    "env_NewToken env (token_request config azureEnv) = None"
    "vmssClient = zero_throttle" "vmClient = zero_throttle"
    "codes' = filter (\<lambda>code. code \<noteq> StatusTooManyRequests) codes"
  using assms that
  by (auto simp: cloud_Init_def NewVirtualMachinesClient_def NewVMSSClient_def Let_def
      split: sum.splits option.splits)

text \<open>
  A cloud provider client that was created starts unthrottled, retries exactly the errors whose text
  names one of the two retriable ARM errors, and \<^verbatim>\<open>autorest\<close> no longer retries the status 429 by itself
  (every other code it retried stays).
\<close>

theorem NewCloudProvider_ready:
  assumes "NewCloudProvider env configFile maxRet codes st w = Inr (c, codes')"
  shows "retryAfterReader (cl_VMClient c) = zero_Time \<and> retryAfterWriter (cl_VMSSClient c) = zero_Time \<and>
         (isRetriable (cl_RetryClient c) (Some e) \<longleftrightarrow>
            sublist ''LinkedAuthorizationFailed'' e \<or> sublist ''FailedIdentityOperation'' e) \<and>
         set codes' = set codes - {429}"
proof -
  from assms obtain config where i: "cloud_Init env configFile codes = Inr (config, cl_VMSSClient c, cl_VMClient c, codes')"
    and r: "cl_RetryClient c = RegisterRetriableErrors [linkedAuthorizationFailed, failedIdentityOperation] (NewRetryClient maxRet)"
    by (auto simp: NewCloudProvider_def split: sum.splits prod.splits)
  have "isRetriable (cl_RetryClient c) (Some e) \<longleftrightarrow>
      sublist ''LinkedAuthorizationFailed'' e \<or> sublist ''FailedIdentityOperation'' e"
    by (auto simp: r isRetriable_iff RegisterRetriableErrors_def NewRetryClient_def
        linkedAuthorizationFailed_def failedIdentityOperation_def)
  then show ?thesis
    using i by (auto elim!: cloud_Init_ok simp: zero_throttle_def StatusTooManyRequests_def)
qed

definition sample_env :: CloudEnv where
  "sample_env = \<lparr>env_Getenv = (\<lambda>_. []), env_ReadFile = (\<lambda>_. Inl ''no file''), env_Unmarshal = (\<lambda>_. Inl ''no yaml''),
     env_EnvironmentFromName = (\<lambda>_. Inr \<lparr>ActiveDirectoryEndpoint = ''ad'', ResourceManagerEndpoint = ''rm''\<rparr>),
     env_AdalAddToUserAgent = None, env_NewOAuthConfig = (\<lambda>_ _. None), env_NewToken = (\<lambda>_. None),
     env_ClientAddToUserAgent = None, env_NewReporter = None\<rparr>"

theorem NewCloudProvider_ready_witness:
  "set (snd (projr (NewCloudProvider sample_env [] 2 [408, 429, 500] stats_Init ()))) = {408, 429, 500} - {429}"
proof -
  obtain c codes' where n: "NewCloudProvider sample_env [] 2 [408, 429, 500] stats_Init () = Inr (c, codes')"
    by (simp add: NewCloudProvider_def cloud_Init_def sample_env_def load_config_def Let_def
        NewVMSSClient_def NewVirtualMachinesClient_def)
  show ?thesis using NewCloudProvider_ready[OF n, of "[]"] n by simp
qed

end
