(* ===== verification/MicStart.thy ===== *)
theory MicStart
  imports MicSync CloudInit CrdClient Kube
begin

text \<open>
  How the controller comes up: \<^verbatim>\<open>NewMICClient\<close>, \<^verbatim>\<open>NewLeaderElector\<close>, \<^verbatim>\<open>UpgradeTypeIfRequired\<close> and \<^verbatim>\<open>Start\<close> of
  \<^verbatim>\<open>pkg/mic/mic.go\<close>, the file watcher of \<^verbatim>\<open>pkg/filewatcher/filewatcher.go\<close>, the handler that initializes the cloud provider
  client again when the configuration file is written, and \<^verbatim>\<open>cmd/mic/main.go\<close>.

  The config map client, the leader election of client-go and fsnotify are parameters.  A nil map in a config map is the empty
  one: both look the same to the code, which makes one before it writes.
\<close>

section \<open>Configuration\<close>

record TypeUpgradeConfig =
  tu_TypeUpgradeStatusKey :: string
  tu_EnableTypeUpgrade :: bool

record CMConfig =
  cmc_Namespace :: string
  cmc_Name :: string

record LeaderElectionConfig =
  le_Namespace :: string
  le_Name :: string
  le_Duration :: Duration
  le_Instance :: string

record UpdateUserMSIConfig =
  uu_MaxRetry :: int
  uu_RetryInterval :: Duration

record micConfig =
  mcf_CloudCfgPath :: string
  mcf_IsNamespaced :: bool
  mcf_SyncRetryInterval :: Duration
  mcf_LeaderElectionCfg :: LeaderElectionConfig
  mcf_CreateDeleteBatch :: int
  mcf_ImmutableUserMSIsList :: "string list"
  mcf_CMcfg :: CMConfig
  mcf_TypeUpgradeCfg :: TypeUpgradeConfig
  mcf_UpdateUserMSICfg :: UpdateUserMSIConfig
  mcf_IdentityAssignmentReconcileInterval :: Duration

section \<open>Type upgrade\<close>

record ConfigMap =
  cm_Namespace :: string
  cm_Name :: string
  cm_Data :: "(string, string) gomap"

record 'w UpgradeEnv =
  ue_crd :: "'w CrdEnv"
  ue_Get :: "string \<Rightarrow> 'w \<Rightarrow> (api_error, ConfigMap) result \<times> 'w"
  ue_Create :: "ConfigMap \<Rightarrow> 'w \<Rightarrow> (api_error, ConfigMap) result \<times> 'w"
  ue_Update :: "ConfigMap \<Rightarrow> 'w \<Rightarrow> api_error option \<times> 'w"
  ue_MICVersion :: string

text \<open>The config map, created when there is none.\<close>

definition get_config_map :: "'w UpgradeEnv \<Rightarrow> CMConfig \<Rightarrow> 'w \<Rightarrow> (string, ConfigMap) result \<times> 'w" where
  "get_config_map env cmc w =
     (let name = cmc_Namespace cmc @ ''/'' @ cmc_Name cmc in
      case ue_Get env (cmc_Name cmc) w of
        (Inr cm, w) \<Rightarrow> (Inr cm, w)
      | (Inl err, w) \<Rightarrow>
          if \<not> IsNotFound err then (Inl (''failed to get ConfigMap '' @ name @ '', error: '' @ ae_Error err), w)
          else
            (case ue_Create env \<lparr>cm_Namespace = cmc_Namespace cmc, cm_Name = cmc_Name cmc, cm_Data = []\<rparr> w of
               (Inl err, w) \<Rightarrow> (Inl (''failed to create ConfigMap '' @ name @ '', error: '' @ ae_Error err), w)
             | (Inr cm, w) \<Rightarrow> (Inr cm, w)))"

definition UpgradeTypeIfRequired ::
  "'w UpgradeEnv \<Rightarrow> TypeUpgradeConfig \<Rightarrow> CMConfig \<Rightarrow> 'w \<Rightarrow> string option outcome \<times> 'w" where
  "UpgradeTypeIfRequired env tu cmc w =
     (if tu_EnableTypeUpgrade tu then
        (case get_config_map env cmc w of
           (Inl err, w) \<Rightarrow> (Returned (Some err), w)
         | (Inr cm, w) \<Rightarrow>
             (case map_of (cm_Data cm) (tu_TypeUpgradeStatusKey tu) of
                Some v \<Rightarrow> (Returned None, w)
              | None \<Rightarrow>
                  (case UpgradeAll (ue_crd env) w of
                     (Panicked t, w) \<Rightarrow> (Panicked t, w)
                   | (Returned (Some err), w) \<Rightarrow> (Returned (Some (''failed to upgrade type, error: '' @ err)), w)
                   | (Returned None, w) \<Rightarrow>
                       (case ue_Update env (cm\<lparr>cm_Data := mput (tu_TypeUpgradeStatusKey tu) (ue_MICVersion env) (cm_Data cm)\<rparr>) w of
                          (Some err, w) \<Rightarrow>
                            (Returned (Some (''failed to update ConfigMap key '' @ tu_TypeUpgradeStatusKey tu @ '' failed, error: '' @ ae_Error err)), w)
                        | (None, w) \<Rightarrow> (Returned None, w)))))
      else (Returned None, w))"

section \<open>Leader election\<close>

record leader_config =
  lc_LeaseDuration :: Duration
  lc_RenewDeadline :: Duration
  lc_RetryPeriod :: Duration
  lc_Identity :: string

text \<open>Go divides durations with truncation; \<open>le_new_lock\<close> and \<open>le_new\<close> are the constructors of client-go.\<close>

definition go_div :: "int \<Rightarrow> int \<Rightarrow> int" where
  "go_div a b = (if a < 0 then - ((- a) div b) else a div b)"

definition NewLeaderElector ::
  "(LeaderElectionConfig \<Rightarrow> string option) \<Rightarrow> (leader_config \<Rightarrow> string option) \<Rightarrow> LeaderElectionConfig \<Rightarrow> (string, leader_config) result" where
  "NewLeaderElector le_new_lock le_new c =
     (case le_new_lock c of
        Some err \<Rightarrow> Inl (''failed to create resource lock for leader election, error: '' @ err)
      | None \<Rightarrow>
          (let config = \<lparr>lc_LeaseDuration = le_Duration c, lc_RenewDeadline = go_div (le_Duration c) 2,
                         lc_RetryPeriod = go_div (le_Duration c) 4, lc_Identity = le_Instance c\<rparr>
           in case le_new config of Some err \<Rightarrow> Inl err | None \<Rightarrow> Inr config))"

section \<open>File watcher\<close>

record 's file_watcher =
  fw_eventHandler :: "(int \<Rightarrow> 's \<Rightarrow> 's) option"
  fw_errorHandler :: "(string \<Rightarrow> 's \<Rightarrow> 's) option"

datatype fs_message = FsExit | FsEvent int | FsError string

definition NewFileWatcher :: "string option \<Rightarrow> (int \<Rightarrow> 's \<Rightarrow> 's) option \<Rightarrow> (string \<Rightarrow> 's \<Rightarrow> 's) option \<Rightarrow> (string, 's file_watcher) result" where
  "NewFileWatcher newWatcher eventHandler errorHandler =
     (case newWatcher of
        Some err \<Rightarrow> Inl err
      | None \<Rightarrow> Inr \<lparr>fw_eventHandler = eventHandler, fw_errorHandler = errorHandler\<rparr>)"

text \<open>\<^verbatim>\<open>Add\<close>: \<open>add\<close> is that of fsnotify.\<close>

definition fw_Add :: "(string \<Rightarrow> string option) \<Rightarrow> string \<Rightarrow> string option" where
  [simp]: "fw_Add add path = add path"

text \<open>The goroutine of \<^verbatim>\<open>Start\<close> on the messages it receives; after the last of a finite list it waits.\<close>

fun fw_Start :: "'s file_watcher \<Rightarrow> fs_message list \<Rightarrow> 's \<Rightarrow> 's" where
  "fw_Start c [] s = s"
| "fw_Start c (FsExit # ms) s = s"
| "fw_Start c (FsEvent op # ms) s = fw_Start c ms (case fw_eventHandler c of None \<Rightarrow> s | Some h \<Rightarrow> h op s)"
| "fw_Start c (FsError err # ms) s = fw_Start c ms (case fw_errorHandler c of None \<Rightarrow> s | Some h \<Rightarrow> h err s)"

section \<open>The cloud provider client after another \<^verbatim>\<open>Init\<close>\<close>

text \<open>
  \<^verbatim>\<open>Init\<close> changes the client in place.  What the decoder leaves in the configuration when it fails is a parameter.  A client for VMs
  or scale sets that cannot be made is nil.
\<close>

record 'w CloudClient =
  cc_cloud :: "'w Cloud"
  cc_VMSSClient_nil :: bool
  cc_VMClient_nil :: bool
  cc_StatusCodesForRetry :: "int list"

definition config_left :: "CloudEnv \<Rightarrow> (string \<Rightarrow> AzureConfig) \<Rightarrow> string \<Rightarrow> AzureConfig" where
  "config_left env partial configFile =
     (case load_config env configFile of
        Inr config \<Rightarrow> config
      | Inl _ \<Rightarrow> (case env_ReadFile env configFile of Inl _ \<Rightarrow> zero_AzureConfig | Inr bytes \<Rightarrow> partial bytes))"

text \<open>Whether \<^verbatim>\<open>Init\<close> comes to making the clients.\<close>

definition has_token :: "CloudEnv \<Rightarrow> AzureConfig \<Rightarrow> bool" where
  "has_token env config =
     (case env_EnvironmentFromName env (cfg_Cloud config) of
        Inl _ \<Rightarrow> False
      | Inr azureEnv \<Rightarrow> env_AdalAddToUserAgent env = None \<and>
          env_NewOAuthConfig env (ActiveDirectoryEndpoint azureEnv) (cfg_TenantID config) = None \<and>
          env_NewToken env (token_request config azureEnv) = None)"

definition reinit :: "CloudEnv \<Rightarrow> (string \<Rightarrow> AzureConfig) \<Rightarrow> string \<Rightarrow> 'w CloudClient \<Rightarrow> string option \<times> 'w CloudClient" where
  "reinit env partial configFile c =
     (let left = config_left env partial configFile;
          c' = c\<lparr>cc_cloud := (cc_cloud c)\<lparr>cl_Config := left\<rparr>\<rparr> in
      case cloud_Init env configFile (cc_StatusCodesForRetry c) of
        Inr (config, vmssClient, vmClient, codes) \<Rightarrow>
          (None, c'\<lparr>cc_cloud := (cc_cloud c')\<lparr>cl_VMSSClient := vmssClient, cl_VMClient := vmClient\<rparr>, cc_VMSSClient_nil := False,
                    cc_VMClient_nil := False, cc_StatusCodesForRetry := codes\<rparr>)
      | Inl err \<Rightarrow>
          (Some err,
           (case load_config env configFile of
              Inl _ \<Rightarrow> c'
            | Inr config \<Rightarrow>
                if \<not> has_token env config then c'
                else
                  (case NewVMSSClient env config of
                     Inl _ \<Rightarrow> c'\<lparr>cc_VMSSClient_nil := True\<rparr>
                   | Inr vmssClient \<Rightarrow>
                       c'\<lparr>cc_cloud := (cc_cloud c')\<lparr>cl_VMSSClient := vmssClient\<rparr>, cc_VMSSClient_nil := False, cc_VMClient_nil := True\<rparr>))))"

definition fsnotify_Write :: int where "fsnotify_Write = 2"

text \<open>The event handler of \<^verbatim>\<open>NewMICClient\<close>; the bit of \<^verbatim>\<open>Write\<close> is the second.\<close>

definition config_event :: "CloudEnv \<Rightarrow> (string \<Rightarrow> AzureConfig) \<Rightarrow> string \<Rightarrow> int \<Rightarrow> 'w CloudClient \<Rightarrow> 'w CloudClient" where
  "config_event env partial configFile op c =
     (if op div fsnotify_Write mod 2 = 1 then snd (reinit env partial configFile c) else c)"

section \<open>Construction and start of the controller\<close>

record 'w NewEnv =
  nw_cloud :: CloudEnv
  nw_partial :: "string \<Rightarrow> AzureConfig"
  nw_codes :: "int list"
  nw_crd :: "'w CrdEnv"
  nw_NewWatcher :: "string option"
  nw_WatcherAdd :: "string \<Rightarrow> string option"
  nw_NewLock :: "LeaderElectionConfig \<Rightarrow> string option"
  nw_NewElector :: "leader_config \<Rightarrow> string option"
  nw_NewReporter :: "string option"

record 'w MICClient =
  mcl_client :: mic_client
  mcl_crd :: crd_client
  mcl_cloud :: "'w CloudClient"
  mcl_CloudConfigWatcher :: "'w CloudClient file_watcher"
  mcl_syncRetryInterval :: Duration
  mcl_identityAssignmentReconcileInterval :: Duration
  mcl_leaderElector :: leader_config
  mcl_TypeUpgradeCfg :: TypeUpgradeConfig
  mcl_CMCfg :: CMConfig
  mcl_CMClient :: "string option"

definition NewMICClient :: "'w NewEnv \<Rightarrow> micConfig \<Rightarrow> stats \<Rightarrow> 'w \<Rightarrow> (string, 'w MICClient) result" where
  "NewMICClient env cfg st w =
     (case NewCloudProvider (nw_cloud env) (mcf_CloudCfgPath cfg) (uu_MaxRetry (mcf_UpdateUserMSICfg cfg)) (nw_codes env) st w of
        Inl err \<Rightarrow> Inl err
      | Inr (cloudClient, codes) \<Rightarrow>
     (case NewCRDClient (nw_crd env) of
        Inl err \<Rightarrow> Inl err
      | Inr crdClient \<Rightarrow>
     (case NewFileWatcher (nw_NewWatcher env) (Some (config_event (nw_cloud env) (nw_partial env) (mcf_CloudCfgPath cfg))) (Some (\<lambda>err c. c)) of
        Inl err \<Rightarrow> Inl err
      | Inr cloudConfigWatcher \<Rightarrow>
     (case fw_Add (nw_WatcherAdd env) (mcf_CloudCfgPath cfg) of
        Some err \<Rightarrow> Inl err
      | None \<Rightarrow>
     (case NewLeaderElector (nw_NewLock env) (nw_NewElector env) (mcf_LeaderElectionCfg cfg) of
        Inl err \<Rightarrow> Inl (''failed to create new leader elector, error: '' @ err)
      | Inr leaderElector \<Rightarrow>
     (case nw_NewReporter env of
        Some err \<Rightarrow> Inl (''failed to create reporter for metrics, error: '' @ err)
      | None \<Rightarrow> Inr
          \<lparr>mcl_client = \<lparr>mic_IsNamespaced = mcf_IsNamespaced cfg,
             mic_ImmutableUserMSIsMap = immutable_map (mcf_ImmutableUserMSIsList cfg) (GetClusterIdentity cloudClient),
             mic_createDeleteBatch = mcf_CreateDeleteBatch cfg\<rparr>,
           mcl_crd = crdClient,
           mcl_cloud = \<lparr>cc_cloud = cloudClient, cc_VMSSClient_nil = False, cc_VMClient_nil = False, cc_StatusCodesForRetry = codes\<rparr>,
           mcl_CloudConfigWatcher = cloudConfigWatcher,
           mcl_syncRetryInterval = mcf_SyncRetryInterval cfg,
           mcl_identityAssignmentReconcileInterval = mcf_IdentityAssignmentReconcileInterval cfg,
           mcl_leaderElector = leaderElector,
           mcl_TypeUpgradeCfg = mcf_TypeUpgradeCfg cfg,
           mcl_CMCfg = mcf_CMcfg cfg,
           mcl_CMClient = (if tu_EnableTypeUpgrade (mcf_TypeUpgradeCfg cfg) then Some (cmc_Namespace (mcf_CMcfg cfg)) else None)\<rparr>))))))"

text \<open>
  \<^verbatim>\<open>Start\<close>: the upgrade (an error of it is fatal), then the clients, each in a goroutine of its own (\<open>starters\<close>, in the order in which they
  run), and the sync loop when all of them are done.
\<close>

fun start_all :: "('w \<Rightarrow> unit outcome \<times> 'w) list \<Rightarrow> 'w \<Rightarrow> unit outcome \<times> 'w" where
  "start_all [] w = (Returned (), w)"
| "start_all (f # fs) w = (case f w of (Panicked t, w) \<Rightarrow> (Panicked t, w) | (Returned _, w) \<Rightarrow> start_all fs w)"

definition mic_Start ::
  "'w UpgradeEnv \<Rightarrow> TypeUpgradeConfig \<Rightarrow> CMConfig \<Rightarrow> ('w \<Rightarrow> unit outcome \<times> 'w) list \<Rightarrow> ('w \<Rightarrow> 'w) \<Rightarrow> 'w \<Rightarrow> (string, unit) result outcome \<times> 'w" where
  "mic_Start env tu cmc starters sync w =
     (case UpgradeTypeIfRequired env tu cmc w of
        (Panicked t, w) \<Rightarrow> (Panicked t, w)
      | (Returned (Some err), w) \<Rightarrow> (Returned (Inl (''type upgrade failed with error: '' @ err)), w)
      | (Returned None, w) \<Rightarrow>
          (case start_all starters w of
             (Panicked t, w) \<Rightarrow> (Panicked t, w)
           | (Returned _, w) \<Rightarrow> (Returned (Inr ()), sync w)))"

section \<open>The main program\<close>

record MicFlags =
  mf_cloudconfig :: string
  mf_forceNamespaced :: bool
  mf_syncRetryDuration :: Duration
  mf_leaderElectionCfg :: LeaderElectionConfig
  mf_createDeleteBatch :: int
  mf_immutableUserMSIs :: string
  mf_configMapName :: string
  mf_typeUpgradeConfig :: TypeUpgradeConfig
  mf_updateUserMSIConfig :: UpdateUserMSIConfig
  mf_identityAssignmentReconcileInterval :: Duration

definition mic_default_flags :: "string \<Rightarrow> MicFlags" where
  "mic_default_flags hostName =
     \<lparr>mf_cloudconfig = [], mf_forceNamespaced = False, mf_syncRetryDuration = 3600 * time_Second,
      mf_leaderElectionCfg = \<lparr>le_Namespace = ''default'', le_Name = ''aad-pod-identity-mic'', le_Duration = time_Second * 15, le_Instance = hostName\<rparr>,
      mf_createDeleteBatch = 20, mf_immutableUserMSIs = [], mf_configMapName = ''aad-pod-identity-config'',
      mf_typeUpgradeConfig = \<lparr>tu_TypeUpgradeStatusKey = ''type-upgrade-status'', tu_EnableTypeUpgrade = True\<rparr>,
      mf_updateUserMSIConfig = \<lparr>uu_MaxRetry = 2, uu_RetryInterval = time_Second\<rparr>,
      mf_identityAssignmentReconcileInterval = 3 * 60 * time_Second\<rparr>"

text \<open>The configuration that \<^verbatim>\<open>main\<close> makes of the flags and the environment, or the text of a fatal error.\<close>

definition mic_main_config :: "(string \<Rightarrow> string) \<Rightarrow> MicFlags \<Rightarrow> (string, micConfig) result" where
  "mic_main_config getenv fl =
     (let podns = getenv ''MIC_POD_NAMESPACE'' in
      if podns = [] then Inl ''namespace not specified. Please add meta.namespace as env variable MIC_POD_NAMESPACE''
      else Inr
        \<lparr>mcf_CloudCfgPath = mf_cloudconfig fl,
         mcf_IsNamespaced = (mf_forceNamespaced fl \<or> ''true'' = getenv ''FORCENAMESPACED''),
         mcf_SyncRetryInterval = mf_syncRetryDuration fl,
         mcf_LeaderElectionCfg = mf_leaderElectionCfg fl,
         mcf_CreateDeleteBatch = mf_createDeleteBatch fl,
         mcf_ImmutableUserMSIsList = (if mf_immutableUserMSIs fl \<noteq> [] then strings_Split (CHR '','') (mf_immutableUserMSIs fl) else []),
         mcf_CMcfg = \<lparr>cmc_Namespace = podns, cmc_Name = mf_configMapName fl\<rparr>,
         mcf_TypeUpgradeCfg = mf_typeUpgradeConfig fl,
         mcf_UpdateUserMSICfg = mf_updateUserMSIConfig fl,
         mcf_IdentityAssignmentReconcileInterval = mf_identityAssignmentReconcileInterval fl\<rparr>)"

section \<open>The config map as the code relies on it\<close>

text \<open>\<open>cm\<close> reads the config map of the controller off the world.\<close>

definition cm_honest :: "'w UpgradeEnv \<Rightarrow> CMConfig \<Rightarrow> ('w \<Rightarrow> ConfigMap option) \<Rightarrow> bool" where
  "cm_honest env cmc cm \<longleftrightarrow>
     (\<forall>w. case ue_Get env (cmc_Name cmc) w of (r, w') \<Rightarrow> cm w' = cm w \<and>
        (case r of Inr c \<Rightarrow> cm w = Some c | Inl e \<Rightarrow> IsNotFound e \<longrightarrow> cm w = None)) \<and>
     (\<forall>c w. cm_Name c = cmc_Name cmc \<longrightarrow> (case ue_Create env c w of
        (Inr c', w') \<Rightarrow> c' = c \<and> cm w' = Some c | (Inl _, w') \<Rightarrow> cm w' = cm w)) \<and>
     (\<forall>c w. case ue_Update env c w of (None, w') \<Rightarrow> cm w' = Some c | (Some _, w') \<Rightarrow> cm w' = cm w) \<and>
     (\<forall>w. cm (snd (UpgradeAll (ue_crd env) w)) = cm w)"

definition upgraded :: "TypeUpgradeConfig \<Rightarrow> ConfigMap option \<Rightarrow> bool" where
  "upgraded tu m = (case m of None \<Rightarrow> False | Some m \<Rightarrow> map_of (cm_Data m) (tu_TypeUpgradeStatusKey tu) \<noteq> None)"

lemma get_config_map_honest:
  assumes H: "cm_honest env cmc cm" and G: "get_config_map env cmc w = (Inr m, w')"
  shows "cm w' = Some m \<and> (cm w = Some m \<or> cm w = None \<and> cm_Data m = [])"
proof -
  obtain r w1 where g: "ue_Get env (cmc_Name cmc) w = (r, w1)" by fastforce
  have get: "cm w1 = cm w" "case r of Inr c \<Rightarrow> cm w = Some c | Inl e \<Rightarrow> IsNotFound e \<longrightarrow> cm w = None"
    using H g unfolding cm_honest_def by (auto dest!: spec[of _ w])
  show ?thesis
  proof (cases r)
    case (Inr c)
    then show ?thesis using G g get by (simp add: get_config_map_def)
  next
    case (Inl e)
    let ?c = "\<lparr>cm_Namespace = cmc_Namespace cmc, cm_Name = cmc_Name cmc, cm_Data = []\<rparr>"
    have nf: "IsNotFound e" and cr: "ue_Create env ?c w1 = (Inr m, w')"
      using G g Inl by (auto simp: get_config_map_def Let_def split: if_splits prod.splits sum.splits)
    have "case ue_Create env ?c w1 of (Inr c', w') \<Rightarrow> c' = ?c \<and> cm w' = Some ?c | (Inl _, w') \<Rightarrow> cm w' = cm w1"
      using H unfolding cm_honest_def by (metis (no_types) ConfigMap.select_convs(2))
    then show ?thesis using cr nf get Inl by simp
  qed
qed

lemma upgraded_skips:
  assumes H: "cm_honest env cmc cm" and U: "upgraded tu (cm w)"
  shows "UpgradeTypeIfRequired (env\<lparr>ue_crd := crd\<rparr>) tu cmc w = UpgradeTypeIfRequired env tu cmc w"
proof -
  have same: "get_config_map (env\<lparr>ue_crd := crd\<rparr>) cmc w = get_config_map env cmc w"
  proof -
    have rec: "ue_Get (env\<lparr>ue_crd := crd\<rparr>) = ue_Get env" "ue_Create (env\<lparr>ue_crd := crd\<rparr>) = ue_Create env" by simp_all
    show ?thesis unfolding get_config_map_def rec by (rule refl)
  qed
  obtain r w' where g: "get_config_map env cmc w = (r, w')" by fastforce
  show ?thesis
  proof (cases r)
    case (Inr m)
    then have "map_of (cm_Data m) (tu_TypeUpgradeStatusKey tu) \<noteq> None"
      using get_config_map_honest[OF H g[unfolded Inr]] U by (auto simp: upgraded_def)
    then show ?thesis using same g Inr by (auto simp: UpgradeTypeIfRequired_def)
  qed (use same g in \<open>simp add: UpgradeTypeIfRequired_def\<close>)
qed

lemma get_config_map_fails:
  assumes H: "cm_honest env cmc cm" and G: "get_config_map env cmc w = (Inl err, w')"
  shows "cm w' = cm w"
proof -
  obtain r w1 where g: "ue_Get env (cmc_Name cmc) w = (r, w1)" by fastforce
  have get: "cm w1 = cm w" using H g unfolding cm_honest_def by (auto dest!: spec[of _ w])
  let ?c = "\<lparr>cm_Namespace = cmc_Namespace cmc, cm_Name = cmc_Name cmc, cm_Data = []\<rparr>"
  have cr: "case ue_Create env ?c w1 of (Inr c', w') \<Rightarrow> c' = ?c \<and> cm w' = Some ?c | (Inl _, w') \<Rightarrow> cm w' = cm w1"
    using H unfolding cm_honest_def by (metis (no_types) ConfigMap.select_convs(2))
  show ?thesis using G g get cr by (auto simp: get_config_map_def Let_def split: sum.splits if_splits prod.splits)
qed

lemma upgrade_marks:
  assumes H: "cm_honest env cmc cm" and E: "tu_EnableTypeUpgrade tu"
    and R: "UpgradeTypeIfRequired env tu cmc w = (r, w')"
  shows "(r = Returned None \<longrightarrow> upgraded tu (cm w')) \<and>
    (\<not> upgraded tu (cm w) \<and> upgraded tu (cm w') \<longrightarrow>
       (\<exists>m w2. UpgradeAll (ue_crd env) (snd (get_config_map env cmc w)) = (Returned None, w2) \<and> \<not> upgraded tu (cm w2) \<and> ue_Update env m w2 = (None, w')))"
proof (cases "get_config_map env cmc w")
  case (Pair x w1)
  show ?thesis
  proof (cases x)
    case (Inl e)
    then have "r = Returned (Some e)" "w' = w1" using R E Pair by (simp_all add: UpgradeTypeIfRequired_def)
    then show ?thesis using get_config_map_fails[OF H Pair[unfolded Inl]] by simp
  next
    case (Inr m)
    note h = get_config_map_honest[OF H Pair[unfolded Inr]]
    have keep: "cm w2 = cm w1" if "UpgradeAll (ue_crd env) w1 = (o1, w2)" for o1 w2
      using H that unfolding cm_honest_def by (metis snd_conv)
    let ?m = "m\<lparr>cm_Data := mput (tu_TypeUpgradeStatusKey tu) (ue_MICVersion env) (cm_Data m)\<rparr>"
    have put: "case ue_Update env ?m w2 of (None, w') \<Rightarrow> cm w' = Some ?m | (Some _, w') \<Rightarrow> cm w' = cm w2" for w2
      using H unfolding cm_honest_def by (elim conjE) (drule spec, drule spec, assumption)
    obtain o1 w2 where u: "UpgradeAll (ue_crd env) w1 = (o1, w2)" by fastforce
    obtain e w3 where p: "ue_Update env ?m w2 = (e, w3)" by fastforce
    show ?thesis
    proof (cases "map_of (cm_Data m) (tu_TypeUpgradeStatusKey tu)")
      case None
      then have w2: "\<not> upgraded tu (cm w2)" using keep[OF u] h by (simp add: upgraded_def)
      have run: "(r, w') = (case o1 of Panicked t \<Rightarrow> (Panicked t, w2) | Returned (Some err) \<Rightarrow> (Returned (Some (''failed to upgrade type, error: '' @ err)), w2)
         | Returned None \<Rightarrow> (case e of Some err \<Rightarrow> (Returned (Some (''failed to update ConfigMap key '' @ tu_TypeUpgradeStatusKey tu @ '' failed, error: '' @ ae_Error err)), w3)
            | None \<Rightarrow> (Returned None, w3)))"
        using R E Pair Inr None u p by (auto simp: UpgradeTypeIfRequired_def split: outcome.splits option.splits)
      have marked: "upgraded tu (cm w3)" if "e = None" using put[of w2] p that by (simp add: upgraded_def)
      have unmarked: "\<not> upgraded tu (cm w3)" if "e \<noteq> None" using put[of w2] p that w2 by auto
      show ?thesis using run marked unmarked w2 u p Pair by (auto split: outcome.splits option.splits)
    next
      case (Some v)
      then have "w' = w1" using R E Pair Inr by (simp add: UpgradeTypeIfRequired_def)
      then show ?thesis using h Some by (auto simp: upgraded_def)
    qed
  qed
qed


definition crd_of_map :: "ConfigMap option CrdEnv" where
  "crd_of_map = \<lparr>ce_Now = (\<lambda>w. (0, w)), ce_TagNew = ce_TagNew mem_env, ce_SetGVK = ce_SetGVK mem_env, ce_Marshal = (\<lambda>_. Inr []),
     ce_Unmarshal = (\<lambda>_ _. Inr []), ce_ExtractList = Inr, ce_Accessor = (\<lambda>_. None),
     ce_Delete = (\<lambda>_ _ w. (Inl (ApiError True []), w)), ce_Post = (\<lambda>_ a w. (Inr a, w)), ce_Put = (\<lambda>_ _ _ _ w. (Inr (), w)),
     ce_PutIdentity = (\<lambda>_ _ _ _ w. (Inl (ApiError True []), w)), ce_PutBinding = (\<lambda>_ _ _ _ w. (Inl (ApiError True []), w)),
     ce_Patch = (\<lambda>_ _ _ w. (None, w)), ce_GetRaw = (\<lambda>_ w. (Inr [], w)), ce_WaitForCacheSync = (\<lambda>_ w. (True, w)),
     ce_NewRestClient = None, ce_NewReporter = None\<rparr>"

definition upgrade_sample :: "ConfigMap option UpgradeEnv" where
  "upgrade_sample = \<lparr>ue_crd = crd_of_map,
     ue_Get = (\<lambda>_ w. (case w of None \<Rightarrow> Inl (ApiError True ''not found'') | Some c \<Rightarrow> Inr c, w)),
     ue_Create = (\<lambda>c w. (Inr c, Some c)), ue_Update = (\<lambda>c w. (None, Some c)), ue_MICVersion = ''1.8''\<rparr>"

lemma upgrade_sample_honest: "cm_honest upgrade_sample cmc (\<lambda>w. w)"
proof -
  have "snd (UpgradeAll crd_of_map w) = w" for w
    by (simp add: UpgradeAll_def Upgrade_def getObjectList_def crd_of_map_def)
  then show ?thesis by (simp add: cm_honest_def upgrade_sample_def split: option.split)
qed


section \<open>A failed reload\<close>

text \<open>
  A write to the configuration file that cannot be read back leaves the cloud provider client without a configuration: \<^verbatim>\<open>Init\<close> clears it
  first, the handler drops the error, and the clients for VMs and scale sets stay, so that the next requests name an
  empty subscription and resource group.
\<close>

lemma failed_reload_clears_config:
  assumes "configFile \<noteq> []" "env_ReadFile env configFile = Inl err" "op div fsnotify_Write mod 2 = 1"
  shows "cl_Config (cc_cloud (config_event env partial configFile op c)) = zero_AzureConfig \<and>
    cl_VMClient (cc_cloud (config_event env partial configFile op c)) = cl_VMClient (cc_cloud c) \<and>
    cl_VMSSClient (cc_cloud (config_event env partial configFile op c)) = cl_VMSSClient (cc_cloud c) \<and>
    cc_VMClient_nil (config_event env partial configFile op c) = cc_VMClient_nil c \<and>
    cc_VMSSClient_nil (config_event env partial configFile op c) = cc_VMSSClient_nil c"
proof -
  have "load_config env configFile = Inl (''failed to config file '' @ configFile @ '', error: '' @ err)"
    using assms(1,2) by (simp add: load_config_def)
  then show ?thesis using assms(2,3)
    by (simp add: config_event_def reinit_def Let_def cloud_Init_def config_left_def)
qed

lemma reload_keeps_config:
  assumes "fst (reinit env partial configFile c) = None" "load_config env configFile = Inr config"
  shows "cl_Config (cc_cloud (snd (reinit env partial configFile c))) = config"
  using assms by (auto simp: reinit_def Let_def config_left_def split: sum.splits)

section \<open>The controller is put together right\<close>

lemma leader_config_valid:
  assumes "NewLeaderElector lock new c = Inr l" "4 \<le> le_Duration c"
  shows "lc_RenewDeadline l < lc_LeaseDuration l" "6 * lc_RetryPeriod l < 5 * lc_RenewDeadline l" "1 \<le> lc_RetryPeriod l"
  using assms by (auto simp: NewLeaderElector_def go_div_def Let_def split: option.splits)

lemma immutable_map_iff:
  "map_of (immutable_map xs ci) k \<noteq> None \<longleftrightarrow> k \<in> strings_ToLower ` set xs \<or> ci \<noteq> [] \<and> k = ci"
proof -
  have "map_of (fold (\<lambda>item m. mput (strings_ToLower item) True m) xs m) k \<noteq> None \<longleftrightarrow>
      k \<in> strings_ToLower ` set xs \<or> map_of m k \<noteq> None" for m
    by (induction xs arbitrary: m) auto
  from this[of "[]"] show ?thesis by (auto simp: immutable_map_def Let_def)
qed

lemma NewMICClient_parts:
  assumes "NewMICClient env cfg st w = Inr m"
  obtains cloud codes where "NewCloudProvider (nw_cloud env) (mcf_CloudCfgPath cfg) (uu_MaxRetry (mcf_UpdateUserMSICfg cfg)) (nw_codes env) st w = Inr (cloud, codes)"
    "NewCRDClient (nw_crd env) = Inr (mcl_crd m)" "cc_cloud (mcl_cloud m) = cloud"
    "mcl_client m = \<lparr>mic_IsNamespaced = mcf_IsNamespaced cfg,
       mic_ImmutableUserMSIsMap = immutable_map (mcf_ImmutableUserMSIsList cfg) (GetClusterIdentity cloud),
       mic_createDeleteBatch = mcf_CreateDeleteBatch cfg\<rparr>"
    "NewLeaderElector (nw_NewLock env) (nw_NewElector env) (mcf_LeaderElectionCfg cfg) = Inr (mcl_leaderElector m)"
  using assms by (auto simp: NewMICClient_def split: sum.splits option.splits prod.splits)

lemma NewCRDClient_informers: "NewCRDClient env = Inr c \<Longrightarrow> informers c = (True, True, True, False)"
  by (auto simp: NewCRDClient_def informers_def split: option.splits)

lemma returns_map_outcome [simp]: "returns (map_outcome f x) \<longleftrightarrow> returns x"
  by (cases x) simp_all

lemma ListAssignedIDsInMap_returns:
  "returns (fst (ListAssignedIDsInMap env s)) \<longleftrightarrow> crd_AssignedIDInformer (cs_client s) \<noteq> None"
  unfolding ListAssignedIDsInMap_def list_returns(3)[symmetric, of s env] by (simp add: ListAssignedIDs_def split: prod.split)

text \<open>
  The controller is put together right.  When \<^verbatim>\<open>main\<close> and \<^verbatim>\<open>NewMICClient\<close> succeed: the CRD client has the informers that the sync loop reads, so
  that none of its listings and no cache synchronization of the loop panics on a nil informer; namespaced mode is on exactly if the flag or the environment
  says so; the identity of the cluster and the configured identities in lower case are protected from removal, and nothing else;
  and with a lease of at least four nanoseconds the times of the election are in the order that it needs.
\<close>

theorem mic_put_together:
  assumes "mic_main_config getenv fl = Inr cfg" "NewMICClient env cfg st w = Inr m" "informers (cs_client s) = informers (mcl_crd m)"
  shows "returns (fst (ListBindings (nw_crd env) s)) \<and> returns (fst (ListIds (nw_crd env) s)) \<and>
    returns (fst (ListAssignedIDs (nw_crd env) s)) \<and> returns (fst (ListAssignedIDsInMap (nw_crd env) s)) \<and>
    returns (fst (SyncCacheAll (nw_crd env) False s)) \<and>
    (mic_IsNamespaced (mcl_client m) \<longleftrightarrow> mf_forceNamespaced fl \<or> getenv ''FORCENAMESPACED'' = ''true'') \<and>
    (\<forall>i. checkIfIdentityImmutable (mcl_client m) i \<longleftrightarrow>
       i \<in> strings_ToLower ` set (mcf_ImmutableUserMSIsList cfg) \<or>
       GetClusterIdentity (cc_cloud (mcl_cloud m)) \<noteq> [] \<and> i = GetClusterIdentity (cc_cloud (mcl_cloud m))) \<and>
    (4 \<le> le_Duration (mf_leaderElectionCfg fl) \<longrightarrow>
       lc_RenewDeadline (mcl_leaderElector m) < lc_LeaseDuration (mcl_leaderElector m) \<and>
       6 * lc_RetryPeriod (mcl_leaderElector m) < 5 * lc_RenewDeadline (mcl_leaderElector m))"
proof -
  obtain cloud codes where P: "NewCRDClient (nw_crd env) = Inr (mcl_crd m)" "cc_cloud (mcl_cloud m) = cloud"
    "mcl_client m = \<lparr>mic_IsNamespaced = mcf_IsNamespaced cfg,
       mic_ImmutableUserMSIsMap = immutable_map (mcf_ImmutableUserMSIsList cfg) (GetClusterIdentity cloud),
       mic_createDeleteBatch = mcf_CreateDeleteBatch cfg\<rparr>"
    "NewLeaderElector (nw_NewLock env) (nw_NewElector env) (mcf_LeaderElectionCfg cfg) = Inr (mcl_leaderElector m)"
    using assms(2) by (rule NewMICClient_parts)
  have cfg: "mcf_LeaderElectionCfg cfg = mf_leaderElectionCfg fl"
    "mcf_IsNamespaced cfg = (mf_forceNamespaced fl \<or> getenv ''FORCENAMESPACED'' = ''true'')"
    using assms(1) by (auto simp: mic_main_config_def Let_def split: if_splits)
  have inf: "crd_BindingInformer (cs_client s) \<noteq> None" "crd_IDInformer (cs_client s) \<noteq> None" "crd_AssignedIDInformer (cs_client s) \<noteq> None"
    using NewCRDClient_informers[OF P(1)] assms(3) by (simp_all add: informers_def)
  then have "returns (fst (SyncCacheAll (nw_crd env) False s))"
    by (auto simp: SyncCacheAll_def sync_three_def SyncCache_def split: prod.split)
  moreover have "\<forall>i. checkIfIdentityImmutable (mcl_client m) i \<longleftrightarrow>
       i \<in> strings_ToLower ` set (mcf_ImmutableUserMSIsList cfg) \<or> GetClusterIdentity cloud \<noteq> [] \<and> i = GetClusterIdentity cloud"
    by (simp only: checkIfIdentityImmutable_def P(3) mic_client.select_convs immutable_map_iff) simp
  ultimately show ?thesis
    using inf list_returns(1-3)[of "nw_crd env" s] ListAssignedIDsInMap_returns[of "nw_crd env" s] P(2,3) cfg
      leader_config_valid(1,2)[OF P(4)] by simp
qed

definition new_env_sample :: "mem_api NewEnv" where
  "new_env_sample = \<lparr>nw_cloud = sample_env, nw_partial = (\<lambda>_. zero_AzureConfig), nw_codes = [408, 429], nw_crd = mem_env, nw_NewWatcher = None,
     nw_WatcherAdd = (\<lambda>_. None), nw_NewLock = (\<lambda>_. None), nw_NewElector = (\<lambda>_. None), nw_NewReporter = None\<rparr>"

theorem mic_put_together_witness:
  "\<exists>cfg m. mic_main_config (\<lambda>k. if k = ''MIC_POD_NAMESPACE'' then ''kube-system'' else []) (mic_default_flags ''host'') = Inr cfg \<and>
     NewMICClient new_env_sample cfg stats_Init (cs_world crd_start) = Inr m \<and>
     returns (fst (ListAssignedIDsInMap mem_env (crd_start\<lparr>cs_client := mcl_crd m\<rparr>))) \<and>
     lc_RenewDeadline (mcl_leaderElector m) < lc_LeaseDuration (mcl_leaderElector m)"
proof -
  let ?g = "\<lambda>k. if k = ''MIC_POD_NAMESPACE'' then ''kube-system'' else []" and ?f = "mic_default_flags ''host''"
  obtain cfg where c: "mic_main_config ?g ?f = Inr cfg" by (simp add: mic_main_config_def)
  have "mcf_CloudCfgPath cfg = []" using c by (auto simp: mic_main_config_def mic_default_flags_def)
  then obtain m where m: "NewMICClient new_env_sample cfg stats_Init (cs_world crd_start) = Inr m"
    by (simp add: NewMICClient_def new_env_sample_def NewCloudProvider_def cloud_Init_def sample_env_def load_config_def Let_def
        NewVMSSClient_def NewVirtualMachinesClient_def NewCRDClient_def mem_env_def NewFileWatcher_def NewLeaderElector_def)
  have i: "informers (cs_client (crd_start\<lparr>cs_client := mcl_crd m\<rparr>)) = informers (mcl_crd m)" by simp
  have "4 \<le> le_Duration (mf_leaderElectionCfg ?f)" by (simp add: mic_default_flags_def time_Second_def)
  moreover have "nw_crd new_env_sample = mem_env" by (simp add: new_env_sample_def)
  ultimately show ?thesis using mic_put_together[OF c m i] c m by auto
qed

end
