(* ===== verification/MicEvents.thy ===== *)
theory MicEvents
  imports MicStart
begin

text \<open>
  The events that wake the sync loop of the controller.  \<^verbatim>\<open>src/pkg/pod/pod.go\<close> watches the pods and, for an update, sends an event only when the
  node or the label of the pod changed; this theory shows that nothing else of a pod matters to the desired state.  It also holds the \<^verbatim>\<open>Start\<close> of the
  pod and node clients and \<^verbatim>\<open>Run\<close> of \<^verbatim>\<open>src/pkg/mic/mic.go\<close>.
\<close>

section \<open>Pod updates that raise no event\<close>

text \<open>The pods of the informer that \<^verbatim>\<open>GetPods\<close> lists: those that have the label.\<close>

definition has_crd_label :: "Pod \<Rightarrow> bool" where
  "has_crd_label p \<longleftrightarrow> map_of (pod_Labels p) CRDLabelKey \<noteq> None"

lemma desired_pod_step_reads:
  assumes "pod_NodeName p' = pod_NodeName p" "mget0 [] (pod_Labels p') CRDLabelKey = mget0 [] (pod_Labels p) CRDLabelKey"
    and "pod_Name p' = pod_Name p" "pod_Namespace p' = pod_Namespace p"
  shows "desired_pod_step c bs ids p' = desired_pod_step c bs ids p"
proof -
  have same: "desired_binding_step c ids p' = desired_binding_step c ids p"
    unfolding desired_binding_step_def[abs_def] assms by (rule refl)
  show ?thesis unfolding desired_pod_step_def[abs_def] assms same by (rule refl)
qed

lemma desired_listed: "createDesiredAssignedIdentityList c (filter has_crd_label ps) bs ids = createDesiredAssignedIdentityList c ps bs ids"
proof -
  have skip: "desired_pod_step c bs ids p acc = acc" if "\<not> has_crd_label p" for p acc
    using that by (simp add: desired_pod_step_def has_crd_label_def mget0_def split: prod.split)
  have "fold (desired_pod_step c bs ids) (filter has_crd_label ps) acc = fold (desired_pod_step c bs ids) ps acc" for acc
    by (induction ps arbitrary: acc) (simp_all add: skip)
  then show ?thesis by (simp add: createDesiredAssignedIdentityList_def)
qed

text \<open>
  (C19) No update of a pod is missed.  When the handler of the pod informer sends no event for an update, the desired state that a cycle computes from
  the pods it lists is the same with the new pod as with the old one, whatever the bindings, the identities and the other pods are: it is enough to
  watch the node and the label.  (A pod never changes its name or namespace.)
\<close>

theorem quiet_pod_update:
  assumes "pod_handler (UpdateFunc (ObjPod p) (ObjPod p')) = Returned []" "pod_Name p' = pod_Name p" "pod_Namespace p' = pod_Namespace p"
  shows "createDesiredAssignedIdentityList c (filter has_crd_label (before @ p' # after)) bs ids =
    createDesiredAssignedIdentityList c (filter has_crd_label (before @ p # after)) bs ids"
proof -
  have "pod_NodeName p' = pod_NodeName p \<and> mget0 [] (pod_Labels p') CRDLabelKey = mget0 [] (pod_Labels p) CRDLabelKey"
    using assms(1) by (auto split: if_splits)
  then have "desired_pod_step c bs ids p' = desired_pod_step c bs ids p" using desired_pod_step_reads assms(2,3) by blast
  then show ?thesis unfolding desired_listed by (simp add: createDesiredAssignedIdentityList_def)
qed

theorem quiet_pod_update_witness:
  "createDesiredAssignedIdentityList sample_client (filter has_crd_label ([] @ sample_pod\<lparr>pod_Phase := ''Running''\<rparr> # []))
     [sample_binding ''other'' ''b2'', sample_binding ''ns'' ''b1''] (convertIDListToMap [sample_id ''ns'' ''id'', sample_id ''other'' ''id'']) =
   sample_desired"
proof -
  let ?p = "sample_pod\<lparr>pod_Phase := ''Running''\<rparr>"
  have "pod_handler (UpdateFunc (ObjPod sample_pod) (ObjPod ?p)) = Returned []" "pod_Name ?p = pod_Name sample_pod"
    "pod_Namespace ?p = pod_Namespace sample_pod" by simp_all
  from quiet_pod_update[OF this, of sample_client "[]" "[]"] show ?thesis unfolding sample_desired_def desired_listed append_Nil by blast
qed

section \<open>The other clients of the controller\<close>

text \<open>\<^verbatim>\<open>pod.Client.Start\<close> and \<^verbatim>\<open>NodeClient.Start\<close>: run the informer and wait for its cache; a cache that does not come is only logged.\<close>

definition pod_syncCache :: "'w CrdEnv \<Rightarrow> 'w CrdState \<Rightarrow> bool \<times> 'w CrdState" where
  "pod_syncCache env s = crd_world_call (ce_WaitForCacheSync env [''pods'']) s"

definition pod_Start :: "'w CrdEnv \<Rightarrow> 'w CrdState \<Rightarrow> unit outcome \<times> 'w CrdState" where
  "pod_Start env s = (Returned (), snd (pod_syncCache env s))"

definition node_Start :: "'w CrdEnv \<Rightarrow> 'w CrdState \<Rightarrow> unit outcome \<times> 'w CrdState" where
  "node_Start env s = (Returned (), snd (crd_world_call (ce_WaitForCacheSync env [''nodes'']) s))"

text \<open>\<^verbatim>\<open>Run\<close>: count the election and take part in it.\<close>

definition mic_Run :: "(Measurement list \<Rightarrow> 'w \<Rightarrow> 'w) \<Rightarrow> ('w \<Rightarrow> 'w) \<Rightarrow> 'w \<Rightarrow> 'w" where
  "mic_Run report elect w = elect (report [M MICNewLeaderElectionCountM 1] w)"

end
