(* ===== verification/Iptables.thy ===== *)
theory Iptables
  imports Prelude
begin

text \<open>
  \<^verbatim>\<open>pkg/nmi/iptables/iptables.go\<close>: the custom chain that sends metadata requests to NMI.

  go-iptables is the record \<open>IPTables\<close> of its methods over a world \<open>'w\<close>.  \<open>ipt_honest\<close> states what they do, by their
  documentation, to the rules of the \<^verbatim>\<open>nat\<close> table (\<open>rules\<close>: the rules of each chain in order, in the form in which
  \<^verbatim>\<open>iptables -S\<close> prints them after the name of the chain; \<open>canon\<close>: that form for the arguments of a rule).
\<close>

section \<open>Definitions\<close>

record 'w IPTables =
  ipt_New :: "string option"
  ipt_List :: "string \<Rightarrow> string \<Rightarrow> 'w \<Rightarrow> (string, string list) result \<times> 'w"
  ipt_NewChain :: "string \<Rightarrow> string \<Rightarrow> 'w \<Rightarrow> string option \<times> 'w"
  ipt_ClearChain :: "string \<Rightarrow> string \<Rightarrow> 'w \<Rightarrow> string option \<times> 'w"
  ipt_DeleteChain :: "string \<Rightarrow> string \<Rightarrow> 'w \<Rightarrow> string option \<times> 'w"
  ipt_AppendUnique :: "string \<Rightarrow> string \<Rightarrow> string list \<Rightarrow> 'w \<Rightarrow> string option \<times> 'w"
  ipt_Exists :: "string \<Rightarrow> string \<Rightarrow> string list \<Rightarrow> 'w \<Rightarrow> (string, bool) result \<times> 'w"
  ipt_Insert :: "string \<Rightarrow> string \<Rightarrow> nat \<Rightarrow> string list \<Rightarrow> 'w \<Rightarrow> string option \<times> 'w"
  ipt_Delete :: "string \<Rightarrow> string \<Rightarrow> string list \<Rightarrow> 'w \<Rightarrow> string option \<times> 'w"

definition tablename :: string where "tablename = ''nat''"
definition customchainname :: string where "customchainname = ''aad-metadata''"
definition ipt_localhost :: string where "ipt_localhost = ''127.0.0.1/32''"

definition dnat_args :: "string \<Rightarrow> string \<Rightarrow> string \<Rightarrow> string \<Rightarrow> string list" where
  "dnat_args destIP destPort targetip targetport =
     [''-p'', ''tcp'', ''!'', ''-s'', ipt_localhost, ''-d'', destIP, ''--dport'', destPort,
      ''-j'', ''DNAT'', ''--to-destination'', targetip @ '':'' @ targetport]"

definition flushCreateCustomChainrules ::
  "'w IPTables \<Rightarrow> string \<Rightarrow> string \<Rightarrow> string \<Rightarrow> string \<Rightarrow> 'w \<Rightarrow> string option \<times> 'w" where
  "flushCreateCustomChainrules ipt destIP destPort targetip targetport w =
     (case ipt_ClearChain ipt tablename customchainname w of
        (Some err, w) \<Rightarrow> (Some err, w)
      | (None, w) \<Rightarrow>
     (case ipt_AppendUnique ipt tablename customchainname (dnat_args destIP destPort targetip targetport) w of
        (Some err, w) \<Rightarrow> (Some err, w)
      | (None, w) \<Rightarrow>
     (case ipt_AppendUnique ipt tablename customchainname [''-j'', ''RETURN''] w of
        (Some err, w) \<Rightarrow> (Some err, w)
      | (None, w) \<Rightarrow> (None, w))))"

definition expectedRules :: "string \<Rightarrow> string \<Rightarrow> string \<Rightarrow> string \<Rightarrow> string list" where
  "expectedRules destIP destPort targetip targetport =
     [''-N aad-metadata'',
      ''-A aad-metadata ! -s 127.0.0.1/32 -d '' @ destIP @ ''/32 -p tcp -m tcp --dport '' @ destPort @
        '' -j DNAT --to-destination '' @ targetip @ '':'' @ targetport,
      ''-A aad-metadata -j RETURN'']"

text \<open>How many rules are as expected before the first that is not.\<close>

fun matching_rules :: "string list \<Rightarrow> string list \<Rightarrow> nat" where
  "matching_rules expected [] = 0"
| "matching_rules expected (rule # rest) = (if rule \<notin> set expected then 0 else Suc (matching_rules expected rest))"

definition ensureCustomChain ::
  "'w IPTables \<Rightarrow> string \<Rightarrow> string \<Rightarrow> string \<Rightarrow> string \<Rightarrow> 'w \<Rightarrow> string option \<times> 'w" where
  "ensureCustomChain ipt destIP destPort targetip targetport w =
     (case ipt_List ipt tablename customchainname w of (r, w) \<Rightarrow>
        (case (case r of
                 Inl _ \<Rightarrow> (case ipt_NewChain ipt tablename customchainname w of (err, w) \<Rightarrow> (err, [], w))
               | Inr rules \<Rightarrow> (None, rules, w)) of
           (Some err, _, w) \<Rightarrow> (Some err, w)
         | (None, rules, w) \<Rightarrow>
             (let expected = expectedRules destIP destPort targetip targetport in
              if matching_rules expected rules = length expected then (None, w)
              else flushCreateCustomChainrules ipt destIP destPort targetip targetport w)))"

definition placeCustomChainInChain :: "'w IPTables \<Rightarrow> string \<Rightarrow> string \<Rightarrow> 'w \<Rightarrow> string option \<times> 'w" where
  "placeCustomChainInChain ipt table chain w =
     (case ipt_Exists ipt table chain [''-j'', customchainname] w of
        (Inr True, w) \<Rightarrow> (None, w)
      | (_, w) \<Rightarrow> ipt_Insert ipt table chain 1 [''-j'', customchainname] w)"

definition AddCustomChain ::
  "'w IPTables \<Rightarrow> string \<Rightarrow> string \<Rightarrow> string \<Rightarrow> string \<Rightarrow> 'w \<Rightarrow> string option \<times> 'w" where
  "AddCustomChain ipt destIP destPort targetip targetport w =
     (if destIP = [] then (Some ''destIP must be set'', w)
      else if destPort = [] then (Some ''destPort must be set'', w)
      else if targetip = [] then (Some ''targetip must be set'', w)
      else if targetport = [] then (Some ''targetport must be set'', w)
      else
        (case ipt_New ipt of
           Some err \<Rightarrow> (Some err, w)
         | None \<Rightarrow>
             (case ensureCustomChain ipt destIP destPort targetip targetport w of
                (Some err, w) \<Rightarrow> (Some err, w)
              | (None, w) \<Rightarrow> placeCustomChainInChain ipt tablename ''PREROUTING'' w)))"

definition LogCustomChain :: "'w IPTables \<Rightarrow> 'w \<Rightarrow> string option \<times> 'w" where
  "LogCustomChain ipt w =
     (case ipt_New ipt of
        Some err \<Rightarrow> (Some err, w)
      | None \<Rightarrow>
          (case ipt_List ipt tablename customchainname w of
             (Inl err, w) \<Rightarrow> (Some err, w)
           | (Inr _, w) \<Rightarrow> (None, w)))"

definition removeCustomChainReference :: "'w IPTables \<Rightarrow> string \<Rightarrow> string \<Rightarrow> 'w \<Rightarrow> string option \<times> 'w" where
  "removeCustomChainReference ipt table chain w =
     (case ipt_Exists ipt table chain [''-j'', customchainname] w of
        (Inr True, w) \<Rightarrow> ipt_Delete ipt table chain [''-j'', customchainname] w
      | (_, w) \<Rightarrow> (None, w))"

definition removeCustomChain :: "'w IPTables \<Rightarrow> string \<Rightarrow> 'w \<Rightarrow> string option \<times> 'w" where
  "removeCustomChain ipt table w =
     (case ipt_ClearChain ipt table customchainname w of
        (Some err, w) \<Rightarrow> (Some err, w)
      | (None, w) \<Rightarrow> ipt_DeleteChain ipt table customchainname w)"

definition DeleteCustomChain :: "'w IPTables \<Rightarrow> 'w \<Rightarrow> string option \<times> 'w" where
  "DeleteCustomChain ipt w =
     (case ipt_New ipt of
        Some err \<Rightarrow> (Some err, w)
      | None \<Rightarrow>
          (case removeCustomChainReference ipt tablename ''PREROUTING'' w of
             (Some err, w) \<Rightarrow> (Some err, w)
           | (None, w) \<Rightarrow> removeCustomChain ipt tablename w))"

section \<open>The \<^verbatim>\<open>nat\<close> table\<close>

type_synonym nat_table = "string \<Rightarrow> string list option"

definition dnat_rule :: "string \<Rightarrow> string \<Rightarrow> string \<Rightarrow> string \<Rightarrow> string" where
  "dnat_rule destIP destPort targetip targetport =
     ''! -s 127.0.0.1/32 -d '' @ destIP @ ''/32 -p tcp -m tcp --dport '' @ destPort @ '' -j DNAT --to-destination '' @ targetip @ '':'' @ targetport"

definition return_rule :: string where "return_rule = ''-j RETURN''"
definition jump_rule :: string where "jump_rule = ''-j aad-metadata''"

text \<open>
  How \<^verbatim>\<open>iptables -S\<close> prints the three rules that the code writes: \<open>dnat\<close> is the text the code expects for the first.
\<close>

definition canon_ok :: "(string list \<Rightarrow> string) \<Rightarrow> string list \<Rightarrow> string \<Rightarrow> bool" where
  "canon_ok canon args dnat \<longleftrightarrow> canon args = dnat \<and>
     canon [''-j'', ''RETURN''] = return_rule \<and> canon [''-j'', customchainname] = jump_rule"

definition printed :: "string \<Rightarrow> string list \<Rightarrow> string list" where
  "printed chain rs = (''-N '' @ chain) # map (\<lambda>r. ''-A '' @ chain @ '' '' @ r) rs"

text \<open>What an operation that returned an error or not did to the table.\<close>

definition did :: "string option \<Rightarrow> (nat_table \<Rightarrow> nat_table \<Rightarrow> bool) \<Rightarrow> nat_table \<Rightarrow> nat_table \<Rightarrow> bool" where
  "did e P m m' = (case e of None \<Rightarrow> P m m' | Some _ \<Rightarrow> m' = m)"

definition ipt_honest :: "'w IPTables \<Rightarrow> ('w \<Rightarrow> nat_table) \<Rightarrow> (string list \<Rightarrow> string) \<Rightarrow> bool" where
  "ipt_honest ipt rules canon \<longleftrightarrow>
     (\<forall>c w. case ipt_List ipt tablename c w of (r, w') \<Rightarrow> rules w' = rules w \<and>
        (case r of Inl _ \<Rightarrow> True | Inr ls \<Rightarrow> \<exists>rs. rules w c = Some rs \<and> ls = printed c rs)) \<and>
     (\<forall>c w. case ipt_NewChain ipt tablename c w of (e, w') \<Rightarrow>
        did e (\<lambda>m m'. m c = None \<and> m' = m(c \<mapsto> [])) (rules w) (rules w')) \<and>
     (\<forall>c w. case ipt_ClearChain ipt tablename c w of (e, w') \<Rightarrow> did e (\<lambda>m m'. m' = m(c \<mapsto> [])) (rules w) (rules w')) \<and>
     (\<forall>c w. case ipt_DeleteChain ipt tablename c w of (e, w') \<Rightarrow>
        did e (\<lambda>m m'. m c = Some [] \<and> (\<forall>rs \<in> ran m. ''-j '' @ c \<notin> set rs) \<and> m' = m(c := None)) (rules w) (rules w')) \<and>
     (\<forall>c args w. case ipt_AppendUnique ipt tablename c args w of (e, w') \<Rightarrow>
        did e (\<lambda>m m'. \<exists>rs. m c = Some rs \<and> m' = m(c \<mapsto> (if canon args \<in> set rs then rs else rs @ [canon args]))) (rules w) (rules w')) \<and>
     (\<forall>c args w. case ipt_Exists ipt tablename c args w of (r, w') \<Rightarrow> rules w' = rules w \<and>
        (case r of Inl _ \<Rightarrow> True | Inr b \<Rightarrow> \<exists>rs. rules w c = Some rs \<and> b = (canon args \<in> set rs))) \<and>
     (\<forall>c args w. case ipt_Insert ipt tablename c 1 args w of (e, w') \<Rightarrow>
        did e (\<lambda>m m'. \<exists>rs. m c = Some rs \<and> m' = m(c \<mapsto> canon args # rs)) (rules w) (rules w')) \<and>
     (\<forall>c args w. case ipt_Delete ipt tablename c args w of (e, w') \<Rightarrow>
        did e (\<lambda>m m'. \<exists>rs. m c = Some rs \<and> canon args \<in> set rs \<and> m' = m(c \<mapsto> remove1 (canon args) rs)) (rules w) (rules w'))"

text \<open>A chain sends the requests to NMI if it comes to the rule before it returns.\<close>

definition redirects :: "string \<Rightarrow> string list \<Rightarrow> bool" where
  "redirects dnat rs \<longleftrightarrow> dnat \<in> set (takeWhile (\<lambda>r. r \<noteq> return_rule) rs)"

text \<open>The chains that \<^verbatim>\<open>ensureCustomChain\<close> leaves as they are.\<close>

definition accepted :: "string \<Rightarrow> string list option \<Rightarrow> bool" where
  "accepted dnat c \<longleftrightarrow> (\<exists>r1 r2 rest. c = Some (r1 # r2 # rest) \<and> {r1, r2} \<subseteq> {dnat, return_rule} \<and>
     (case rest of [] \<Rightarrow> True | r3 # _ \<Rightarrow> r3 \<notin> {dnat, return_rule}))"


section \<open>What the operations do to the table\<close>

lemma ipt_rule_texts:
  "''-j '' @ customchainname = jump_rule"
  "dnat_rule d p t q \<noteq> return_rule"
  by (simp_all add: customchainname_def jump_rule_def dnat_rule_def return_rule_def)

lemma honest_List:
  assumes "ipt_honest ipt rules canon" "ipt_List ipt tablename c w = (r, w')"
  shows "rules w' = rules w" "r = Inr ls \<Longrightarrow> \<exists>rs. rules w c = Some rs \<and> ls = printed c rs"
  using assms(1)[unfolded ipt_honest_def, THEN conjunct1, THEN spec, THEN spec, of w c] assms(2) by simp_all

lemma honest_NewChain:
  assumes "ipt_honest ipt rules canon" "ipt_NewChain ipt tablename c w = (e, w')"
  shows "did e (\<lambda>m m'. m c = None \<and> m' = m(c \<mapsto> [])) (rules w) (rules w')"
  using assms(1)[unfolded ipt_honest_def, THEN conjunct2, THEN conjunct1, THEN spec, THEN spec, of c w] assms(2) by simp

lemma honest_ClearChain:
  assumes "ipt_honest ipt rules canon" "ipt_ClearChain ipt tablename c w = (e, w')"
  shows "did e (\<lambda>m m'. m' = m(c \<mapsto> [])) (rules w) (rules w')"
  using assms(1)[unfolded ipt_honest_def, THEN conjunct2, THEN conjunct2, THEN conjunct1, THEN spec, THEN spec, of c w] assms(2) by simp

lemma honest_DeleteChain:
  assumes "ipt_honest ipt rules canon" "ipt_DeleteChain ipt tablename c w = (e, w')"
  shows "did e (\<lambda>m m'. m c = Some [] \<and> (\<forall>rs \<in> ran m. ''-j '' @ c \<notin> set rs) \<and> m' = m(c := None)) (rules w) (rules w')"
  using assms(1)[unfolded ipt_honest_def, THEN conjunct2, THEN conjunct2, THEN conjunct2, THEN conjunct1, THEN spec, THEN spec, of c w] assms(2) by simp

lemma honest_AppendUnique:
  assumes "ipt_honest ipt rules canon" "ipt_AppendUnique ipt tablename c args w = (e, w')"
  shows "did e (\<lambda>m m'. \<exists>rs. m c = Some rs \<and> m' = m(c \<mapsto> (if canon args \<in> set rs then rs else rs @ [canon args]))) (rules w) (rules w')"
  using assms(1)[unfolded ipt_honest_def, THEN conjunct2, THEN conjunct2, THEN conjunct2, THEN conjunct2, THEN conjunct1, THEN spec, THEN spec, THEN spec, of c args w] assms(2) by simp

lemma honest_Exists:
  assumes "ipt_honest ipt rules canon" "ipt_Exists ipt tablename c args w = (r, w')"
  shows "rules w' = rules w" "r = Inr b \<Longrightarrow> \<exists>rs. rules w c = Some rs \<and> b = (canon args \<in> set rs)"
  using assms(1)[unfolded ipt_honest_def, THEN conjunct2, THEN conjunct2, THEN conjunct2, THEN conjunct2, THEN conjunct2, THEN conjunct1, THEN spec, THEN spec, THEN spec, of w c args] assms(2) by simp_all

lemma honest_Insert:
  assumes "ipt_honest ipt rules canon" "ipt_Insert ipt tablename c 1 args w = (e, w')"
  shows "did e (\<lambda>m m'. \<exists>rs. m c = Some rs \<and> m' = m(c \<mapsto> canon args # rs)) (rules w) (rules w')"
  using assms(1)[unfolded ipt_honest_def, THEN conjunct2, THEN conjunct2, THEN conjunct2, THEN conjunct2, THEN conjunct2, THEN conjunct2, THEN conjunct1, THEN spec, THEN spec, THEN spec, of c args w] assms(2) by simp

lemma honest_Delete:
  assumes "ipt_honest ipt rules canon" "ipt_Delete ipt tablename c args w = (e, w')"
  shows "did e (\<lambda>m m'. \<exists>rs. m c = Some rs \<and> canon args \<in> set rs \<and> m' = m(c \<mapsto> remove1 (canon args) rs)) (rules w) (rules w')"
  using assms(1)[unfolded ipt_honest_def, THEN conjunct2, THEN conjunct2, THEN conjunct2, THEN conjunct2, THEN conjunct2, THEN conjunct2, THEN conjunct2, THEN spec, THEN spec, THEN spec, of c args w] assms(2) by simp

lemma matching_rules_takeWhile: "matching_rules ex rs = length (takeWhile (\<lambda>r. r \<in> set ex) rs)"
  by (induction rs) auto

lemma expected_printed:
  "''-A '' @ customchainname @ '' '' @ r \<in> set (expectedRules d p t q) \<longleftrightarrow> r \<in> {dnat_rule d p t q, return_rule}"
  by (auto simp: customchainname_def expectedRules_def dnat_rule_def return_rule_def)

lemmas expected_printed_chars = expected_printed[unfolded append_Cons append_Nil]

lemma takeWhile_two:
  "length (takeWhile P rs) = 2 \<longleftrightarrow>
     (\<exists>r1 r2 rest. rs = r1 # r2 # rest \<and> P r1 \<and> P r2 \<and> (case rest of [] \<Rightarrow> True | r3 # _ \<Rightarrow> \<not> P r3))"
proof -
  consider "rs = []" | a where "rs = [a]" | a b where "rs = [a, b]" | a b c r where "rs = a # b # c # r"
    by (metis list.exhaust)
  then show ?thesis by cases auto
qed

lemma matching_rules_accepted:
  "matching_rules (expectedRules d p t q) (printed customchainname rs) = length (expectedRules d p t q) \<longleftrightarrow>
     accepted (dnat_rule d p t q) (Some rs)"
proof -
  have "''-N '' @ customchainname \<in> set (expectedRules d p t q)"
    by (simp add: customchainname_def expectedRules_def)
  moreover have "length (expectedRules d p t q) = 3" by (simp add: expectedRules_def)
  ultimately show ?thesis
    by (simp add: matching_rules_takeWhile printed_def takeWhile_map comp_def expected_printed_chars takeWhile_two accepted_def split: list.split)
qed

text \<open>A successful rewrite of the chain leaves the two rules of the code, in their order.\<close>

lemma flush_rules:
  assumes H: "ipt_honest ipt rules canon" and C: "canon_ok canon (dnat_args d p t q) (dnat_rule d p t q)"
    and R: "flushCreateCustomChainrules ipt d p t q w = (None, w')"
  shows "rules w' = (rules w)(customchainname \<mapsto> [dnat_rule d p t q, return_rule])"
proof -
  obtain w1 w2 where S: "ipt_ClearChain ipt tablename customchainname w = (None, w1)"
    "ipt_AppendUnique ipt tablename customchainname (dnat_args d p t q) w1 = (None, w2)"
    "ipt_AppendUnique ipt tablename customchainname [''-j'', ''RETURN''] w2 = (None, w')"
    using R unfolding flushCreateCustomChainrules_def by (auto split: prod.splits option.splits)
  from honest_ClearChain[OF H S(1)] honest_AppendUnique[OF H S(2)] honest_AppendUnique[OF H S(3)] C show ?thesis
    by (auto simp: did_def canon_ok_def ipt_rule_texts ipt_rule_texts(2)[symmetric] split: if_splits)
qed

lemma ensure_rules:
  assumes H: "ipt_honest ipt rules canon" and C: "canon_ok canon (dnat_args d p t q) (dnat_rule d p t q)"
    and R: "ensureCustomChain ipt d p t q w = (None, w')"
  shows "rules w' = (if accepted (dnat_rule d p t q) (rules w customchainname) then rules w
                     else (rules w)(customchainname \<mapsto> [dnat_rule d p t q, return_rule]))"
proof -
  obtain r w1 where L: "ipt_List ipt tablename customchainname w = (r, w1)" by fastforce
  show ?thesis
  proof (cases r)
    case (Inl e)
    obtain w2 where N: "ipt_NewChain ipt tablename customchainname w1 = (None, w2)"
      and F: "flushCreateCustomChainrules ipt d p t q w2 = (None, w')"
      using R L Inl unfolding ensureCustomChain_def
      by (auto simp: expectedRules_def split: prod.splits option.splits)
    from honest_NewChain[OF H N] honest_List(1)[OF H L] flush_rules[OF H C F] show ?thesis
      by (auto simp: did_def accepted_def)
  next
    case (Inr ls)
    then obtain rs where rs: "rules w customchainname = Some rs" "ls = printed customchainname rs"
      using honest_List(2)[OF H L] by blast
    show ?thesis
    proof (cases "accepted (dnat_rule d p t q) (Some rs)")
      case True
      then show ?thesis using R L Inr rs honest_List(1)[OF H L] matching_rules_accepted[of d p t q rs]
        unfolding ensureCustomChain_def by (simp add: Let_def)
    next
      case False
      then have "flushCreateCustomChainrules ipt d p t q w1 = (None, w')"
        using R L Inr rs matching_rules_accepted[of d p t q rs] unfolding ensureCustomChain_def by (simp add: Let_def)
      from flush_rules[OF H C this] False rs honest_List(1)[OF H L] show ?thesis by simp
    qed
  qed
qed

lemma place_rules:
  assumes H: "ipt_honest ipt rules canon" and J: "canon [''-j'', customchainname] = jump_rule"
    and R: "placeCustomChainInChain ipt tablename c w = (None, w')"
  shows "\<exists>rs rs'. rules w c = Some rs \<and> rules w' = (rules w)(c \<mapsto> rs') \<and> jump_rule \<in> set rs' \<and>
           (rs' = rs \<or> rs' = jump_rule # rs)"
proof -
  obtain r w1 where E: "ipt_Exists ipt tablename c [''-j'', customchainname] w = (r, w1)" by fastforce
  show ?thesis
  proof (cases "r = Inr True")
    case True
    obtain rs where rs: "rules w c = Some rs" "jump_rule \<in> set rs" using honest_Exists(2)[OF H E True] J by auto
    have "rules w' = rules w" using honest_Exists(1)[OF H E] R E True by (simp add: placeCustomChainInChain_def)
    then have "rules w' = (rules w)(c \<mapsto> rs)" using rs(1) by (simp add: fun_upd_idem)
    with rs show ?thesis by blast
  next
    case False
    then have "ipt_Insert ipt tablename c 1 [''-j'', customchainname] w1 = (None, w')"
      using R E unfolding placeCustomChainInChain_def by (auto split: sum.splits bool.splits)
    from honest_Insert[OF H this] honest_Exists(1)[OF H E] J obtain rs
      where "rules w c = Some rs" "rules w' = (rules w)(c \<mapsto> jump_rule # rs)" by (auto simp: did_def)
    then show ?thesis by (intro exI[of _ rs] exI[of _ "jump_rule # rs"]) simp
  qed
qed

lemma Add_steps:
  assumes "AddCustomChain ipt d p t q w = (None, w')"
  obtains w1 where "ensureCustomChain ipt d p t q w = (None, w1)"
    "placeCustomChainInChain ipt tablename ''PREROUTING'' w1 = (None, w')"
  using assms unfolding AddCustomChain_def by (auto split: if_splits option.splits prod.splits)

lemma Add_rules:
  assumes H: "ipt_honest ipt rules canon" and C: "canon_ok canon (dnat_args d p t q) (dnat_rule d p t q)"
    and R: "AddCustomChain ipt d p t q w = (None, w')"
  shows "\<exists>rs rs'. rules w ''PREROUTING'' = Some rs \<and> jump_rule \<in> set rs' \<and> (rs' = rs \<or> rs' = jump_rule # rs) \<and>
           rules w' = (rules w)(customchainname := (if accepted (dnat_rule d p t q) (rules w customchainname)
                                                     then rules w customchainname
                                                     else Some [dnat_rule d p t q, return_rule]),
                                 ''PREROUTING'' \<mapsto> rs')"
proof -
  have ne: "customchainname \<noteq> ''PREROUTING''" by (simp add: customchainname_def)
  have J: "canon [''-j'', customchainname] = jump_rule" using C by (simp add: canon_ok_def)
  from R obtain w1 where E: "ensureCustomChain ipt d p t q w = (None, w1)"
    and P: "placeCustomChainInChain ipt tablename ''PREROUTING'' w1 = (None, w')" by (rule Add_steps)
  obtain rs rs' where rs: "rules w1 ''PREROUTING'' = Some rs" "rules w' = (rules w1)(''PREROUTING'' \<mapsto> rs')"
    "jump_rule \<in> set rs'" "rs' = rs \<or> rs' = jump_rule # rs"
    using place_rules[OF H J P] by blast
  have w1: "rules w1 = (rules w)(customchainname := (if accepted (dnat_rule d p t q) (rules w customchainname)
      then rules w customchainname else Some [dnat_rule d p t q, return_rule]))"
    using ensure_rules[OF H C E] by (simp add: fun_upd_idem)
  have "rules w ''PREROUTING'' = Some rs" using rs(1) ne unfolding w1 by (simp add: fun_upd_other)
  with rs(2-4) show ?thesis unfolding w1 by blast
qed

lemma accepted_written: "accepted (dnat_rule d p t q) (Some [dnat_rule d p t q, return_rule])"
  by (simp add: accepted_def)

lemma Delete_steps:
  assumes "DeleteCustomChain ipt w = (None, w')"
  obtains w1 w2 where "removeCustomChainReference ipt tablename ''PREROUTING'' w = (None, w1)"
    "ipt_ClearChain ipt tablename customchainname w1 = (None, w2)" "ipt_DeleteChain ipt tablename customchainname w2 = (None, w')"
  using assms unfolding DeleteCustomChain_def removeCustomChain_def by (auto split: option.splits prod.splits)

lemma removeReference_rules:
  assumes H: "ipt_honest ipt rules canon" and J: "canon [''-j'', customchainname] = jump_rule"
    and P: "rules w c = Some rs" and R: "removeCustomChainReference ipt tablename c w = (None, w')"
  shows "rules w' = rules w \<or> jump_rule \<in> set rs \<and> rules w' = (rules w)(c \<mapsto> remove1 jump_rule rs)"
proof -
  obtain r w1 where E: "ipt_Exists ipt tablename c [''-j'', customchainname] w = (r, w1)" by fastforce
  show ?thesis
  proof (cases "r = Inr True")
    case True
    then have "ipt_Delete ipt tablename c [''-j'', customchainname] w1 = (None, w')"
      using R E unfolding removeCustomChainReference_def by simp
    from honest_Delete[OF H this] honest_Exists(1)[OF H E] J P show ?thesis by (auto simp: did_def)
  next
    case False
    then show ?thesis using R E honest_Exists(1)[OF H E] unfolding removeCustomChainReference_def
      by (auto split: sum.splits bool.splits)
  qed
qed

text \<open>
  A successful deletion: the chain is gone, and so is the (one) jump to it, even when the look-up of the jump fails, because
  a chain that is referred to cannot be deleted.
\<close>

lemma Delete_rules:
  assumes H: "ipt_honest ipt rules canon" and J: "canon [''-j'', customchainname] = jump_rule"
    and P: "rules w ''PREROUTING'' = Some rs" and R: "DeleteCustomChain ipt w = (None, w')"
  shows "rules w' = (rules w)(''PREROUTING'' \<mapsto> remove1 jump_rule rs, customchainname := None)"
    and "jump_rule \<notin> set (remove1 jump_rule rs)"
proof -
  have ne: "customchainname \<noteq> ''PREROUTING''" by (simp add: customchainname_def)
  from R obtain w1 w2 where S: "removeCustomChainReference ipt tablename ''PREROUTING'' w = (None, w1)"
    "ipt_ClearChain ipt tablename customchainname w1 = (None, w2)" "ipt_DeleteChain ipt tablename customchainname w2 = (None, w')"
    by (rule Delete_steps)
  have w2: "rules w2 = (rules w1)(customchainname \<mapsto> [])" using honest_ClearChain[OF H S(2)] by (simp add: did_def)
  have D: "\<forall>rs \<in> ran (rules w2). jump_rule \<notin> set rs" "rules w' = (rules w2)(customchainname := None)"
    using honest_DeleteChain[OF H S(3)] by (simp_all add: did_def ipt_rule_texts[unfolded append_Cons append_Nil])
  obtain rs1 where rs1: "rules w1 = (rules w)(''PREROUTING'' \<mapsto> rs1)" "rs1 = rs \<or> rs1 = remove1 jump_rule rs"
    using removeReference_rules[OF H J P S(1)] P by (metis fun_upd_triv)
  have "rules w2 ''PREROUTING'' = Some rs1" using w2 rs1(1) ne by simp
  then have nj: "jump_rule \<notin> set rs1" using D(1) by (meson ranI)
  then have r: "rs1 = remove1 jump_rule rs" using rs1(2) by (auto simp: remove1_idem)
  show "jump_rule \<notin> set (remove1 jump_rule rs)" using nj r by simp
  show "rules w' = (rules w)(''PREROUTING'' \<mapsto> remove1 jump_rule rs, customchainname := None)"
    using D(2) w2 rs1(1) r by simp
qed

section \<open>An in-memory table\<close>

definition mem_canon :: "string list \<Rightarrow> string" where
  "mem_canon args =
     (if length args = 13 then dnat_rule (args ! 6) (args ! 8) (takeWhile (\<lambda>c. c \<noteq> CHR '':'') (args ! 12)) (tl (dropWhile (\<lambda>c. c \<noteq> CHR '':'') (args ! 12)))
      else tl (concat (map (\<lambda>a. '' '' @ a) args)))"

type_synonym mem_table = "(string, string list) gomap"

definition no_chain :: string where "no_chain = ''No chain/target/match by that name.''"

definition with_chain :: "string \<Rightarrow> (string list \<Rightarrow> string list option) \<Rightarrow> mem_table \<Rightarrow> string option \<times> mem_table" where
  "with_chain c f m =
     (case map_of m c of
        None \<Rightarrow> (Some no_chain, m)
      | Some rs \<Rightarrow> (case f rs of None \<Rightarrow> (Some ''Bad rule'', m) | Some rs' \<Rightarrow> (None, mput c rs' m)))"

definition mem_ipt :: "mem_table IPTables" where
  "mem_ipt = \<lparr> ipt_New = None,
     ipt_List = (\<lambda>_ c m. (case map_of m c of None \<Rightarrow> Inl no_chain | Some rs \<Rightarrow> Inr (printed c rs), m)),
     ipt_NewChain = (\<lambda>_ c m. if map_of m c = None then (None, mput c [] m) else (Some ''Chain already exists.'', m)),
     ipt_ClearChain = (\<lambda>_ c m. (None, mput c [] m)),
     ipt_DeleteChain = (\<lambda>_ c m. if map_of m c = Some [] \<and> (\<forall>(_, rs) \<in> set m. ''-j '' @ c \<notin> set rs) then (None, mdel c m)
                                else (Some ''Too many links.'', m)),
     ipt_AppendUnique = (\<lambda>_ c args. with_chain c (\<lambda>rs. Some (if mem_canon args \<in> set rs then rs else rs @ [mem_canon args]))),
     ipt_Exists = (\<lambda>_ c args m. (case map_of m c of None \<Rightarrow> Inl no_chain | Some rs \<Rightarrow> Inr (mem_canon args \<in> set rs), m)),
     ipt_Insert = (\<lambda>_ c pos args. with_chain c (\<lambda>rs. Some (take (pos - 1) rs @ mem_canon args # drop (pos - 1) rs))),
     ipt_Delete = (\<lambda>_ c args. with_chain c (\<lambda>rs. if mem_canon args \<in> set rs then Some (remove1 (mem_canon args) rs) else None)) \<rparr>"

lemma mem_AppendUnique:
  assumes "with_chain c (\<lambda>rs. Some (if a \<in> set rs then rs else rs @ [a])) m = (e, m')"
  shows "did e (\<lambda>m m'. \<exists>rs. m c = Some rs \<and> m' = m(c \<mapsto> (if a \<in> set rs then rs else rs @ [a]))) (map_of m) (map_of m')"
proof (cases "map_of m c")
  case None
  then show ?thesis using assms by (auto simp: with_chain_def did_def)
next
  case (Some rs)
  then have "e = None" "m' = mput c (if a \<in> set rs then rs else rs @ [a]) m" using assms by (auto simp: with_chain_def)
  then have "map_of m c = Some rs \<and> map_of m' = (map_of m)(c \<mapsto> (if a \<in> set rs then rs else rs @ [a]))" using Some by simp
  then show ?thesis unfolding did_def \<open>e = None\<close> option.case by blast
qed

lemma mem_ipt_honest: "ipt_honest mem_ipt map_of mem_canon"
proof -
  have ran: "rs \<in> ran (map_of m) \<Longrightarrow> (\<forall>(_, rs) \<in> set m. j \<notin> set rs) \<Longrightarrow> j \<notin> set rs" for rs j and m :: mem_table
    by (auto simp: ran_def dest!: map_of_SomeD)
  show ?thesis
    unfolding ipt_honest_def mem_ipt_def IPTables.select_convs
    apply (intro conjI allI)
    subgoal by (simp split: option.split)
    subgoal by (simp add: did_def)
    subgoal by (simp add: did_def)
    subgoal for c w by (simp add: did_def) (auto dest: ran)
    subgoal for c args w using mem_AppendUnique[of c "mem_canon args" w] by (auto simp only: split: prod.split)
    subgoal by (simp split: option.split)
    subgoal by (simp add: with_chain_def did_def split: option.split)
    subgoal by (simp add: with_chain_def did_def split: option.split)
    done
qed

section \<open>Properties\<close>

text \<open>
  (C20) A successful \<^verbatim>\<open>AddCustomChain\<close> leaves the chain \<^verbatim>\<open>aad-metadata\<close> with exactly the DNAT rule to NMI followed by RETURN, unless it
  found a chain that it accepts, which it leaves as it is; the jump to it is in \<^verbatim>\<open>PREROUTING\<close>, inserted first when it was not
  there, and no other chain is changed.  The result is accepted, so that the periodic call of NMI does not flush it again.
\<close>

theorem AddCustomChain_installs:
  assumes H: "ipt_honest ipt rules canon" and C: "canon_ok canon (dnat_args d p t q) (dnat_rule d p t q)"
    and R: "AddCustomChain ipt d p t q w = (None, w')"
  shows "rules w' customchainname = (if accepted (dnat_rule d p t q) (rules w customchainname) then rules w customchainname
           else Some [dnat_rule d p t q, return_rule]) \<and>
    (\<exists>rs rs'. rules w ''PREROUTING'' = Some rs \<and> rules w' ''PREROUTING'' = Some rs' \<and> jump_rule \<in> set rs' \<and>
       (rs' = rs \<or> rs' = jump_rule # rs)) \<and>
    (\<forall>c. c \<noteq> customchainname \<and> c \<noteq> ''PREROUTING'' \<longrightarrow> rules w' c = rules w c) \<and>
    accepted (dnat_rule d p t q) (rules w' customchainname) \<and>
    (\<not> accepted (dnat_rule d p t q) (rules w customchainname) \<longrightarrow>
       (\<exists>rs. rules w' customchainname = Some rs \<and> redirects (dnat_rule d p t q) rs))"
proof -
  have ne: "customchainname \<noteq> ''PREROUTING''" by (simp add: customchainname_def)
  obtain rs rs' where A: "rules w ''PREROUTING'' = Some rs" "jump_rule \<in> set rs'" "rs' = rs \<or> rs' = jump_rule # rs"
    "rules w' = (rules w)(customchainname := (if accepted (dnat_rule d p t q) (rules w customchainname)
       then rules w customchainname else Some [dnat_rule d p t q, return_rule]), ''PREROUTING'' \<mapsto> rs')"
    using Add_rules[OF H C R] by blast
  have chain: "rules w' customchainname = (if accepted (dnat_rule d p t q) (rules w customchainname) then rules w customchainname
      else Some [dnat_rule d p t q, return_rule])" using A(4) ne by simp
  moreover have "rules w' ''PREROUTING'' = Some rs'" "\<forall>c. c \<noteq> customchainname \<and> c \<noteq> ''PREROUTING'' \<longrightarrow> rules w' c = rules w c"
    using A(4) by simp_all
  moreover have "accepted (dnat_rule d p t q) (rules w' customchainname)" using chain accepted_written by simp
  moreover have "redirects (dnat_rule d p t q) [dnat_rule d p t q, return_rule]" by (simp add: redirects_def ipt_rule_texts)
  ultimately show ?thesis using A(1-3) by simp
qed

text \<open>
  (C26) A successful \<^verbatim>\<open>AddCustomChain\<close> on a table without the chain and without a jump to it, followed by a successful
  \<^verbatim>\<open>DeleteCustomChain\<close>, gives back the table as it was.
\<close>

theorem iptables_roundtrip:
  assumes H: "ipt_honest ipt rules canon" and C: "canon_ok canon (dnat_args d p t q) (dnat_rule d p t q)"
    and F: "rules w customchainname = None" "jump_rule \<notin> set (the (rules w ''PREROUTING''))"
    and R: "AddCustomChain ipt d p t q w = (None, w1)" "DeleteCustomChain ipt w1 = (None, w2)"
  shows "rules w2 = rules w"
proof -
  have ne: "customchainname \<noteq> ''PREROUTING''" by (simp add: customchainname_def)
  have J: "canon [''-j'', customchainname] = jump_rule" using C by (simp add: canon_ok_def)
  obtain rs where A: "rules w ''PREROUTING'' = Some rs"
    "rules w1 = (rules w)(customchainname \<mapsto> [dnat_rule d p t q, return_rule], ''PREROUTING'' \<mapsto> jump_rule # rs)"
    using Add_rules[OF H C R(1)] F by (auto simp: accepted_def)
  have P: "rules w1 ''PREROUTING'' = Some (jump_rule # rs)" using A(2) by simp
  from Delete_rules(1)[OF H J P R(2)] A F(1) ne show ?thesis by (auto simp: fun_eq_iff)
qed

text \<open>Two rules of the right form are enough for \<^verbatim>\<open>ensureCustomChain\<close>, whatever their order: this chain is kept.\<close>

lemma misordered_chain_kept:
  assumes "ipt_honest ipt rules canon" "canon_ok canon (dnat_args d p t q) (dnat_rule d p t q)"
    and "AddCustomChain ipt d p t q w = (None, w')" "rules w customchainname = Some [return_rule, dnat_rule d p t q]"
  shows "rules w' customchainname = Some [return_rule, dnat_rule d p t q]"
    and "\<not> redirects (dnat_rule d p t q) [return_rule, dnat_rule d p t q]"
proof -
  have a: "accepted (dnat_rule d p t q) (Some [return_rule, dnat_rule d p t q])" by (simp add: accepted_def)
  show "rules w' customchainname = Some [return_rule, dnat_rule d p t q]"
    using Add_rules[OF assms(1-3)] assms(4) a by (auto simp: customchainname_def)
  show "\<not> redirects (dnat_rule d p t q) [return_rule, dnat_rule d p t q]" by (simp add: redirects_def)
qed

definition ex_table :: mem_table where
  "ex_table = [(''PREROUTING'', [''-j KUBE-SERVICES'']), (''OUTPUT'', [])]"

abbreviation "ex_dnat \<equiv> dnat_rule ''169.254.169.254'' ''80'' ''10.0.0.4'' ''2579''"
abbreviation "ex_add \<equiv> AddCustomChain mem_ipt ''169.254.169.254'' ''80'' ''10.0.0.4'' ''2579''"

lemma ex_canon: "canon_ok mem_canon (dnat_args ''169.254.169.254'' ''80'' ''10.0.0.4'' ''2579'') ex_dnat"
  by (simp add: canon_ok_def mem_canon_def dnat_args_def customchainname_def return_rule_def jump_rule_def)

theorem AddCustomChain_installs_witness:
  "\<exists>w'. ex_add ex_table = (None, w') \<and> map_of w' customchainname = Some [ex_dnat, return_rule] \<and>
     accepted ex_dnat (map_of w' customchainname)"
proof -
  have "fst (ex_add ex_table) = None" by code_simp
  then obtain w' where w': "ex_add ex_table = (None, w')" by (metis prod.collapse)
  have "map_of ex_table customchainname = None" by code_simp
  then have "\<not> accepted ex_dnat (map_of ex_table customchainname)" by (simp add: accepted_def)
  with AddCustomChain_installs[OF mem_ipt_honest ex_canon w'] w' show ?thesis by auto
qed

theorem iptables_roundtrip_witness:
  "fst (DeleteCustomChain mem_ipt (snd (ex_add ex_table))) = None \<and>
     map_of (snd (DeleteCustomChain mem_ipt (snd (ex_add ex_table)))) = map_of ex_table"
proof -
  have r: "fst (ex_add ex_table) = None" "fst (DeleteCustomChain mem_ipt (snd (ex_add ex_table))) = None" by code_simp+
  have f: "map_of ex_table customchainname = None" "jump_rule \<notin> set (the (map_of ex_table ''PREROUTING''))" by code_simp+
  have "ex_add ex_table = (None, snd (ex_add ex_table))"
    "DeleteCustomChain mem_ipt (snd (ex_add ex_table)) = (None, snd (DeleteCustomChain mem_ipt (snd (ex_add ex_table))))"
    using r by (simp_all add: prod_eq_iff)
  from iptables_roundtrip[OF mem_ipt_honest ex_canon f this] r show ?thesis by simp
qed

end
