(* ===== verification/ServerRun.thy ===== *)
theory ServerRun
  imports Server Iptables
begin

text \<open>
  The life of an NMI process: \<^verbatim>\<open>updateIPTableRules\<close> of \<^verbatim>\<open>pkg/nmi/server/server.go\<close> with what it calls in
  \<^verbatim>\<open>pkg/nmi/iptables\<close> and \<^verbatim>\<open>pkg/nmi/conntrack/conntrack.go\<close>, and the health probe of \<^verbatim>\<open>pkg/probes/probes.go\<close>.

  The goroutine goes through phases, and \<open>updateIPTableRules_step\<close> is what it does in each: make the ticker, install the rules, delete the
  conntrack entries, set \<^verbatim>\<open>Initialized\<close>, and then take a tick or a signal from its \<^verbatim>\<open>select\<close> again and again.  The health probe may be asked
  between any two of these steps, and other programs of the node may change the table there: \<open>nmi_run\<close> are the runs with the trace of what
  happened.  \<^verbatim>\<open>klog.Fatalf\<close>, \<^verbatim>\<open>os.Exit\<close> and a panic of the goroutine end the process.
\<close>

section \<open>Conntrack entries\<close>

text \<open>
  \<^verbatim>\<open>net.ParseIP\<close> (whether the address is one of version 4, or no address; its grammar of version 6 addresses depends on the release of Go),
  \<^verbatim>\<open>knet.ParsePort\<close> and the package \<^verbatim>\<open>netlink\<close> are parameters.
\<close>

datatype InetFamily = AF_INET | AF_INET6

datatype ct_condition = OrigDstIP string | Protocol int | OrigDstPort int

record 'w ConntrackEnv =
  ct_ParseIP :: "string \<Rightarrow> bool option"
  ct_ParsePort :: "string \<Rightarrow> (string, int) result"
  ct_Add :: "ct_condition \<Rightarrow> ct_condition list \<Rightarrow> string option"
  ct_DeleteFilter :: "InetFamily \<Rightarrow> ct_condition list \<Rightarrow> 'w \<Rightarrow> string option \<times> 'w"

definition protoTCP :: int where "protoTCP = 6"

definition getNetlinkFamily :: "bool \<Rightarrow> InetFamily" where
  "getNetlinkFamily isIPv4 = (if isIPv4 then AF_INET else AF_INET6)"

fun ct_add_all :: "'w ConntrackEnv \<Rightarrow> ct_condition list \<Rightarrow> ct_condition list \<Rightarrow> (string, ct_condition list) result" where
  "ct_add_all env [] f = Inr f"
| "ct_add_all env (c # cs) f = (case ct_Add env c f of Some err \<Rightarrow> Inl err | None \<Rightarrow> ct_add_all env cs (f @ [c]))"

definition DeleteConntrackEntries :: "'w ConntrackEnv \<Rightarrow> string \<Rightarrow> string \<Rightarrow> 'w \<Rightarrow> string option \<times> 'w" where
  "DeleteConntrackEntries env metadataIP metadataPort w =
     (case ct_ParseIP env metadataIP of
        None \<Rightarrow> (Some (''metadata ip '' @ metadataIP @ '' is incorrect''), w)
      | Some isIPv4 \<Rightarrow>
          (case ct_ParsePort env metadataPort of
             Inl err \<Rightarrow> (Some (''failed to parse metadata port: '' @ metadataPort @ '', error: '' @ err), w)
           | Inr dstPort \<Rightarrow>
               (case ct_add_all env [OrigDstIP metadataIP, Protocol protoTCP, OrigDstPort (dstPort mod 2 ^ 16)] [] of
                  Inl err \<Rightarrow> (Some (''failed to delete conntrack entries, error: '' @ err), w)
                | Inr connectionFilter \<Rightarrow>
                    (case ct_DeleteFilter env (getNetlinkFamily isIPv4) connectionFilter w of
                       (Some err, w) \<Rightarrow> (Some (''failed to delete conntrack entries, error: '' @ err), w)
                     | (None, w) \<Rightarrow> (None, w)))))"

section \<open>The goroutine\<close>

datatype ending = Fatal string | Crash string | Exit int

record 'w RunEnv =
  re_ipt :: "'w IPTables"
  re_conntrack :: "'w ConntrackEnv"

definition nmi_target :: "Server \<Rightarrow> string" where
  "nmi_target s = (if sv_NMIHost s = ''0.0.0.0'' then localhost else sv_NMIHost s)"

definition updateIPTableRulesInternal :: "'w RunEnv \<Rightarrow> Server \<Rightarrow> 'w \<Rightarrow> ending option \<times> 'w" where
  "updateIPTableRulesInternal env s w =
     (case AddCustomChain (re_ipt env) (sv_MetadataIP s) (sv_MetadataPort s) (nmi_target s) (sv_NMIPort s) w of
        (Some err, w) \<Rightarrow> (Some (Fatal err), w)
      | (None, w) \<Rightarrow>
          (case LogCustomChain (re_ipt env) w of
             (Some err, w) \<Rightarrow> (Some (Fatal err), w)
           | (None, w) \<Rightarrow> (None, w)))"

definition deleteConntrackEntries :: "'w RunEnv \<Rightarrow> Server \<Rightarrow> 'w \<Rightarrow> ending option \<times> 'w" where
  "deleteConntrackEntries env s w =
     (case DeleteConntrackEntries (re_conntrack env) (sv_MetadataIP s) (sv_MetadataPort s) w of
        (Some err, w) \<Rightarrow> (Some (Fatal (''failed to delete conntrack entries for metadata ip: '' @ err)), w)
      | (None, w) \<Rightarrow> (None, w))"

definition handleTermination :: "'w RunEnv \<Rightarrow> 'w \<Rightarrow> ending \<times> 'w" where
  "handleTermination env w =
     (case DeleteCustomChain (re_ipt env) w of
        (Some err, w) \<Rightarrow> (Exit 1, w)
      | (None, w) \<Rightarrow> (Exit 0, w))"

datatype phase = Starting | Installing | Cleaning | Marking | Looping | Ended ending

text \<open>The channel that the \<^verbatim>\<open>select\<close> of the loop receives from.\<close>

datatype wake = Tick | Signal

record 'w nmi_process =
  np_phase :: phase
  np_server :: Server
  np_world :: 'w

text \<open>
  One step of the goroutine; \<^verbatim>\<open>time.NewTicker\<close> panics unless its interval is positive.  An operation that ends the process gives its ending.
\<close>

definition after_op :: "phase \<Rightarrow> 'w nmi_process \<Rightarrow> ending option \<times> 'w \<Rightarrow> 'w nmi_process" where
  "after_op next x r = (case r of (Some e, w) \<Rightarrow> x\<lparr>np_phase := Ended e, np_world := w\<rparr> | (None, w) \<Rightarrow> x\<lparr>np_phase := next, np_world := w\<rparr>)"

definition updateIPTableRules_step :: "'w RunEnv \<Rightarrow> wake \<Rightarrow> 'w nmi_process \<Rightarrow> 'w nmi_process" where
  "updateIPTableRules_step env wake x =
     (let s = np_server x; w = np_world x in
      case np_phase x of
        Starting \<Rightarrow>
          if wrap64 (time_Second * sv_IPTableUpdateTimeIntervalInSeconds s) \<le> 0
          then x\<lparr>np_phase := Ended (Crash ''non-positive interval for NewTicker'')\<rparr>
          else x\<lparr>np_phase := Installing\<rparr>
      | Installing \<Rightarrow> after_op Cleaning x (updateIPTableRulesInternal env s w)
      | Cleaning \<Rightarrow> if sv_EnableConntrackDeletion s then after_op Marking x (deleteConntrackEntries env s w) else x\<lparr>np_phase := Marking\<rparr>
      | Marking \<Rightarrow> x\<lparr>np_phase := Looping, np_server := s\<lparr>sv_Initialized := True\<rparr>\<rparr>
      | Looping \<Rightarrow>
          (case wake of
             Signal \<Rightarrow> (case handleTermination env w of (e, w) \<Rightarrow> x\<lparr>np_phase := Ended e, np_world := w\<rparr>)
           | Tick \<Rightarrow> after_op Looping x (updateIPTableRulesInternal env s w))
      | Ended e \<Rightarrow> x)"

text \<open>What happened in a run: a step of the goroutine in a phase, or a change of the table by another program of the node.\<close>

datatype nmi_event = Own phase | Others

text \<open>Other programs may do to the table what \<open>may\<close> allows; the process has not ended then.\<close>

inductive nmi_run :: "'w RunEnv \<Rightarrow> ('w \<Rightarrow> 'w \<Rightarrow> bool) \<Rightarrow> 'w nmi_process \<Rightarrow> nmi_event list \<Rightarrow> 'w nmi_process \<Rightarrow> bool"
  for env :: "'w RunEnv" and may :: "'w \<Rightarrow> 'w \<Rightarrow> bool" and x :: "'w nmi_process" where
  run_start: "nmi_run env may x [] x"
| run_own: "nmi_run env may x tr y \<Longrightarrow> (\<And>e. np_phase y \<noteq> Ended e) \<Longrightarrow>
    nmi_run env may x (tr @ [Own (np_phase y)]) (updateIPTableRules_step env wake y)"
| run_others: "nmi_run env may x tr y \<Longrightarrow> (\<And>e. np_phase y \<noteq> Ended e) \<Longrightarrow> may (np_world y) w' \<Longrightarrow>
    nmi_run env may x (tr @ [Others]) (y\<lparr>np_world := w'\<rparr>)"

section \<open>The health probe\<close>

definition InitHealthProbe :: "bool \<Rightarrow> Response \<Rightarrow> Response" where
  "InitHealthProbe condition w =
     (let w = WriteHeader 200 w in if condition then resp_Write ''Active'' w else resp_Write ''Not Active'' w)"

section \<open>The invariant of the process\<close>

abbreviation nmi_dnat :: "Server \<Rightarrow> string" where
  "nmi_dnat s \<equiv> dnat_rule (sv_MetadataIP s) (sv_MetadataPort s) (nmi_target s) (sv_NMIPort s)"

abbreviation nmi_dnat_args :: "Server \<Rightarrow> string list" where
  "nmi_dnat_args s \<equiv> dnat_args (sv_MetadataIP s) (sv_MetadataPort s) (nmi_target s) (sv_NMIPort s)"

text \<open>The rules are in force: the chain redirects the requests, and every packet comes to the chain.\<close>

definition in_force :: "string \<Rightarrow> nat_table \<Rightarrow> bool" where
  "in_force dnat m \<longleftrightarrow> (\<exists>rs rs'. m customchainname = Some rs \<and> accepted dnat (Some rs) \<and> redirects dnat rs \<and>
     m ''PREROUTING'' = Some rs' \<and> jump_rule \<in> set rs')"

text \<open>No chain with the rules in the wrong order, which \<^verbatim>\<open>ensureCustomChain\<close> would keep.\<close>

definition no_stale_chain :: "string \<Rightarrow> nat_table \<Rightarrow> bool" where
  "no_stale_chain dnat m \<longleftrightarrow> (\<forall>rs. m customchainname = Some rs \<and> accepted dnat (Some rs) \<longrightarrow> redirects dnat rs)"

definition taken_down :: "nat_table \<Rightarrow> bool" where
  "taken_down m \<longleftrightarrow> m customchainname = None \<and> (\<forall>rs. m ''PREROUTING'' = Some rs \<longrightarrow> jump_rule \<notin> set rs)"

text \<open>
  What the process needs of a table it finds: the built-in chain is there, and the chain of the process, if it is there, does not have the right rules
  in the wrong order.
\<close>

definition usable_table :: "string \<Rightarrow> nat_table \<Rightarrow> bool" where
  "usable_table dnat m \<longleftrightarrow> m ''PREROUTING'' \<noteq> None \<and> no_stale_chain dnat m"

text \<open>Connection tracking is no part of the table.\<close>

definition conntrack_separate :: "'w RunEnv \<Rightarrow> ('w \<Rightarrow> nat_table) \<Rightarrow> bool" where
  "conntrack_separate env rules \<longleftrightarrow> (\<forall>fam f w. rules (snd (ct_DeleteFilter (re_conntrack env) fam f w)) = rules w)"

lemma in_force_usable: "in_force d m \<Longrightarrow> usable_table d m"
  by (auto simp: in_force_def no_stale_chain_def usable_table_def)

lemma LogCustomChain_rules:
  assumes "ipt_honest ipt rules canon" "LogCustomChain ipt w = (e, w')" shows "rules w' = rules w"
  using assms(2) honest_List(1)[OF assms(1)] by (auto simp: LogCustomChain_def split: option.splits prod.splits sum.splits)

lemma update_in_force:
  assumes H: "ipt_honest (re_ipt env) rules canon" and C: "canon_ok canon (nmi_dnat_args s) (nmi_dnat s)"
    and N: "no_stale_chain (nmi_dnat s) (rules w)" and U: "updateIPTableRulesInternal env s w = (None, w')"
  shows "in_force (nmi_dnat s) (rules w')"
proof -
  obtain w1 where A: "AddCustomChain (re_ipt env) (sv_MetadataIP s) (sv_MetadataPort s) (nmi_target s) (sv_NMIPort s) w = (None, w1)"
    and L: "LogCustomChain (re_ipt env) w1 = (None, w')"
    using U by (auto simp: updateIPTableRulesInternal_def split: prod.splits option.splits)
  have w': "rules w' = rules w1" by (rule LogCustomChain_rules[OF H L])
  obtain rs rs' where "jump_rule \<in> set rs'"
    and w1: "rules w1 = (rules w)(customchainname := (if accepted (nmi_dnat s) (rules w customchainname)
       then rules w customchainname else Some [nmi_dnat s, return_rule]), ''PREROUTING'' \<mapsto> rs')"
    using Add_rules[OF H C A] by blast
  then have pre: "rules w1 ''PREROUTING'' = Some rs'" "jump_rule \<in> set rs'" by simp_all
  have chain: "rules w1 customchainname = (if accepted (nmi_dnat s) (rules w customchainname)
       then rules w customchainname else Some [nmi_dnat s, return_rule])"
    unfolding w1 by (simp add: customchainname_def)
  have "\<exists>rs. rules w1 customchainname = Some rs \<and> accepted (nmi_dnat s) (Some rs) \<and> redirects (nmi_dnat s) rs"
  proof (cases "accepted (nmi_dnat s) (rules w customchainname)")
    case True
    then obtain rs where rs: "rules w customchainname = Some rs" "accepted (nmi_dnat s) (Some rs)" by (auto simp: accepted_def)
    then have "redirects (nmi_dnat s) rs" using N by (simp add: no_stale_chain_def)
    with rs show ?thesis using chain by simp
  next
    case False
    then show ?thesis using chain accepted_written by (simp add: redirects_def ipt_rule_texts)
  qed
  then show ?thesis using pre unfolding w' in_force_def by blast
qed

lemma conntrack_keeps_rules:
  assumes "conntrack_separate env rules" "deleteConntrackEntries env s w = (e, w')" shows "rules w' = rules w"
proof -
  have "rules (snd (DeleteConntrackEntries (re_conntrack env) ip port w)) = rules w" for ip port
    using assms(1) unfolding DeleteConntrackEntries_def conntrack_separate_def
    by (auto split: option.split sum.split prod.split) (metis snd_conv)+
  then show ?thesis using assms(2) by (auto simp: deleteConntrackEntries_def split: prod.splits option.splits) (metis snd_conv)+
qed

lemma termination_takes_down:
  assumes H: "ipt_honest (re_ipt env) rules canon" and C: "canon_ok canon args d"
    and F: "usable_table d' (rules w)" and T: "handleTermination env w = (Exit 0, w')"
  shows "taken_down (rules w')"
proof -
  have J: "canon [''-j'', customchainname] = jump_rule" using C by (simp add: canon_ok_def)
  obtain rs where P: "rules w ''PREROUTING'' = Some rs" using F by (auto simp: usable_table_def)
  have D: "DeleteCustomChain (re_ipt env) w = (None, w')"
    using T by (auto simp: handleTermination_def split: prod.splits option.splits)
  from Delete_rules[OF H J P D] show ?thesis by (auto simp: taken_down_def customchainname_def)
qed

text \<open>
  The rules have been written since another program changed the table: the last event of this kind is a step that wrote them.
\<close>

definition written_last :: "nmi_event list \<Rightarrow> bool" where
  "written_last tr \<longleftrightarrow> (\<exists>tr1 e tr2. tr = tr1 @ e # tr2 \<and> e \<in> {Own Installing, Own Looping} \<and> Others \<notin> set tr2)"

lemma written_last_snoc:
  "written_last (tr @ [e]) \<longleftrightarrow> e \<in> {Own Installing, Own Looping} \<or> e \<noteq> Others \<and> written_last tr"
proof
  assume "written_last (tr @ [e])"
  then obtain tr1 a tr2 where x: "tr @ [e] = tr1 @ a # tr2" "a \<in> {Own Installing, Own Looping}" "Others \<notin> set tr2"
    by (auto simp: written_last_def)
  then show "e \<in> {Own Installing, Own Looping} \<or> e \<noteq> Others \<and> written_last tr"
    by (cases tr2 rule: rev_cases) (auto simp: written_last_def)
next
  assume "e \<in> {Own Installing, Own Looping} \<or> e \<noteq> Others \<and> written_last tr"
  then show "written_last (tr @ [e])"
  proof
    assume "e \<in> {Own Installing, Own Looping}"
    then show ?thesis unfolding written_last_def by (intro exI[of _ tr] exI[of _ e] exI[of _ "[]"]) simp
  next
    assume e: "e \<noteq> Others \<and> written_last tr"
    then obtain tr1 a tr2 where "tr = tr1 @ a # tr2" "a \<in> {Own Installing, Own Looping}" "Others \<notin> set tr2"
      by (auto simp: written_last_def)
    then show ?thesis using e unfolding written_last_def by (intro exI[of _ tr1] exI[of _ a] exI[of _ "tr2 @ [e]"]) auto
  qed
qed

text \<open>What holds in every phase; \<open>s0\<close> is the server at the start, which differs from the current one in \<^verbatim>\<open>Initialized\<close> only.\<close>

definition nmi_inv :: "Server \<Rightarrow> ('w \<Rightarrow> nat_table) \<Rightarrow> nmi_event list \<Rightarrow> 'w nmi_process \<Rightarrow> bool" where
  "nmi_inv s0 rules tr x \<longleftrightarrow>
     (np_server x)\<lparr>sv_Initialized := True\<rparr> = s0\<lparr>sv_Initialized := True\<rparr> \<and>
     (np_phase x \<in> {Cleaning, Marking, Looping} \<longrightarrow> Own Installing \<in> set tr) \<and>
     (np_phase x = Looping \<longrightarrow> sv_Initialized (np_server x)) \<and>
     (sv_Initialized (np_server x) \<longrightarrow> Own Installing \<in> set tr) \<and>
     ((\<forall>e. np_phase x \<noteq> Ended e) \<longrightarrow> usable_table (nmi_dnat s0) (rules (np_world x)) \<and>
        (written_last tr \<longrightarrow> in_force (nmi_dnat s0) (rules (np_world x)))) \<and>
     (np_phase x = Ended (Exit 0) \<longrightarrow> taken_down (rules (np_world x)))"

lemma nmi_target_Initialized [simp]: "nmi_target (s\<lparr>sv_Initialized := b\<rparr>) = nmi_target s"
  by (simp add: nmi_target_def)

lemma same_but_Initialized:
  assumes "s\<lparr>sv_Initialized := True\<rparr> = s0\<lparr>sv_Initialized := True\<rparr>"
  shows "nmi_dnat s = nmi_dnat s0" "nmi_dnat_args s = nmi_dnat_args s0"
proof -
  have "nmi_dnat (s\<lparr>sv_Initialized := True\<rparr>) = nmi_dnat (s0\<lparr>sv_Initialized := True\<rparr>)"
    "nmi_dnat_args (s\<lparr>sv_Initialized := True\<rparr>) = nmi_dnat_args (s0\<lparr>sv_Initialized := True\<rparr>)" unfolding assms by (rule refl)+
  then show "nmi_dnat s = nmi_dnat s0" "nmi_dnat_args s = nmi_dnat_args s0" by simp_all
qed

lemma op_endings:
  "updateIPTableRulesInternal env s w = (Some e, w') \<Longrightarrow> e \<noteq> Exit 0"
  "deleteConntrackEntries env s w = (Some e, w') \<Longrightarrow> e \<noteq> Exit 0"
  by (auto simp: updateIPTableRulesInternal_def deleteConntrackEntries_def split: prod.splits option.splits)

lemma nmi_own_inv:
  assumes H: "ipt_honest (re_ipt env) rules canon" and C: "canon_ok canon (nmi_dnat_args s0) (nmi_dnat s0)"
    and S: "conntrack_separate env rules" and I: "nmi_inv s0 rules tr x" and live: "\<And>e. np_phase x \<noteq> Ended e"
  shows "nmi_inv s0 rules (tr @ [Own (np_phase x)]) (updateIPTableRules_step env wake x)"
proof -
  define s w where "s = np_server x" and "w = np_world x"
  have s: "s\<lparr>sv_Initialized := True\<rparr> = s0\<lparr>sv_Initialized := True\<rparr>" using I by (simp add: nmi_inv_def s_def)
  have usable: "usable_table (nmi_dnat s0) (rules w)" using I live by (simp add: nmi_inv_def w_def)
  note same = same_but_Initialized[OF s]
  have update: "in_force (nmi_dnat s0) (rules w')" if "updateIPTableRulesInternal env s w = (None, w')" for w'
    using update_in_force[OF H C[folded same] _ that] usable by (simp add: same usable_table_def)
  have clean: "rules w' = rules w" if "deleteConntrackEntries env s w = (e, w')" for e w'
    by (rule conntrack_keeps_rules[OF S that])
  obtain u wu where u: "updateIPTableRulesInternal env s w = (u, wu)" by fastforce
  obtain d wd where d: "deleteConntrackEntries env s w = (d, wd)" by fastforce
  obtain h wh where h: "handleTermination env w = (h, wh)" by fastforce
  note defs = nmi_inv_def updateIPTableRules_step_def after_op_def Let_def written_last_snoc
  show ?thesis
  proof (cases "np_phase x")
    case Starting
    then show ?thesis using I by (auto simp: defs)
  next
    case Installing
    then show ?thesis using I u update[of wu] op_endings(1)[of env s w] in_force_usable
      by (cases u) (auto simp: defs simp flip: s_def w_def)
  next
    case Cleaning
    then show ?thesis using I d clean[of d wd] op_endings(2)[of env s w] 
      by (cases d) (auto simp: defs simp flip: s_def w_def)
  next
    case Marking
    then show ?thesis using I by (auto simp: defs)
  next
    case Looping
    show ?thesis
    proof (cases wake)
      case Tick
      then show ?thesis using Looping I u update[of wu] op_endings(1)[of env s w] in_force_usable
        by (cases u) (auto simp: defs simp flip: s_def w_def)
    next
      case Signal
      then show ?thesis using Looping I h termination_takes_down[OF H C usable, of wh]
        by (auto simp: defs simp flip: s_def w_def)
    qed
  next
    case (Ended e)
    then show ?thesis using live by blast
  qed
qed

lemma nmi_run_inv:
  assumes "ipt_honest (re_ipt env) rules canon" "canon_ok canon (nmi_dnat_args s0) (nmi_dnat s0)" "conntrack_separate env rules"
    and "\<And>w w'. may w w' \<Longrightarrow> usable_table (nmi_dnat s0) (rules w')"
    and "nmi_run env may x tr y" "nmi_inv s0 rules [] x"
  shows "nmi_inv s0 rules tr y"
  using assms(5)
proof induction
  case run_start
  show ?case by (rule assms(6))
next
  case (run_own tr y wake)
  then show ?case by (intro nmi_own_inv[OF assms(1-3)]) auto
next
  case (run_others tr y w')
  then show ?case using assms(4)[of "np_world y" w'] by (auto simp: nmi_inv_def written_last_snoc)
qed

section \<open>Properties\<close>

text \<open>
  (C9) The life of an NMI process, as an invariant of its runs.  The process starts on a table with its built-in chain, and not with a chain of the right
  rules in the wrong order (which \<^verbatim>\<open>ensureCustomChain\<close> would keep); between any two steps of the process other programs may change the
  table at will, also remove the rules, as long as they leave it in such a state.  Then, at any moment of a run:
  the health probe says \<^verbatim>\<open>Active\<close> only if the rules were installed before, and it does while the process is in its loop; while the process
  lives, the rules are in force whenever no other program changed the table since the process last wrote them, at the start or at a
  tick; and a process that ended with exit code 0 has taken the chain and the jump down.
\<close>

theorem nmi_process_invariant:
  assumes "ipt_honest (re_ipt env) rules canon" "canon_ok canon (nmi_dnat_args s0) (nmi_dnat s0)" "conntrack_separate env rules"
    and "\<And>w w'. may w w' \<Longrightarrow> usable_table (nmi_dnat s0) (rules w')"
    and "\<not> sv_Initialized s0" "usable_table (nmi_dnat s0) (rules w0)"
    and "nmi_run env may \<lparr>np_phase = Starting, np_server = s0, np_world = w0\<rparr> tr y"
  shows "(rs_Body (InitHealthProbe (sv_Initialized (np_server y)) new_Response) = ''Active'' \<longrightarrow> Own Installing \<in> set tr) \<and>
    (np_phase y = Looping \<longrightarrow> rs_Body (InitHealthProbe (sv_Initialized (np_server y)) new_Response) = ''Active'') \<and>
    ((\<forall>e. np_phase y \<noteq> Ended e) \<longrightarrow> written_last tr \<longrightarrow> in_force (nmi_dnat s0) (rules (np_world y))) \<and>
    (np_phase y = Ended (Exit 0) \<longrightarrow> taken_down (rules (np_world y)))"
proof -
  have "\<not> written_last []" by (simp add: written_last_def)
  then have start: "nmi_inv s0 rules [] \<lparr>np_phase = Starting, np_server = s0, np_world = w0\<rparr>" using assms(5,6) by (simp add: nmi_inv_def)
  have I: "nmi_inv s0 rules tr y" by (rule nmi_run_inv[OF assms(1-3) _ assms(7) start]) (rule assms(4))
  have probe: "rs_Body (InitHealthProbe b new_Response) = ''Active'' \<longleftrightarrow> b" for b
    by (simp add: InitHealthProbe_def new_Response_def WriteHeader_def resp_Write_def Let_def)
  show ?thesis using I unfolding probe by (simp add: nmi_inv_def)
qed

definition run_env_sample :: "mem_table RunEnv" where
  "run_env_sample = \<lparr>re_ipt = mem_ipt, re_conntrack = \<lparr>ct_ParseIP = (\<lambda>ip. if is_ipv4 ip then Some True else None),
     ct_ParsePort = (\<lambda>_. Inr 80), ct_Add = (\<lambda>_ _. None), ct_DeleteFilter = (\<lambda>_ _ w. (None, w))\<rparr>\<rparr>"

definition run_server_sample :: Server where
  "run_server_sample = (NewServer ''default'' True True False (Managed \<lparr>mc_IsNamespaced = True\<rparr>))
     \<lparr>sv_NMIHost := ''0.0.0.0'', sv_NMIPort := ''2579'', sv_MetadataIP := ''169.254.169.254'', sv_MetadataPort := ''80'',
      sv_IPTableUpdateTimeIntervalInSeconds := 60, sv_EnableConntrackDeletion := True\<rparr>"

text \<open>The process starts, another program flushes the table, a tick repairs it, and a signal ends the process.\<close>

abbreviation "run_steps \<equiv> \<lambda>wakes x. fold (updateIPTableRules_step run_env_sample) wakes x"

definition run_looping :: "mem_table nmi_process" where
  "run_looping = run_steps [Tick, Tick, Tick, Tick] \<lparr>np_phase = Starting, np_server = run_server_sample, np_world = ex_table\<rparr>"

definition run_repaired :: "mem_table nmi_process" where
  "run_repaired = updateIPTableRules_step run_env_sample Tick (run_looping\<lparr>np_world := ex_table\<rparr>)"

definition run_stopped :: "mem_table nmi_process" where
  "run_stopped = updateIPTableRules_step run_env_sample Signal run_repaired"

lemma run_own_step:
  assumes "nmi_run env may x tr y" "z = updateIPTableRules_step env wake y" "np_phase y = p" "\<And>e. p \<noteq> Ended e"
  shows "nmi_run env may x (tr @ [Own p]) z"
  using nmi_run.run_own[OF assms(1)] assms(2-4) by simp

theorem nmi_process_invariant_witness:
  "np_phase run_repaired = Looping \<and> in_force (nmi_dnat run_server_sample) (map_of (np_world run_repaired)) \<and>
   np_phase run_stopped = Ended (Exit 0) \<and> taken_down (map_of (np_world run_stopped)) \<and> \<not> in_force (nmi_dnat run_server_sample) (map_of ex_table)"
proof -
  let ?s0 = run_server_sample and ?may = "\<lambda>w w'. w' = ex_table" and ?x = "\<lparr>np_phase = Starting, np_server = run_server_sample, np_world = ex_table\<rparr>"
  have none: "map_of ex_table customchainname = None" by code_simp
  have use: "usable_table (nmi_dnat ?s0) (map_of ex_table)" using none by (simp add: usable_table_def no_stale_chain_def ex_table_def)
  have H: "ipt_honest (re_ipt run_env_sample) map_of mem_canon" by (simp add: run_env_sample_def mem_ipt_honest)
  have C: "canon_ok mem_canon (nmi_dnat_args ?s0) (nmi_dnat ?s0)" unfolding canon_ok_def by code_simp
  have K: "conntrack_separate run_env_sample map_of" by (simp add: conntrack_separate_def run_env_sample_def)
  have I: "\<not> sv_Initialized ?s0" by code_simp
  define x1 x2 x3 where x: "x1 = run_steps [Tick] ?x" "x2 = run_steps [Tick, Tick] ?x" "x3 = run_steps [Tick, Tick, Tick] ?x"
  have phases: "np_phase x1 = Installing" "np_phase x2 = Cleaning" "np_phase x3 = Marking" "np_phase run_looping = Looping"
    "np_phase run_repaired = Looping" "np_phase run_stopped = Ended (Exit 0)"
    unfolding x run_looping_def run_repaired_def run_stopped_def by code_simp+
  have steps: "x1 = updateIPTableRules_step run_env_sample Tick ?x" "x2 = updateIPTableRules_step run_env_sample Tick x1"
    "x3 = updateIPTableRules_step run_env_sample Tick x2" "run_looping = updateIPTableRules_step run_env_sample Tick x3"
    by (simp_all add: x run_looping_def)
  note r1 = run_own_step[OF nmi_run.run_start[of run_env_sample ?may ?x] steps(1), of Starting, simplified]
  note r2 = run_own_step[OF r1 steps(2) phases(1), simplified]
  note r3 = run_own_step[OF r2 steps(3) phases(2), simplified]
  note r4 = run_own_step[OF r3 steps(4) phases(3), simplified]
  have r5: "nmi_run run_env_sample ?may ?x ([Own Starting, Own Installing, Own Cleaning, Own Marking] @ [Others]) (run_looping\<lparr>np_world := ex_table\<rparr>)"
    by (rule nmi_run.run_others[OF r4]) (simp_all add: phases)
  define tr where "tr = [Own Starting, Own Installing, Own Cleaning, Own Marking] @ [Others]"
  have r6: "nmi_run run_env_sample ?may ?x (tr @ [Own Looping]) run_repaired"
    unfolding tr_def by (rule run_own_step[OF r5 run_repaired_def]) (simp_all add: phases)
  have r7: "nmi_run run_env_sample ?may ?x ((tr @ [Own Looping]) @ [Own Looping]) run_stopped"
    by (rule run_own_step[OF r6 run_stopped_def]) (simp_all add: phases)
  have may: "usable_table (nmi_dnat ?s0) (map_of w')" if "?may w w'" for w w' using that use by simp
  have "in_force (nmi_dnat ?s0) (map_of (np_world run_repaired))" "taken_down (map_of (np_world run_stopped))"
    using nmi_process_invariant[OF H C K may I use r6] nmi_process_invariant[OF H C K may I use r7] phases(5,6)
    by (simp_all add: written_last_snoc)
  then show ?thesis using phases none by (simp add: in_force_def)
qed

end
