(* ===== verification/NmiMain.thy ===== *)
theory NmiMain
  imports ServerRun
begin

text \<open>
  \<^verbatim>\<open>cmd/nmi/main.go\<close>: from the flags to the server, and that its parts fit together.  \<^theory_text>\<open>Startup\<close> adds what
  the program does around it: logging, the listeners and the metrics exporter.
\<close>

section \<open>Flags\<close>

definition defaultMetadataIP :: string where "defaultMetadataIP = ''169.254.169.254''"
definition defaultMetadataPort :: string where "defaultMetadataPort = ''80''"
definition defaultNmiHost :: string where "defaultNmiHost = ''127.0.0.1''"
definition defaultNmiPort :: string where "defaultNmiPort = ''2579''"
definition defaultIPTableUpdateTimeIntervalInSeconds :: int where "defaultIPTableUpdateTimeIntervalInSeconds = 60"
definition defaultlistPodIDsRetryAttemptsForCreated :: int where "defaultlistPodIDsRetryAttemptsForCreated = 16"
definition defaultlistPodIDsRetryAttemptsForAssigned :: int where "defaultlistPodIDsRetryAttemptsForAssigned = 4"
definition defaultlistPodIDsRetryIntervalInSeconds :: int where "defaultlistPodIDsRetryIntervalInSeconds = 5"

record NmiFlags =
  nf_nmiHost :: string
  nf_nmiPort :: string
  nf_metadataIP :: string
  nf_metadataPort :: string
  nf_nodename :: string
  nf_ipTableUpdateTimeIntervalInSeconds :: int
  nf_forceNamespaced :: bool
  nf_micNamespace :: string
  nf_retryAttemptsForCreated :: int
  nf_retryAttemptsForAssigned :: int
  nf_findIdentityRetryIntervalInSeconds :: int
  nf_enableScaleFeatures :: bool
  nf_blockInstanceMetadata :: bool
  nf_metadataHeaderRequired :: bool
  nf_operationMode :: string
  nf_allowNetworkPluginKubenet :: bool
  nf_kubeletConfig :: string
  nf_setRetryAfterHeader :: bool
  nf_enableConntrackDeletion :: bool

definition nmi_default_flags :: NmiFlags where
  "nmi_default_flags =
     \<lparr>nf_nmiHost = defaultNmiHost, nf_nmiPort = defaultNmiPort, nf_metadataIP = defaultMetadataIP, nf_metadataPort = defaultMetadataPort,
      nf_nodename = [], nf_ipTableUpdateTimeIntervalInSeconds = defaultIPTableUpdateTimeIntervalInSeconds, nf_forceNamespaced = False,
      nf_micNamespace = ''default'', nf_retryAttemptsForCreated = defaultlistPodIDsRetryAttemptsForCreated,
      nf_retryAttemptsForAssigned = defaultlistPodIDsRetryAttemptsForAssigned,
      nf_findIdentityRetryIntervalInSeconds = defaultlistPodIDsRetryIntervalInSeconds, nf_enableScaleFeatures = True,
      nf_blockInstanceMetadata = False, nf_metadataHeaderRequired = True, nf_operationMode = ''standard'',
      nf_allowNetworkPluginKubenet = False, nf_kubeletConfig = ''/etc/default/kubelet'', nf_setRetryAfterHeader = False,
      nf_enableConntrackDeletion = False\<rparr>"

section \<open>\<^verbatim>\<open>main\<close>\<close>

text \<open>The configuration of the token client.\<close>

definition nmi_config :: "(string \<Rightarrow> string) \<Rightarrow> NmiFlags \<Rightarrow> Config" where
  "nmi_config getenv fl =
     \<lparr>cfg_Mode = strings_ToLower (nf_operationMode fl), cfg_RetryAttemptsForCreated = nf_retryAttemptsForCreated fl,
      cfg_RetryAttemptsForAssigned = nf_retryAttemptsForAssigned fl,
      cfg_FindIdentityRetryIntervalInSeconds = nf_findIdentityRetryIntervalInSeconds fl, cfg_NodeName = [],
      cfg_Namespaced = (nf_forceNamespaced fl \<or> ''true'' = getenv ''FORCENAMESPACED'')\<rparr>"

definition nmi_server :: "NmiFlags \<Rightarrow> TokenClient \<Rightarrow> Server" where
  "nmi_server fl tokenClient =
     (NewServer (nf_micNamespace fl) (nf_blockInstanceMetadata fl) (nf_metadataHeaderRequired fl) (nf_setRetryAfterHeader fl) tokenClient)
       \<lparr>sv_MetadataIP := nf_metadataIP fl, sv_MetadataPort := nf_metadataPort fl, sv_NMIHost := nf_nmiHost fl, sv_NMIPort := nf_nmiPort fl,
        sv_IPTableUpdateTimeIntervalInSeconds := nf_ipTableUpdateTimeIntervalInSeconds fl,
        sv_EnableConntrackDeletion := nf_enableConntrackDeletion fl\<rparr>"

text \<open>
  The CRD client, the field selector of the pod informer, and the server; \<open>Inl\<close> is the text of a fatal error.  The start of the Kubernetes client,
  between the two, is \<open>kube_Start\<close>.
\<close>

definition nmi_main ::
  "'w KubeEnv \<Rightarrow> (string \<Rightarrow> (string, string) result) \<Rightarrow> NmiFlags \<Rightarrow> (string, crd_client \<times> string \<times> Server) result" where
  "nmi_main env readFile fl =
     (case (if nf_allowNetworkPluginKubenet fl then (False, None) else IsKubenetCNI readFile (nf_kubeletConfig fl)) of
        (_, Some err) \<Rightarrow> Inl (''failed to check if CNI plugin is kubenet, error: '' @ err)
      | (True, None) \<Rightarrow> Inl ''AAD Pod Identity is not supported for Kubenet. Review https://azure.github.io/aad-pod-identity/docs/configure/aad_pod_identity_on_kubenet/ for more details.''
      | (False, None) \<Rightarrow>
          (case GetKubeClient env (nf_nodename fl) (strings_ToLower (nf_operationMode fl)) (nf_enableScaleFeatures fl) of
             Inl err \<Rightarrow> Inl (''failed to get kube client, error: '' @ err)
           | Inr (crdClient, selector) \<Rightarrow>
               (case GetTokenClient (nmi_config (ke_Getenv env) fl) of
                  Inl err \<Rightarrow> Inl (''failed to initialize token client, error: '' @ err)
                | Inr tokenClient \<Rightarrow> Inr (crdClient, selector, nmi_server fl tokenClient))))"

section \<open>Properties\<close>

lemma nmi_mainE:
  assumes "nmi_main env readFile fl = Inr (c, sel, s)"
  obtains tc where "GetKubeClient env (nf_nodename fl) (strings_ToLower (nf_operationMode fl)) (nf_enableScaleFeatures fl) = Inr (c, sel)"
    "GetTokenClient (nmi_config (ke_Getenv env) fl) = Inr tc" "s = nmi_server fl tc"
  using assms by (auto simp: nmi_main_def split: prod.splits option.splits bool.splits sum.splits)

lemma GetKubeClient_client:
  "GetKubeClient env nodeName mode scale = Inr (c, sel) \<Longrightarrow>
     NewCRDClientLite (ke_crd env) nodeName scale (mode = StandardMode) = Inr c \<and> sel = ''spec.nodeName='' @ nodeName"
  by (auto simp: GetKubeClient_def NewKubeClient_def pod_NodeNameFilter_def split: option.splits sum.splits)

text \<open>
  The parts of NMI fit together.  When \<^verbatim>\<open>main\<close> gets as far as running the server, the token client asks for the reads that the
  informers of its mode serve: in standard mode \<^verbatim>\<open>ListPodIds\<close>, in managed mode \<^verbatim>\<open>GetPodIDsWithBinding\<close>, and in both the exceptions, never panic on a
  nil informer; managed mode runs only with namespaced identities; the pods watched are those of the node; and metadata requests are
  redirected to the address of the server, or to the loopback address if it listens on all.
\<close>

theorem nmi_put_together:
  assumes "nmi_main env readFile fl = Inr (c, sel, s)" "informers (cs_client st) = informers c"
  shows "returns (fst (ListPodIdentityExceptions (ke_crd env) ns st)) \<and>
    (case sv_TokenClient s of
       Standard sc \<Rightarrow> returns (fst (ListPodIds (ke_crd env) podns podname st)) \<and>
         (sc_IsNamespaced sc \<longleftrightarrow> nf_forceNamespaced fl \<or> ke_Getenv env ''FORCENAMESPACED'' = ''true'')
     | Managed mc \<Rightarrow> returns (fst (GetPodIDsWithBinding (ke_crd env) podns labels st)) \<and> mc_IsNamespaced mc) \<and>
    sel = ''spec.nodeName='' @ nf_nodename fl \<and>
    nmi_target s = (if nf_nmiHost fl = ''0.0.0.0'' then ''127.0.0.1'' else nf_nmiHost fl)"
proof -
  obtain tc where P: "GetKubeClient env (nf_nodename fl) (strings_ToLower (nf_operationMode fl)) (nf_enableScaleFeatures fl) = Inr (c, sel)"
    "GetTokenClient (nmi_config (ke_Getenv env) fl) = Inr tc" "s = nmi_server fl tc"
    using assms(1) by (rule nmi_mainE)
  let ?mode = "strings_ToLower (nf_operationMode fl)"
  have c: "NewCRDClientLite (ke_crd env) (nf_nodename fl) (nf_enableScaleFeatures fl) (?mode = StandardMode) = Inr c"
    and sel: "sel = ''spec.nodeName='' @ nf_nodename fl" using GetKubeClient_client[OF P(1)] by simp_all
  have tc: "case tc of Standard sc \<Rightarrow> ?mode = StandardMode \<and> (sc_IsNamespaced sc \<longleftrightarrow> nf_forceNamespaced fl \<or> ke_Getenv env ''FORCENAMESPACED'' = ''true'')
      | Managed mc \<Rightarrow> ?mode \<noteq> StandardMode \<and> mc_IsNamespaced mc"
    using P(2) by (auto simp: GetTokenClient_def nmi_config_def NewStandardTokenClient_def NewManagedTokenClient_def split: if_splits)
  have "sv_TokenClient s = tc" "nmi_target s = (if nf_nmiHost fl = ''0.0.0.0'' then ''127.0.0.1'' else nf_nmiHost fl)"
    by (simp_all add: P(3) nmi_server_def NewServer_def nmi_target_def localhost_def)
  then show ?thesis using lite_client_modes[OF c assms(2), of ns podns podname labels] tc sel by (cases tc) simp_all
qed

theorem nmi_put_together_witness:
  "\<exists>c sel s. nmi_main kube_env_sample (\<lambda>_. Inr []) (nmi_default_flags\<lparr>nf_nodename := ''node''\<rparr>) = Inr (c, sel, s) \<and>
     sel = ''spec.nodeName=node'' \<and> returns (fst (ListPodIdentityExceptions (ke_crd kube_env_sample) ''ns'' (crd_start\<lparr>cs_client := c\<rparr>)))"
proof -
  let ?fl = "nmi_default_flags\<lparr>nf_nodename := ''node''\<rparr>"
  have "case nmi_main kube_env_sample (\<lambda>_. Inr []) ?fl of Inr _ \<Rightarrow> True | Inl _ \<Rightarrow> False" by code_simp
  then obtain c sel s where m: "nmi_main kube_env_sample (\<lambda>_. Inr []) ?fl = Inr (c, sel, s)" by (auto split: sum.splits)
  have "informers (cs_client (crd_start\<lparr>cs_client := c\<rparr>)) = informers c" by simp
  from nmi_put_together[OF m this] m show ?thesis by auto
qed

end
