(* ===== verification/Startup.thy ===== *)
theory Startup
  imports MicEvents NmiMain
begin

text \<open>
  From the command line to the loops: the whole of \<^verbatim>\<open>main\<close> of both processes (\<^verbatim>\<open>cmd/nmi/main.go\<close>, \<^verbatim>\<open>cmd/mic/main.go\<close>) with what they start on the
  way, \<^verbatim>\<open>pkg/log\<close>, \<^verbatim>\<open>version\<close>, the listeners of \<^verbatim>\<open>pkg/probes\<close> and of the metrics exporter, the registration of the types with the REST client
  (\<^verbatim>\<open>v1/register.go\<close>, \<^verbatim>\<open>newRestClient\<close>), and the sample programs \<^verbatim>\<open>cmd/simple\<close> and \<^verbatim>\<open>cmd/demo\<close>.

  What a program does to the outside is a list of \<open>act\<close>s in the order in which it happens; a goroutine that listens is its start.  The
  values of the flags are arguments.
\<close>

section \<open>Logging and version\<close>

definition textLogFormat :: string where "textLogFormat = ''text''"
definition jsonLogFormat :: string where "jsonLogFormat = ''json''"

record Options =
  opt_LogFormat :: string

definition NewOptions :: Options where
  "NewOptions = \<lparr>opt_LogFormat = textLogFormat\<rparr>"

definition log_Validate :: "Options \<Rightarrow> string option" where
  "log_Validate o' =
     (if opt_LogFormat o' \<noteq> textLogFormat \<and> opt_LogFormat o' \<noteq> jsonLogFormat
      then Some (''unknown logging format '' @ opt_LogFormat o' @ ''. Only \"'' @ textLogFormat @ ''\" and \"'' @ jsonLogFormat @ ''\" are supported'')
      else None)"

datatype act =
    SetJsonLogger
  | Printed string
  | Listening string string      \<comment> \<open>an address and what answers there\<close>
  | Handling string
  | StartedClient
  | RegisteredViews "View list"
  | RegisteredExporter string
  | Elected
  | Ran

definition log_Apply :: "Options \<Rightarrow> act list \<Rightarrow> string option \<times> act list" where
  "log_Apply o' tr =
     (case log_Validate o' of
        Some err \<Rightarrow> (Some err, tr)
      | None \<Rightarrow> (None, if opt_LogFormat o' = jsonLogFormat then tr @ [SetJsonLogger] else tr))"

record BuildInfo =
  bi_BuildDate :: string
  bi_GitCommit :: string
  bi_MICVersion :: string
  bi_NMIVersion :: string
  bi_customUserAgent :: string

definition GetUserAgent :: "BuildInfo \<Rightarrow> string \<Rightarrow> string \<Rightarrow> string" where
  "GetUserAgent bi component version =
     (let agent = ''aad-pod-identity/'' @ component @ ''/'' @ version @ ''/'' @ bi_GitCommit bi @ ''/'' @ bi_BuildDate bi
      in if bi_customUserAgent bi \<noteq> [] then agent @ '' '' @ bi_customUserAgent bi else agent)"

datatype 'a program = Fails string | Exits int | Goes 'a

definition PrintVersionAndExit :: "BuildInfo \<Rightarrow> act list \<Rightarrow> 'a program \<times> act list" where
  "PrintVersionAndExit bi tr =
     (Exits 0, tr @ [Printed (''MIC Version: '' @ bi_MICVersion bi @ '' - NMI Version: '' @ bi_NMIVersion bi @
        '' - Commit: '' @ bi_GitCommit bi @ '' - Date: '' @ bi_BuildDate bi @ [CHR 0x0A])])"

section \<open>Health probe and metrics\<close>

text \<open>\<^verbatim>\<open>Start\<close> and \<^verbatim>\<open>InitAndStart\<close>: the handler is that of \<open>InitHealthProbe\<close>.\<close>

definition probes_Start :: "string \<Rightarrow> act list \<Rightarrow> act list" where
  "probes_Start port tr = tr @ [Listening ('':'' @ port) ''default'']"

definition InitAndStart :: "string \<Rightarrow> act list \<Rightarrow> act list" where
  "InitAndStart port tr = probes_Start port (tr @ [Handling ''/healthz''])"

record StartEnv =
  se_ViewRegister :: "View list \<Rightarrow> string option"
  se_NewExporter :: "string \<Rightarrow> string option"

definition componentNamespace :: string where "componentNamespace = ''aadpodidentity''"

definition newPrometheusExporter :: "StartEnv \<Rightarrow> string \<Rightarrow> string \<Rightarrow> act list \<Rightarrow> string option \<times> act list" where
  "newPrometheusExporter env namespace portNumber tr =
     (case se_NewExporter env namespace of
        Some err \<Rightarrow> (Some (''failed to create the Prometheus exporter, error: '' @ err), tr)
      | None \<Rightarrow> (None, tr @ [Listening ('':'' @ portNumber) ''/metrics'']))"

definition RegisterAndExport :: "StartEnv \<Rightarrow> string \<Rightarrow> act list \<Rightarrow> string option \<times> act list" where
  "RegisterAndExport env port tr =
     (case se_ViewRegister env registerViews of
        Some err \<Rightarrow> (Some (''failed to register views for metrics, error:'' @ err), tr)
      | None \<Rightarrow>
          (case newPrometheusExporter env componentNamespace port (tr @ [RegisteredViews registerViews]) of
             (Some err, tr) \<Rightarrow> (Some (''failed to create Prometheus exporter, error: '' @ err), tr)
           | (None, tr) \<Rightarrow> (None, tr @ [RegisteredExporter componentNamespace])))"

text \<open>The profiler, which both programs start on request.\<close>

definition profile_acts :: "bool \<Rightarrow> act list" where
  "profile_acts enableProfile = (if enableProfile then [Listening ''localhost:6060'' ''default''] else [])"

text \<open>
  The initialization of \<^verbatim>\<open>pkg/auth\<close> at the start of the process: \<open>addToUserAgent\<close> is adal's \<^verbatim>\<open>AddToUserAgent\<close>, whose error panics.
\<close>

definition auth_init :: "(string \<Rightarrow> string option) \<Rightarrow> BuildInfo \<Rightarrow> unit outcome" where
  "auth_init addToUserAgent bi =
     (case addToUserAgent (GetUserAgent bi ''NMI'' (bi_NMIVersion bi)) of Some err \<Rightarrow> Panicked err | None \<Rightarrow> Returned ())"

section \<open>The two programs\<close>

text \<open>The flags that both programs have beside those of \<open>NmiFlags\<close> and \<open>MicFlags\<close>.\<close>

record StartFlags =
  sf_log :: Options
  sf_version :: bool
  sf_enableProfile :: bool
  sf_httpProbePort :: string
  sf_prometheusPort :: string

definition nmi_start_flags :: StartFlags where
  "nmi_start_flags = \<lparr>sf_log = NewOptions, sf_version = False, sf_enableProfile = False, sf_httpProbePort = ''8080'', sf_prometheusPort = ''9090''\<rparr>"

definition mic_start_flags :: StartFlags where
  "mic_start_flags = \<lparr>sf_log = NewOptions, sf_version = False, sf_enableProfile = False, sf_httpProbePort = ''8080'', sf_prometheusPort = ''8888''\<rparr>"

text \<open>
  \<^verbatim>\<open>main\<close> of NMI up to the call of \<^verbatim>\<open>Run\<close>, which \<^theory_text>\<open>ServerRun\<close> goes on with.  \<open>kstate\<close> is the state of a new client; a panic of its start ends the process.
\<close>

definition nmi_program ::
  "StartEnv \<Rightarrow> BuildInfo \<Rightarrow> 'w KubeEnv \<Rightarrow> (crd_client \<Rightarrow> 'w KubeState) \<Rightarrow> (string \<Rightarrow> (string, string) result) \<Rightarrow> StartFlags \<Rightarrow> NmiFlags \<Rightarrow>
   ('w KubeState \<times> string \<times> Server) program \<times> act list" where
  "nmi_program senv bi env kstate readFile sf fl =
     (case log_Apply (sf_log sf) [] of
        (Some err, tr) \<Rightarrow> (Fails (''unable to apply logging options, error: '' @ err), tr)
      | (None, tr) \<Rightarrow>
     if sf_version sf then PrintVersionAndExit bi tr
     else
     (case (if nf_allowNetworkPluginKubenet fl then (False, None) else IsKubenetCNI readFile (nf_kubeletConfig fl)) of
        (_, Some err) \<Rightarrow> (Fails (''failed to check if CNI plugin is kubenet, error: '' @ err), tr)
      | (True, None) \<Rightarrow> (Fails ''AAD Pod Identity is not supported for Kubenet. Review https://azure.github.io/aad-pod-identity/docs/configure/aad_pod_identity_on_kubenet/ for more details.'', tr)
      | (False, None) \<Rightarrow>
     (let tr = tr @ profile_acts (sf_enableProfile sf) in
      case GetKubeClient env (nf_nodename fl) (strings_ToLower (nf_operationMode fl)) (nf_enableScaleFeatures fl) of
        Inl err \<Rightarrow> (Fails (''failed to get kube client, error: '' @ err), tr)
      | Inr (crdClient, selector) \<Rightarrow>
     (case kube_Start env (kstate crdClient) of
        (Panicked t, s) \<Rightarrow> (Fails t, tr)
      | (Returned _, s) \<Rightarrow>
     (let tr = tr @ [StartedClient] in
      case GetTokenClient (nmi_config (ke_Getenv env) fl) of
        Inl err \<Rightarrow> (Fails (''failed to initialize token client, error: '' @ err), tr)
      | Inr tokenClient \<Rightarrow>
     (case RegisterAndExport senv (sf_prometheusPort sf) (InitAndStart (sf_httpProbePort sf) tr) of
        (Some err, tr) \<Rightarrow> (Fails (''failed to register and export metrics on port '' @ sf_prometheusPort sf @ '', error: '' @ err), tr)
      | (None, tr) \<Rightarrow> (Goes (s, selector, nmi_server fl tokenClient), tr @ [Ran])))))))"

text \<open>
  \<^verbatim>\<open>main\<close> of MIC up to the leader election.  \<open>build\<close> is \<^verbatim>\<open>buildConfig\<close> of the kubeconfig flag, which gives the configuration of the clients or an error.
\<close>

definition mic_buildConfig :: "'w KubeEnv \<Rightarrow> string \<Rightarrow> string option" where
  "mic_buildConfig env kubeconfigPath =
     (if kubeconfigPath \<noteq> [] then ke_BuildConfigFromFlags env kubeconfigPath else ke_InClusterConfig env)"

definition mic_program ::
  "StartEnv \<Rightarrow> BuildInfo \<Rightarrow> 'w KubeEnv \<Rightarrow> 'w NewEnv \<Rightarrow> string \<Rightarrow> StartFlags \<Rightarrow> MicFlags \<Rightarrow> stats \<Rightarrow> 'w \<Rightarrow>
   ('w MICClient \<times> string) program \<times> act list" where
  "mic_program senv bi env nenv kubeconfig sf fl st w =
     (case log_Apply (sf_log sf) [] of
        (Some err, tr) \<Rightarrow> (Fails (''unable to apply logging options, error: '' @ err), tr)
      | (None, tr) \<Rightarrow>
     (case mic_main_config (ke_Getenv env) fl of
        Inl err \<Rightarrow> (Fails err, tr)
      | Inr cfg \<Rightarrow>
     if sf_version sf then PrintVersionAndExit bi tr
     else
     (let tr = tr @ profile_acts (sf_enableProfile sf) in
      case mic_buildConfig env kubeconfig of
        Some err \<Rightarrow> (Fails (''failed to build config from '' @ kubeconfig @ '', error: '' @ err), tr)
      | None \<Rightarrow>
     (case NewMICClient nenv cfg st w of
        Inl err \<Rightarrow> (Fails (''failed to create MIC client, error: '' @ err), tr)
      | Inr micClient \<Rightarrow>
     (case RegisterAndExport senv (sf_prometheusPort sf) (InitAndStart (sf_httpProbePort sf) tr) of
        (Some err, tr) \<Rightarrow> (Fails (''failed to register and export metrics on port '' @ sf_prometheusPort sf @ '', error: '' @ err), tr)
      | (None, tr) \<Rightarrow> (Goes (micClient, GetUserAgent bi ''MIC'' (bi_MICVersion bi)), tr @ [Elected]))))))"

section \<open>Registration of the types\<close>

definition GroupName :: string where "GroupName = ''aadpodidentity.k8s.io''"

definition SchemeGroupVersion :: "string \<times> string" where
  "SchemeGroupVersion = (GroupName, ''v1'')"

definition v1_Resource :: "string \<Rightarrow> string \<times> string" where
  "v1_Resource resource = (fst SchemeGroupVersion, resource)"

text \<open>A scheme is the list of the kinds it knows, with their group and version; \<open>metav1\<close> is \<^verbatim>\<open>metav1.AddToGroupVersion\<close>.\<close>

type_synonym scheme = "((string \<times> string) \<times> string) list"

definition addKnownTypes :: "(scheme \<Rightarrow> string \<times> string \<Rightarrow> scheme) \<Rightarrow> scheme \<Rightarrow> string option \<times> scheme" where
  "addKnownTypes metav1 sch =
     (None, metav1 (sch @ map (\<lambda>kind. (SchemeGroupVersion, kind))
        [''AzureIdentity'', ''AzureIdentityList'', ''AzureIdentityBinding'', ''AzureIdentityBindingList'',
         ''AzureAssignedIdentity'', ''AzureAssignedIdentityList'', ''AzurePodIdentityException'', ''AzurePodIdentityExceptionList'']) SchemeGroupVersion)"

record rest_config =
  rc_GroupVersion :: "string \<times> string"
  rc_APIPath :: string
  rc_ContentType :: string
  rc_scheme :: scheme

text \<open>\<open>core\<close> is \<^verbatim>\<open>clientgoscheme.AddToScheme\<close> and \<open>clientFor\<close> \<^verbatim>\<open>rest.RESTClientFor\<close>, which may refuse the configuration.\<close>

definition newRestClient ::
  "(scheme \<Rightarrow> string \<times> string \<Rightarrow> scheme) \<Rightarrow> (scheme \<Rightarrow> string option \<times> scheme) \<Rightarrow> (rest_config \<Rightarrow> string option) \<Rightarrow> (string, rest_config) result" where
  "newRestClient metav1 core clientFor =
     (case addKnownTypes metav1 [] of
        (Some err, _) \<Rightarrow> Inl err
      | (None, sch) \<Rightarrow>
     (case core sch of
        (Some err, _) \<Rightarrow> Inl err
      | (None, sch) \<Rightarrow>
     (let crdconfig = \<lparr>rc_GroupVersion = SchemeGroupVersion, rc_APIPath = ''/apis'', rc_ContentType = ''application/json'', rc_scheme = sch\<rparr>
      in case clientFor crdconfig of Some err \<Rightarrow> Inl err | None \<Rightarrow> Inr crdconfig)))"

section \<open>The sample programs\<close>

text \<open>
  \<^verbatim>\<open>cmd/simple\<close>: print what the CRD client lists.  \<open>marshal\<close> is \<^verbatim>\<open>json.MarshalIndent\<close>, whose error ends the process with 1.
\<close>

fun print_all :: "('a \<Rightarrow> (string, string) result) \<Rightarrow> 'a list \<Rightarrow> act list \<Rightarrow> bool \<times> act list" where
  "print_all marshal [] tr = (True, tr)"
| "print_all marshal (x # xs) tr =
     (case marshal x of Inl err \<Rightarrow> (False, tr) | Inr buf \<Rightarrow> print_all marshal xs (tr @ [Printed ([CHR 0x0A] @ buf)]))"

text \<open>One listing: its error is fatal with the text \<open>text\<close> makes of it; \<open>head\<close> is printed first.\<close>

definition simple_list ::
  "(string \<Rightarrow> string) \<Rightarrow> ('a list \<Rightarrow> act list) \<Rightarrow> ('a \<Rightarrow> (string, string) result) \<Rightarrow> (string, 'a list) result outcome \<Rightarrow> act list \<Rightarrow> unit program \<times> act list" where
  "simple_list text head marshal r tr =
     (case r of
        Panicked t \<Rightarrow> (Fails t, tr)
      | Returned (Inl err) \<Rightarrow> (Fails (text err), tr)
      | Returned (Inr xs) \<Rightarrow>
          (case print_all marshal xs (tr @ head xs) of (ok, tr) \<Rightarrow> (if ok then Goes () else Exits 1, tr)))"

definition simple_main ::
  "'w KubeEnv \<Rightarrow> (crd_client \<Rightarrow> 'w CrdState) \<Rightarrow> (AzureIdentity \<Rightarrow> (string, string) result) \<Rightarrow> (AzureIdentityBinding \<Rightarrow> (string, string) result) \<Rightarrow>
   (AzureAssignedIdentity \<Rightarrow> (string, string) result) \<Rightarrow> string \<Rightarrow> unit program \<times> act list" where
  "simple_main env cstate mi mb ma kubeconfig =
     (let crd = ke_crd env in
      case mic_buildConfig env kubeconfig of
        Some err \<Rightarrow> (Fails (''failed to build config from '' @ kubeconfig @ '', error: '' @ err), [])
      | None \<Rightarrow>
     (case NewCRDClient crd of
        Inl err \<Rightarrow> (Fails err, [])
      | Inr crdClient \<Rightarrow>
     (case crd_Start crd (cstate crdClient) of
        (Panicked t, s) \<Rightarrow> (Fails t, [])
      | (Returned _, s) \<Rightarrow>
     (case SyncCacheAll crd True s of
        (Panicked t, s) \<Rightarrow> (Fails t, [])
      | (Returned _, s) \<Rightarrow>
     (case ListIds crd s of (r, s) \<Rightarrow>
      case simple_list (\<lambda>err. ''could not get the identities: '' @ err) (\<lambda>xs. [Printed (''Identities len: '' @ strconv_Itoa (int (length xs)))]) mi r [] of
        (Fails t, tr) \<Rightarrow> (Fails t, tr) | (Exits n, tr) \<Rightarrow> (Exits n, tr)
      | (Goes _, tr) \<Rightarrow>
     (case ListBindings crd s of (r, s) \<Rightarrow>
      case simple_list (\<lambda>err. ''could not get the bindings: '' @ err) (\<lambda>xs. [Printed (''bindings len: '' @ strconv_Itoa (int (length xs)))]) mb r tr of
        (Fails t, tr) \<Rightarrow> (Fails t, tr) | (Exits n, tr) \<Rightarrow> (Exits n, tr)
      | (Goes _, tr) \<Rightarrow>
     (case ListAssignedIDs crd s of (r, s) \<Rightarrow>
      case simple_list (\<lambda>err. ''could not get assigned ID'') (\<lambda>xs. []) ma r tr of
        (Fails t, tr) \<Rightarrow> (Fails t, tr) | (Exits n, tr) \<Rightarrow> (Exits n, tr)
      | (Goes _, tr) \<Rightarrow> (Exits 0, tr @ [Printed ([CHR 0x0A] @ ''done !'')]))))))))"

text \<open>
  \<^verbatim>\<open>cmd/demo\<close>: one round asks the instance endpoint and obtains a token.  The time limit of 80 seconds is part of \<open>ad_Refresh\<close> and of \<open>http_do\<close>;
  \<open>zero\<close> is adal's \<^verbatim>\<open>IsZero\<close>.  The request is \<^verbatim>\<open>GET\<close> with the header \<^verbatim>\<open>Metadata: true\<close>.
\<close>

definition getTokenFromIMDSWithUserAssignedID ::
  "'k Adal \<Rightarrow> (Token \<Rightarrow> bool) \<Rightarrow> string \<Rightarrow> string \<Rightarrow> 'k \<Rightarrow> Token option \<times> 'k" where
  "getTokenFromIMDSWithUserAssignedID ad zero resourceName identityClientID k =
     (let cred = ManagedIdentity (Some identityClientID) resourceName in
      case ad_New ad cred of
        Some err \<Rightarrow> (None, k)
      | None \<Rightarrow>
          (case ad_Refresh ad cred k of
             (Inl err, k) \<Rightarrow> (None, k)
           | (Inr (token, _), k) \<Rightarrow> (if zero token then (None, k) else (Some token, k))))"

definition demo_url :: string where
  "demo_url = ''http://169.254.169.254/metadata/instance?api-version=2017-08-01''"

definition curlIMDSMetadataInstanceEndpoint ::
  "(string \<Rightarrow> string \<times> string \<Rightarrow> 'k \<Rightarrow> (string, (string, string) result) result \<times> 'k) \<Rightarrow> act list \<Rightarrow> 'k \<Rightarrow> act list \<times> 'k" where
  "curlIMDSMetadataInstanceEndpoint http_do tr k =
     (case http_do demo_url (''Metadata'', ''true'') k of
        (Inl err, k) \<Rightarrow> (tr @ [Printed err], k)
      | (Inr (Inl err), k) \<Rightarrow> (tr @ [Printed (''failed to read response body, error: '' @ err)], k)
      | (Inr (Inr body), k) \<Rightarrow> (tr @ [Printed (''curl -H Metadata:true \"'' @ demo_url @ ''\": '' @ body)], k))"

definition demo_round ::
  "'k Adal \<Rightarrow> (Token \<Rightarrow> bool) \<Rightarrow> (string \<Rightarrow> string \<times> string \<Rightarrow> 'k \<Rightarrow> (string, (string, string) result) result \<times> 'k) \<Rightarrow> string \<Rightarrow> string \<Rightarrow>
   act list \<times> 'k \<Rightarrow> act list \<times> 'k" where
  "demo_round ad zero http_do resourceName identityClientID s =
     (case curlIMDSMetadataInstanceEndpoint http_do (fst s) (snd s) of (tr, k) \<Rightarrow>
      case getTokenFromIMDSWithUserAssignedID ad zero resourceName identityClientID k of
        (None, k) \<Rightarrow> (tr @ [Printed ''Failed to acquire token from IMDS with identity client ID''], k)
      | (Some t1, k) \<Rightarrow> (tr @ [Printed (''Try decoding your token '' @ tk_AccessToken t1 @ '' at https://jwt.io'')], k))"

section \<open>Properties\<close>

text \<open>The acts between the start of the clients and the loop.\<close>

definition serving_acts :: "StartFlags \<Rightarrow> act list" where
  "serving_acts sf = [Handling ''/healthz'', Listening ('':'' @ sf_httpProbePort sf) ''default'', RegisteredViews registerViews,
     Listening ('':'' @ sf_prometheusPort sf) ''/metrics'', RegisteredExporter componentNamespace]"

definition log_acts :: "StartFlags \<Rightarrow> act list" where
  "log_acts sf = (if opt_LogFormat (sf_log sf) = ''json'' then [SetJsonLogger] else [])"

lemma log_Apply_ok:
  "log_Apply (sf_log sf) [] = (None, tr) \<longleftrightarrow> opt_LogFormat (sf_log sf) \<in> {''text'', ''json''} \<and> tr = log_acts sf"
  by (auto simp: log_Apply_def log_Validate_def textLogFormat_def jsonLogFormat_def log_acts_def)

lemma RegisterAndExport_ok:
  "RegisterAndExport senv (sf_prometheusPort sf) (InitAndStart (sf_httpProbePort sf) tr) = (None, tr') \<Longrightarrow> tr' = tr @ serving_acts sf"
  by (auto simp: RegisterAndExport_def newPrometheusExporter_def InitAndStart_def probes_Start_def serving_acts_def split: option.splits)

lemma SyncCache_client: "cs_client (snd (SyncCache env initial names s)) = cs_client s"
  by (cases "ce_WaitForCacheSync env names (cs_world s)") (simp add: SyncCache_def crd_world_call_def)

lemma kube_Start_client:
  "cs_client (ks_crd (snd (kube_Start env s))) = cs_client (ks_crd s)"
proof -
  have "cs_client (snd (StartLite (ke_crd env) (ks_crd s))) = cs_client (ks_crd s)"
    unfolding StartLite_def Let_def by (rule SyncCache_client)
  moreover obtain r c where l: "StartLite (ke_crd env) (ks_crd s) = (r, c)" by fastforce
  ultimately show ?thesis by (cases r) (simp_all add: kube_Start_def on_crd_def crd_world_call_def split: prod.split)
qed

lemma nmi_programE:
  assumes "nmi_program senv bi env kstate readFile sf fl = (Goes (s, sel, srv), tr)"
  obtains c where "nmi_main env readFile fl = Inr (c, sel, srv)" "kube_Start env (kstate c) = (Returned (), s)" "\<not> sf_version sf"
    "opt_LogFormat (sf_log sf) \<in> {''text'', ''json''}"
    "tr = log_acts sf @ profile_acts (sf_enableProfile sf) @ [StartedClient] @ serving_acts sf @ [Ran]"
proof -
  obtain tr1 where l: "log_Apply (sf_log sf) [] = (None, tr1)" and v: "\<not> sf_version sf"
    using assms by (auto simp: nmi_program_def PrintVersionAndExit_def split: prod.splits option.splits if_splits)
  note a = assms[unfolded nmi_program_def l, simplified v, simplified]
  have n: "(if nf_allowNetworkPluginKubenet fl then (False, None) else IsKubenetCNI readFile (nf_kubeletConfig fl)) = (False, None)"
    using a by (auto split: prod.splits option.splits bool.splits)
  obtain c where c: "GetKubeClient env (nf_nodename fl) (strings_ToLower (nf_operationMode fl)) (nf_enableScaleFeatures fl) = Inr (c, sel)"
    using a by (auto simp: n Let_def split: prod.splits sum.splits outcome.splits option.splits)
  obtain tc where t: "GetTokenClient (nmi_config (ke_Getenv env) fl) = Inr tc"
    using a by (auto simp: n c Let_def split: prod.splits sum.splits outcome.splits option.splits)
  have k: "kube_Start env (kstate c) = (Returned (), s)"
    using a by (auto simp: n c t Let_def split: prod.splits outcome.splits option.splits)
  have "srv = nmi_server fl tc" "tr = (tr1 @ profile_acts (sf_enableProfile sf) @ [StartedClient]) @ serving_acts sf @ [Ran]"
    using a by (auto simp: n c t k Let_def dest: RegisterAndExport_ok split: prod.splits option.splits)
  moreover have "nmi_main env readFile fl = Inr (c, sel, nmi_server fl tc)" by (simp add: nmi_main_def n c t)
  ultimately show ?thesis using that[of c] k v l by (simp add: log_Apply_ok)
qed

text \<open>
  (C34) When \<^verbatim>\<open>main\<close> of NMI gets as far as running the server, it has started the clients, then the health probe, then the metrics, and these listen
  on the ports of the flags; the probe does not say Active yet.  The parts fit together: the caches of the started client serve the reads of the token client of the
  mode, standard or managed, and the exceptions, without a panic on a nil informer; managed mode runs only with namespaced identities; the
  pods watched are those of the node; and metadata requests are redirected to the address of the server, or to the loopback address if it listens on all.
\<close>

theorem nmi_started:
  assumes "nmi_program senv bi env kstate readFile sf fl = (Goes (s, sel, srv), tr)" "\<And>c. cs_client (ks_crd (kstate c)) = c"
  shows "tr = log_acts sf @ profile_acts (sf_enableProfile sf) @ [StartedClient] @ serving_acts sf @ [Ran] \<and> \<not> sv_Initialized srv \<and>
    returns (fst (ListPodIdentityExceptions (ke_crd env) ns (ks_crd s))) \<and>
    (case sv_TokenClient srv of
       Standard sc \<Rightarrow> returns (fst (ListPodIds (ke_crd env) podns podname (ks_crd s))) \<and>
         (sc_IsNamespaced sc \<longleftrightarrow> nf_forceNamespaced fl \<or> ke_Getenv env ''FORCENAMESPACED'' = ''true'')
     | Managed mc \<Rightarrow> returns (fst (GetPodIDsWithBinding (ke_crd env) podns labels (ks_crd s))) \<and> mc_IsNamespaced mc) \<and>
    sel = ''spec.nodeName='' @ nf_nodename fl \<and>
    nmi_target srv = (if nf_nmiHost fl = ''0.0.0.0'' then ''127.0.0.1'' else nf_nmiHost fl)"
proof -
  obtain c where m: "nmi_main env readFile fl = Inr (c, sel, srv)" and k: "kube_Start env (kstate c) = (Returned (), s)"
    and tr: "tr = log_acts sf @ profile_acts (sf_enableProfile sf) @ [StartedClient] @ serving_acts sf @ [Ran]"
    using assms(1) by (rule nmi_programE)
  have "cs_client (ks_crd s) = c" using kube_Start_client[of env "kstate c"] k assms(2) by simp
  then have "informers (cs_client (ks_crd s)) = informers c" by simp
  moreover have "\<not> sv_Initialized srv" using m by (elim nmi_mainE) (simp add: nmi_server_def NewServer_def)
  ultimately show ?thesis using nmi_put_together[OF m, of "ks_crd s" ns podns podname labels] tr by simp
qed

lemma mic_programE:
  assumes "mic_program senv bi env nenv kubeconfig sf fl st w = (Goes (m, agent), tr)"
  obtains cfg where "mic_main_config (ke_Getenv env) fl = Inr cfg" "NewMICClient nenv cfg st w = Inr m"
    "agent = GetUserAgent bi ''MIC'' (bi_MICVersion bi)"
    "tr = log_acts sf @ profile_acts (sf_enableProfile sf) @ serving_acts sf @ [Elected]"
proof -
  obtain tr1 where l: "log_Apply (sf_log sf) [] = (None, tr1)"
    using assms by (auto simp: mic_program_def split: prod.splits option.splits)
  note a = assms[unfolded mic_program_def l, simplified]
  obtain cfg where c: "mic_main_config (ke_Getenv env) fl = Inr cfg" and v: "\<not> sf_version sf" and b: "mic_buildConfig env kubeconfig = None"
    using a by (auto simp: PrintVersionAndExit_def Let_def split: sum.splits if_splits option.splits)
  obtain m' where n: "NewMICClient nenv cfg st w = Inr m'" using a by (auto simp: c v b Let_def split: sum.splits)
  have "m = m'" "agent = GetUserAgent bi ''MIC'' (bi_MICVersion bi)" "tr = (tr1 @ profile_acts (sf_enableProfile sf)) @ serving_acts sf @ [Elected]"
    using a by (auto simp: c v b n Let_def dest: RegisterAndExport_ok split: prod.splits option.splits)
  then show ?thesis using that[OF c] n l by (simp add: log_Apply_ok)
qed

text \<open>
  (C35) When \<^verbatim>\<open>main\<close> of MIC gets as far as the leader election, the health probe and the metrics listen on the ports of the flags, and the controller is
  put together right: the CRD client has the informers that the sync loop reads, so that none of its listings and no cache synchronization of the
  loop panics on a nil informer; namespaced mode is on exactly if the flag or the environment says so; the identity of the cluster and the
  configured identities in lower case are protected from removal, and nothing else; and with a lease of at least four nanoseconds the times of the
  election are in the order that it needs.
\<close>

theorem mic_started:
  assumes "mic_program senv bi env nenv kubeconfig sf fl st w = (Goes (m, agent), tr)" "informers (cs_client s) = informers (mcl_crd m)"
  shows "tr = log_acts sf @ profile_acts (sf_enableProfile sf) @ serving_acts sf @ [Elected] \<and>
    returns (fst (ListBindings (nw_crd nenv) s)) \<and> returns (fst (ListIds (nw_crd nenv) s)) \<and>
    returns (fst (ListAssignedIDs (nw_crd nenv) s)) \<and> returns (fst (ListAssignedIDsInMap (nw_crd nenv) s)) \<and>
    returns (fst (SyncCacheAll (nw_crd nenv) False s)) \<and>
    (mic_IsNamespaced (mcl_client m) \<longleftrightarrow> mf_forceNamespaced fl \<or> ke_Getenv env ''FORCENAMESPACED'' = ''true'') \<and>
    (\<forall>i. checkIfIdentityImmutable (mcl_client m) i \<longleftrightarrow>
       i \<in> strings_ToLower ` set (if mf_immutableUserMSIs fl = [] then [] else strings_Split (CHR '','') (mf_immutableUserMSIs fl)) \<or>
       GetClusterIdentity (cc_cloud (mcl_cloud m)) \<noteq> [] \<and> i = GetClusterIdentity (cc_cloud (mcl_cloud m))) \<and>
    (4 \<le> le_Duration (mf_leaderElectionCfg fl) \<longrightarrow>
       lc_RenewDeadline (mcl_leaderElector m) < lc_LeaseDuration (mcl_leaderElector m) \<and>
       6 * lc_RetryPeriod (mcl_leaderElector m) < 5 * lc_RenewDeadline (mcl_leaderElector m))"
proof -
  obtain cfg where c: "mic_main_config (ke_Getenv env) fl = Inr cfg" and m: "NewMICClient nenv cfg st w = Inr m"
    and tr: "tr = log_acts sf @ profile_acts (sf_enableProfile sf) @ serving_acts sf @ [Elected]"
    using assms(1) by (rule mic_programE)
  have "mcf_ImmutableUserMSIsList cfg = (if mf_immutableUserMSIs fl = [] then [] else strings_Split (CHR '','') (mf_immutableUserMSIs fl))"
    using c by (auto simp: mic_main_config_def Let_def split: if_splits)
  then show ?thesis using mic_put_together[OF c m assms(2)] tr by simp
qed

text \<open>
  The request for the version is answered by NMI at once, by MIC only where the namespace of the controller is in the environment: outside of its pod it
  ends with an error instead.
\<close>

lemma version_flag:
  assumes "opt_LogFormat (sf_log sf) \<in> {''text'', ''json''}" "sf_version sf"
  shows "fst (nmi_program senv bi env kstate readFile sf nfl) = Exits 0"
    and "fst (mic_program senv bi env nenv kubeconfig sf mfl st w) =
      (if ke_Getenv env ''MIC_POD_NAMESPACE'' = [] then Fails ''namespace not specified. Please add meta.namespace as env variable MIC_POD_NAMESPACE'' else Exits 0)"
proof -
  have l: "log_Apply (sf_log sf) [] = (None, log_acts sf)" using assms(1) by (simp only: log_Apply_ok)
  show "fst (nmi_program senv bi env kstate readFile sf nfl) = Exits 0"
    by (simp add: nmi_program_def l assms(2) PrintVersionAndExit_def)
  show "fst (mic_program senv bi env nenv kubeconfig sf mfl st w) =
      (if ke_Getenv env ''MIC_POD_NAMESPACE'' = [] then Fails ''namespace not specified. Please add meta.namespace as env variable MIC_POD_NAMESPACE'' else Exits 0)"
    by (simp add: mic_program_def l assms(2) PrintVersionAndExit_def mic_main_config_def Let_def)
qed

text \<open>
  The REST client knows the kinds of the objects that the CRD client decodes, under the group and version that the conversions stamp on them.
\<close>

lemma rest_client_kinds:
  assumes "newRestClient metav1 core clientFor = Inr cfg" "\<And>sch gv. set sch \<subseteq> set (metav1 sch gv)" "\<And>sch. set sch \<subseteq> set (snd (core sch))"
  shows "rc_GroupVersion cfg = (CRDGroup, CRDVersion) \<and>
    (\<forall>kind \<in> {''AzureIdentity'', ''AzureIdentityBinding'', ''AzureAssignedIdentity'', ''AzurePodIdentityException''}.
       ((CRDGroup, CRDVersion), kind) \<in> set (rc_scheme cfg) \<and> ((CRDGroup, CRDVersion), kind @ ''List'') \<in> set (rc_scheme cfg))"
proof -
  obtain sch where s: "addKnownTypes metav1 [] = (None, sch)" by (simp add: addKnownTypes_def)
  let ?known = "map (\<lambda>kind. (SchemeGroupVersion, kind))
        [''AzureIdentity'', ''AzureIdentityList'', ''AzureIdentityBinding'', ''AzureIdentityBindingList'',
         ''AzureAssignedIdentity'', ''AzureAssignedIdentityList'', ''AzurePodIdentityException'', ''AzurePodIdentityExceptionList'']"
  have k: "set ?known \<subseteq> set sch"
    using s assms(2)[of ?known SchemeGroupVersion] by (simp only: addKnownTypes_def append_Nil prod.inject)
  have "cfg = \<lparr>rc_GroupVersion = SchemeGroupVersion, rc_APIPath = ''/apis'', rc_ContentType = ''application/json'', rc_scheme = snd (core sch)\<rparr>"
    using assms(1) by (auto simp: newRestClient_def s Let_def split: prod.splits option.splits)
  then have g: "rc_GroupVersion cfg = SchemeGroupVersion" "set sch \<subseteq> set (rc_scheme cfg)" using assms(3)[of sch] by simp_all
  have "SchemeGroupVersion = (CRDGroup, CRDVersion)" by (simp add: SchemeGroupVersion_def GroupName_def CRDGroup_def CRDVersion_def)
  then show ?thesis using subset_trans[OF k g(2)] g(1) by simp
qed

text \<open>What the sample program prints of a list.\<close>

lemma print_all_exact:
  "print_all (\<lambda>x. Inr (show x)) xs tr = (True, tr @ map (\<lambda>x. Printed (CHR 0x0A # show x)) xs)"
  by (induction xs arbitrary: tr) simp_all

definition start_env_sample :: StartEnv where
  "start_env_sample = \<lparr>se_ViewRegister = (\<lambda>_. None), se_NewExporter = (\<lambda>_. None)\<rparr>"

definition build_sample :: BuildInfo where
  "build_sample = \<lparr>bi_BuildDate = ''d'', bi_GitCommit = ''c'', bi_MICVersion = ''1'', bi_NMIVersion = ''1'', bi_customUserAgent = []\<rparr>"

theorem nmi_started_witness:
  "\<exists>s sel srv tr. nmi_program start_env_sample build_sample kube_env_sample kube_state_sample (\<lambda>_. Inr []) nmi_start_flags
       (nmi_default_flags\<lparr>nf_nodename := ''node''\<rparr>) = (Goes (s, sel, srv), tr) \<and>
     tr = [StartedClient, Handling ''/healthz'', Listening '':8080'' ''default'', RegisteredViews registerViews,
       Listening '':9090'' ''/metrics'', RegisteredExporter ''aadpodidentity'', Ran] \<and>
     sel = ''spec.nodeName=node'' \<and> returns (fst (ListPodIdentityExceptions mem_env ''ns'' (ks_crd s)))"
proof -
  let ?fl = "nmi_default_flags\<lparr>nf_nodename := ''node''\<rparr>"
  let ?p = "nmi_program start_env_sample build_sample kube_env_sample kube_state_sample (\<lambda>_. Inr []) nmi_start_flags ?fl"
  have "case fst ?p of Goes _ \<Rightarrow> True | _ \<Rightarrow> False" by code_simp
  then obtain s sel srv tr where p: "?p = (Goes (s, sel, srv), tr)" by (cases ?p) (auto split: program.splits)
  have k: "cs_client (ks_crd (kube_state_sample c)) = c" for c by (simp add: kube_state_sample_def)
  have "ke_crd kube_env_sample = mem_env" by (simp add: kube_env_sample_def)
  then show ?thesis using nmi_started[OF p k] p
    by (simp add: log_acts_def serving_acts_def profile_acts_def nmi_start_flags_def NewOptions_def textLogFormat_def componentNamespace_def)
qed

definition mic_kube_sample :: "mem_api KubeEnv" where
  "mic_kube_sample = kube_env_sample\<lparr>ke_Getenv := (\<lambda>k. if k = ''MIC_POD_NAMESPACE'' then ''kube-system'' else []), ke_InClusterConfig := None\<rparr>"

theorem mic_started_witness:
  "\<exists>m agent tr. mic_program start_env_sample build_sample mic_kube_sample new_env_sample [] mic_start_flags (mic_default_flags ''host'') stats_Init
       (cs_world crd_start) = (Goes (m, agent), tr) \<and> last tr = Elected \<and>
     returns (fst (ListAssignedIDsInMap mem_env (crd_start\<lparr>cs_client := mcl_crd m\<rparr>))) \<and>
     lc_RenewDeadline (mcl_leaderElector m) < lc_LeaseDuration (mcl_leaderElector m)"
proof -
  let ?p = "mic_program start_env_sample build_sample mic_kube_sample new_env_sample [] mic_start_flags (mic_default_flags ''host'') stats_Init
    (cs_world crd_start)"
  obtain cfg where c: "mic_main_config (ke_Getenv mic_kube_sample) (mic_default_flags ''host'') = Inr cfg" by (simp add: mic_main_config_def mic_kube_sample_def)
  have "mcf_CloudCfgPath cfg = []" using c by (auto simp: mic_main_config_def mic_default_flags_def Let_def split: if_splits)
  then obtain m' where "NewMICClient new_env_sample cfg stats_Init (cs_world crd_start) = Inr m'"
    by (simp add: NewMICClient_def new_env_sample_def NewCloudProvider_def cloud_Init_def sample_env_def load_config_def Let_def
        NewVMSSClient_def NewVirtualMachinesClient_def NewCRDClient_def mem_env_def NewFileWatcher_def NewLeaderElector_def)
  moreover have "mic_buildConfig mic_kube_sample [] = None" by (simp add: mic_buildConfig_def mic_kube_sample_def)
  ultimately obtain m agent tr where p: "?p = (Goes (m, agent), tr)"
    by (simp add: mic_program_def c mic_start_flags_def NewOptions_def log_Apply_def log_Validate_def
        RegisterAndExport_def newPrometheusExporter_def start_env_sample_def Let_def)
  have i: "informers (cs_client (crd_start\<lparr>cs_client := mcl_crd m\<rparr>)) = informers (mcl_crd m)" by simp
  have "4 \<le> le_Duration (mf_leaderElectionCfg (mic_default_flags ''host''))" by (simp add: mic_default_flags_def time_Second_def)
  moreover have "nw_crd new_env_sample = mem_env" by (simp add: new_env_sample_def)
  ultimately show ?thesis using mic_started[OF p i] p by auto
qed

end
