(* ===== verification/Spec2Isabelle.thy ===== *)
theory Spec2Isabelle
  imports DeepCopyV1 MicCrd MicReconcile ServerProps Startup
begin

text \<open>
  Verification of aad-pod-identity, which gives the pods of a Kubernetes cluster on Azure access tokens of Azure AD identities.

  \<^bold>\<open>The program.\<close>  Two processes share the cluster's custom resources.  An \<^verbatim>\<open>AzureIdentity\<close> describes an identity, an
  \<^verbatim>\<open>AzureIdentityBinding\<close> says which pods may use it (by a label), and an \<^verbatim>\<open>AzureAssignedIdentity\<close> records that a pod on a node has it.
  The controller MIC (\<^verbatim>\<open>src/pkg/mic\<close>, \<^verbatim>\<open>src/cmd/mic\<close>) runs a sync loop: from the listed pods, bindings and identities it computes the desired
  assigned identities, compares them with those of the cluster, creates, updates and deletes assigned identities through the CRD client
  (\<^verbatim>\<open>src/pkg/crd\<close>), and assigns identities to the virtual machines and scale sets through the cloud provider
  (\<^verbatim>\<open>src/pkg/cloudprovider\<close>).  The agent NMI (\<^verbatim>\<open>src/pkg/nmi\<close>, \<^verbatim>\<open>src/cmd/nmi\<close>) runs on every node: it redirects the requests of pods to the
  instance metadata service to itself with iptables rules, finds the pod by its address with the Kubernetes client (\<^verbatim>\<open>src/pkg/k8s\<close>), finds
  its identity in the informer caches, and obtains a token for it (\<^verbatim>\<open>src/pkg/auth\<close>).

  \<^bold>\<open>Conventions.\<close>  Structs are records, Go maps are association lists without duplicate keys whose order is the order of one iteration
  (type \<open>gomap\<close>), so a statement for all lists of this kind holds for every iteration order.  A call that may fail returns
  \<open>(err, value) result\<close> or an \<open>option\<close> of the error text; a call that may panic returns an \<open>outcome\<close>.  Effects are passed as an explicit state.
  Code that is not in the repository (ARM, the API server and its informers, adal, \<^verbatim>\<open>net/http\<close>, the router of \<^verbatim>\<open>gorilla/mux\<close>, the semaphore of
  \<^verbatim>\<open>golang.org/x/sync\<close>, iptables, conntrack, fsnotify, clocks, the scheduler of goroutines) is a parameter: a record of functions on a state of any type \<open>'w\<close>, such as \<open>mic_env\<close>, \<open>CrdEnv\<close>,
  \<open>KubeEnv\<close>, \<open>NmiEnv\<close>, \<open>ServerEnv\<close> and \<open>RunEnv\<close>.  Durations and the \<^verbatim>\<open>int\<close> arithmetic that can overflow wrap at 64 bits (\<open>wrap64\<close>).

  \<^bold>\<open>Go and its library.\<close>  \<^theory_text>\<open>Prelude\<close>: results, maps, strings and the shared lemmas.  \<^theory_text>\<open>GoRegexp\<close>: regular expressions, matched
  leftmost-first.  \<^theory_text>\<open>Semaphore\<close>: loops that start goroutines under a weighted semaphore; every goroutine runs once, no more than the batch at a
  time, and the wait at the end ends with all of them done, for every schedule.  \<^theory_text>\<open>GoPath\<close>, \<^theory_text>\<open>GoTime\<close>, \<^theory_text>\<open>GoRuntime\<close>: \<^verbatim>\<open>path\<close>, \<^verbatim>\<open>time\<close>, \<^verbatim>\<open>strconv\<close> and panics.

  \<^bold>\<open>Data and services.\<close>  \<^theory_text>\<open>AadTypes\<close>: \<^verbatim>\<open>pkg/apis/aadpodidentity\<close>, both groups of types and their conversion.
  \<^theory_text>\<open>DeepCopyMem\<close>, \<^theory_text>\<open>DeepCopy\<close>, \<^theory_text>\<open>DeepCopyV1\<close>: the generated deep copies of both packages, on a memory of cells so that aliasing shows; the locale
  \<open>deep_copier\<close> is the contract of a copy, and the copies are independent of their originals but for two fields.  \<^theory_text>\<open>GoUtils\<close>: \<^verbatim>\<open>pkg/utils\<close>.
  \<^theory_text>\<open>Retry\<close>: \<^verbatim>\<open>pkg/retry\<close>, with the interface \<open>retrier\<close> that its clients rely on.  \<^theory_text>\<open>Stats\<close>, \<^theory_text>\<open>Metrics\<close>: \<^verbatim>\<open>pkg/stats\<close>, \<^verbatim>\<open>pkg/metrics\<close>.

  \<^bold>\<open>Cloud provider.\<close>  \<^theory_text>\<open>ComputeIdentity\<close>: the identity blocks of \<^verbatim>\<open>vm.go\<close>, \<^verbatim>\<open>vmss.go\<close>, \<^verbatim>\<open>identity.go\<close> and \<^verbatim>\<open>truncate.go\<close>; the
  locale \<open>identity_info\<close> is the Go interface of that name, with the update of a set of identities as its specification, interpreted on
  both implementations.  \<^theory_text>\<open>ResourceId\<close>, \<^theory_text>\<open>ResourceIdParse\<close>: \<^verbatim>\<open>ParseResourceID\<close> and its round trip.  \<^theory_text>\<open>CloudInit\<close>, \<^theory_text>\<open>CloudProvider\<close>:
  \<^verbatim>\<open>Init\<close>, the clients, \<^verbatim>\<open>GetUserMSIs\<close> and \<^verbatim>\<open>UpdateUserMSI\<close>; the main result is that a successful \<^verbatim>\<open>UpdateUserMSI\<close> reaches the
  requested set of identities, for every order in which Go visits the request, in bodies of at most 150 entries.

  \<^bold>\<open>Controller.\<close>  \<^theory_text>\<open>Vmss\<close>, \<^theory_text>\<open>Mic\<close>: the pure decisions of a cycle (\<^verbatim>\<open>vmss.go\<close>, \<^verbatim>\<open>mic.go\<close>), one definition per function.
  \<^theory_text>\<open>MicDesired\<close>, \<^theory_text>\<open>MicDiff\<close>, \<^theory_text>\<open>MicRemove\<close>, \<^theory_text>\<open>MicConsolidate\<close>: what the desired state, the difference, the identities to remove and the
  work per scale set are, exactly.  \<^theory_text>\<open>MicApply\<close>: the effects on a node (\<^verbatim>\<open>updateUserMSI\<close> and its branches), and
  \<^theory_text>\<open>MicApplyCalls\<close>: which calls it makes and when, whatever the answers are.  \<^theory_text>\<open>MicSync\<close>: the cycle and the loop, \<^theory_text>\<open>MicReconcile\<close>: the
  periodic comparison with the cloud.  \<^theory_text>\<open>MicStore\<close>, \<^theory_text>\<open>MicConverge\<close>: whatever the answers are the
  cycle ends, and a cycle whose calls succeeded has made the cluster as desired and has put the identities on their nodes.
  \<^theory_text>\<open>MicStart\<close>, \<^theory_text>\<open>MicEvents\<close>: construction, leader election, type upgrade, configuration reload, \<^verbatim>\<open>cmd/mic\<close>, and the pod events that
  wake the loop.

  \<^bold>\<open>Custom resources and Kubernetes.\<close>  \<^theory_text>\<open>Crd\<close>, \<^theory_text>\<open>CrdList\<close>, \<^theory_text>\<open>CrdClient\<close>: \<^verbatim>\<open>crd.go\<close>.  \<^theory_text>\<open>CrdStore\<close>: the locale \<open>assigned_store\<close> is the
  abstract contract of the operations on assigned identities; \<open>honest_api\<close> states what an API server does with the requests, is a sublocale of
  the contract, and is interpreted on an API server in memory that keeps objects with finalizers.  \<^theory_text>\<open>MicCrd\<close> composes the controller with
  this client: a cycle is a sequence of steps, each step keeps the objects of the server in line with what the controller believes, and
  so convergence holds of the objects themselves.  \<^theory_text>\<open>Kube\<close>: \<^verbatim>\<open>client.go\<close> and \<^verbatim>\<open>pod.go\<close>.

  \<^bold>\<open>Agent.\<close>  \<^theory_text>\<open>Auth\<close>: \<^verbatim>\<open>pkg/auth\<close>.  \<^theory_text>\<open>Nmi\<close>: the token clients of standard and managed mode.  \<^theory_text>\<open>NmiIdentity\<close>: the locale
  \<open>identity_source\<close> is what they need of the Kubernetes client, interpreted on the model of \<^verbatim>\<open>client.go\<close>; an identity or token goes only to a pod
  that is entitled to it.  \<^theory_text>\<open>Server\<close>, \<^theory_text>\<open>ServerProps\<close>: routes and handlers, and what they answer to whom.  \<^theory_text>\<open>Iptables\<close>, \<^theory_text>\<open>ServerRun\<close>: the rules,
  the conntrack entries, the health probe, and the process step by step, with an invariant of its runs among other programs that change the table.  \<^theory_text>\<open>NmiMain\<close>: \<^verbatim>\<open>cmd/nmi\<close>.

  \<^bold>\<open>Programs.\<close>  \<^theory_text>\<open>Startup\<close>: all of \<^verbatim>\<open>main\<close> of both processes up to their loops, with \<^verbatim>\<open>pkg/log\<close>, \<^verbatim>\<open>version\<close>, the listeners of the health probe and
  the metrics exporter, the registration of the types (\<^verbatim>\<open>register.go\<close>), and the sample programs \<^verbatim>\<open>cmd/simple\<close> and \<^verbatim>\<open>cmd/demo\<close>; when a program
  gets as far as its loop, its parts fit together.

  \<^bold>\<open>This theory\<close> connects the two processes: after a cycle of the controller, a pod gets an identity from the agent of its node exactly when it
  is bound to it.

  \<^bold>\<open>Loops and bounds.\<close>  All definitions are total functions.  Loops over lists are folds or structural recursion; the retry loops of \<open>retry_Do\<close>,
  \<open>getPodListRetry\<close> and \<open>list_attempts\<close> recurse on the attempts that are left, with termination proofs and theorems on their
  number, and the loop of \<open>vm_update_loop\<close> ends because every round takes entries off the map.  The one bound is in \<open>GoRegexp\<close>: the iterations
  of a star are bounded by the length of the rest of the string, which is enough since each iteration has to consume a character.  The endless loops of the sync loop and of the agent are a fold over the ticks and events that arrive, and runs
  with a trace of what happened.  An \<^verbatim>\<open>Acquire\<close> that waits for ever (a semaphore of weight zero in \<^verbatim>\<open>updateUserMSI\<close>) is the value \<open>None\<close>, and
  the theorems say when the result is \<open>Some\<close>; \<open>wait_Acquire\<close> ends because every round takes a goroutine off the list of those that run.  The
  bodies of the goroutines of one node are atomic and finish in an order the environment chooses; the nodes, which
  share no state but the API server and the cloud, are worked on one after the other.

  \<^bold>\<open>Not modelled.\<close>  The fake client of \<^verbatim>\<open>pkg/k8s\<close>, a test double of constants, and files without code (\<^verbatim>\<open>doc.go\<close>, \<^verbatim>\<open>tools.go\<close>).  Of the rest: log
  messages, the serving of HTTP by \<^verbatim>\<open>net/http\<close>, the rate limits of the REST client, and the parsing of flags by \<^verbatim>\<open>flag\<close> and \<^verbatim>\<open>pflag\<close>; the defaults
  and the use of the values are modelled.
\<close>

section \<open>A cycle that went through\<close>

text \<open>
  The controller has gone through one cycle, on the client of the custom resources and an API server with the documented semantics, and
  the calls it made succeeded.  \<open>new\<close> is the desired state.  Before the cycle the server stored the assigned identities \<open>cur\<close> that the
  controller listed, with the finalizer of the client and in state Created or Assigned.  Desired assigned identities are on existing nodes, and scale
  sets have different names.  Resource versions do their job: a listed assigned identity that matches a desired one refers to the same version of the identity.
\<close>

definition cycle_done ::
  "'v CrdState mic_env \<Rightarrow> 'v CrdEnv \<Rightarrow> ('v \<Rightarrow> api_store) \<Rightarrow> mic_client \<Rightarrow> node_getter \<Rightarrow> Pod list \<Rightarrow> AzureIdentityBinding list \<Rightarrow> AzureIdentity list \<Rightarrow>
     assigned_map \<Rightarrow> assigned_map \<Rightarrow> 'v CrdState MicState \<Rightarrow> 'v CrdState MicState \<Rightarrow> bool" where
  "cycle_done env cenv st c nc pods bindings ids cur new s s' \<longleftrightarrow>
     mic_on_crd env cenv st \<and> api_honest cenv st \<and> own_finalizers st (ms_world s) \<and> stored_as st (ms_world s) cur \<and>
     weighted_semaphore (env_Grants env) \<and> 1 \<le> mic_createDeleteBatch c \<and> named cur \<and>
     (\<forall>n a. map_of cur n = Some a \<longrightarrow> held_assigned a \<and> a_StatusText a \<in> {AssignedIDCreated, AssignedIDAssigned}) \<and>
     (\<exists>refs. createDesiredAssignedIdentityList c pods bindings (convertIDListToMap ids) = (new, refs) \<and>
        vmss_names_ok nc (snd (plan_lists c nc cur new refs))) \<and>
     (\<forall>n a. map_of new n = Some a \<longrightarrow> \<not> node_gone nc (a_NodeName a)) \<and>
     (\<forall>n y x. map_of cur n = Some y \<longrightarrow> map_of new n = Some x \<longrightarrow> matchAssignedID y x \<longrightarrow>
        id_ObjectMeta (a_Identity y) = id_ObjectMeta (a_Identity x) \<and> id_Spec (a_Identity y) = id_Spec (a_Identity x)) \<and>
     apply_plan c env (plan_cycle c nc pods bindings ids cur) s = Some s' \<and>
     (\<exists>calls. ms_calls s' = ms_calls s @ calls \<and> list_all call_ok calls)"

text \<open>A stored object for a desired assigned identity: same pod, node and identity.\<close>

definition stored_for :: "AzureAssignedIdentity \<Rightarrow> AzureAssignedIdentity \<Rightarrow> bool" where
  "stored_for a x \<longleftrightarrow> a_StatusText a = AssignedIDAssigned \<and> a_Pod a = a_Pod x \<and> a_PodNamespace a = a_PodNamespace x \<and> a_NodeName a = a_NodeName x \<and>
     id_ObjectMeta (a_Identity a) = id_ObjectMeta (a_Identity x) \<and> id_Spec (a_Identity a) = id_Spec (a_Identity x)"

lemma plain_simps:
  "a_StatusText (plain a) = a_StatusText a" "a_Pod (plain a) = a_Pod a" "a_PodNamespace (plain a) = a_PodNamespace a" "a_NodeName (plain a) = a_NodeName a"
  "id_ObjectMeta (a_Identity (plain a)) = id_ObjectMeta (a_Identity a)" "id_Spec (a_Identity (plain a)) = id_Spec (a_Identity a)"
  by (simp_all add: plain_def)

lemma cycle_done_stored:
  assumes "cycle_done env cenv st c nc pods bindings ids cur new s s'"
  shows "crd_view st (ms_world s') k = Some b \<Longrightarrow> \<exists>n x. map_of new n = Some x \<and> stored_for b x"
    and "map_of new n = Some x \<Longrightarrow> \<exists>k b. crd_view st (ms_world s') k = Some b \<and> stored_for b x"
proof -
  note cd = assms[unfolded cycle_done_def]
  obtain refs calls where desired: "createDesiredAssignedIdentityList c pods bindings (convertIDListToMap ids) = (new, refs)"
    and names: "vmss_names_ok nc (snd (plan_lists c nc cur new refs))"
    and run: "apply_plan c env (plan_cycle c nc pods bindings ids cur) s = Some s'" "ms_calls s' = ms_calls s @ calls" "list_all call_ok calls"
    using cd by blast
  let ?m = "fold apply_call calls (map_of cur)" and ?ns = "namespace_of cur new"
  have "own_finalizers st (ms_world s') \<and> represents ?ns (crd_view st (ms_world s')) ?m"
    by (rule cycle_mirrored[OF _ _ _ _ _ _ _ desired names run(1,2)]) (use cd in blast)+
  then have rep: "crd_view st (ms_world s') (k, n) = (if k = ?ns n then map_option plain (?m n) else None)" for k n
    unfolding represents_def by blast
  have "\<exists>s' calls. apply_plan c env (plan_cycle c nc pods bindings ids cur) s = Some s' \<and> ms_calls s' = ms_calls s @ calls \<and>
    (list_all call_ok calls \<longrightarrow> (\<forall>n. converged (fold apply_call calls (map_of cur) n) (map_of new n) \<and>
      spec_from (map_of cur n) (fold apply_call calls (map_of cur) n) (map_of new n)))"
    by (rule cycle_outcome[OF _ _ _ _ desired names]) (use cd in blast)+
  then have st: "converged (?m n) (map_of new n)" "spec_from (map_of cur n) (?m n) (map_of new n)" for n using run by auto
  have for_x: "stored_for (plain a) x" if "?m n = Some a" "map_of new n = Some x" for n a x
  proof -
    have "a_StatusText a = AssignedIDAssigned" "matchAssignedID a x" using st(1)[of n] that by (auto simp: converged_def)
    moreover have "id_ObjectMeta (a_Identity a) = id_ObjectMeta (a_Identity x) \<and> id_Spec (a_Identity a) = id_Spec (a_Identity x)"
      using st(2)[of n] that cd unfolding spec_from_def by metis
    ultimately show ?thesis by (simp add: stored_for_def plain_simps matchAssignedID_def)
  qed
  show "\<exists>n x. map_of new n = Some x \<and> stored_for b x" if seen: "crd_view st (ms_world s') k = Some b"
  proof -
    obtain ns n where k: "k = (ns, n)" by fastforce
    then obtain a where a: "?m n = Some a" "b = plain a" using seen rep[of ns n] by (auto split: if_splits)
    obtain x where "map_of new n = Some x" using st(1)[of n] a(1) by (auto simp: converged_def split: option.splits)
    then show ?thesis using for_x[OF a(1)] a(2) by blast
  qed
  show "\<exists>k b. crd_view st (ms_world s') k = Some b \<and> stored_for b x" if want: "map_of new n = Some x"
  proof -
    obtain a where "?m n = Some a" using st(1)[of n] want by (auto simp: converged_def split: option.splits)
    then show ?thesis using for_x[OF _ want] rep[of "?ns n" n] by auto
  qed
qed

section \<open>From the controller to the pods\<close>

text \<open>
  The controller and the node agents meet in the assigned identities: the controller writes them to the API server, and the client of
  every node reads them from the cache of its informer.  A cached object shows an assigned identity when its pod, its state
  and its identity are the same (the type metas are stamped anew on every listing).
\<close>

definition shows_assigned :: "v1AzureAssignedIdentity \<Rightarrow> AzureAssignedIdentity \<Rightarrow> bool" where
  "shows_assigned obj a \<longleftrightarrow>
     (let v = ConvertV1AssignedIdentityToInternalAssignedIdentity obj in
      a_Pod v = a_Pod a \<and> a_PodNamespace v = a_PodNamespace a \<and> a_StatusText v = a_StatusText a \<and>
      id_ObjectMeta (a_Identity v) = id_ObjectMeta (a_Identity a) \<and> id_Spec (a_Identity v) = id_Spec (a_Identity a))"

text \<open>
  The cache of a node has caught up with the API server: it shows what is stored for the node (the informer may be restricted to it), and
  nothing that is not stored.
\<close>

definition caught_up :: "string \<Rightarrow> 'w KubeState \<Rightarrow> view \<Rightarrow> bool" where
  "caught_up node k v \<longleftrightarrow>
     (\<exists>informer objs. crd_AssignedIDInformer (cs_client (ks_crd k)) = Some informer \<and> inf_Store informer = map ObjAssigned objs \<and>
        (\<forall>obj \<in> set objs. \<exists>key a. v key = Some a \<and> shows_assigned obj a) \<and>
        (\<forall>key a. v key = Some a \<longrightarrow> a_NodeName a = node \<longrightarrow> (\<exists>obj \<in> set objs. shows_assigned obj a)))"

lemma shows_listed:
  assumes "shows_assigned obj a"
  shows "a_Pod (listed_assigned g obj) = a_Pod a" "a_PodNamespace (listed_assigned g obj) = a_PodNamespace a"
    "a_StatusText (listed_assigned g obj) = a_StatusText a"
    "id_ObjectMeta (a_Identity (listed_assigned g obj)) = id_ObjectMeta (a_Identity a)"
    "id_Spec (a_Identity (listed_assigned g obj)) = id_Spec (a_Identity a)"
  using assms by (simp_all add: shows_assigned_def listed_assigned_def ConvertV1AssignedIdentityToInternalAssignedIdentity_def Let_def)

text \<open>A listing keeps a cache caught up, although it stamps the cached objects.\<close>

lemma caught_up_stamped:
  assumes "caught_up node k v" "kc_ListPodIds (KubeClient env) podns podname k = (Returned (Inr m), k1)"
  shows "caught_up node k1 v"
proof -
  let ?g = "ce_SetGVK (ke_crd env)"
  obtain informer objs where inf: "crd_AssignedIDInformer (cs_client (ks_crd k)) = Some informer" "inf_Store informer = map ObjAssigned objs"
    and stored: "\<And>obj. obj \<in> set objs \<Longrightarrow> \<exists>key a. v key = Some a \<and> shows_assigned obj a"
    and shown: "\<And>key a. v key = Some a \<Longrightarrow> a_NodeName a = node \<Longrightarrow> \<exists>obj \<in> set objs. shows_assigned obj a"
    using assms(1) unfolding caught_up_def by blast
  have run: "ListPodIds (ke_crd env) podns podname (ks_crd k) = (Returned (Inr m), ks_crd k1)"
    using assms(2) by (auto simp: KubeClient_def kube_ListPodIds_def on_crd_def split: prod.splits)
  have "snd (list_store (assigned_item ?g) (map ObjAssigned objs)) = map (ObjAssigned \<circ> stamp_assigned ?g) objs"
    by (simp add: list_store_map[of "assigned_item ?g" ObjAssigned "\<lambda>a. ObjAssigned (stamp_assigned ?g a)" "\<lambda>a. [listed_assigned ?g a]"] stamp_assigned_def comp_def)
  then obtain informer' where inf': "crd_AssignedIDInformer (cs_client (ks_crd k1)) = Some informer'"
    "inf_Store informer' = map ObjAssigned (map (stamp_assigned ?g) objs)"
    using list_informer_Some[of crd_AssignedIDInformer "ks_crd k" informer "ke_crd env" crd_AssignedIDInformer_update "assigned_item ?g" AzureAssignedIdentityList]
      run inf by (auto simp: ListPodIds_def ListAssignedIDs_def comp_def split: prod.splits outcome.splits sum.splits)
  have "shows_assigned (stamp_assigned ?g obj) a = shows_assigned obj a" for obj a
    by (simp add: shows_assigned_def stamp_assigned_def ConvertV1AssignedIdentityToInternalAssignedIdentity_def Let_def)
  then have "\<forall>obj \<in> set (map (stamp_assigned ?g) objs). \<exists>key a. v key = Some a \<and> shows_assigned obj a"
    "\<forall>key a. v key = Some a \<longrightarrow> a_NodeName a = node \<longrightarrow> (\<exists>obj \<in> set (map (stamp_assigned ?g) objs). shows_assigned obj a)"
    using stored shown by auto
  then show ?thesis unfolding caught_up_def using inf' by blast
qed

text \<open>What the client of the node lists when every stored assigned identity is in state Assigned.\<close>

lemma caught_up_listing:
  assumes "caught_up node k v" "\<And>key a. v key = Some a \<Longrightarrow> a_StatusText a = AssignedIDAssigned"
    and "v key = Some a" "a_NodeName a = node"
  shows "\<exists>m k1 i. kc_ListPodIds (KubeClient env) (a_PodNamespace a) (a_Pod a) k = (Returned (Inr m), k1) \<and> mget0 [] m [] = [] \<and>
    i \<in> set (mget0 [] m AssignedIDAssigned) \<and> id_ObjectMeta i = id_ObjectMeta (a_Identity a) \<and> id_Spec i = id_Spec (a_Identity a)"
proof -
  let ?g = "ce_SetGVK (ke_crd env)"
  obtain informer objs where inf: "crd_AssignedIDInformer (cs_client (ks_crd k)) = Some informer" "inf_Store informer = map ObjAssigned objs"
    and stored: "\<And>obj. obj \<in> set objs \<Longrightarrow> \<exists>key a. v key = Some a \<and> shows_assigned obj a"
    and shown: "\<And>key a. v key = Some a \<Longrightarrow> a_NodeName a = node \<Longrightarrow> \<exists>obj \<in> set objs. shows_assigned obj a"
    using assms(1) unfolding caught_up_def by blast
  obtain m s' where l: "ListPodIds (ke_crd env) (a_PodNamespace a) (a_Pod a) (ks_crd k) = (Returned (Inr m), s')"
    and m: "\<And>t. mget0 [] m t = map a_Identity (filter (\<lambda>v. a_Pod v = a_Pod a \<and> a_PodNamespace v = a_PodNamespace a \<and> a_StatusText v = t)
       (map (listed_assigned ?g) objs))"
    using ListPodIds_exact[OF inf] by blast
  have run: "kc_ListPodIds (KubeClient env) (a_PodNamespace a) (a_Pod a) k = (Returned (Inr m), k\<lparr>ks_crd := s'\<rparr>)"
    using l by (simp add: KubeClient_def kube_ListPodIds_def on_crd_def)
  have "a_StatusText (listed_assigned ?g obj) \<noteq> []" if "obj \<in> set objs" for obj
    using stored[OF that] assms(2) shows_listed(3) by (fastforce simp: status_defs)
  then have none: "mget0 [] m [] = []" by (auto simp: m filter_empty_conv)
  obtain obj where obj: "obj \<in> set objs" "shows_assigned obj a" using shown[OF assms(3,4)] by blast
  then have "a_Identity (listed_assigned ?g obj) \<in> set (mget0 [] m AssignedIDAssigned)"
    using shows_listed[OF obj(2), of ?g] assms(2)[OF assms(3)] by (auto simp: m)
  then show ?thesis using run none shows_listed(4,5)[OF obj(2), of ?g] by blast
qed

lemma served_after_cycle:
  assumes cycle: "cycle_done env cenv st c nc pods bindings ids cur new s s'"
    and cache: "caught_up (a_NodeName x) k (crd_view st (ms_world s'))"
    and agent: "na_kube nenv = KubeClient kenv" "sc_IsNamespaced sc = mic_IsNamespaced c" "0 < attempt_limit sc"
    and entry: "map_of new n = Some x" "id_ClientID (a_Identity x) \<noteq> []"
  shows "\<exists>i k1. standard_GetIdentities nenv sc (a_PodNamespace x) (a_Pod x) (id_ClientID (a_Identity x)) [] k = (Returned (Some i, None), k1) \<and>
    id_ClientID i = id_ClientID (a_Identity x) \<and> caught_up (a_NodeName x) k1 (crd_view st (ms_world s'))"
proof -
  let ?cid = "id_ClientID (a_Identity x)"
  obtain refs where desired: "createDesiredAssignedIdentityList c pods bindings (convertIDListToMap ids) = (new, refs)"
    using cycle by (auto simp: cycle_done_def)
  obtain key a where a: "crd_view st (ms_world s') key = Some a" "stored_for a x" using cycle_done_stored(2)[OF cycle entry(1)] by blast
  have node: "a_NodeName a = a_NodeName x" using a(2) by (simp add: stored_for_def)
  have "\<exists>m k1 i. kc_ListPodIds (KubeClient kenv) (a_PodNamespace a) (a_Pod a) k = (Returned (Inr m), k1) \<and> mget0 [] m [] = [] \<and>
    i \<in> set (mget0 [] m AssignedIDAssigned) \<and> id_ObjectMeta i = id_ObjectMeta (a_Identity a) \<and> id_Spec i = id_Spec (a_Identity a)"
    by (rule caught_up_listing[OF cache _ a(1) node]) (use cycle_done_stored(1)[OF cycle] in \<open>auto simp: stored_for_def\<close>)
  then obtain m k1 i where i: "kc_ListPodIds (na_kube nenv) (a_PodNamespace x) (a_Pod x) k = (Returned (Inr m), k1)" "mget0 [] m [] = []"
    "i \<in> set (mget0 [] m AssignedIDAssigned)" "id_ObjectMeta i = id_ObjectMeta (a_Identity x)" "id_Spec i = id_Spec (a_Identity x)"
    using a(2) agent(1) by (auto simp: stored_for_def)
  have "IsNamespacedIdentity i = IsNamespacedIdentity (a_Identity x)" using i(4) by (simp add: IsNamespacedIdentity_def)
  then have "sc_IsNamespaced sc \<or> IsNamespacedIdentity i \<longrightarrow> id_Namespace i = a_PodNamespace x"
    using desired_entry[OF desired entry(1)] i(4) agent(2) by (metis gives_def makeAssignedIDs_simps(1,4))
  moreover have "requested ?cid [] i" using i(5) entry(2) by (simp add: requested_def)
  ultimately obtain i' where r: "standard_GetIdentities nenv sc (a_PodNamespace x) (a_Pod x) ?cid [] k = (Returned (Some i', None), k1)"
    using standard_serves[OF i(1) agent(3) i(2,3)] by blast
  moreover have "caught_up (a_NodeName x) k1 (crd_view st (ms_world s'))" using caught_up_stamped[OF cache] i(1) agent(1) by simp
  ultimately show ?thesis using kube.standard_sound[OF r agent(1)] entry(2) by (auto simp: requested_def)
qed


text \<open>
  (C6) A pod gets only identities that are bound to it.  After a cycle of the controller, any identity that the standard client of a node
  hands to a pod, with a cache that has caught up with the API server, is the identity of a binding that the label of a pod of this name and namespace
  selects, and the binding may give it to the pod: in namespaced mode, or for a namespaced identity, all of them are in one namespace.
\<close>

theorem only_bound_served:
  assumes cycle: "cycle_done env cenv st c nc pods bindings ids cur new s s'"
    and cache: "caught_up node k' (crd_view st (ms_world s'))"
    and answer: "standard_GetIdentities nenv sc podns podname clientID resourceID k = (Returned (Some i, None), k')" "na_kube nenv = KubeClient kenv"
  shows "\<exists>pod \<in> set pods. \<exists>b \<in> set bindings. \<exists>j. pod_Name pod = podname \<and> pod_Namespace pod = podns \<and> selects pod b \<and>
    gives c (convertIDListToMap ids) pod b j \<and> id_ObjectMeta i = id_ObjectMeta j \<and> id_Spec i = id_Spec j"
proof -
  obtain refs where desired: "createDesiredAssignedIdentityList c pods bindings (convertIDListToMap ids) = (new, refs)"
    using cycle by (auto simp: cycle_done_def)
  obtain t informer obj where obj: "crd_AssignedIDInformer (cs_client (ks_crd k')) = Some informer" "ObjAssigned obj \<in> set (inf_Store informer)"
    "v1as_Pod (v1a_Spec obj) = podname" "v1as_PodNamespace (v1a_Spec obj) = podns"
    "i = a_Identity (ConvertV1AssignedIdentityToInternalAssignedIdentity obj)"
    using kube.standard_sound[OF answer] unfolding assigned_ids_def by blast
  obtain key a where a: "crd_view st (ms_world s') key = Some a" "shows_assigned obj a"
    using cache obj(1,2) unfolding caught_up_def by (auto, blast)
  then obtain n x where x: "map_of new n = Some x" "stored_for a x" using cycle_done_stored(1)[OF cycle] by blast
  have "id_ObjectMeta i = id_ObjectMeta (a_Identity x)" "id_Spec i = id_Spec (a_Identity x)" "a_Pod x = podname" "a_PodNamespace x = podns"
    using a(2) x(2) obj(3,4,5)
    by (simp_all add: shows_assigned_def stored_for_def ConvertV1AssignedIdentityToInternalAssignedIdentity_def Let_def)
  then show ?thesis using desired_entry[OF desired x(1)] by (metis makeAssignedIDs_simps(1,3,4))
qed

section \<open>A small cluster and a node of it\<close>

text \<open>
  A cluster with one pod that is bound to an identity, and no assigned identities yet.  The cycle creates the assigned identity, puts the identity
  on the node and marks it Assigned; then the agent of the node serves the pod.
\<close>

definition plain_nodes :: node_getter where
  "plain_nodes n = Inr \<lparr>node_ProviderID = []\<rparr>"

definition wanted :: AzureAssignedIdentity where
  "wanted = makeAssignedIDs sample_client (sample_id ''ns'' ''id'') (sample_binding ''ns'' ''b1'') ''pod'' ''ns'' ''node''"

definition empty_cluster :: "mem_api CrdState MicState" where
  "empty_cluster = \<lparr>ms_world = crd_start, ms_stats = stats_Init, ms_calls = []\<rparr>"

definition small_plan :: cycle_plan where
  "small_plan = plan_cycle sample_client plain_nodes [sample_pod] [sample_binding ''other'' ''b2'', sample_binding ''ns'' ''b1'']
     [sample_id ''ns'' ''id'', sample_id ''other'' ''id''] []"

definition small_cluster :: "mem_api CrdState MicState" where
  "small_cluster = the (apply_plan sample_client mem_mic_env small_plan empty_cluster)"

text \<open>What the API server in memory stores after the cycle.\<close>

definition present_one :: AzureAssignedIdentity where
  "present_one = with_status AssignedIDAssigned (wanted\<lparr>a_ObjectMeta := (a_ObjectMeta wanted)\<lparr>om_Finalizers := [finalizerName]\<rparr>\<rparr>)"

definition stored_one :: v1AzureAssignedIdentity where
  "stored_one = set_version ''4'' (ConvertInternalAssignedIdentityToV1AssignedIdentity keep_GVK present_one)"

definition small_node :: "mem_api KubeState" where
  "small_node = kube_state_sample (cs_client (assigned_cache [stored_one]))"

lemma wanted_simps:
  "map_of (fst sample_desired) = [''pod-ns-id'' \<mapsto> wanted]" "a_Name wanted = ''pod-ns-id''" "a_Namespace wanted = ''ns''"
  "a_Pod wanted = ''pod''" "a_PodNamespace wanted = ''ns''" "a_NodeName wanted = ''node''" "id_ClientID (a_Identity wanted) = ''client''"
proof -
  have "fst sample_desired = [(''pod-ns-id'', wanted)]" unfolding wanted_def by (rule sample_desired_eq)
  then show "map_of (fst sample_desired) = [''pod-ns-id'' \<mapsto> wanted]" by simp
  show "a_Name wanted = ''pod-ns-id''" "a_Namespace wanted = ''ns''" by code_simp+
qed (simp_all add: wanted_def sample_id_def)

text \<open>The run of the cycle, body by body.\<close>

definition small_created :: "mem_api CrdState MicState" where
  "small_created = create_body mem_mic_env wanted empty_cluster"

lemma small_plan_work:
  obtains t where "pl_nodeMap small_plan = [(''node'', t)]" "assignedIDsToCreate t = [wanted]" "assignedIDsToUpdate t = []" "assignedIDsToDelete t = []"
    "pl_cleanups small_plan = []"
proof -
  have "map fst (pl_nodeMap small_plan) = [''node'']" "map (assignedIDsToCreate \<circ> snd) (pl_nodeMap small_plan) = [[wanted]]"
    "map (assignedIDsToUpdate \<circ> snd) (pl_nodeMap small_plan) = [[]]" "map (assignedIDsToDelete \<circ> snd) (pl_nodeMap small_plan) = [[]]"
    "pl_cleanups small_plan = []"
    by code_simp+
  then show ?thesis using that by (cases "pl_nodeMap small_plan") auto
qed

lemma assigned_body_run:
  assumes "env_UpdateStatus env a AssignedIDAssigned (ms_world s) = (None, w)"
  shows "ms_world (assigned_body env a s) = w" "list_all call_ok (ms_calls (assigned_body env a s)) = list_all call_ok (ms_calls s)"
  using assms by (simp_all add: assigned_body_def updateAssignedIdentityStatus_def say_def)

lemma small_run:
  "apply_plan sample_client mem_mic_env small_plan empty_cluster = Some small_cluster"
  "list_all call_ok (ms_calls small_cluster)" "cs_world (ms_world small_cluster) = [((''ns'', ''pod-ns-id''), (stored_one, False))]"
proof -
  note sem = mem_mic_env_on_crd(2)
  obtain t where t: "pl_nodeMap small_plan = [(''node'', t)]" "assignedIDsToCreate t = [wanted]" "assignedIDsToUpdate t = []"
    "assignedIDsToDelete t = []" "pl_cleanups small_plan = []" by (rule small_plan_work)
  obtain s' where u: "updateUserMSI sample_client mem_mic_env (pl_newAssignedIDs small_plan) ''node'' t (pl_nodeRefs small_plan) empty_cluster = Some s'"
    using updateUserMSI_total[OF sem sample_batch] by blast
  then have run: "apply_plan sample_client mem_mic_env small_plan empty_cluster = Some s'" by (simp add: apply_plan_def t)
  then have s': "small_cluster = s'" by (simp add: small_cluster_def)
  show "apply_plan sample_client mem_mic_env small_plan empty_cluster = Some small_cluster" using run s' by simp
  have "list_all call_ok (ms_calls s') \<and> cs_world (ms_world s') = [((''ns'', ''pod-ns-id''), (stored_one, False))]"
    using sem u
  proof (rule updateUserMSI_phases)
    fix b s0 order e s3
    assume b: "mic_Now mem_mic_env empty_cluster = (b, s0)"
      and order: "mset order = mset (map (create_body mem_mic_env) (assignedIDsToCreate t) @ map (update_body mem_mic_env) (assignedIDsToUpdate t))"
      and call: "cloud_UpdateUserMSI mem_mic_env (getUniqueIDs (addUserAssignedMSIIDs t)) (getUniqueIDs (removeUserAssignedMSIIDs t)) ''node'' (isvmss t)
        (run_all order s0) = (e, s3)"
      and rest: "case e of Some err \<Rightarrow> s' = after_failure mem_mic_env err (pl_newAssignedIDs small_plan) ''node'' t (pl_nodeRefs small_plan) b s3
        | None \<Rightarrow> after_success sample_client mem_mic_env t b s3 = Some s'"
    have "order = [create_body mem_mic_env wanted]" using order t(2,3) by simp
    moreover have "s0 = empty_cluster" using b by (simp add: mic_Now_def mem_mic_env_def)
    ultimately have created: "run_all order s0 = small_created" by (simp add: small_created_def)
    have e: "e = None" "ms_world s3 = ms_world small_created" using call created by (auto simp: cloud_UpdateUserMSI_def mem_mic_env_def say_def)
    have ok: "list_all call_ok (ms_calls s3)"
    proof -
      have "list_all call_ok (ms_calls small_created)" by code_simp
      then show ?thesis using call_eqs(5)[OF call] created e(1) by simp
    qed
    have success: "after_success sample_client mem_mic_env t b s3 = Some s'" using rest e(1) by simp
    show ?thesis
      using sem success
    proof (rule after_success_phases)
      fix o1 o2
      assume o: "mset o1 = mset (map (assigned_body mem_mic_env) (assignedIDsToCreate t @ assignedIDsToUpdate t))"
        "mset o2 = mset (map (unassign_body mem_mic_env) (assignedIDsToDelete t))" and s'': "s' = record_success mem_mic_env t b (run_all o2 (run_all o1 s3))"
      have "o1 = [assigned_body mem_mic_env wanted]" "o2 = []" using o t(2-4) by simp_all
      then have s': "s' = record_success mem_mic_env t b (assigned_body mem_mic_env wanted s3)" using s'' by simp
      have "fst (env_UpdateStatus mem_mic_env wanted AssignedIDAssigned (ms_world small_created)) = None"
        "cs_world (snd (env_UpdateStatus mem_mic_env wanted AssignedIDAssigned (ms_world small_created))) = [((''ns'', ''pod-ns-id''), (stored_one, False))]"
        by code_simp+
      then obtain w where w: "env_UpdateStatus mem_mic_env wanted AssignedIDAssigned (ms_world s3) = (None, w)" "cs_world w = [((''ns'', ''pod-ns-id''), (stored_one, False))]"
        unfolding e(2) by (metis prod.collapse)
      note body = assigned_body_run[OF w(1)]
      have "ms_world (record_success mem_mic_env t b s) = ms_world s" for s
        by (simp add: record_success_def mic_Now_def mem_mic_env_def mic_Increment_def mic_Put_def Let_def)
      then show ?thesis using s' body ok w(2) record_success_calls by metis
    qed
  qed
  then show "list_all call_ok (ms_calls small_cluster)" "cs_world (ms_world small_cluster) = [((''ns'', ''pod-ns-id''), (stored_one, False))]"
    using s' by simp_all
qed

lemma small_cluster_view: "crd_view map_of (ms_world small_cluster) = [(''ns'', ''pod-ns-id'') \<mapsto> plain present_one]"
  by (simp add: fun_eq_iff crd_view_def small_run(3) stored_one_def)

lemma small_cycle_done:
  "cycle_done mem_mic_env mem_env map_of sample_client plain_nodes [sample_pod] [sample_binding ''other'' ''b2'', sample_binding ''ns'' ''b1'']
     [sample_id ''ns'' ''id'', sample_id ''other'' ''id''] [] (fst sample_desired) empty_cluster small_cluster"
proof -
  have "map fst (snd (plan_lists sample_client plain_nodes [] (fst sample_desired) (snd sample_desired))) = [''node'']"
    unfolding sample_desired_eq by code_simp
  then have "fst ` set (snd (plan_lists sample_client plain_nodes [] (fst sample_desired) (snd sample_desired))) = {''node''}"
    by (metis list.set(1) list.set(2) list.set_map)
  moreover have "node_vmss plain_nodes ''node'' = None" by code_simp
  ultimately have names: "vmss_names_ok plain_nodes (snd (plan_lists sample_client plain_nodes [] (fst sample_desired) (snd sample_desired)))"
    by (simp add: vmss_names_ok_def)
  have own: "own_finalizers map_of (ms_world empty_cluster)" by (simp add: empty_cluster_def)
  have stored: "stored_as map_of (ms_world empty_cluster) []"
    by (simp add: stored_as_def empty_cluster_def crd_view_def crd_start_def)
  have nodes: "\<forall>n a. map_of (fst sample_desired) n = Some a \<longrightarrow> \<not> node_gone plain_nodes (a_NodeName a)" by (simp add: node_gone_def plain_nodes_def)
  have desired: "\<exists>refs. createDesiredAssignedIdentityList sample_client [sample_pod] [sample_binding ''other'' ''b2'', sample_binding ''ns'' ''b1'']
      (convertIDListToMap [sample_id ''ns'' ''id'', sample_id ''other'' ''id'']) = (fst sample_desired, refs) \<and>
    vmss_names_ok plain_nodes (snd (plan_lists sample_client plain_nodes [] (fst sample_desired) refs))"
    using sample_desired_run names by blast
  have calls: "\<exists>calls. ms_calls small_cluster = ms_calls empty_cluster @ calls \<and> list_all call_ok calls"
    using small_run(2) by (simp add: empty_cluster_def)
  have run: "apply_plan sample_client mem_mic_env (plan_cycle sample_client plain_nodes [sample_pod] [sample_binding ''other'' ''b2'', sample_binding ''ns'' ''b1'']
     [sample_id ''ns'' ''id'', sample_id ''other'' ''id''] []) empty_cluster = Some small_cluster"
    using small_run(1) by (simp add: small_plan_def)
  have none: "\<forall>n a. map_of ([] :: assigned_map) n = Some a \<longrightarrow> held_assigned a \<and> a_StatusText a \<in> {AssignedIDCreated, AssignedIDAssigned}"
    "\<forall>n y x. map_of ([] :: assigned_map) n = Some y \<longrightarrow> map_of (fst sample_desired) n = Some x \<longrightarrow> matchAssignedID y x \<longrightarrow>
      id_ObjectMeta (a_Identity y) = id_ObjectMeta (a_Identity x) \<and> id_Spec (a_Identity y) = id_Spec (a_Identity x)" by simp_all
  have nm: "named []" by (simp add: named_def)
  show ?thesis
    unfolding cycle_done_def
    by (intro conjI) (rule mem_mic_env_on_crd mem_env_honest own stored sample_batch nm none desired nodes run calls)+
qed

lemma small_node_caught_up: "caught_up ''node'' small_node (crd_view map_of (ms_world small_cluster))"
proof -
  have "shows_assigned stored_one (plain present_one)"
    by (simp add: shows_assigned_def stored_one_def plain_simps) (simp add: conversion_defs Let_def set_version_def)
  then show ?thesis
    by (auto simp: caught_up_def small_node_def kube_state_sample_def assigned_cache_def small_cluster_view
        intro!: exI[of _ "newAssignedIDInformer newAssignedIDListWatch\<lparr>inf_Store := [ObjAssigned stored_one]\<rparr>"] exI[of _ "[stored_one]"] split: if_splits)
qed

lemma small_agent:
  "na_kube nmi_env_sample = KubeClient kube_env_sample" "sc_IsNamespaced (standard_sample True) = mic_IsNamespaced sample_client"
  "0 < attempt_limit (standard_sample True)"
  subgoal by (simp add: nmi_env_sample_def)
  subgoal by (simp add: standard_sample_def sample_client_def)
  subgoal by code_simp
  done

lemma wanted_at_node:
  "caught_up (a_NodeName wanted) small_node (crd_view map_of (ms_world small_cluster))" "map_of (fst sample_desired) ''pod-ns-id'' = Some wanted"
  "id_ClientID (a_Identity wanted) \<noteq> []"
  using small_node_caught_up by (simp_all add: wanted_simps)


theorem only_bound_served_witness:
  "\<exists>pod \<in> set [sample_pod]. \<exists>b \<in> set [sample_binding ''other'' ''b2'', sample_binding ''ns'' ''b1'']. \<exists>j.
     pod_Name pod = ''pod'' \<and> pod_Namespace pod = ''ns'' \<and> selects pod b \<and>
     gives sample_client (convertIDListToMap [sample_id ''ns'' ''id'', sample_id ''other'' ''id'']) pod b j \<and> id_ClientID j = ''client''"
proof -
  obtain i k1 where i: "standard_GetIdentities nmi_env_sample (standard_sample True) ''ns'' ''pod'' ''client'' [] small_node = (Returned (Some i, None), k1)"
    "id_ClientID i = ''client''" "caught_up ''node'' k1 (crd_view map_of (ms_world small_cluster))"
    using served_after_cycle[OF small_cycle_done wanted_at_node(1) small_agent wanted_at_node(2,3)] by (auto simp: wanted_simps)
  from only_bound_served[OF small_cycle_done i(3,1) small_agent(1)] show ?thesis using i(2) by metis
qed

end
